(* ===== verification/Prelude.thy ===== *)
theory Prelude
  imports Complex_Main "HOL-Library.Multiset"
begin

text \<open>
  What every component of the model shares: the exceptions the source raises, the result
  type of a fallible call, numbers and clocks, the clamp of \<^verbatim>\<open>brain/memory/base.py\<close>, Python's
  stable sort and first-maximum, and JSON-like values.

  Numbers.  A Python \<^verbatim>\<open>float\<close> is a \<^typ>\<open>real\<close>: the model has the arithmetic the formulas
  mean, not IEEE rounding, NaN or infinities.  A Python \<^verbatim>\<open>int\<close> is an \<^typ>\<open>int\<close> (or a
  \<^typ>\<open>nat\<close> for a counter).  A timezone-aware \<^verbatim>\<open>datetime\<close> is the \<^typ>\<open>real\<close> number of
  seconds since a fixed origin, so that \<^verbatim>\<open>(a - b).total_seconds()\<close> is \<open>a - b\<close>.
  A Python \<^verbatim>\<open>str\<close> is a \<^typ>\<open>string\<close>, one \<^typ>\<open>char\<close> for each code point
  (so code points below 256).
\<close>

named_theorems py_simps "unfolding rules of the Python helpers"
named_theorems range_intros "introduction rules for values staying in their range"

section \<open>Exceptions and results\<close>

text \<open>The exceptions the modelled code raises or lets through, and one for any other.\<close>

datatype exn =
    ValueError
  | KeyError
  | TypeError
  | AssertionError
  | ValidationError
  | DispatchError
  | SsrfError
  | HttpTimeout
  | HttpError
  | ProviderTimeoutError
  | ProviderError
  | SchemaValidationError string string
  | LLMUnavailableError
  | PromptNotFoundError
  | OtherError string

type_synonym 'a res = "exn + 'a"

definition ok_bind :: "'a res \<Rightarrow> ('a \<Rightarrow> 'b res) \<Rightarrow> 'b res" where
  "ok_bind r f = (case r of Inl e \<Rightarrow> Inl e | Inr x \<Rightarrow> f x)"

lemma ok_bind_simps [simp]:
  "ok_bind (Inl e) f = Inl e" "ok_bind (Inr x) f = f x"
  by (simp_all add: ok_bind_def)

lemma ok_bind_Inr_iff: "ok_bind r f = Inr y \<longleftrightarrow> (\<exists>x. r = Inr x \<and> f x = Inr y)"
  by (cases r) simp_all

section \<open>Clamping\<close>

text \<open>\<^verbatim>\<open>clamp01\<close> of \<^verbatim>\<open>brain/memory/base.py\<close>.\<close>

definition clamp01 :: "real \<Rightarrow> real" where
  "clamp01 value = min 1 (max 0 value)"

definition in01 :: "real \<Rightarrow> bool" where
  "in01 x \<longleftrightarrow> 0 \<le> x \<and> x \<le> 1"

lemma in01I [intro, range_intros]: "0 \<le> x \<Longrightarrow> x \<le> 1 \<Longrightarrow> in01 x"
  by (simp add: in01_def)

lemma in01_clamp01 [simp, range_intros]: "in01 (clamp01 x)"
  by (simp add: in01_def clamp01_def)

lemma clamp01_bounds [simp]: "0 \<le> clamp01 x" "clamp01 x \<le> 1"
  by (simp_all add: clamp01_def)

lemma clamp01_id: "in01 x \<Longrightarrow> clamp01 x = x"
  by (simp add: in01_def clamp01_def)

lemma clamp01_clamp01 [simp]: "clamp01 (clamp01 x) = clamp01 x"
  by (simp add: clamp01_id)

lemma clamp01_mono: "x \<le> y \<Longrightarrow> clamp01 x \<le> clamp01 y"
  by (simp add: clamp01_def)

lemma clamp01_le: "0 \<le> b \<Longrightarrow> x \<le> b \<Longrightarrow> clamp01 x \<le> b"
  by (simp add: clamp01_def)

lemma clamp01_ge: "b \<le> 1 \<Longrightarrow> b \<le> x \<Longrightarrow> b \<le> clamp01 x"
  by (simp add: clamp01_def)

text \<open>A point between two points of the unit interval is in it.\<close>

lemma in01_between: "in01 a \<Longrightarrow> in01 b \<Longrightarrow> min a b \<le> x \<Longrightarrow> x \<le> max a b \<Longrightarrow> in01 x"
  by (auto simp: in01_def min_def max_def split: if_splits)

text \<open>\<open>e + (v - e) * r\<close> with \<open>0 \<le> r \<le> 1\<close> lies between \<open>v\<close> and \<open>e\<close>: every relaxation
  step of the model has this form.\<close>

lemma relax_above: "0 \<le> r \<Longrightarrow> r \<le> 1 \<Longrightarrow> e \<le> v \<Longrightarrow> e \<le> e + (v - e) * r \<and> e + (v - e) * r \<le> (v::real)"
proof -
  assume r: "0 \<le> r" "r \<le> 1" "e \<le> v"
  then have "0 \<le> (v - e) * r" "(v - e) * r \<le> v - e"
    by (simp_all add: mult_left_le)
  then show ?thesis by linarith
qed

lemma relax_below: "0 \<le> r \<Longrightarrow> r \<le> 1 \<Longrightarrow> v \<le> e \<Longrightarrow> v \<le> e + (v - e) * r \<and> e + (v - e) * r \<le> (e::real)"
proof -
  assume r: "0 \<le> r" "r \<le> 1" "v \<le> e"
  then have "0 \<le> (e - v) * r" "(e - v) * r \<le> e - v"
    by (simp_all add: mult_left_le)
  moreover have "(v - e) * r = - ((e - v) * r)" by (simp add: algebra_simps)
  ultimately show ?thesis by linarith
qed

lemma relax_between:
  assumes "0 \<le> r" "r \<le> (1::real)"
  shows "min v e \<le> e + (v - e) * r" "e + (v - e) * r \<le> max v e"
  using relax_above [OF assms, of e v] relax_below [OF assms, of v e]
  by (cases "e \<le> v"; simp add: min_def max_def; linarith)+

lemma in01_relax: "in01 v \<Longrightarrow> in01 e \<Longrightarrow> 0 \<le> r \<Longrightarrow> r \<le> 1 \<Longrightarrow> in01 (e + (v - e) * r)"
  by (rule in01_between [of v e]) (simp_all add: relax_between [where v = v and e = e])

section \<open>Python's stable sort and first maximum\<close>

text \<open>\<^verbatim>\<open>sorted(xs, key=f, reverse=True)\<close> is stable: elements of equal key keep their order.
  \<^const>\<open>sort_key\<close> is the stable insertion sort, so sorting by the negated key is it.\<close>

definition sort_desc :: "('a \<Rightarrow> real) \<Rightarrow> 'a list \<Rightarrow> 'a list" where
  "sort_desc f xs = sort_key (\<lambda>x. - f x) xs"

lemma set_sort_desc [simp]: "set (sort_desc f xs) = set xs"
  by (simp add: sort_desc_def)

lemma mset_sort_desc [simp]: "mset (sort_desc f xs) = mset xs"
  by (simp add: sort_desc_def)

lemma length_sort_desc [simp]: "length (sort_desc f xs) = length xs"
  by (simp add: sort_desc_def)

lemma sort_desc_Nil [simp]: "sort_desc f [] = []"
  by (simp add: sort_desc_def)

lemma sort_desc_sorted: "sorted_wrt (\<lambda>x y. f y \<le> f x) (sort_desc f xs)"
proof -
  have "sorted (map (\<lambda>x. - f x) (sort_desc f xs))"
    by (simp add: sort_desc_def)
  then show ?thesis by (simp add: sorted_map)
qed

lemma sort_desc_stable: "filter (\<lambda>y. f y = k) (sort_desc f xs) = filter (\<lambda>y. f y = k) xs"
proof -
  have "filter (\<lambda>y. - f y = - k) (sort_key (\<lambda>x. - f x) xs) = filter (\<lambda>y. - f y = - k) xs"
    by (rule sort_key_stable)
  then show ?thesis by (simp add: sort_desc_def)
qed

lemma distinct_sort_desc [simp]: "distinct (sort_desc f xs) = distinct xs"
  by (simp add: sort_desc_def)

text \<open>The elements a capped descending sort keeps are at least as high as the ones it drops.\<close>

lemma take_sort_desc_ge:
  assumes "x \<in> set (take k (sort_desc f xs))" "y \<in> set (drop k (sort_desc f xs))"
  shows "f y \<le> f x"
proof -
  have "sorted_wrt (\<lambda>x y. f y \<le> f x) (take k (sort_desc f xs) @ drop k (sort_desc f xs))"
    by (simp add: sort_desc_sorted)
  with assms show ?thesis by (simp add: sorted_wrt_append del: append_take_drop_id)
qed

text \<open>\<^verbatim>\<open>max(xs, key=f)\<close> returns the first element of greatest key; on an empty sequence it
  raises, so it is only called where the source has ruled that out.\<close>

fun first_max :: "('a \<Rightarrow> real) \<Rightarrow> 'a list \<Rightarrow> 'a option" where
  "first_max f [] = None"
| "first_max f (x # xs) =
     (case first_max f xs of None \<Rightarrow> Some x | Some y \<Rightarrow> Some (if f x < f y then y else x))"

lemma first_max_None [simp]: "first_max f xs = None \<longleftrightarrow> xs = []"
  by (cases xs) (simp_all split: option.splits)

lemma first_max_in: "first_max f xs = Some y \<Longrightarrow> y \<in> set xs"
  by (induction xs arbitrary: y) (auto split: option.splits if_splits)

lemma first_max_ge: "first_max f xs = Some y \<Longrightarrow> x \<in> set xs \<Longrightarrow> f x \<le> f y"
proof (induction xs arbitrary: y)
  case (Cons a xs)
  show ?case
  proof (cases "first_max f xs")
    case None
    with Cons.prems show ?thesis by auto
  next
    case (Some z)
    with Cons.prems Cons.IH [OF Some] show ?thesis
      by (auto split: if_splits)
  qed
qed simp

section \<open>Lists and association lists\<close>

text \<open>A Python \<^verbatim>\<open>dict\<close> as an association list in insertion order, one entry for a key:
  storing to a present key keeps its place.\<close>

fun dict_put :: "'k \<Rightarrow> 'v \<Rightarrow> ('k \<times> 'v) list \<Rightarrow> ('k \<times> 'v) list" where
  "dict_put k v [] = [(k, v)]"
| "dict_put k v ((k', v') # d) = (if k' = k then (k, v) # d else (k', v') # dict_put k v d)"

lemma map_of_dict_put [simp]: "map_of (dict_put k v d) = (map_of d)(k \<mapsto> v)"
  by (induction k v d rule: dict_put.induct) (auto simp: fun_upd_twist)

lemma keys_dict_put [simp]: "fst ` set (dict_put k v d) = insert k (fst ` set d)"
  by (induction k v d rule: dict_put.induct) auto

lemma distinct_dict_put: "distinct (map fst d) \<Longrightarrow> distinct (map fst (dict_put k v d))"
proof (induction k v d rule: dict_put.induct)
  case (2 k v k' v' d)
  have "set (map fst (dict_put k v d)) = insert k (set (map fst d))"
    using keys_dict_put [of k v d] by (simp add: image_image)
  with 2 show ?case by auto
qed simp

definition dict_get :: "('k \<times> 'v) list \<Rightarrow> 'k \<Rightarrow> 'v \<Rightarrow> 'v" where
  "dict_get d k def = (case map_of d k of None \<Rightarrow> def | Some v \<Rightarrow> v)"

definition dict_del :: "'k \<Rightarrow> ('k \<times> 'v) list \<Rightarrow> ('k \<times> 'v) list" where
  "dict_del k d = filter (\<lambda>e. fst e \<noteq> k) d"

lemma map_of_dict_del [simp]: "map_of (dict_del k d) = (map_of d)(k := None)"
  by (induction d) (auto simp: dict_del_def)

section \<open>JSON-like values\<close>

datatype json =
    JNull
  | JBool bool
  | JInt int
  | JFloat real
  | JStr string
  | JList "json list"
  | JDict "(string \<times> json) list"

section \<open>Characters\<close>

text \<open>The ASCII whitespace of \<^verbatim>\<open>str.strip\<close>, \<^verbatim>\<open>str.split\<close> and \<^verbatim>\<open>\s\<close> (the Unicode
  spaces beyond ASCII are outside the model's strings, U+0085 and U+00A0 excepted).\<close>

definition is_space :: "char \<Rightarrow> bool" where
  "is_space c \<longleftrightarrow>
     (let n = of_char c :: nat in (9 \<le> n \<and> n \<le> 13) \<or> (28 \<le> n \<and> n \<le> 32) \<or> n = 133 \<or> n = 160)"

definition strip :: "string \<Rightarrow> string" where
  "strip s = rev (dropWhile is_space (rev (dropWhile is_space s)))"

lemma strip_Nil [simp]: "strip [] = []"
  by (simp add: strip_def)

lemma length_strip: "length (strip s) \<le> length s"
  by (metis length_dropWhile_le length_rev order_trans strip_def)

section \<open>Text\<close>

fun join :: "string \<Rightarrow> string list \<Rightarrow> string" where
  "join sep [] = []"
| "join sep [s] = s"
| "join sep (s # ss) = s @ sep @ join sep ss"

definition NEWLINE :: string where "NEWLINE = [CHR 0x0A]"

text \<open>\<^verbatim>\<open>str.split()\<close> and \<^verbatim>\<open>str.splitlines()\<close>.\<close>

fun words_from :: "string \<Rightarrow> string \<Rightarrow> string list" where
  "words_from w [] = (if w = [] then [] else [w])"
| "words_from w (c # cs) =
     (if is_space c then (if w = [] then words_from [] cs else w # words_from [] cs) else words_from (w @ [c]) cs)"

definition str_split :: "string \<Rightarrow> string list" where
  "str_split s = words_from [] s"

definition is_line_end :: "char \<Rightarrow> bool" where
  "is_line_end c \<longleftrightarrow> (let n = of_char c :: nat in (10 \<le> n \<and> n \<le> 13) \<or> (28 \<le> n \<and> n \<le> 30) \<or> n = 133)"

text \<open>Carriage return and line feed together are one line end.\<close>

fun crlf :: "string \<Rightarrow> string" where
  "crlf [] = []"
| "crlf [c] = [c]"
| "crlf (c # d # cs) = (if c = CHR 0x0D \<and> d = CHR 0x0A then crlf (d # cs) else c # crlf (d # cs))"

fun lines_from :: "string \<Rightarrow> string \<Rightarrow> string list" where
  "lines_from l [] = (if l = [] then [] else [l])"
| "lines_from l (c # cs) = (if is_line_end c then l # lines_from [] cs else lines_from (l @ [c]) cs)"

definition splitlines :: "string \<Rightarrow> string list" where
  "splitlines s = lines_from [] (crlf s)"

text \<open>Python's \<^verbatim>\<open>repr\<close> of a string of the model's characters.\<close>

definition hex_digit :: "nat \<Rightarrow> char" where
  "hex_digit n = (if n < 10 then char_of (48 + n) else char_of (87 + n))"

definition repr_char :: "char \<Rightarrow> char \<Rightarrow> string" where
  "repr_char q c =
     (let n = of_char c :: nat
      in if c = q \<or> n = 92 then [CHR 0x5C, c]
         else if n = 9 then [CHR 0x5C, CHR ''t'']
         else if n = 10 then [CHR 0x5C, CHR ''n'']
         else if n = 13 then [CHR 0x5C, CHR ''r'']
         else if n < 32 \<or> (127 \<le> n \<and> n \<le> 160) \<or> n = 173
           then [CHR 0x5C, CHR ''x'', hex_digit (n div 16), hex_digit (n mod 16)]
         else [c])"

definition py_repr :: "string \<Rightarrow> string" where
  "py_repr s = (let q = (if CHR 0x27 \<in> set s \<and> CHR 0x22 \<notin> set s then CHR 0x22 else CHR 0x27)
                in q # concat (map (repr_char q) s) @ [q])"

text \<open>Python's truth value of a JSON value.\<close>

fun truthy :: "json \<Rightarrow> bool" where
  "truthy JNull = False"
| "truthy (JBool b) = b"
| "truthy (JInt i) = (i \<noteq> 0)"
| "truthy (JFloat x) = (x \<noteq> 0)"
| "truthy (JStr s) = (s \<noteq> [])"
| "truthy (JList xs) = (xs \<noteq> [])"
| "truthy (JDict d) = (d \<noteq> [])"

section \<open>Numbers as text, rounding\<close>

definition dig :: "nat \<Rightarrow> char" where "dig k = char_of (48 + k)"

function show_nat :: "nat \<Rightarrow> string" where
  "show_nat n = (if n < 10 then [dig n] else show_nat (n div 10) @ [dig (n mod 10)])"
  by auto
termination by (relation "measure id") auto

declare show_nat.simps [simp del]

definition show_int :: "int \<Rightarrow> string" where
  "show_int i = (if i < 0 then CHR 0x2D # show_nat (nat (- i)) else show_nat (nat i))"

text \<open>Python rounds halves to even: \<^verbatim>\<open>round(x, k)\<close> and the formats \<^verbatim>\<open>:.2f\<close> and \<^verbatim>\<open>:+.2f\<close>.\<close>

definition round_even :: "real \<Rightarrow> int" where
  "round_even x =
     (let f = floor x; d = x - of_int f
      in if d < 1/2 then f else if 1/2 < d then f + 1 else if even f then f else f + 1)"

definition py_round :: "nat \<Rightarrow> real \<Rightarrow> real" where
  "py_round k x = of_int (round_even (x * 10 ^ k)) / 10 ^ k"

definition fixed2 :: "real \<Rightarrow> string" where
  "fixed2 x =
     (let n = nat (round_even (\<bar>x\<bar> * 100)); cents = n mod 100
      in (if x < 0 then [CHR 0x2D] else []) @ show_nat (n div 100) @ ''.'' @ [dig (cents div 10), dig (cents mod 10)])"

definition signed2 :: "real \<Rightarrow> string" where
  "signed2 x = (if x < 0 then fixed2 x else CHR 0x2B # fixed2 x)"

lemma round_even_near: "\<bar>x - of_int (round_even x)\<bar> \<le> 1/2"
proof -
  have "0 \<le> x - of_int (floor x)" "x - of_int (floor x) < 1" by linarith+
  then show ?thesis by (simp add: round_even_def Let_def abs_le_iff)
qed

lemma py_round_near: "\<bar>x - py_round k x\<bar> \<le> 1 / (2 * 10 ^ k)"
proof -
  have "x - py_round k x = (x * 10 ^ k - of_int (round_even (x * 10 ^ k))) / 10 ^ k"
    by (simp add: py_round_def diff_divide_distrib)
  then have "\<bar>x - py_round k x\<bar> = \<bar>x * 10 ^ k - of_int (round_even (x * 10 ^ k))\<bar> / 10 ^ k"
    by (simp add: abs_divide)
  also have "\<dots> \<le> (1/2) / 10 ^ k"
    using round_even_near by (rule divide_right_mono) simp
  finally show ?thesis by simp
qed

text \<open>\<^verbatim>\<open>repr\<close> of a list of strings, as f-strings print it.\<close>

definition repr_list :: "string list \<Rightarrow> string" where
  "repr_list xs = ''['' @ join '', '' (map py_repr xs) @ '']''"

definition repr_str_dict :: "(string \<times> string) list \<Rightarrow> string" where
  "repr_str_dict d = [CHR 0x7B] @ join '', '' (map (\<lambda>(k, v). py_repr k @ '': '' @ py_repr v) d) @ [CHR 0x7D]"

end
