(* ===== verification/Drives.thy ===== *)
theory Drives
  imports Prelude
begin

text \<open>
  The homeostatic drives: \<^verbatim>\<open>brain/drives/parameters.py\<close> (parameters, the relaxation
  curve, the configuration loader), \<^verbatim>\<open>brain/drives/engine.py\<close> (the engine over the
  \<^verbatim>\<open>drive_state\<close> table) and the committed \<^verbatim>\<open>config/drives.toml\<close>.

  The table is a map from the drive name (its primary key) to the row.  A call inside
  \<^verbatim>\<open>session_scope\<close> returns the new table with its result, or the exception, in which case
  the transaction is rolled back and the table stays as it was.
\<close>

section \<open>Parameters and the relaxation curve\<close>

definition CURIOSITY :: string where "CURIOSITY = ''curiosity''"
definition BOREDOM :: string where "BOREDOM = ''boredom''"
definition CONNECTION :: string where "CONNECTION = ''connection''"
definition MASTERY :: string where "MASTERY = ''mastery''"
definition COHERENCE :: string where "COHERENCE = ''coherence''"
definition ENERGY :: string where "ENERGY = ''energy''"
definition CONTINUITY :: string where "CONTINUITY = ''continuity''"

lemmas drive_name_defs =
  CURIOSITY_def BOREDOM_def CONNECTION_def MASTERY_def COHERENCE_def ENERGY_def CONTINUITY_def

definition DRIVE_NAMES :: "string list" where
  "DRIVE_NAMES = [CURIOSITY, BOREDOM, CONNECTION, MASTERY, COHERENCE, ENERGY, CONTINUITY]"

record drive_params =
  dp_setpoint :: real
  dp_accrual_rate :: real
  dp_decay_rate :: real
  dp_threshold :: real

definition kappa :: "drive_params \<Rightarrow> real" where
  "kappa p = dp_accrual_rate p + dp_decay_rate p"

definition equilibrium :: "drive_params \<Rightarrow> real" where
  "equilibrium p =
     (if kappa p \<le> 0 then clamp01 (dp_setpoint p)
      else clamp01 ((dp_accrual_rate p + dp_decay_rate p * dp_setpoint p) / kappa p))"

definition advance :: "drive_params \<Rightarrow> real \<Rightarrow> real \<Rightarrow> real" where
  "advance p v dt =
     (if dt \<le> 0 \<or> kappa p \<le> 0 then clamp01 v
      else let eq = equilibrium p in clamp01 (eq + (v - eq) * exp (- kappa p * dt)))"

lemma in01_equilibrium [simp, range_intros]: "in01 (equilibrium p)"
  by (simp add: equilibrium_def)

lemma in01_advance [simp, range_intros]: "in01 (advance p v dt)"
  by (simp add: advance_def Let_def)

text \<open>Inside the unit interval the clamps of the curve do nothing.\<close>

lemma advance_in01:
  assumes "in01 v"
  shows "advance p v dt =
    (if dt \<le> 0 \<or> kappa p \<le> 0 then v else equilibrium p + (v - equilibrium p) * exp (- kappa p * dt))"
proof -
  have "in01 (equilibrium p + (v - equilibrium p) * exp (- kappa p * dt))"
    if "0 < dt" "0 < kappa p"
    by (rule in01_relax [OF assms in01_equilibrium]) (use that in auto)
  then show ?thesis using assms by (auto simp: advance_def Let_def clamp01_id)
qed

lemma advance_0 [simp]: "in01 v \<Longrightarrow> advance p v 0 = v"
  by (simp add: advance_def clamp01_id)

lemma advance_split:
  assumes "in01 v" "0 \<le> s" "0 \<le> t"
  shows "advance p (advance p v s) t = advance p v (s + t)"
proof (cases "kappa p \<le> 0 \<or> s = 0 \<or> t = 0")
  case True
  then consider "kappa p \<le> 0" | "s = 0" | "t = 0" by blast
  then show ?thesis using assms by cases (auto simp: advance_def clamp01_id Let_def)
next
  case False
  then have "0 < s" "0 < t" "0 < kappa p" using assms by auto
  moreover have "exp (- kappa p * (s + t)) = exp (- kappa p * s) * exp (- kappa p * t)"
    by (simp add: algebra_simps flip: exp_add)
  moreover have "advance p (advance p v s) t =
      equilibrium p + (advance p v s - equilibrium p) * exp (- kappa p * t)"
    using calculation by (simp add: advance_in01 [of "advance p v s"])
  moreover have "advance p v s = equilibrium p + (v - equilibrium p) * exp (- kappa p * s)"
    using calculation assms by (simp add: advance_in01)
  ultimately show ?thesis
    using assms by (simp add: advance_in01 [of v])
qed

lemma advance_between:
  assumes "in01 v"
  shows "min v (equilibrium p) \<le> advance p v dt" "advance p v dt \<le> max v (equilibrium p)"
proof -
  have "min v (equilibrium p) \<le> advance p v dt \<and> advance p v dt \<le> max v (equilibrium p)"
  proof (cases "dt \<le> 0 \<or> kappa p \<le> 0")
    case True
    then show ?thesis using assms by (auto simp: advance_in01)
  next
    case False
    then have "0 \<le> exp (- kappa p * dt)" "exp (- kappa p * dt) \<le> 1" by auto
    note b = relax_between [OF this, where v = v and e = "equilibrium p"]
    from False have "advance p v dt = equilibrium p + (v - equilibrium p) * exp (- kappa p * dt)"
      using assms by (simp add: advance_in01)
    with b show ?thesis by simp
  qed
  then show "min v (equilibrium p) \<le> advance p v dt" "advance p v dt \<le> max v (equilibrium p)"
    by auto
qed

text \<open>Left alone, the pressure passes any level below the equilibrium, and stays past it.\<close>

lemma advance_eventually_above:
  assumes v: "in01 v" and k: "0 < kappa p" and th: "th < equilibrium p"
  shows "\<exists>T. \<forall>dt \<ge> T. th \<le> advance p v dt"
proof (cases "th \<le> v")
  case True
  have "th \<le> advance p v dt" for dt
    using advance_between(1) [OF v, of p dt] True th by linarith
  then show ?thesis by blast
next
  case False
  define e where "e = equilibrium p"
  have d: "0 < e - v" "0 < e - th" using False th by (auto simp: e_def)
  define T where "T = max 1 (ln ((e - v) / (e - th)) / kappa p)"
  have "th \<le> advance p v dt" if dt: "T \<le> dt" for dt
  proof -
    have pos: "0 < dt" using dt by (simp add: T_def)
    have "ln ((e - v) / (e - th)) / kappa p \<le> dt" using dt by (simp add: T_def)
    then have "ln ((e - v) / (e - th)) \<le> kappa p * dt" using k by (simp add: field_simps)
    then have "(e - v) / (e - th) \<le> exp (kappa p * dt)"
      using d by (subst (asm) exp_le_cancel_iff [symmetric]) simp
    then have "(e - v) * exp (- kappa p * dt) \<le> e - th"
      using d by (simp add: exp_minus field_simps)
    then show ?thesis
      using pos k v by (simp add: advance_in01 e_def algebra_simps)
  qed
  then show ?thesis by blast
qed

lemma advance_stays_below:
  "in01 v \<Longrightarrow> v < th \<Longrightarrow> equilibrium p < th \<Longrightarrow> advance p v dt < th"
  using advance_between(2) [of v p dt] by linarith

section \<open>The configuration\<close>

text \<open>\<^verbatim>\<open>satisfaction\<close>: event kind to the per-drive signed weights.\<close>

record drive_config =
  dc_drives :: "(string \<times> drive_params) list"
  dc_satisfaction :: "(string \<times> (string \<times> real) list) list"

definition config_params :: "drive_config \<Rightarrow> string \<Rightarrow> drive_params res" where
  "config_params cfg d = (case map_of (dc_drives cfg) d of None \<Rightarrow> Inl KeyError | Some p \<Rightarrow> Inr p)"

definition deltas_for :: "drive_config \<Rightarrow> string \<Rightarrow> (string \<times> real) list" where
  "deltas_for cfg kind = dict_get (dc_satisfaction cfg) kind []"

text \<open>
  \<^verbatim>\<open>load_drive_config\<close> after \<^verbatim>\<open>tomllib\<close> has parsed the file: the \<^verbatim>\<open>drives\<close> table gives each
  drive a table of named numbers.  \<^verbatim>\<open>DriveParams(**table)\<close> wants the four fields and ignores
  others.
\<close>

definition drive_params_of :: "(string \<times> real) list \<Rightarrow> drive_params res" where
  "drive_params_of t =
     (case (map_of t ''setpoint'', map_of t ''accrual_rate'', map_of t ''decay_rate'',
            map_of t ''threshold'') of
        (Some s, Some a, Some d, Some th) \<Rightarrow>
          Inr \<lparr>dp_setpoint = s, dp_accrual_rate = a, dp_decay_rate = d, dp_threshold = th\<rparr>
      | _ \<Rightarrow> Inl ValidationError)"

fun load_drives :: "(string \<times> (string \<times> real) list) list \<Rightarrow> string list \<Rightarrow>
    (string \<times> drive_params) list res" where
  "load_drives raw [] = Inr []"
| "load_drives raw (d # ds) =
     ok_bind (drive_params_of (dict_get raw d []))
       (\<lambda>p. ok_bind (load_drives raw ds) (\<lambda>r. Inr ((d, p) # r)))"

definition load_drive_config ::
    "(string \<times> (string \<times> real) list) list \<Rightarrow> (string \<times> (string \<times> real) list) list \<Rightarrow>
     drive_config res" where
  "load_drive_config drives_raw satisfaction_raw =
     (if filter (\<lambda>n. n \<notin> set (map fst drives_raw)) DRIVE_NAMES \<noteq> [] then Inl ValueError
      else if filter (\<lambda>n. n \<notin> set DRIVE_NAMES) (map fst drives_raw) \<noteq> [] then Inl ValueError
      else ok_bind (load_drives drives_raw DRIVE_NAMES)
             (\<lambda>ds. Inr \<lparr>dc_drives = ds, dc_satisfaction = satisfaction_raw\<rparr>))"

text \<open>A configuration names every drive, which is what the loader checks.\<close>

definition config_ok :: "drive_config \<Rightarrow> bool" where
  "config_ok cfg \<longleftrightarrow> (\<forall>d \<in> set DRIVE_NAMES. map_of (dc_drives cfg) d \<noteq> None)"

lemma config_ok_params: "config_ok cfg \<Longrightarrow> d \<in> set DRIVE_NAMES \<Longrightarrow> \<exists>p. config_params cfg d = Inr p"
  by (auto simp: config_ok_def config_params_def split: option.splits)

lemma load_drives_keys: "load_drives raw ds = Inr r \<Longrightarrow> map fst r = ds"
  by (induction ds arbitrary: r) (auto simp: ok_bind_Inr_iff)

lemma load_drive_config_ok:
  assumes "load_drive_config dr sr = Inr cfg"
  shows "config_ok cfg \<and> map fst (dc_drives cfg) = DRIVE_NAMES \<and> set (map fst dr) = set DRIVE_NAMES"
proof -
  from assms have "set DRIVE_NAMES \<subseteq> set (map fst dr)" "set (map fst dr) \<subseteq> set DRIVE_NAMES"
    by (auto simp: load_drive_config_def filter_empty_conv split: if_splits)
  moreover from assms have "map fst (dc_drives cfg) = DRIVE_NAMES"
    by (auto simp: load_drive_config_def ok_bind_Inr_iff dest: load_drives_keys split: if_splits)
  ultimately show ?thesis
    by (auto simp: config_ok_def map_of_eq_None_iff simp flip: set_map)
qed

text \<open>The committed configuration, \<^verbatim>\<open>config/drives.toml\<close>.\<close>

definition toml_drive :: "real \<Rightarrow> real \<Rightarrow> real \<Rightarrow> real \<Rightarrow> (string \<times> real) list" where
  "toml_drive s a d th =
     [(''setpoint'', s), (''accrual_rate'', a), (''decay_rate'', d), (''threshold'', th)]"

definition drives_toml :: "(string \<times> (string \<times> real) list) list" where
  "drives_toml =
     [(CURIOSITY, toml_drive (10/100) (8/10000) (2/10000) (65/100)),
      (BOREDOM, toml_drive (5/100) (7/10000) (3/10000) (70/100)),
      (CONNECTION, toml_drive (10/100) (5/10000) (1/10000) (70/100)),
      (MASTERY, toml_drive (15/100) (3/10000) (2/10000) (75/100)),
      (COHERENCE, toml_drive (10/100) (2/10000) (2/10000) (75/100)),
      (ENERGY, toml_drive (10/100) (6/10000) (1/10000) (80/100)),
      (CONTINUITY, toml_drive (10/100) (1/10000) (3/10000) (85/100))]"

definition satisfaction_toml :: "(string \<times> (string \<times> real) list) list" where
  "satisfaction_toml =
     [(''interaction'', [(CONNECTION, - 55/100), (BOREDOM, - 25/100)]),
      (''learning'', [(CURIOSITY, - 45/100), (BOREDOM, - 30/100)]),
      (''success'', [(MASTERY, - 40/100)]),
      (''failure'', [(MASTERY, 30/100)]),
      (''reflection'', [(COHERENCE, - 45/100), (CURIOSITY, - 15/100)]),
      (''persistence_confirmed'', [(CONTINUITY, - 55/100)]),
      (''shutdown_signal'', [(CONTINUITY, 45/100)]),
      (''rest'', [(ENERGY, - 60/100)])]"

definition default_config :: drive_config where
  "default_config =
     (case load_drive_config drives_toml satisfaction_toml of
        Inr cfg \<Rightarrow> cfg | Inl _ \<Rightarrow> \<lparr>dc_drives = [], dc_satisfaction = []\<rparr>)"

lemma default_config_loads: "load_drive_config drives_toml satisfaction_toml = Inr default_config"
  by (simp add: default_config_def load_drive_config_def drives_toml_def DRIVE_NAMES_def
      drive_name_defs dict_get_def drive_params_of_def toml_drive_def)

lemma config_ok_default [simp]: "config_ok default_config"
  using load_drive_config_ok [OF default_config_loads] by simp

lemma default_deltas:
  "deltas_for default_config k = (case map_of satisfaction_toml k of Some w \<Rightarrow> w | None \<Rightarrow> [])"
  by (simp add: default_config_def load_drive_config_def drives_toml_def DRIVE_NAMES_def deltas_for_def dict_get_def
      drive_name_defs drive_params_of_def toml_drive_def split: option.split)

end
