(* ===== verification/DriveEngine.thy ===== *)
theory DriveEngine
  imports Drives
begin

text \<open>
  \<^verbatim>\<open>brain/drives/engine.py\<close>: the engine over the \<^verbatim>\<open>drive_state\<close> table, its readings and the
  urges it emits.  \<open>drive_store\<close> is the interface the cycle, the sleep pipeline and the wake
  self-check use; the engine's own definitions interpret it.
\<close>

section \<open>Rows, events, readings, urges\<close>

record drive_row =
  row_value :: real
  row_setpoint :: real
  row_accrual_rate :: real
  row_decay_rate :: real
  row_threshold :: real
  row_updated_at :: real

type_synonym drive_table = "string \<rightharpoonup> drive_row"

record drive_event =
  de_kind :: string
  de_intensity :: real

definition EVENT_INTERACTION :: string where "EVENT_INTERACTION = ''interaction''"
definition EVENT_LEARNING :: string where "EVENT_LEARNING = ''learning''"
definition EVENT_SUCCESS :: string where "EVENT_SUCCESS = ''success''"
definition EVENT_FAILURE :: string where "EVENT_FAILURE = ''failure''"
definition EVENT_REFLECTION :: string where "EVENT_REFLECTION = ''reflection''"
definition EVENT_PERSISTENCE_CONFIRMED :: string where
  "EVENT_PERSISTENCE_CONFIRMED = ''persistence_confirmed''"
definition EVENT_SHUTDOWN_SIGNAL :: string where "EVENT_SHUTDOWN_SIGNAL = ''shutdown_signal''"
definition EVENT_REST :: string where "EVENT_REST = ''rest''"

lemmas event_defs =
  EVENT_INTERACTION_def EVENT_LEARNING_def EVENT_SUCCESS_def EVENT_FAILURE_def
  EVENT_REFLECTION_def EVENT_PERSISTENCE_CONFIRMED_def EVENT_SHUTDOWN_SIGNAL_def EVENT_REST_def

definition SLEEP_DRIVE :: string where "SLEEP_DRIVE = ENERGY"

record reading =
  rd_drive :: string
  rd_value :: real
  rd_setpoint :: real
  rd_accrual_rate :: real
  rd_decay_rate :: real
  rd_threshold :: real
  rd_updated_at :: "real option"

definition over_threshold :: "reading \<Rightarrow> bool" where
  "over_threshold r \<longleftrightarrow> rd_threshold r \<le> rd_value r"

definition urgency :: "reading \<Rightarrow> real" where
  "urgency r =
     (if rd_value r < rd_threshold r \<or> 1 \<le> rd_threshold r then 0
      else clamp01 ((rd_value r - rd_threshold r) / (1 - rd_threshold r)))"

record urge =
  ur_drive :: string
  ur_value :: real
  ur_threshold :: real
  ur_urgency :: real

definition is_sleep_signal :: "urge \<Rightarrow> bool" where
  "is_sleep_signal u \<longleftrightarrow> ur_drive u = SLEEP_DRIVE"

definition row_to_reading :: "string \<Rightarrow> drive_row \<Rightarrow> reading" where
  "row_to_reading d row =
     \<lparr>rd_drive = d, rd_value = row_value row, rd_setpoint = row_setpoint row,
      rd_accrual_rate = row_accrual_rate row, rd_decay_rate = row_decay_rate row,
      rd_threshold = row_threshold row, rd_updated_at = Some (row_updated_at row)\<rparr>"

lemma row_to_reading_sel [simp]:
  "rd_drive (row_to_reading d row) = d" "rd_value (row_to_reading d row) = row_value row"
  "rd_threshold (row_to_reading d row) = row_threshold row"
  by (simp_all add: row_to_reading_def)

lemma in01_urgency [simp, range_intros]: "in01 (urgency r)"
  by (simp add: urgency_def in01_def)

section \<open>The engine\<close>

text \<open>The engine's configuration and the table it persists to.\<close>

record drive_engine =
  en_config :: drive_config
  en_table :: drive_table

fun add_weights :: "real \<Rightarrow> (string \<times> real) list \<Rightarrow> (string \<times> real) list \<Rightarrow> (string \<times> real) list" where
  "add_weights i [] totals = totals"
| "add_weights i ((d, w) # ws) totals =
     add_weights i ws (dict_put d (dict_get totals d 0 + w * i) totals)"

fun aggregate_deltas :: "drive_config \<Rightarrow> drive_event list \<Rightarrow> (string \<times> real) list \<Rightarrow>
    (string \<times> real) list" where
  "aggregate_deltas cfg [] totals = totals"
| "aggregate_deltas cfg (e # es) totals =
     aggregate_deltas cfg es (add_weights (de_intensity e) (deltas_for cfg (de_kind e)) totals)"

definition with_params :: "drive_params \<Rightarrow> drive_row \<Rightarrow> drive_row" where
  "with_params p row =
     row\<lparr>row_setpoint := dp_setpoint p, row_accrual_rate := dp_accrual_rate p,
         row_decay_rate := dp_decay_rate p, row_threshold := dp_threshold p\<rparr>"

lemma with_params_sel [simp]:
  "row_value (with_params p row) = row_value row"
  "row_threshold (with_params p row) = dp_threshold p"
  "row_updated_at (with_params p row) = row_updated_at row"
  by (simp_all add: with_params_def)

definition new_row :: "drive_params \<Rightarrow> real \<Rightarrow> drive_row" where
  "new_row p now =
     \<lparr>row_value = dp_setpoint p, row_setpoint = dp_setpoint p,
      row_accrual_rate = dp_accrual_rate p, row_decay_rate = dp_decay_rate p,
      row_threshold = dp_threshold p, row_updated_at = now\<rparr>"

definition row_or_new :: "drive_params \<Rightarrow> real \<Rightarrow> drive_row option \<Rightarrow> drive_row" where
  "row_or_new p now r = (case r of None \<Rightarrow> new_row p now | Some row \<Rightarrow> row)"

fun bootstrap_drives :: "drive_config \<Rightarrow> real \<Rightarrow> drive_table \<Rightarrow> string list \<Rightarrow> drive_table \<Rightarrow>
    (drive_table \<times> reading list) res" where
  "bootstrap_drives cfg now rows [] tbl = Inr (tbl, [])"
| "bootstrap_drives cfg now rows (d # ds) tbl =
     ok_bind (config_params cfg d) (\<lambda>p.
       let row = with_params p (row_or_new p now (rows d))
       in ok_bind (bootstrap_drives cfg now rows ds (tbl(d \<mapsto> row)))
            (\<lambda>(t, rs). Inr (t, row_to_reading d row # rs)))"

definition bootstrap :: "real \<Rightarrow> drive_engine \<Rightarrow> (drive_engine \<times> reading list) res" where
  "bootstrap now e =
     ok_bind (bootstrap_drives (en_config e) now (en_table e) DRIVE_NAMES (en_table e))
       (\<lambda>(t, rs). Inr (e\<lparr>en_table := t\<rparr>, rs))"

definition step_row :: "drive_params \<Rightarrow> (string \<times> real) list \<Rightarrow> real \<Rightarrow> string \<Rightarrow> drive_row option \<Rightarrow>
    drive_row" where
  "step_row p deltas reference d r =
     (let row = row_or_new p reference r;
          dt = max 0 (reference - row_updated_at row);
          value = clamp01 (advance p (row_value row) dt + dict_get deltas d 0)
      in with_params p (row\<lparr>row_value := value, row_updated_at := reference\<rparr>))"

fun step_drives :: "drive_config \<Rightarrow> (string \<times> real) list \<Rightarrow> real \<Rightarrow> drive_table \<Rightarrow> string list \<Rightarrow>
    drive_table \<Rightarrow> (drive_table \<times> reading list) res" where
  "step_drives cfg deltas reference rows [] tbl = Inr (tbl, [])"
| "step_drives cfg deltas reference rows (d # ds) tbl =
     ok_bind (config_params cfg d) (\<lambda>p.
       let row = step_row p deltas reference d (rows d)
       in ok_bind (step_drives cfg deltas reference rows ds (tbl(d \<mapsto> row)))
            (\<lambda>(t, rs). Inr (t, row_to_reading d row # rs)))"

definition engine_step :: "drive_event list \<Rightarrow> real \<Rightarrow> drive_engine \<Rightarrow>
    (drive_engine \<times> reading list) res" where
  "engine_step events reference e =
     ok_bind (step_drives (en_config e) (aggregate_deltas (en_config e) events []) reference
                (en_table e) DRIVE_NAMES (en_table e))
       (\<lambda>(t, rs). Inr (e\<lparr>en_table := t\<rparr>, rs))"

definition current_readings :: "drive_engine \<Rightarrow> reading list" where
  "current_readings e =
     map (\<lambda>d. row_to_reading d (the (en_table e d)))
       (filter (\<lambda>d. en_table e d \<noteq> None) DRIVE_NAMES)"

definition urge_of :: "reading \<Rightarrow> urge" where
  "urge_of r =
     \<lparr>ur_drive = rd_drive r, ur_value = rd_value r, ur_threshold = rd_threshold r,
      ur_urgency = urgency r\<rparr>"

lemma urge_of_sel [simp]:
  "ur_drive (urge_of r) = rd_drive r" "ur_value (urge_of r) = rd_value r"
  "ur_threshold (urge_of r) = rd_threshold r" "ur_urgency (urge_of r) = urgency r"
  by (simp_all add: urge_of_def)

definition urges :: "reading list \<Rightarrow> urge list" where
  "urges readings = sort_desc ur_urgency (map urge_of (filter over_threshold readings))"

lemma current_readings_iff:
  "r \<in> set (current_readings e) \<longleftrightarrow>
   (\<exists>d \<in> set DRIVE_NAMES. \<exists>row. en_table e d = Some row \<and> r = row_to_reading d row)"
  by (force simp: current_readings_def)

section \<open>What the engine's loops compute\<close>

text \<open>Both loops store one row for each drive and return its readings in the drives' order.\<close>

lemma dict_get_put [simp]: "dict_get (dict_put k v d) k' def = (if k' = k then v else dict_get d k' def)"
  by (simp add: dict_get_def)

lemma add_weights_get:
  "dict_get (add_weights i ws totals) d 0 =
   dict_get totals d 0 + i * sum_list (map snd (filter (\<lambda>e. fst e = d) ws))"
  by (induction i ws totals rule: add_weights.induct) (auto simp: algebra_simps)

definition event_delta :: "drive_config \<Rightarrow> string \<Rightarrow> drive_event \<Rightarrow> real" where
  "event_delta cfg d e =
     de_intensity e * sum_list (map snd (filter (\<lambda>w. fst w = d) (deltas_for cfg (de_kind e))))"

lemma aggregate_deltas_get:
  "dict_get (aggregate_deltas cfg es totals) d 0 = dict_get totals d 0 + sum_list (map (event_delta cfg d) es)"
  by (induction cfg es totals rule: aggregate_deltas.induct)
     (auto simp: add_weights_get event_delta_def)

lemma step_drives_rows:
  assumes "step_drives cfg deltas reference rows ds tbl = Inr (t, rs)" "distinct ds"
  shows "(\<forall>d \<in> set ds. \<exists>p. config_params cfg d = Inr p \<and>
             t d = Some (step_row p deltas reference d (rows d))) \<and>
         (\<forall>d. d \<notin> set ds \<longrightarrow> t d = tbl d) \<and>
         rs = map (\<lambda>d. row_to_reading d (the (t d))) ds"
  using assms
proof (induction ds arbitrary: tbl t rs)
  case (Cons d ds)
  then obtain p rs' where p: "config_params cfg d = Inr p"
    and t: "step_drives cfg deltas reference rows ds
              (tbl(d \<mapsto> step_row p deltas reference d (rows d))) = Inr (t, rs')"
    and rs: "rs = row_to_reading d (step_row p deltas reference d (rows d)) # rs'"
    by (auto simp: ok_bind_Inr_iff Let_def)
  from Cons.IH [OF t] Cons.prems(2) p rs show ?case by auto
qed simp

lemma step_drives_total:
  "\<forall>d \<in> set ds. map_of (dc_drives cfg) d \<noteq> None \<Longrightarrow>
   \<exists>t rs. step_drives cfg deltas reference rows ds tbl = Inr (t, rs)"
proof (induction ds arbitrary: tbl)
  case (Cons d ds)
  then obtain p where p: "config_params cfg d = Inr p"
    by (auto simp: config_params_def split: option.splits)
  from Cons.IH [of "tbl(d \<mapsto> step_row p deltas reference d (rows d))"] Cons.prems
  show ?case by (fastforce simp: p Let_def)
qed simp

lemma distinct_DRIVE_NAMES [simp]: "distinct DRIVE_NAMES"
  by (simp add: DRIVE_NAMES_def drive_name_defs)

lemma in01_step_row [simp, range_intros]: "in01 (row_value (step_row p deltas reference d r))"
  by (simp add: step_row_def Let_def)

lemma step_row_updated_at [simp]: "row_updated_at (step_row p deltas reference d r) = reference"
  by (simp add: step_row_def Let_def)

lemma engine_step_rows:
  assumes "engine_step events reference e = Inr (e', rs)"
  shows "en_config e' = en_config e \<and> rs = current_readings e' \<and>
         (\<forall>d \<in> set DRIVE_NAMES. \<exists>p. config_params (en_config e) d = Inr p \<and>
            en_table e' d = Some (step_row p (aggregate_deltas (en_config e) events []) reference d
                                    (en_table e d))) \<and>
         (\<forall>d. d \<notin> set DRIVE_NAMES \<longrightarrow> en_table e' d = en_table e d)"
proof -
  from assms obtain t where t: "step_drives (en_config e) (aggregate_deltas (en_config e) events [])
      reference (en_table e) DRIVE_NAMES (en_table e) = Inr (t, rs)" and e': "e' = e\<lparr>en_table := t\<rparr>"
    by (auto simp: engine_step_def ok_bind_Inr_iff)
  note rows = step_drives_rows [OF t distinct_DRIVE_NAMES]
  then have "filter (\<lambda>d. t d \<noteq> None) DRIVE_NAMES = DRIVE_NAMES"
    by (intro filter_True) auto
  with rows e' show ?thesis by (auto simp: current_readings_def)
qed

section \<open>The interface of the drive store\<close>

text \<open>
  What the cycle, the sleep pipeline and the wake self-check rely on: a step from a sound
  state succeeds, keeps it sound, returns the state's current readings, and the readings are
  in range.
\<close>

locale drive_store =
  fixes inv :: "'s \<Rightarrow> bool"
    and step :: "drive_event list \<Rightarrow> real \<Rightarrow> 's \<Rightarrow> ('s \<times> reading list) res"
    and current :: "'s \<Rightarrow> reading list"
  assumes step_total: "inv s \<Longrightarrow> \<exists>s' rs. step es now s = Inr (s', rs)"
    and step_sound: "inv s \<Longrightarrow> step es now s = Inr (s', rs) \<Longrightarrow> inv s' \<and> rs = current s'"
    and current_range: "inv s \<Longrightarrow> r \<in> set (current s) \<Longrightarrow> in01 (rd_value r)"

text \<open>Any sequence of steps, each with its own clock reading and events.\<close>

fun run_steps :: "(drive_event list \<Rightarrow> real \<Rightarrow> 's \<Rightarrow> ('s \<times> reading list) res) \<Rightarrow>
    (drive_event list \<times> real) list \<Rightarrow> 's \<Rightarrow> 's res" where
  "run_steps step [] s = Inr s"
| "run_steps step ((es, now) # xs) s = ok_bind (step es now s) (\<lambda>(s', _). run_steps step xs s')"

context drive_store begin

lemma run_total: "inv s \<Longrightarrow> \<exists>s'. run_steps step xs s = Inr s' \<and> inv s'"
proof (induction xs arbitrary: s)
  case (Cons x xs)
  obtain es now where x: "x = (es, now)" by (cases x)
  from step_total [OF Cons.prems] obtain s1 rs where s1: "step es now s = Inr (s1, rs)" by blast
  with step_sound [OF Cons.prems] have "inv s1" by blast
  from Cons.IH [OF this] show ?case by (simp add: x s1)
qed simp

lemma run_range: "inv s \<Longrightarrow> run_steps step xs s = Inr s' \<Longrightarrow> r \<in> set (current s') \<Longrightarrow> in01 (rd_value r)"
  using run_total [of s xs] current_range [of s' r] by auto

lemma step_range: "inv s \<Longrightarrow> step es now s = Inr (s', rs) \<Longrightarrow> r \<in> set rs \<Longrightarrow> in01 (rd_value r)"
  using step_sound current_range by blast

end

definition engine_inv :: "drive_engine \<Rightarrow> bool" where
  "engine_inv e \<longleftrightarrow>
     config_ok (en_config e) \<and>
     (\<forall>d \<in> set DRIVE_NAMES. \<forall>row. en_table e d = Some row \<longrightarrow> in01 (row_value row))"

lemma engine_step_total:
  assumes "config_ok (en_config e)"
  shows "\<exists>e' rs. engine_step es now e = Inr (e', rs)"
proof -
  have "\<exists>t rs. step_drives (en_config e) (aggregate_deltas (en_config e) es []) now (en_table e)
      DRIVE_NAMES (en_table e) = Inr (t, rs)"
    by (rule step_drives_total) (use assms in \<open>simp add: config_ok_def\<close>)
  then show ?thesis by (auto simp: engine_step_def)
qed

interpretation engine: drive_store engine_inv engine_step current_readings
proof unfold_locales
  fix e es now assume "engine_inv e"
  then show "\<exists>s' rs. engine_step es now e = Inr (s', rs)"
    by (simp add: engine_inv_def engine_step_total)
next
  fix e es now e' rs assume "engine_inv e" "engine_step es now e = Inr (e', rs)"
  then show "engine_inv e' \<and> rs = current_readings e'"
    using engine_step_rows [of es now e e' rs] by (fastforce simp: engine_inv_def)
next
  fix e r assume "engine_inv e" "r \<in> set (current_readings e)"
  then show "in01 (rd_value r)" by (auto simp: engine_inv_def current_readings_def)
qed

section \<open>Properties\<close>

text \<open>An idle step leaves each drive at its advanced, clamped value.\<close>

lemma idle_deltas [simp]: "dict_get (aggregate_deltas cfg [] []) d 0 = 0"
  by (simp add: dict_get_def)

lemma step_row_idle:
  "step_row p (aggregate_deltas cfg [] []) now d (Some row) =
   with_params p (row\<lparr>row_value := advance p (row_value row) (max 0 (now - row_updated_at row)),
                       row_updated_at := now\<rparr>)"
  by (simp add: step_row_def row_or_new_def Let_def clamp01_id del: aggregate_deltas.simps)

lemma step_row_idle_twice:
  assumes "in01 (row_value row)" "row_updated_at row \<le> t1" "t1 \<le> t2"
  shows "step_row p (aggregate_deltas cfg [] []) t2 d
           (Some (step_row p (aggregate_deltas cfg [] []) t1 d (Some row))) =
         step_row p (aggregate_deltas cfg [] []) t2 d (Some row)"
proof -
  have "advance p (advance p (row_value row) (t1 - row_updated_at row)) (t2 - t1) =
      advance p (row_value row) (t2 - row_updated_at row)"
    using assms by (simp add: advance_split)
  with assms show ?thesis
    by (simp add: step_row_idle max_def with_params_def del: aggregate_deltas.simps)
qed

text \<open>Stepping is determined by the rows it stores.\<close>

lemma engine_step_eqI:
  assumes "engine_step es now e = Inr (e1, rs1)" "engine_step es' now' e' = Inr (e2, rs2)"
    and "en_config e = en_config e'"
    and "\<And>d. d \<notin> set DRIVE_NAMES \<Longrightarrow> en_table e d = en_table e' d"
    and "\<And>d p. d \<in> set DRIVE_NAMES \<Longrightarrow> config_params (en_config e) d = Inr p \<Longrightarrow>
          step_row p (aggregate_deltas (en_config e) es []) now d (en_table e d) =
          step_row p (aggregate_deltas (en_config e') es' []) now' d (en_table e' d)"
  shows "e1 = e2 \<and> rs1 = rs2"
proof -
  note r1 = engine_step_rows [OF assms(1)] and r2 = engine_step_rows [OF assms(2)]
  have "en_table e1 d = en_table e2 d" for d
  proof (cases "d \<in> set DRIVE_NAMES")
    case True
    then obtain p where "config_params (en_config e) d = Inr p" using r1 by blast
    with True r1 r2 assms(3,5) show ?thesis by fastforce
  next
    case False
    with r1 r2 assms(4) show ?thesis by auto
  qed
  then have "en_table e1 = en_table e2" by blast
  moreover have "en_config e1 = en_config e2" using r1 r2 assms(3) by simp
  ultimately have "e1 = e2" by simp
  with r1 r2 show ?thesis by simp
qed

text \<open>Every row present, in range and not in the future.\<close>

definition booted :: "real \<Rightarrow> drive_engine \<Rightarrow> bool" where
  "booted now e \<longleftrightarrow> config_ok (en_config e) \<and>
     (\<forall>d \<in> set DRIVE_NAMES. case en_table e d of None \<Rightarrow> False
        | Some row \<Rightarrow> in01 (row_value row) \<and> row_updated_at row \<le> now)"

definition demo_engine :: drive_engine where
  "demo_engine = \<lparr>en_config = default_config, en_table = (\<lambda>_. None)\<rparr>"

lemma demo_engine_inv [simp]: "engine_inv demo_engine"
  by (simp add: engine_inv_def demo_engine_def)

text \<open>C25: from a sound engine, any sequence of steps (with any events and any clock,
  one that jumps backwards included) succeeds, ends in a sound engine, and every reading it then
  reports has its value in the unit interval.\<close>

theorem drives_run_in_range:
  assumes "engine_inv e"
  shows "\<exists>e'. run_steps engine_step xs e = Inr e' \<and> engine_inv e' \<and>
              (\<forall>r \<in> set (current_readings e'). in01 (rd_value r))"
  using engine.run_total [OF assms, of xs] engine.run_range [OF assms, of xs] by blast

theorem drives_run_in_range_witness:
  "\<exists>e'. run_steps engine_step
           [([\<lparr>de_kind = EVENT_LEARNING, de_intensity = 2\<rparr>], 10), ([], 5)] demo_engine = Inr e' \<and>
        engine_inv e' \<and> (\<forall>r \<in> set (current_readings e'). in01 (rd_value r))"
  by (rule drives_run_in_range) simp

text \<open>An idle step at \<open>t1\<close> followed by an idle step at \<open>t2\<close> leaves exactly the
  state and the readings of one idle step at \<open>t2\<close>: the pressure depends on the elapsed time
  only, not on how often the loop ticked or whether the process was down in between.\<close>

theorem drives_idle_compose:
  assumes "booted t1 e" "t1 \<le> t2" "engine_step [] t1 e = Inr (e1, rs1)"
  shows "engine_step [] t2 e1 = engine_step [] t2 e"
proof -
  note r1 = engine_step_rows [OF assms(3)]
  from assms(1) r1 have "config_ok (en_config e)" "config_ok (en_config e1)"
    by (simp_all add: booted_def)
  then obtain e2 rs2 e3 rs3 where s: "engine_step [] t2 e1 = Inr (e2, rs2)"
      "engine_step [] t2 e = Inr (e3, rs3)"
    using engine_step_total by meson
  have "e2 = e3 \<and> rs2 = rs3"
  proof (rule engine_step_eqI [OF s])
    fix d p assume d: "d \<in> set DRIVE_NAMES" and "config_params (en_config e1) d = Inr p"
    then have p: "config_params (en_config e) d = Inr p" using r1 by simp
    from d assms(1) obtain row where row: "en_table e d = Some row" "in01 (row_value row)"
        "row_updated_at row \<le> t1"
      by (fastforce simp: booted_def split: option.splits)
    from r1 d p have "en_table e1 d =
        Some (step_row p (aggregate_deltas (en_config e) [] []) t1 d (en_table e d))"
      by fastforce
    then show "step_row p (aggregate_deltas (en_config e1) [] []) t2 d (en_table e1 d) =
          step_row p (aggregate_deltas (en_config e) [] []) t2 d (en_table e d)"
      using step_row_idle_twice [OF row(2,3) assms(2), of p "en_config e" d] r1
      by (simp add: row(1) del: aggregate_deltas.simps)
  qed (use r1 in auto)
  with s show ?thesis by simp
qed

definition demo_booted :: drive_engine where
  "demo_booted = \<lparr>en_config = default_config,
     en_table = (\<lambda>_. Some \<lparr>row_value = 1/2, row_setpoint = 0, row_accrual_rate = 0,
       row_decay_rate = 0, row_threshold = 1, row_updated_at = 0\<rparr>)\<rparr>"

lemma demo_booted [simp]: "booted 0 demo_booted"
  by (simp add: booted_def demo_booted_def in01_def)

theorem drives_idle_compose_witness:
  "\<exists>e1 rs1. engine_step [] 60 demo_booted = Inr (e1, rs1) \<and>
            engine_step [] 90 e1 = engine_step [] 90 demo_booted"
proof -
  have "booted 60 demo_booted"
    by (simp add: booted_def demo_booted_def in01_def)
  moreover have "config_ok (en_config demo_booted)" by (simp add: demo_booted_def)
  then obtain e1 rs1 where "engine_step [] 60 demo_booted = Inr (e1, rs1)"
    using engine_step_total by blast
  ultimately show ?thesis using drives_idle_compose [of 60 demo_booted 90] by fastforce
qed

text \<open>The parameters of the committed configuration.\<close>

lemma default_params:
  "map_of (dc_drives default_config) d =
     (if d \<in> set DRIVE_NAMES then map_of
       [(CURIOSITY, \<lparr>dp_setpoint = 10/100, dp_accrual_rate = 8/10000, dp_decay_rate = 2/10000, dp_threshold = 65/100\<rparr>),
        (BOREDOM, \<lparr>dp_setpoint = 5/100, dp_accrual_rate = 7/10000, dp_decay_rate = 3/10000, dp_threshold = 70/100\<rparr>),
        (CONNECTION, \<lparr>dp_setpoint = 10/100, dp_accrual_rate = 5/10000, dp_decay_rate = 1/10000, dp_threshold = 70/100\<rparr>),
        (MASTERY, \<lparr>dp_setpoint = 15/100, dp_accrual_rate = 3/10000, dp_decay_rate = 2/10000, dp_threshold = 75/100\<rparr>),
        (COHERENCE, \<lparr>dp_setpoint = 10/100, dp_accrual_rate = 2/10000, dp_decay_rate = 2/10000, dp_threshold = 75/100\<rparr>),
        (ENERGY, \<lparr>dp_setpoint = 10/100, dp_accrual_rate = 6/10000, dp_decay_rate = 1/10000, dp_threshold = 80/100\<rparr>),
        (CONTINUITY, \<lparr>dp_setpoint = 10/100, dp_accrual_rate = 1/10000, dp_decay_rate = 3/10000, dp_threshold = 85/100\<rparr>)] d
      else None)"
  by (simp add: default_config_def load_drive_config_def drives_toml_def DRIVE_NAMES_def
      drive_name_defs dict_get_def drive_params_of_def toml_drive_def)

definition idle_drives :: "string list" where
  "idle_drives = [CURIOSITY, BOREDOM, CONNECTION, ENERGY]"

definition event_drives :: "string list" where
  "event_drives = [MASTERY, COHERENCE, CONTINUITY]"

lemma idle_drives_params:
  "d \<in> set idle_drives \<Longrightarrow> d \<in> set DRIVE_NAMES \<and> (\<exists>p. config_params default_config d = Inr p \<and>
     0 < kappa p \<and> dp_threshold p < equilibrium p)"
  by (auto simp: idle_drives_def config_params_def default_params DRIVE_NAMES_def drive_name_defs
      kappa_def equilibrium_def clamp01_def)

lemma event_drives_params:
  "d \<in> set event_drives \<Longrightarrow> d \<in> set DRIVE_NAMES \<and> (\<exists>p. config_params default_config d = Inr p \<and>
     equilibrium p < dp_threshold p)"
  by (auto simp: event_drives_def config_params_def default_params DRIVE_NAMES_def drive_name_defs
      kappa_def equilibrium_def clamp01_def)

lemma urges_set: "u \<in> set (urges rs) \<longleftrightarrow> (\<exists>r \<in> set rs. over_threshold r \<and> u = urge_of r)"
  by (auto simp: urges_def)

text \<open>After an idle step the reading of a drive is that of its relaxed row.\<close>

lemma idle_step_reading:
  assumes "booted t0 e" "t0 \<le> t" "engine_step [] t e = Inr (e', rs)" "d \<in> set DRIVE_NAMES"
    and "config_params (en_config e) d = Inr p" "en_table e d = Some row"
  shows "r \<in> set rs \<and> rd_drive r = d \<longleftrightarrow>
         r = row_to_reading d (with_params p (row\<lparr>
           row_value := advance p (row_value row) (t - row_updated_at row), row_updated_at := t\<rparr>))"
proof -
  note r = engine_step_rows [OF assms(3)]
  have "row_updated_at row \<le> t"
    using assms(1,2,4,6) by (fastforce simp: booted_def)
  with r assms(4,5,6) have row': "en_table e' d = Some (with_params p (row\<lparr>
      row_value := advance p (row_value row) (t - row_updated_at row), row_updated_at := t\<rparr>))"
    by (fastforce simp: step_row_idle max_def simp del: aggregate_deltas.simps)
  moreover have "rs = current_readings e'" using r by simp
  ultimately show ?thesis using assms(4) by (auto simp: current_readings_iff)
qed

text \<open>with the committed configuration, an engine left idle long enough emits an
  urge for curiosity, boredom, connection and energy at every later idle step, whatever its state
  was; mastery, coherence and continuity never become an urge by idling once they are below their
  threshold.\<close>

theorem drives_default_fire:
  assumes "booted t0 e" "en_config e = default_config"
  shows "(\<forall>d \<in> set idle_drives. \<exists>T \<ge> t0. \<forall>t \<ge> T. \<forall>e' rs. engine_step [] t e = Inr (e', rs) \<longrightarrow>
            (\<exists>u \<in> set (urges rs). ur_drive u = d)) \<and>
         (\<forall>d \<in> set event_drives. \<forall>row. en_table e d = Some row \<longrightarrow>
            (\<forall>p. config_params default_config d = Inr p \<longrightarrow> row_value row < dp_threshold p) \<longrightarrow>
            (\<forall>t \<ge> t0. \<forall>e' rs. engine_step [] t e = Inr (e', rs) \<longrightarrow>
               (\<forall>u \<in> set (urges rs). ur_drive u \<noteq> d)))"
proof (intro conjI ballI allI impI)
  fix d assume "d \<in> set idle_drives"
  then obtain p where d: "d \<in> set DRIVE_NAMES" and p: "config_params default_config d = Inr p"
      "0 < kappa p" "dp_threshold p < equilibrium p"
    using idle_drives_params by blast
  from d assms(1) obtain row where row: "en_table e d = Some row" "in01 (row_value row)"
    by (fastforce simp: booted_def split: option.splits)
  from advance_eventually_above [OF row(2) p(2,3)] obtain T where
    T: "\<And>dt. T \<le> dt \<Longrightarrow> dp_threshold p \<le> advance p (row_value row) dt" by blast
  have "\<exists>u \<in> set (urges rs). ur_drive u = d"
    if t: "max t0 (T + row_updated_at row) \<le> t" and s: "engine_step [] t e = Inr (e', rs)" for t e' rs
  proof -
    let ?r = "row_to_reading d (with_params p (row\<lparr>
        row_value := advance p (row_value row) (t - row_updated_at row), row_updated_at := t\<rparr>))"
    have "?r \<in> set rs"
      using idle_step_reading [OF assms(1) _ s d _ row(1), of p ?r] t p(1) assms(2) by simp
    moreover have "over_threshold ?r" using T t by (simp add: over_threshold_def)
    ultimately have "urge_of ?r \<in> set (urges rs)" using urges_set by blast
    then show ?thesis by (rule bexI [rotated]) simp
  qed
  then show "\<exists>T \<ge> t0. \<forall>t \<ge> T. \<forall>e' rs. engine_step [] t e = Inr (e', rs) \<longrightarrow>
      (\<exists>u \<in> set (urges rs). ur_drive u = d)"
    by (intro exI [of _ "max t0 (T + row_updated_at row)"]) auto
next
  fix d row t e' rs u
  assume "d \<in> set event_drives" and row: "en_table e d = Some row"
    and low: "\<forall>p. config_params default_config d = Inr p \<longrightarrow> row_value row < dp_threshold p"
    and t: "t0 \<le> t" and s: "engine_step [] t e = Inr (e', rs)" and u: "u \<in> set (urges rs)"
  then obtain p where d: "d \<in> set DRIVE_NAMES" and p: "config_params default_config d = Inr p"
      "equilibrium p < dp_threshold p"
    using event_drives_params by blast
  have v: "in01 (row_value row)" using assms(1) d row by (fastforce simp: booted_def)
  from u obtain r where r: "r \<in> set rs" "over_threshold r" "u = urge_of r"
    using urges_set by blast
  have "advance p (row_value row) (t - row_updated_at row) < dp_threshold p"
    using advance_stays_below [OF v _ p(2)] low p(1) by blast
  then show "ur_drive u \<noteq> d"
    using idle_step_reading [OF assms(1) t s d _ row, of p r] r p assms(2)
    by (auto simp: over_threshold_def)
qed

theorem drives_default_fire_witness:
  "\<exists>T \<ge> 0. \<forall>t \<ge> T. \<forall>e' rs. engine_step [] t demo_booted = Inr (e', rs) \<longrightarrow>
     (\<exists>u \<in> set (urges rs). ur_drive u = ENERGY)"
  using drives_default_fire [of 0 demo_booted]
  by (simp add: idle_drives_def demo_booted_def [THEN arg_cong, of en_config])

text \<open>The urges of a list of readings are exactly its readings over threshold,
  each once, with an urgency in the unit interval, the most urgent first and ties in the order
  of the readings.\<close>

theorem urges_exact:
  "mset (urges rs) = image_mset urge_of (filter_mset over_threshold (mset rs)) \<and>
   sorted_wrt (\<lambda>u v. ur_urgency v \<le> ur_urgency u) (urges rs) \<and>
   (\<forall>k. filter (\<lambda>u. ur_urgency u = k) (urges rs) =
        map urge_of (filter (\<lambda>r. over_threshold r \<and> urgency r = k) rs)) \<and>
   (\<forall>u \<in> set (urges rs). in01 (ur_urgency u) \<and> ur_threshold u \<le> ur_value u)"
proof (intro conjI allI)
  show "filter (\<lambda>u. ur_urgency u = k) (urges rs) =
        map urge_of (filter (\<lambda>r. over_threshold r \<and> urgency r = k) rs)" for k
    by (simp add: urges_def sort_desc_stable filter_map comp_def conj_commute)
  show "\<forall>u \<in> set (urges rs). in01 (ur_urgency u) \<and> ur_threshold u \<le> ur_value u"
    by (auto simp: urges_set over_threshold_def)
qed (simp_all add: urges_def sort_desc_sorted mset_filter)

definition demo_readings :: "reading list" where
  "demo_readings = map (\<lambda>(d, v). row_to_reading d (new_row
       \<lparr>dp_setpoint = v, dp_accrual_rate = 0, dp_decay_rate = 0, dp_threshold = 1/2\<rparr> 0))
     [(CURIOSITY, 6/10), (ENERGY, 4/10), (BOREDOM, 9/10)]"

theorem urges_exact_witness:
  "mset (map ur_drive (urges demo_readings)) = {#CURIOSITY, BOREDOM#} \<and>
   sorted_wrt (\<lambda>u v. ur_urgency v \<le> ur_urgency u) (urges demo_readings)"
  using urges_exact [of demo_readings]
  by (simp add: demo_readings_def over_threshold_def new_row_def row_to_reading_def urge_of_def)

end
