(* ===== verification/Redaction.thy ===== *)
theory Redaction
  imports Prelude "HOL-Library.Sublist"
begin

text \<open>
  \<^verbatim>\<open>foundation/redaction.py\<close>: the guard on the bus log and on the audit log.  The five
  credential patterns are written as the greedy matchers Python's \<^verbatim>\<open>re\<close> runs for them (each
  class is followed by a character outside it, so a greedy match never backtracks), and
  \<^verbatim>\<open>pattern.sub\<close> and \<^verbatim>\<open>str.replace\<close> as the leftmost non-overlapping scan.
\<close>

section \<open>Strings\<close>

definition is_upper :: "char \<Rightarrow> bool" where
  "is_upper c \<longleftrightarrow> (let n = of_char c :: nat in 65 \<le> n \<and> n \<le> 90)"

definition is_lower :: "char \<Rightarrow> bool" where
  "is_lower c \<longleftrightarrow> (let n = of_char c :: nat in 97 \<le> n \<and> n \<le> 122)"

definition is_digit :: "char \<Rightarrow> bool" where
  "is_digit c \<longleftrightarrow> (let n = of_char c :: nat in 48 \<le> n \<and> n \<le> 57)"

definition is_alnum :: "char \<Rightarrow> bool" where
  "is_alnum c \<longleftrightarrow> is_upper c \<or> is_lower c \<or> is_digit c"

text \<open>\<^verbatim>\<open>str.lower\<close> on the model's characters: ASCII and the Latin-1 capitals.\<close>

definition lower_char :: "char \<Rightarrow> char" where
  "lower_char c =
     (let n = of_char c :: nat
      in if is_upper c \<or> (192 \<le> n \<and> n \<le> 222 \<and> n \<noteq> 215) then char_of (n + 32) else c)"

definition lower :: "string \<Rightarrow> string" where
  "lower s = map lower_char s"

fun contains :: "string \<Rightarrow> string \<Rightarrow> bool" where
  "contains w [] = (w = [])"
| "contains w (c # cs) = (prefix w (c # cs) \<or> contains w cs)"

lemma contains_drop: "contains w s \<longleftrightarrow> (\<exists>k. prefix w (drop k s))"
proof (induction s)
  case Nil
  then show ?case by auto
next
  case (Cons c cs)
  show ?case
  proof
    assume "contains w (c # cs)"
    then consider "prefix w (drop 0 (c # cs))" | k where "prefix w (drop (Suc k) (c # cs))"
      using Cons.IH by auto
    then show "\<exists>k. prefix w (drop k (c # cs))" by cases blast+
  next
    assume "\<exists>k. prefix w (drop k (c # cs))"
    then obtain k where "prefix w (drop k (c # cs))" by blast
    then show "contains w (c # cs)" using Cons.IH by (cases k) auto
  qed
qed

section \<open>Matching and replacing\<close>

text \<open>A matcher gives the length of the match at the head of the string, if there is one.\<close>

type_synonym matcher = "string \<Rightarrow> nat option"

definition lit :: "string \<Rightarrow> matcher" where
  "lit w s = (if prefix w s then Some (length w) else None)"

function sub_all :: "matcher \<Rightarrow> string \<Rightarrow> string \<Rightarrow> string" where
  "sub_all m new [] = []"
| "sub_all m new (c # cs) =
     (case m (c # cs) of
        Some (Suc n) \<Rightarrow> new @ sub_all m new (drop n cs)
      | _ \<Rightarrow> c # sub_all m new cs)"
  by pat_completeness auto
termination by (relation "measure (\<lambda>(m, new, s). length s)") auto

text \<open>One step of a pattern: what is left after it has matched.\<close>

type_synonym stage = "string \<Rightarrow> string option"

definition st_lit :: "string \<Rightarrow> stage" where
  "st_lit w s = (if prefix w s then Some (drop (length w) s) else None)"

definition st_lit_ci :: "string \<Rightarrow> stage" where
  "st_lit_ci w s = (if prefix w (lower s) then Some (drop (length w) s) else None)"

definition st_many :: "(char \<Rightarrow> bool) \<Rightarrow> nat \<Rightarrow> stage" where
  "st_many P lo s =
     (if lo \<le> length (takeWhile P s) then Some (dropWhile P s) else None)"

definition st_exactly :: "(char \<Rightarrow> bool) \<Rightarrow> nat \<Rightarrow> stage" where
  "st_exactly P n s =
     (if n \<le> length (takeWhile P s) then Some (drop n s) else None)"

definition st_seq :: "stage \<Rightarrow> stage \<Rightarrow> stage" where
  "st_seq f g s = (case f s of None \<Rightarrow> None | Some r \<Rightarrow> g r)"

definition matcher_of :: "stage \<Rightarrow> matcher" where
  "matcher_of f s = (case f s of None \<Rightarrow> None | Some r \<Rightarrow> Some (length s - length r))"

definition is_jwt_char :: "char \<Rightarrow> bool" where
  "is_jwt_char c \<longleftrightarrow> is_alnum c \<or> c = CHR ''_'' \<or> c = CHR ''-''"

definition is_bearer_char :: "char \<Rightarrow> bool" where
  "is_bearer_char c \<longleftrightarrow> is_alnum c \<or> c = CHR ''.'' \<or> c = CHR ''_'' \<or> c = CHR ''-''"

definition is_aws_char :: "char \<Rightarrow> bool" where
  "is_aws_char c \<longleftrightarrow> is_upper c \<or> is_digit c"

definition VALUE_STAGES :: "stage list" where
  "VALUE_STAGES =
     [st_seq (st_lit ''gsk_'') (st_many is_alnum 20),
      st_seq (st_lit ''sk-'') (st_many is_alnum 20),
      st_seq (st_lit ''AKIA'') (st_exactly is_aws_char 16),
      st_seq (st_lit ''eyJ'') (st_seq (st_many is_jwt_char 1) (st_seq (st_lit ''.'')
        (st_seq (st_many is_jwt_char 1) (st_seq (st_lit ''.'') (st_many is_jwt_char 1))))),
      st_seq (st_lit_ci ''bearer'') (st_seq (st_many is_space 1) (st_many is_bearer_char 8))]"

definition VALUE_PATTERNS :: "matcher list" where
  "VALUE_PATTERNS = map matcher_of VALUE_STAGES"

section \<open>The redaction\<close>

definition REDACTION_MARKER :: string where
  "REDACTION_MARKER = ''[REDACTED]''"

definition MIN_SECRET_LEN :: nat where
  "MIN_SECRET_LEN = 6"

definition SENSITIVE_KEY_PARTS :: "string list" where
  "SENSITIVE_KEY_PARTS =
     [''password'', ''passwd'', ''secret'', ''token'', ''api_key'', ''apikey'', ''access_key'',
      ''secret_key'', ''authorization'', ''credential'', ''private_key'', ''client_secret'',
      ''auth_token'']"

definition is_sensitive_key :: "string \<Rightarrow> bool" where
  "is_sensitive_key key = list_ex (\<lambda>part. contains part (lower key)) SENSITIVE_KEY_PARTS"

text \<open>The Groq key, the WebSocket token and the database password of the settings.\<close>

record secret_settings =
  groq_api_key :: "string option"
  ws_token :: "string option"
  postgres_password :: "string option"

definition known_secret_values :: "secret_settings \<Rightarrow> string list" where
  "known_secret_values st =
     filter (\<lambda>v. v \<noteq> [] \<and> MIN_SECRET_LEN \<le> length v)
       (concat (map (\<lambda>c. case c of None \<Rightarrow> [] | Some v \<Rightarrow> [v])
          [groq_api_key st, ws_token st, postgres_password st]))"

definition redact_secret :: "string \<Rightarrow> string \<Rightarrow> string" where
  "redact_secret secret v = (if contains secret v then sub_all (lit secret) REDACTION_MARKER v else v)"

definition redact_str :: "string list \<Rightarrow> string \<Rightarrow> string" where
  "redact_str secrets v =
     fold (\<lambda>m v. sub_all m REDACTION_MARKER v) VALUE_PATTERNS (fold redact_secret secrets v)"

fun redact_value :: "string list \<Rightarrow> json \<Rightarrow> json" where
  "redact_value secrets (JStr s) = JStr (redact_str secrets s)"
| "redact_value secrets (JDict kvs) =
     JDict (map (\<lambda>(k, v). (k, if is_sensitive_key k then JStr REDACTION_MARKER
                               else redact_value secrets v)) kvs)"
| "redact_value secrets (JList vs) = JList (map (redact_value secrets) vs)"
| "redact_value secrets v = v"

definition redact_payload :: "secret_settings \<Rightarrow> (string \<times> json) list \<Rightarrow> (string \<times> json) list" where
  "redact_payload st payload =
     (let secrets = known_secret_values st
      in map (\<lambda>(k, v). (k, if is_sensitive_key k then JStr REDACTION_MARKER
                           else redact_value secrets v)) payload)"

section \<open>A scan leaves no match\<close>

text \<open>
  A matcher is local when more text after a match keeps a match there, and a bracket ends every
  match.  It is marker-free when it matches nowhere inside the marker's word.
\<close>

definition bracket :: "char \<Rightarrow> bool" where
  "bracket c \<longleftrightarrow> c = CHR ''['' \<or> c = CHR '']''"

definition local_matcher :: "matcher \<Rightarrow> bool" where
  "local_matcher m \<longleftrightarrow>
     (\<forall>x z. m x \<noteq> None \<longrightarrow> m (x @ z) \<noteq> None) \<and>
     (\<forall>x b y. bracket b \<longrightarrow> m (x @ b # y) \<noteq> None \<longrightarrow> m x \<noteq> None)"

definition marker_free :: "matcher \<Rightarrow> bool" where
  "marker_free m \<longleftrightarrow> (\<forall>k. m (drop k ''REDACTED'') = None)"

definition clean :: "matcher \<Rightarrow> string \<Rightarrow> bool" where
  "clean m s \<longleftrightarrow> (\<forall>k. m (drop k s) = None)"

definition positive :: "matcher \<Rightarrow> bool" where
  "positive m \<longleftrightarrow> (\<forall>s. m s \<noteq> Some 0)"

lemma local_mono: "local_matcher m \<Longrightarrow> m x \<noteq> None \<Longrightarrow> m (x @ z) \<noteq> None"
  unfolding local_matcher_def by blast

lemma local_cut: "local_matcher m \<Longrightarrow> bracket b \<Longrightarrow> m (x @ b # y) \<noteq> None \<Longrightarrow> m x \<noteq> None"
  unfolding local_matcher_def by blast

lemma clean_Nil: "marker_free m \<Longrightarrow> clean m []"
  by (auto simp: clean_def marker_free_def dest: spec [of _ 8])

lemma clean_Cons: "clean m (c # s) \<longleftrightarrow> m (c # s) = None \<and> clean m s"
proof -
  have "(\<forall>k. m (drop k (c # s)) = None) \<longleftrightarrow> m (c # s) = None \<and> (\<forall>k. m (drop k s) = None)"
    by (metis drop_0 drop_Suc_Cons not0_implies_Suc)
  then show ?thesis by (simp add: clean_def)
qed

lemma clean_drop: "clean m s \<Longrightarrow> clean m (drop n s)"
  by (simp add: clean_def)

lemma clean_marker:
  assumes "local_matcher m" "marker_free m" "clean m s"
  shows "clean m (REDACTION_MARKER @ s)"
proof -
  have w: "m x = None \<Longrightarrow> bracket b \<Longrightarrow> m (x @ b # y) = None" for x b y
    using local_cut [OF assms(1), of b x y] by blast
  have d: "m (drop k ''REDACTED'') = None" for k using assms(2) by (simp add: marker_free_def)
  have e: "m (drop k ''REDACTED'' @ CHR '']'' # s) = None" for k
    by (rule w [OF d]) (simp add: bracket_def)
  have "m (CHR '']'' # s) = None" using e [of 8] by simp
  moreover have "m (CHR ''['' # ''REDACTED'' @ CHR '']'' # s) = None"
    using w [of "[]" "CHR ''[''" ] d [of 8] by (simp add: bracket_def)
  ultimately show ?thesis
    using e [of 0] e [of 1] e [of 2] e [of 3] e [of 4] e [of 5] e [of 6] e [of 7] assms(3)
    by (simp add: REDACTION_MARKER_def clean_Cons)
qed

text \<open>Up to the first marker, the scanned string is a prefix of the original.\<close>

lemma sub_all_Cons:
  "(\<exists>n. m (c # cs) = Some (Suc n) \<and>
        sub_all m new (c # cs) = new @ sub_all m new (drop n cs)) \<or>
   ((\<forall>n. m (c # cs) \<noteq> Some (Suc n)) \<and> sub_all m new (c # cs) = c # sub_all m new cs)"
  by (auto split: option.splits nat.splits)

lemma sub_all_prefix:
  "\<exists>x z. s = x @ z \<and> (sub_all m REDACTION_MARKER s = x \<or>
     (\<exists>y. sub_all m REDACTION_MARKER s = x @ CHR ''['' # y))"
proof (induction s)
  case Nil
  then show ?case by auto
next
  case (Cons c cs)
  from sub_all_Cons [of m c cs REDACTION_MARKER] show ?case
  proof (elim disjE exE conjE)
    fix n
    assume "sub_all m REDACTION_MARKER (c # cs) = REDACTION_MARKER @ sub_all m REDACTION_MARKER (drop n cs)"
    then have "sub_all m REDACTION_MARKER (c # cs) =
        [] @ CHR ''['' # ''REDACTED]'' @ sub_all m REDACTION_MARKER (drop n cs)"
      by (simp add: REDACTION_MARKER_def)
    then show ?thesis by blast
  next
    assume s: "sub_all m REDACTION_MARKER (c # cs) = c # sub_all m REDACTION_MARKER cs"
    from Cons obtain x z where "cs = x @ z \<and> (sub_all m REDACTION_MARKER cs = x \<or>
        (\<exists>y. sub_all m REDACTION_MARKER cs = x @ CHR ''['' # y))"
      by blast
    with s show ?thesis
      by (intro exI [of _ "c # x"] exI [of _ z]) auto
  qed
qed

lemma sub_all_head:
  assumes "local_matcher m" "m (sub_all m' REDACTION_MARKER s) \<noteq> None"
  shows "m s \<noteq> None"
proof -
  obtain x z where s: "s = x @ z" and r: "sub_all m' REDACTION_MARKER s = x \<or>
      (\<exists>y. sub_all m' REDACTION_MARKER s = x @ CHR ''['' # y)"
    using sub_all_prefix by blast
  have "m x \<noteq> None"
    using r
  proof (elim disjE exE)
    fix y assume "sub_all m' REDACTION_MARKER s = x @ CHR ''['' # y"
    with assms(2) have "m (x @ CHR ''['' # y) \<noteq> None" by simp
    then show ?thesis by (rule local_cut [OF assms(1), rotated]) (simp add: bracket_def)
  qed (use assms(2) in simp)
  with s local_mono [OF assms(1)] show ?thesis by blast
qed

lemma clean_sub_all:
  assumes "local_matcher m" "marker_free m" and "m' = m \<and> positive m \<or> clean m s"
  shows "clean m (sub_all m' REDACTION_MARKER s)"
  using assms(3)
proof (induction s rule: length_induct)
  case (1 s)
  show ?case
  proof (cases s)
    case Nil
    then show ?thesis using clean_Nil [OF assms(2)] by simp
  next
    case (Cons c cs)
    have tl: "clean m (sub_all m' REDACTION_MARKER (drop n cs))" for n
    proof -
      have "length (drop n cs) < length s" using Cons by simp
      moreover have "m' = m \<and> positive m \<or> clean m (drop n cs)"
        using "1.prems" Cons clean_drop [of m s "Suc n"] by auto
      ultimately show ?thesis using "1.IH" by blast
    qed
    from sub_all_Cons [of m' c cs REDACTION_MARKER] show ?thesis
    proof (elim disjE exE conjE)
      fix n assume "sub_all m' REDACTION_MARKER (c # cs) =
          REDACTION_MARKER @ sub_all m' REDACTION_MARKER (drop n cs)"
      with clean_marker [OF assms(1,2) tl] Cons show ?thesis by simp
    next
      assume no: "\<forall>n. m' (c # cs) \<noteq> Some (Suc n)"
        and s: "sub_all m' REDACTION_MARKER (c # cs) = c # sub_all m' REDACTION_MARKER cs"
      have "m (c # cs) = None"
      proof (cases "m' = m \<and> positive m")
        case True
        then show ?thesis using no by (metis not0_implies_Suc option.exhaust positive_def)
      next
        case False
        with "1.prems" have "clean m s" by blast
        with Cons show ?thesis by (simp add: clean_Cons)
      qed
      then have "m (sub_all m' REDACTION_MARKER (c # cs)) = None"
        using sub_all_head [OF assms(1), of m' "c # cs"] by blast
      with s tl [of 0] Cons show ?thesis by (simp add: clean_Cons)
    qed
  qed
qed

section \<open>The patterns and the secrets are local\<close>

definition local_stage :: "stage \<Rightarrow> bool" where
  "local_stage f \<longleftrightarrow> f [] = None \<and>
     (\<forall>x r z. f x = Some r \<longrightarrow> f (x @ z) \<noteq> None \<and> (r \<noteq> [] \<longrightarrow> f (x @ z) = Some (r @ z))) \<and>
     (\<forall>x b y r. bracket b \<longrightarrow> f (x @ b # y) = Some r \<longrightarrow> (\<exists>r0. f x = Some r0 \<and> r = r0 @ b # y))"

lemma local_stageD:
  assumes "local_stage f"
  shows "f [] = None" "f x = Some r \<Longrightarrow> f (x @ z) \<noteq> None"
    "f x = Some r \<Longrightarrow> r \<noteq> [] \<Longrightarrow> f (x @ z) = Some (r @ z)"
    "bracket b \<Longrightarrow> f (x @ b # y) = Some r \<Longrightarrow> \<exists>r0. f x = Some r0 \<and> r = r0 @ b # y"
  using assms unfolding local_stage_def by blast+

lemma local_stageI:
  assumes "f [] = None" "\<And>x r z. f x = Some r \<Longrightarrow> f (x @ z) \<noteq> None"
    "\<And>x r z. f x = Some r \<Longrightarrow> r \<noteq> [] \<Longrightarrow> f (x @ z) = Some (r @ z)"
    "\<And>x b y r. bracket b \<Longrightarrow> f (x @ b # y) = Some r \<Longrightarrow> \<exists>r0. f x = Some r0 \<and> r = r0 @ b # y"
  shows "local_stage f"
  using assms unfolding local_stage_def by blast

lemma local_st_seq [intro]:
  assumes f: "local_stage f" and g: "local_stage g"
  shows "local_stage (st_seq f g)"
proof (rule local_stageI)
  show "st_seq f g [] = None" using local_stageD(1) [OF f] by (simp add: st_seq_def)
next
  fix x r z assume "st_seq f g x = Some r"
  then obtain q where q: "f x = Some q" "g q = Some r" by (auto simp: st_seq_def split: option.splits)
  then have "q \<noteq> []" using local_stageD(1) [OF g] by auto
  then have "f (x @ z) = Some (q @ z)" using local_stageD(3) [OF f] q by blast
  then show "st_seq f g (x @ z) \<noteq> None" "r \<noteq> [] \<Longrightarrow> st_seq f g (x @ z) = Some (r @ z)"
    using local_stageD(2,3) [OF g q(2)] by (simp_all add: st_seq_def)
next
  fix x b y r assume b: "bracket b" and "st_seq f g (x @ b # y) = Some r"
  then obtain q where q: "f (x @ b # y) = Some q" "g q = Some r"
    by (auto simp: st_seq_def split: option.splits)
  from local_stageD(4) [OF f b q(1)] obtain q0 where q0: "f x = Some q0" "q = q0 @ b # y" by blast
  from local_stageD(4) [OF g b] q(2) q0(2) obtain r0 where "g q0 = Some r0" "r = r0 @ b # y" by blast
  with q0(1) show "\<exists>r0. st_seq f g x = Some r0 \<and> r = r0 @ b # y"
    by (auto simp: st_seq_def)
qed

lemma prefix_cut:
  assumes "b \<notin> set w" "prefix w (x @ b # y)"
  shows "prefix w x"
proof -
  from assms(2) have "prefix w x \<or> (\<exists>u. w = x @ b # u)"
    by (auto simp: prefix_def append_eq_append_conv2 Cons_eq_append_conv)
  with assms(1) show ?thesis by auto
qed

definition bracket_free :: "string \<Rightarrow> bool" where
  "bracket_free w \<longleftrightarrow> list_all (\<lambda>c. \<not> bracket c) w"

lemma bracket_freeD: "bracket_free w \<Longrightarrow> bracket b \<Longrightarrow> b \<notin> set w"
  by (auto simp: bracket_free_def list_all_iff)

lemma st_lit_Some: "st_lit w s = Some r \<longleftrightarrow> s = w @ r"
  by (auto simp: st_lit_def prefix_def)

lemma local_st_lit [intro]:
  assumes "w \<noteq> []" "bracket_free w"
  shows "local_stage (st_lit w)"
proof (rule local_stageI)
  show "st_lit w [] = None" using assms(1) by (simp add: st_lit_def)
next
  fix x r z assume "st_lit w x = Some r"
  then have "st_lit w (x @ z) = Some (r @ z)" by (simp add: st_lit_Some)
  then show "st_lit w (x @ z) \<noteq> None" "r \<noteq> [] \<Longrightarrow> st_lit w (x @ z) = Some (r @ z)" by simp_all
next
  fix x b y r assume b: "bracket b" "st_lit w (x @ b # y) = Some r"
  then have w: "x @ b # y = w @ r" by (simp add: st_lit_Some)
  then have "prefix w (x @ b # y)" unfolding prefix_def by blast
  then have "prefix w x" by (rule prefix_cut [OF bracket_freeD [OF assms(2) b(1)]])
  then obtain r0 where "x = w @ r0" by (auto simp: prefix_def)
  with w show "\<exists>r0. st_lit w x = Some r0 \<and> r = r0 @ b # y"
    unfolding st_lit_Some by auto
qed

lemma lower_append [simp]: "lower (x @ y) = lower x @ lower y"
  by (simp add: lower_def)

lemma length_lower [simp]: "length (lower x) = length x"
  by (simp add: lower_def)

lemma lower_bracket: "bracket b \<Longrightarrow> lower (b # y) = b # lower y"
  by (auto simp: bracket_def lower_def lower_char_def is_upper_def)

lemma local_st_lit_ci [intro]:
  assumes "w \<noteq> []" "bracket_free w"
  shows "local_stage (st_lit_ci w)"
proof (rule local_stageI)
  fix x b y r assume b: "bracket b" "st_lit_ci w (x @ b # y) = Some r"
  then have "prefix w (lower x @ b # lower y)" "r = drop (length w) (x @ b # y)"
    by (auto simp: st_lit_ci_def lower_bracket split: if_splits)
  then have "prefix w (lower x)" "r = drop (length w) (x @ b # y)"
    using prefix_cut bracket_freeD [OF assms(2) b(1)] by auto
  then show "\<exists>r0. st_lit_ci w x = Some r0 \<and> r = r0 @ b # y"
    using prefix_length_le [of w "lower x"] by (auto simp: st_lit_ci_def)
next
  show "st_lit_ci w [] = None" using assms by (simp add: st_lit_ci_def lower_def)
next
  fix x r z assume "st_lit_ci w x = Some r"
  then have "prefix w (lower x)" "r = drop (length w) x"
    by (auto simp: st_lit_ci_def split: if_splits)
  then show "st_lit_ci w (x @ z) \<noteq> None" "r \<noteq> [] \<Longrightarrow> st_lit_ci w (x @ z) = Some (r @ z)"
    using prefix_length_le [of w "lower x"] by (auto simp: st_lit_ci_def)
qed

lemma takeWhile_cut: "\<not> P b \<Longrightarrow> takeWhile P (x @ b # y) = takeWhile P x"
  by (induction x) auto

lemma dropWhile_cut: "\<not> P b \<Longrightarrow> dropWhile P (x @ b # y) = dropWhile P x @ b # y"
  by (induction x) auto

lemma takeWhile_longer: "length (takeWhile P x) \<le> length (takeWhile P (x @ z))"
  by (induction x) auto

lemma dropWhile_append_rest: "dropWhile P x \<noteq> [] \<Longrightarrow> dropWhile P (x @ z) = dropWhile P x @ z"
  by (induction x) auto

lemma local_st_many [intro]:
  assumes "0 < lo" "\<And>b. bracket b \<Longrightarrow> \<not> P b"
  shows "local_stage (st_many P lo)"
proof (rule local_stageI)
  fix x b y r assume "bracket b" "st_many P lo (x @ b # y) = Some r"
  then show "\<exists>r0. st_many P lo x = Some r0 \<and> r = r0 @ b # y"
    using assms(2) [of b] by (auto simp: st_many_def takeWhile_cut dropWhile_cut split: if_splits)
next
  fix x r z assume "st_many P lo x = Some r"
  then show "st_many P lo (x @ z) \<noteq> None"
    using takeWhile_longer [of P x z] by (auto simp: st_many_def split: if_splits)
next
  fix x r z assume "st_many P lo x = Some r" "r \<noteq> []"
  then show "st_many P lo (x @ z) = Some (r @ z)"
    using takeWhile_longer [of P x z] dropWhile_append_rest [of P x z]
    by (auto simp: st_many_def split: if_splits)
qed (use assms(1) in \<open>simp add: st_many_def\<close>)

lemma local_st_exactly [intro]:
  assumes "0 < n" "\<And>b. bracket b \<Longrightarrow> \<not> P b"
  shows "local_stage (st_exactly P n)"
proof (rule local_stageI)
  fix x b y r assume "bracket b" "st_exactly P n (x @ b # y) = Some r"
  then show "\<exists>r0. st_exactly P n x = Some r0 \<and> r = r0 @ b # y"
    using assms(2) [of b] length_takeWhile_le [of P x]
    by (auto simp: st_exactly_def takeWhile_cut split: if_splits)
next
  fix x r z assume "st_exactly P n x = Some r"
  then have "n \<le> length (takeWhile P (x @ z))" "n \<le> length x" "r = drop n x"
    using takeWhile_longer [of P x z] length_takeWhile_le [of P x]
    by (auto simp: st_exactly_def split: if_splits)
  then show "st_exactly P n (x @ z) \<noteq> None" "r \<noteq> [] \<Longrightarrow> st_exactly P n (x @ z) = Some (r @ z)"
    by (auto simp: st_exactly_def)
qed (use assms(1) in \<open>simp add: st_exactly_def\<close>)

lemma local_matcher_of: 
  assumes "local_stage f"
  shows "local_matcher (matcher_of f)"
proof -
  have iff: "matcher_of f s \<noteq> None \<longleftrightarrow> f s \<noteq> None" for s
    by (simp add: matcher_of_def split: option.splits)
  show ?thesis
    unfolding local_matcher_def iff
    using local_stageD(2,4) [OF assms] by blast
qed

lemma bracket_classes [simp]:
  "bracket b \<Longrightarrow> \<not> is_alnum b" "bracket b \<Longrightarrow> \<not> is_aws_char b" "bracket b \<Longrightarrow> \<not> is_jwt_char b"
  "bracket b \<Longrightarrow> \<not> is_bearer_char b" "bracket b \<Longrightarrow> \<not> is_space b"
  by (auto simp: bracket_def is_alnum_def is_upper_def is_lower_def is_digit_def is_aws_char_def
      is_jwt_char_def is_bearer_char_def is_space_def)

lemma VALUE_STAGES_local: "list_all local_stage VALUE_STAGES"
  unfolding VALUE_STAGES_def list.pred_inject
  by (intro conjI local_st_seq local_st_lit local_st_lit_ci local_st_many local_st_exactly;
      simp add: bracket_free_def bracket_def)

lemma VALUE_PATTERNS_local: "m \<in> set VALUE_PATTERNS \<Longrightarrow> local_matcher m"
  using VALUE_STAGES_local by (auto simp: VALUE_PATTERNS_def list_all_iff local_matcher_of)

lemma all_marker_suffixes:
  "(\<forall>k. P (drop k ''REDACTED'')) \<longleftrightarrow>
   P ''REDACTED'' \<and> P ''EDACTED'' \<and> P ''DACTED'' \<and> P ''ACTED'' \<and> P ''CTED'' \<and> P ''TED'' \<and>
   P ''ED'' \<and> P ''D'' \<and> P []"
proof -
  have "P (drop k ''REDACTED'')" if "P ''REDACTED''" "P ''EDACTED''" "P ''DACTED''" "P ''ACTED''"
    "P ''CTED''" "P ''TED''" "P ''ED''" "P ''D''" "P []" for k
  proof -
    consider "k = 0" | "k = 1" | "k = 2" | "k = 3" | "k = 4" | "k = 5" | "k = 6" | "k = 7" | "8 \<le> k"
      by linarith
    then show ?thesis using that by cases (simp_all add: numeral_eq_Suc)
  qed
  then show ?thesis
    by (intro iffI) (auto dest: spec [of _ "0::nat"] spec [of _ "1::nat"] spec [of _ "2::nat"]
        spec [of _ "3::nat"] spec [of _ "4::nat"] spec [of _ "5::nat"] spec [of _ "6::nat"]
        spec [of _ "7::nat"] spec [of _ "8::nat"])
qed

lemma VALUE_PATTERNS_marker_free: "m \<in> set VALUE_PATTERNS \<Longrightarrow> marker_free m"
  unfolding marker_free_def
  by (subst all_marker_suffixes) (auto simp: VALUE_PATTERNS_def VALUE_STAGES_def matcher_of_def st_seq_def st_lit_def
      st_lit_ci_def lower_def lower_char_def is_upper_def)

definition consuming :: "stage \<Rightarrow> bool" where
  "consuming f \<longleftrightarrow> (\<forall>x r. f x = Some r \<longrightarrow> length r < length x)"

lemma consuming_stages [intro]:
  "consuming f \<Longrightarrow> consuming g \<Longrightarrow> consuming (st_seq f g)"
  "w \<noteq> [] \<Longrightarrow> consuming (st_lit w)"
  "w \<noteq> [] \<Longrightarrow> consuming (st_lit_ci w)"
  "0 < lo \<Longrightarrow> consuming (st_many P lo)"
  "0 < n \<Longrightarrow> consuming (st_exactly P n)"
proof -
  show "consuming f \<Longrightarrow> consuming g \<Longrightarrow> consuming (st_seq f g)"
    by (fastforce simp: consuming_def st_seq_def split: option.splits)
  show "w \<noteq> [] \<Longrightarrow> consuming (st_lit w)"
    by (auto simp: consuming_def st_lit_Some)
  show "w \<noteq> [] \<Longrightarrow> consuming (st_lit_ci w)"
  proof -
    assume "w \<noteq> []"
    then have "prefix w (lower x) \<Longrightarrow> x \<noteq> []" for x by (auto simp: lower_def)
    with \<open>w \<noteq> []\<close> show ?thesis
      by (fastforce simp: consuming_def st_lit_ci_def split: if_splits)
  qed
  have "length (dropWhile P x) < length x" if "0 < lo" "lo \<le> length (takeWhile P x)" for x
    using that by (cases x) (auto simp: length_dropWhile_le le_imp_less_Suc split: if_splits)
  then show "0 < lo \<Longrightarrow> consuming (st_many P lo)"
    by (auto simp: consuming_def st_many_def split: if_splits)
  have "length (drop n x) < length x" if "0 < n" "n \<le> length (takeWhile P x)" for x
    using that length_takeWhile_le [of P x] by simp
  then show "0 < n \<Longrightarrow> consuming (st_exactly P n)"
    by (auto simp: consuming_def st_exactly_def split: if_splits)
qed

lemma VALUE_STAGES_consuming: "list_all consuming VALUE_STAGES"
  unfolding VALUE_STAGES_def list.pred_inject
  by (intro conjI consuming_stages; simp)

lemma VALUE_PATTERNS_positive: "m \<in> set VALUE_PATTERNS \<Longrightarrow> positive m"
  using VALUE_STAGES_consuming
  by (fastforce simp: VALUE_PATTERNS_def list_all_iff positive_def matcher_of_def consuming_def
      split: option.splits)

section \<open>What the redaction guarantees\<close>

text \<open>A secret the marker cannot be confused with: no bracket in it, and not a part of the
  marker's word.\<close>

definition secret_ok :: "string \<Rightarrow> bool" where
  "secret_ok w \<longleftrightarrow> w \<noteq> [] \<and> bracket_free w \<and> \<not> contains w ''REDACTED''"

lemma clean_lit: "clean (lit w) s \<longleftrightarrow> \<not> contains w s"
  by (auto simp: clean_def lit_def contains_drop)

lemma secret_ok_matcher:
  assumes "secret_ok w"
  shows "local_matcher (lit w)" "marker_free (lit w)" "positive (lit w)"
proof -
  have "local_matcher (matcher_of (st_lit w))"
    using assms by (intro local_matcher_of local_st_lit) (simp_all add: secret_ok_def)
  moreover have "matcher_of (st_lit w) = lit w"
    by (auto simp: fun_eq_iff matcher_of_def st_lit_def lit_def dest: prefix_length_le)
  ultimately show "local_matcher (lit w)" by simp
  show "marker_free (lit w)"
    using assms by (auto simp: marker_free_def lit_def secret_ok_def contains_drop)
  show "positive (lit w)"
    using assms by (simp add: positive_def lit_def secret_ok_def)
qed

lemma clean_redact_secret:
  "local_matcher m \<Longrightarrow> marker_free m \<Longrightarrow> clean m s \<Longrightarrow> clean m (redact_secret w s)"
  by (simp add: redact_secret_def clean_sub_all)

lemma clean_fold_secrets:
  "local_matcher m \<Longrightarrow> marker_free m \<Longrightarrow> clean m s \<Longrightarrow> clean m (fold redact_secret ws s)"
  by (induction ws arbitrary: s) (simp_all add: clean_redact_secret)

lemma clean_fold_subs:
  "local_matcher m \<Longrightarrow> marker_free m \<Longrightarrow> clean m s \<Longrightarrow>
   clean m (fold (\<lambda>m v. sub_all m REDACTION_MARKER v) ms s)"
  by (induction ms arbitrary: s) (simp_all add: clean_sub_all)

lemma fold_secrets_clean:
  assumes "list_all secret_ok ws" "w \<in> set ws"
  shows "clean (lit w) (fold redact_secret ws s)"
  using assms
proof (induction ws arbitrary: s)
  case (Cons a ws)
  show ?case
  proof (cases "w = a")
    case True
    then have ok: "secret_ok w" using Cons.prems by simp
    have "clean (lit w) (redact_secret w s)"
      using clean_sub_all [of "lit w" "lit w" s] secret_ok_matcher [OF ok]
      by (auto simp: redact_secret_def clean_lit)
    then show ?thesis
      using True clean_fold_secrets secret_ok_matcher [OF ok] by simp
  qed (use Cons in auto)
qed simp

lemma fold_subs_clean:
  assumes "\<And>m. m \<in> set ms \<Longrightarrow> local_matcher m \<and> marker_free m \<and> positive m" "m \<in> set ms"
  shows "clean m (fold (\<lambda>m v. sub_all m REDACTION_MARKER v) ms s)"
  using assms
proof (induction ms arbitrary: s)
  case (Cons a ms)
  show ?case
  proof (cases "m = a")
    case True
    then show ?thesis
      using Cons.prems(1) [of m] clean_fold_subs [of m] clean_sub_all [of m m s] by simp
  qed (use Cons in auto)
qed simp

text \<open>A string in which no secret and no credential pattern is found anywhere.\<close>

definition scrubbed :: "string list \<Rightarrow> string \<Rightarrow> bool" where
  "scrubbed secrets v \<longleftrightarrow>
     (\<forall>w \<in> set secrets. \<not> contains w v) \<and> (\<forall>m \<in> set VALUE_PATTERNS. \<forall>k. m (drop k v) = None)"

lemma scrubbed_redact_str:
  assumes "list_all secret_ok secrets"
  shows "scrubbed secrets (redact_str secrets v)"
proof -
  have "clean (lit w) (redact_str secrets v)" if "w \<in> set secrets" for w
    unfolding redact_str_def
    using that assms secret_ok_matcher [of w]
    by (intro clean_fold_subs fold_secrets_clean) (auto simp: list_all_iff)
  moreover have "clean m (redact_str secrets v)" if "m \<in> set VALUE_PATTERNS" for m
    unfolding redact_str_def
    using that VALUE_PATTERNS_local VALUE_PATTERNS_marker_free VALUE_PATTERNS_positive
    by (intro fold_subs_clean) auto
  ultimately show ?thesis
    by (auto simp: scrubbed_def clean_lit simp flip: clean_def)
qed

lemma sub_all_clean: "clean m s \<Longrightarrow> sub_all m new s = s"
  by (induction s) (auto simp: clean_Cons)

lemma redact_str_scrubbed: "scrubbed secrets v \<Longrightarrow> redact_str secrets v = v"
proof -
  assume v: "scrubbed secrets v"
  then have "fold redact_secret ws v = v" if "set ws \<subseteq> set secrets" for ws
    using that by (induction ws) (auto simp: redact_secret_def scrubbed_def)
  moreover have "fold (\<lambda>m v. sub_all m REDACTION_MARKER v) ms v = v" if "set ms \<subseteq> set VALUE_PATTERNS" for ms
    using that v by (induction ms) (auto simp: scrubbed_def sub_all_clean simp flip: clean_def)
  ultimately show ?thesis by (simp add: redact_str_def)
qed

text \<open>
  What a JSON value exposes: its strings at any depth, and the values under sensitive keys.
\<close>

fun scrubbed_json :: "string list \<Rightarrow> json \<Rightarrow> bool" where
  "scrubbed_json secrets (JStr s) = scrubbed secrets s"
| "scrubbed_json secrets (JDict kvs) =
     list_all (\<lambda>(k, v). if is_sensitive_key k then v = JStr REDACTION_MARKER
                        else scrubbed_json secrets v) kvs"
| "scrubbed_json secrets (JList vs) = list_all (scrubbed_json secrets) vs"
| "scrubbed_json secrets v = True"

lemma scrubbed_redact_value:
  "list_all secret_ok secrets \<Longrightarrow> scrubbed_json secrets (redact_value secrets v)"
  by (induction secrets v rule: redact_value.induct)
     (auto simp: scrubbed_redact_str list_all_iff)

lemma redact_value_scrubbed: "scrubbed_json secrets v \<Longrightarrow> redact_value secrets v = v"
proof (induction secrets v rule: redact_value.induct)
  case (2 secrets kvs)
  then have "map (\<lambda>(k, v). (k, if is_sensitive_key k then JStr REDACTION_MARKER
      else redact_value secrets v)) kvs = map (\<lambda>x. x) kvs"
    by (intro map_cong) (fastforce simp: list_all_iff)+
  then show ?case by simp
next
  case (3 secrets vs)
  then have "map (redact_value secrets) vs = map (\<lambda>x. x) vs"
    by (intro map_cong) (auto simp: list_all_iff)
  then show ?case by simp
qed (simp_all add: redact_str_scrubbed)

lemma redact_payload_json:
  "JDict (redact_payload st payload) = redact_value (known_secret_values st) (JDict payload)"
  by (simp add: redact_payload_def Let_def)

section \<open>Properties\<close>


definition demo_secrets :: secret_settings where
  "demo_secrets = \<lparr>groq_api_key = None, ws_token = Some ''hunter22'', postgres_password = Some ''pw''\<rparr>"


end
