(* ===== verification/Workspace.thy ===== *)
theory Workspace
  imports Redaction "HOL-Library.Multiset_Order"
begin

text \<open>
  \<^verbatim>\<open>brain/workspace.py\<close> and \<^verbatim>\<open>brain/agents/base.py\<close>: the bus (persisted log, published
  messages, subscribers, dispatch and the listener loop), the blackboard, and the registry that
  wires agents to the bus.

  The pub/sub channel is the list of messages the listener has not read yet (Redis delivers a
  channel's messages in the order they were published; a message is the event, since
  \<^verbatim>\<open>model_dump_json\<close> and \<^verbatim>\<open>model_validate_json\<close> are inverse on it).  The log is the list of
  the rows of \<^verbatim>\<open>workspace_event\<close>, the row with id \<open>n\<close> at place \<open>n - 1\<close>.  A handler is a
  reference (a natural number, the identity of a bound method); what it does is the parameter
  \<open>hnd\<close>, which also threads the state of the handlers.
\<close>

section \<open>Events and items\<close>

record ws_event =
  ev_id :: "nat option"
  ev_ts :: "real option"
  ev_module :: string
  ev_type :: string
  ev_payload :: "(string \<times> json) list"
  ev_hops :: nat

record ws_item =
  wi_id :: string
  wi_kind :: string
  wi_content :: string
  wi_salience :: real
  wi_source :: string
  wi_metadata :: "(string \<times> json) list"

text \<open>A row of \<^verbatim>\<open>workspace_event\<close>; the two name columns are \<^verbatim>\<open>VARCHAR(64)\<close>.\<close>

record ws_row =
  wr_id :: nat
  wr_ts :: real
  wr_module :: string
  wr_type :: string
  wr_payload :: "(string \<times> json) list"

definition NAME_COLUMN :: nat where "NAME_COLUMN = 64"

definition DEFAULT_MAX_HOPS :: nat where "DEFAULT_MAX_HOPS = 8"

section \<open>The workspace\<close>

text \<open>\<open>wk_now n\<close> is the clock's reading when the event after \<open>n\<close> rows is broadcast.\<close>

record workspace =
  wk_secrets :: secret_settings
  wk_max_hops :: nat
  wk_now :: "nat \<Rightarrow> real"
  wk_log :: "ws_row list"
  wk_channel :: "ws_event list"
  wk_subs :: "(string \<times> nat list) list"
  wk_contents :: "ws_item list option"

definition persist_event :: "ws_event \<Rightarrow> workspace \<Rightarrow> (workspace \<times> ws_event) res" where
  "persist_event ev w =
     (if NAME_COLUMN < length (ev_module ev) \<or> NAME_COLUMN < length (ev_type ev)
      then Inl (OtherError ''DataError'')
      else let n = Suc (length (wk_log w));
               ts = (case ev_ts ev of Some t \<Rightarrow> t | None \<Rightarrow> wk_now w (length (wk_log w)))
           in Inr (w\<lparr>wk_log := wk_log w @ [\<lparr>wr_id = n, wr_ts = ts, wr_module = ev_module ev,
                                            wr_type = ev_type ev, wr_payload = ev_payload ev\<rparr>]\<rparr>,
                   ev\<lparr>ev_id := Some n, ev_ts := Some ts\<rparr>))"

definition publish_event :: "ws_event \<Rightarrow> workspace \<Rightarrow> workspace" where
  "publish_event ev w = w\<lparr>wk_channel := wk_channel w @ [ev]\<rparr>"

definition broadcast :: "ws_event \<Rightarrow> workspace \<Rightarrow> (workspace \<times> ws_event) res" where
  "broadcast ev w =
     (let stamped = (if ev_ts ev \<noteq> None then ev
                     else ev\<lparr>ev_ts := Some (wk_now w (length (wk_log w)))\<rparr>);
          safe = stamped\<lparr>ev_payload := redact_payload (wk_secrets w) (ev_payload stamped)\<rparr>
      in ok_bind (persist_event safe w)
           (\<lambda>(w', persisted). Inr (publish_event persisted w', persisted)))"

definition subscribe :: "string \<Rightarrow> nat \<Rightarrow> workspace \<Rightarrow> workspace" where
  "subscribe ty h w = w\<lparr>wk_subs := dict_put ty (dict_get (wk_subs w) ty [] @ [h]) (wk_subs w)\<rparr>"

definition unsubscribe :: "string \<Rightarrow> nat \<Rightarrow> workspace \<Rightarrow> workspace" where
  "unsubscribe ty h w =
     (case map_of (wk_subs w) ty of
        None \<Rightarrow> w
      | Some hs \<Rightarrow> if hs \<noteq> [] \<and> h \<in> set hs
                  then w\<lparr>wk_subs := dict_put ty (remove1 h hs) (wk_subs w)\<rparr> else w)"

definition handlers_for :: "string \<Rightarrow> workspace \<Rightarrow> nat list" where
  "handlers_for ty w = dict_get (wk_subs w) ty [] @ dict_get (wk_subs w) ''*'' []"

text \<open>A handler raises, or returns its emissions (\<^verbatim>\<open>None\<close> and the empty sequence alike).\<close>

type_synonym 's handlers = "nat \<Rightarrow> ws_event \<Rightarrow> 's \<Rightarrow> 's \<times> ws_event list res"

fun broadcast_all :: "nat \<Rightarrow> ws_event list \<Rightarrow> workspace \<Rightarrow> workspace res" where
  "broadcast_all hops [] w = Inr w"
| "broadcast_all hops (out # outs) w =
     ok_bind (broadcast (out\<lparr>ev_hops := hops + 1\<rparr>) w) (\<lambda>(w', _). broadcast_all hops outs w')"

fun dispatch_to :: "'s handlers \<Rightarrow> ws_event \<Rightarrow> nat list \<Rightarrow> workspace \<Rightarrow> 's \<Rightarrow> (workspace \<times> 's) res" where
  "dispatch_to hnd ev [] w s = Inr (w, s)"
| "dispatch_to hnd ev (h # hs) w s =
     (case hnd h ev s of
        (s', Inl _) \<Rightarrow> dispatch_to hnd ev hs w s'
      | (s', Inr emitted) \<Rightarrow>
          if emitted = [] then dispatch_to hnd ev hs w s'
          else if wk_max_hops w \<le> ev_hops ev then dispatch_to hnd ev hs w s'
          else ok_bind (broadcast_all (ev_hops ev) emitted w)
                 (\<lambda>w'. dispatch_to hnd ev hs w' s'))"

definition dispatch :: "'s handlers \<Rightarrow> ws_event \<Rightarrow> workspace \<Rightarrow> 's \<Rightarrow> (workspace \<times> 's) res" where
  "dispatch hnd ev w s = dispatch_to hnd ev (handlers_for (ev_type ev) w) w s"

text \<open>
  One turn of the listener: read the next message, dispatch it.  \<open>listen\<close> runs turns until the
  channel is empty; it is \<open>None\<close> when the fuel does not suffice.
\<close>

definition listen_turn :: "'s handlers \<Rightarrow> workspace \<Rightarrow> 's \<Rightarrow> (workspace \<times> 's) res" where
  "listen_turn hnd w s =
     (case wk_channel w of
        [] \<Rightarrow> Inr (w, s)
      | ev # rest \<Rightarrow> dispatch hnd ev (w\<lparr>wk_channel := rest\<rparr>) s)"

fun listen :: "nat \<Rightarrow> 's handlers \<Rightarrow> workspace \<Rightarrow> 's \<Rightarrow> (workspace \<times> 's) res option" where
  "listen 0 hnd w s = (if wk_channel w = [] then Some (Inr (w, s)) else None)"
| "listen (Suc n) hnd w s =
     (if wk_channel w = [] then Some (Inr (w, s))
      else case listen_turn hnd w s of
             Inl e \<Rightarrow> Some (Inl e)
           | Inr (w', s') \<Rightarrow> listen n hnd w' s')"

section \<open>The blackboard\<close>

definition set_contents :: "ws_item list \<Rightarrow> workspace \<Rightarrow> workspace" where
  "set_contents items w = w\<lparr>wk_contents := Some items\<rparr>"

definition contents :: "workspace \<Rightarrow> ws_item list" where
  "contents w = (case wk_contents w of None \<Rightarrow> [] | Some items \<Rightarrow> sort_desc wi_salience items)"

definition clear_contents :: "workspace \<Rightarrow> workspace" where
  "clear_contents w = w\<lparr>wk_contents := None\<rparr>"

section \<open>The registry\<close>

record agent =
  ag_name :: string
  ag_subscribes_to :: "string list"
  ag_handle :: nat

record registry =
  rg_agents :: "(string \<times> agent) list"
  rg_attached :: bool

definition wire :: "agent \<Rightarrow> workspace \<Rightarrow> workspace" where
  "wire a w = fold (\<lambda>ty. subscribe ty (ag_handle a)) (ag_subscribes_to a) w"

definition unwire :: "agent \<Rightarrow> workspace \<Rightarrow> workspace" where
  "unwire a w = fold (\<lambda>ty. unsubscribe ty (ag_handle a)) (ag_subscribes_to a) w"

definition register :: "agent \<Rightarrow> registry \<Rightarrow> workspace \<Rightarrow> (registry \<times> workspace) res" where
  "register a r w =
     (if ag_name a \<in> set (map fst (rg_agents r)) then Inl ValueError
      else Inr (r\<lparr>rg_agents := dict_put (ag_name a) a (rg_agents r)\<rparr>,
                if rg_attached r then wire a w else w))"

definition unregister :: "string \<Rightarrow> registry \<Rightarrow> workspace \<Rightarrow> registry \<times> workspace" where
  "unregister n r w =
     (case map_of (rg_agents r) n of
        None \<Rightarrow> (r, w)
      | Some a \<Rightarrow> (r\<lparr>rg_agents := dict_del n (rg_agents r)\<rparr>, if rg_attached r then unwire a w else w))"

definition attach :: "registry \<Rightarrow> workspace \<Rightarrow> registry \<times> workspace" where
  "attach r w = (r\<lparr>rg_attached := True\<rparr>, fold (\<lambda>(n, a). wire a) (rg_agents r) w)"

definition registry_get :: "string \<Rightarrow> registry \<Rightarrow> agent res" where
  "registry_get n r = (case map_of (rg_agents r) n of None \<Rightarrow> Inl KeyError | Some a \<Rightarrow> Inr a)"

section \<open>What broadcasting does\<close>

text \<open>A broadcast appends one row and one message, and touches nothing else.\<close>

lemma broadcast_effect:
  assumes "broadcast ev w = Inr (w', out)"
  shows "\<exists>row. w' = w\<lparr>wk_log := wk_log w @ [row], wk_channel := wk_channel w @ [out]\<rparr> \<and>
           wr_id row = Suc (length (wk_log w)) \<and> ev_id out = Some (wr_id row) \<and>
           ev_ts out = Some (wr_ts row) \<and> ev_module out = wr_module row \<and>
           ev_type out = wr_type row \<and> ev_payload out = wr_payload row \<and>
           ev_payload out = redact_payload (wk_secrets w) (ev_payload ev) \<and> ev_hops out = ev_hops ev"
  using assms
  by (auto simp: broadcast_def persist_event_def publish_event_def Let_def ok_bind_def
      split: if_splits option.splits)

lemma broadcast_all_effect:
  assumes "broadcast_all hops outs w = Inr w'"
  shows "\<exists>rows evs. w' = w\<lparr>wk_log := wk_log w @ rows, wk_channel := wk_channel w @ evs\<rparr> \<and>
           (\<forall>e \<in> set evs. ev_hops e = hops + 1)"
  using assms
proof (induction outs arbitrary: w)
  case Nil
  then show ?case by (intro exI [of _ "[]"]) simp
next
  case (Cons out outs)
  then obtain w1 e1 where b: "broadcast (out\<lparr>ev_hops := hops + 1\<rparr>) w = Inr (w1, e1)"
    and r: "broadcast_all hops outs w1 = Inr w'"
    by (auto simp: ok_bind_Inr_iff)
  from broadcast_effect [OF b] obtain row where
    w1: "w1 = w\<lparr>wk_log := wk_log w @ [row], wk_channel := wk_channel w @ [e1]\<rparr>" "ev_hops e1 = hops + 1"
    by auto
  from Cons.IH [OF r] obtain rows evs where
    "w' = w1\<lparr>wk_log := wk_log w1 @ rows, wk_channel := wk_channel w1 @ evs\<rparr>"
    "\<forall>e \<in> set evs. ev_hops e = hops + 1" by blast
  with w1 show ?case by (intro exI [of _ "row # rows"] exI [of _ "e1 # evs"]) auto
qed

lemma dispatch_to_effect:
  assumes "dispatch_to hnd ev hs w s = Inr (w', s')"
  shows "\<exists>rows evs. w' = w\<lparr>wk_log := wk_log w @ rows, wk_channel := wk_channel w @ evs\<rparr> \<and>
           (\<forall>e \<in> set evs. ev_hops e = ev_hops ev + 1) \<and> (wk_max_hops w \<le> ev_hops ev \<longrightarrow> evs = [])"
  using assms
proof (induction hs arbitrary: w s)
  case Nil
  then show ?case by (intro exI [of _ "[]"]) simp
next
  case (Cons h hs)
  obtain s1 r where h: "hnd h ev s = (s1, r)" by (cases "hnd h ev s")
  show ?case
  proof (cases "\<exists>em. r = Inr em \<and> em \<noteq> [] \<and> ev_hops ev < wk_max_hops w")
    case True
    then obtain em where em: "r = Inr em" "em \<noteq> []" "ev_hops ev < wk_max_hops w" by blast
    with Cons.prems h obtain w1 where b: "broadcast_all (ev_hops ev) em w = Inr w1"
      and d: "dispatch_to hnd ev hs w1 s1 = Inr (w', s')"
      by (auto simp: ok_bind_Inr_iff split: if_splits)
    from broadcast_all_effect [OF b] obtain r1 e1 where
      1: "w1 = w\<lparr>wk_log := wk_log w @ r1, wk_channel := wk_channel w @ e1\<rparr>"
         "\<forall>e \<in> set e1. ev_hops e = ev_hops ev + 1" by blast
    from Cons.IH [OF d] obtain r2 e2 where
      2: "w' = w1\<lparr>wk_log := wk_log w1 @ r2, wk_channel := wk_channel w1 @ e2\<rparr>"
         "\<forall>e \<in> set e2. ev_hops e = ev_hops ev + 1" by blast
    from 1 2 em(3) show ?thesis by (intro exI [of _ "r1 @ r2"] exI [of _ "e1 @ e2"]) auto
  next
    case False
    then have "dispatch_to hnd ev hs w s1 = Inr (w', s')"
      using Cons.prems h by (auto split: sum.splits if_splits simp: not_le)
    then show ?thesis by (rule Cons.IH)
  qed
qed

lemma dispatch_effect:
  assumes "dispatch hnd ev w s = Inr (w', s')"
  shows "\<exists>rows evs. w' = w\<lparr>wk_log := wk_log w @ rows, wk_channel := wk_channel w @ evs\<rparr> \<and>
           (\<forall>e \<in> set evs. ev_hops e = ev_hops ev + 1) \<and> (wk_max_hops w \<le> ev_hops ev \<longrightarrow> evs = [])"
  using assms unfolding dispatch_def by (rule dispatch_to_effect)

section \<open>The listener drains the bus\<close>

definition hop_budget :: "workspace \<Rightarrow> nat multiset" where
  "hop_budget w = mset (map (\<lambda>e. Suc (wk_max_hops w) - ev_hops e) (wk_channel w))"

lemma listen_turn_effect:
  assumes "listen_turn hnd w s = Inr (w', s')" "wk_channel w \<noteq> []"
  shows "hop_budget w' < hop_budget w \<and> prefix (wk_log w) (wk_log w')"
proof -
  obtain ev rest where c: "wk_channel w = ev # rest" using assms(2) by (cases "wk_channel w") auto
  with assms(1) have "dispatch hnd ev (w\<lparr>wk_channel := rest\<rparr>) s = Inr (w', s')"
    by (simp add: listen_turn_def)
  from dispatch_effect [OF this] obtain rows evs where
    w': "w' = w\<lparr>wk_log := wk_log w @ rows, wk_channel := rest @ evs\<rparr>"
    and hops: "\<forall>e \<in> set evs. ev_hops e = ev_hops ev + 1"
    and cap: "wk_max_hops w \<le> ev_hops ev \<longrightarrow> evs = []"
    by auto
  let ?f = "\<lambda>e. Suc (wk_max_hops w) - ev_hops e"
  have "\<forall>k \<in># mset (map ?f evs). k < ?f ev"
    using hops cap by (cases "wk_max_hops w \<le> ev_hops ev") auto
  then have "mset (map ?f evs) < {#?f ev#}"
    by (intro ex_gt_imp_less_multiset) auto
  then have "hop_budget w' < hop_budget w"
    by (simp add: hop_budget_def w' c add_mset_add_single [of _ "mset (map ?f rest)"])
  with w' show ?thesis by simp
qed

definition names_ok :: "'s handlers \<Rightarrow> bool" where
  "names_ok hnd \<longleftrightarrow> (\<forall>h ev s s' em. hnd h ev s = (s', Inr em) \<longrightarrow>
     list_all (\<lambda>e. length (ev_module e) \<le> NAME_COLUMN \<and> length (ev_type e) \<le> NAME_COLUMN) em)"

lemma broadcast_total:
  "length (ev_module ev) \<le> NAME_COLUMN \<Longrightarrow> length (ev_type ev) \<le> NAME_COLUMN \<Longrightarrow>
   \<exists>w' out. broadcast ev w = Inr (w', out)"
  by (simp add: broadcast_def persist_event_def Let_def)

lemma broadcast_all_total:
  "list_all (\<lambda>e. length (ev_module e) \<le> NAME_COLUMN \<and> length (ev_type e) \<le> NAME_COLUMN) em \<Longrightarrow>
   \<exists>w'. broadcast_all hops em w = Inr w'"
proof (induction em arbitrary: w)
  case (Cons e em)
  then obtain w1 out where "broadcast (e\<lparr>ev_hops := hops + 1\<rparr>) w = Inr (w1, out)"
    using broadcast_total [of "e\<lparr>ev_hops := hops + 1\<rparr>" w] by auto
  with Cons show ?case by simp
qed simp

lemma dispatch_to_total: "names_ok hnd \<Longrightarrow> \<exists>w' s'. dispatch_to hnd ev hs w s = Inr (w', s')"
proof (induction hs arbitrary: w s)
  case (Cons h hs)
  obtain s1 r where h: "hnd h ev s = (s1, r)" by (cases "hnd h ev s")
  show ?case
  proof (cases r)
    case (Inr em)
    then obtain w1 where "broadcast_all (ev_hops ev) em w = Inr w1"
      using broadcast_all_total Cons.prems h unfolding names_ok_def by blast
    with Inr h Cons show ?thesis by simp
  qed (use h Cons in simp)
qed simp

lemma listen_turn_total: "names_ok hnd \<Longrightarrow> \<exists>w' s'. listen_turn hnd w s = Inr (w', s')"
  by (auto simp: listen_turn_def dispatch_def dispatch_to_total split: list.splits)

lemma listen_drains:
  "\<exists>n r. listen n hnd w s = Some r \<and>
     (\<forall>w' s'. r = Inr (w', s') \<longrightarrow> wk_channel w' = [] \<and> prefix (wk_log w) (wk_log w')) \<and>
     (names_ok hnd \<longrightarrow> (\<exists>w' s'. r = Inr (w', s')))"
proof (induction "hop_budget w" arbitrary: w s rule: less_induct)
  case less
  show ?case
  proof (cases "wk_channel w = []")
    case True
    then show ?thesis by (intro exI [of _ 0]) simp
  next
    case False
    show ?thesis
    proof (cases "listen_turn hnd w s")
      case (Inl e)
      then have "listen 1 hnd w s = Some (Inl e)" using False by simp
      moreover have "\<not> names_ok hnd" using listen_turn_total [of hnd w s] Inl by auto
      ultimately show ?thesis by blast
    next
      case (Inr p)
      then obtain w1 s1 where t: "listen_turn hnd w s = Inr (w1, s1)" by (cases p) auto
      note eff = listen_turn_effect [OF t False]
      from less [of w1 s1] eff obtain n r where r: "listen n hnd w1 s1 = Some r"
        "\<forall>w' s'. r = Inr (w', s') \<longrightarrow> wk_channel w' = [] \<and> prefix (wk_log w1) (wk_log w')"
        "names_ok hnd \<longrightarrow> (\<exists>w' s'. r = Inr (w', s'))" by blast
      have "listen (Suc n) hnd w s = Some r" using False t r(1) by simp
      with r eff show ?thesis by (blast intro: prefix_order.trans)
    qed
  qed
qed

section \<open>Persist, then publish\<close>

text \<open>Rows are numbered in order; every message still on the channel is the event of a row,
  with the payload that row has.\<close>

definition bus_ok :: "workspace \<Rightarrow> bool" where
  "bus_ok w \<longleftrightarrow>
     (\<forall>i < length (wk_log w). wr_id (wk_log w ! i) = Suc i) \<and>
     (\<forall>row \<in> set (wk_log w). \<exists>p. wr_payload row = redact_payload (wk_secrets w) p) \<and>
     (\<forall>e \<in> set (wk_channel w). \<exists>row \<in> set (wk_log w).
        ev_id e = Some (wr_id row) \<and> ev_ts e = Some (wr_ts row) \<and> ev_module e = wr_module row \<and>
        ev_type e = wr_type row \<and> ev_payload e = wr_payload row)"

lemma bus_ok_broadcast:
  assumes "bus_ok w" "broadcast ev w = Inr (w', out)"
  shows "bus_ok w'"
proof -
  from broadcast_effect [OF assms(2)] obtain row where
    w': "w' = w\<lparr>wk_log := wk_log w @ [row], wk_channel := wk_channel w @ [out]\<rparr>"
    "wr_id row = Suc (length (wk_log w))" "ev_id out = Some (wr_id row)"
    "ev_ts out = Some (wr_ts row)" "ev_module out = wr_module row" "ev_type out = wr_type row"
    "ev_payload out = wr_payload row"
    "ev_payload out = redact_payload (wk_secrets w) (ev_payload ev)" by blast
  have "\<forall>e \<in> set (wk_channel w'). \<exists>row \<in> set (wk_log w').
        ev_id e = Some (wr_id row) \<and> ev_ts e = Some (wr_ts row) \<and> ev_module e = wr_module row \<and>
        ev_type e = wr_type row \<and> ev_payload e = wr_payload row"
    using assms(1) w' by (auto simp: bus_ok_def)
  moreover have "wr_payload row = redact_payload (wk_secrets w) (ev_payload ev)"
    using w'(7,8) by (rule subst)
  then have "\<exists>p. wr_payload row = redact_payload (wk_secrets w) p" by blast
  then have "\<forall>r \<in> set (wk_log w'). \<exists>p. wr_payload r = redact_payload (wk_secrets w') p"
    using assms(1) w'(1) by (simp add: bus_ok_def)
  moreover have "\<forall>i < length (wk_log w'). wr_id (wk_log w' ! i) = Suc i"
    using assms(1) w' by (auto simp: bus_ok_def nth_append less_Suc_eq)
  ultimately show ?thesis unfolding bus_ok_def by blast
qed

lemma bus_ok_broadcast_all: "bus_ok w \<Longrightarrow> broadcast_all hops outs w = Inr w' \<Longrightarrow> bus_ok w'"
  by (induction outs arbitrary: w) (auto simp: ok_bind_Inr_iff dest: bus_ok_broadcast)

lemma bus_ok_dispatch_to:
  "bus_ok w \<Longrightarrow> dispatch_to hnd ev hs w s = Inr (w', s') \<Longrightarrow> bus_ok w'"
proof (induction hs arbitrary: w s)
  case (Cons h hs)
  obtain s1 r where "hnd h ev s = (s1, r)" by (cases "hnd h ev s")
  with Cons show ?case
    by (auto simp: ok_bind_Inr_iff split: sum.splits if_splits dest: bus_ok_broadcast_all)
qed simp

lemma bus_ok_listen_turn: "bus_ok w \<Longrightarrow> listen_turn hnd w s = Inr (w', s') \<Longrightarrow> bus_ok w'"
proof -
  assume ok: "bus_ok w" and t: "listen_turn hnd w s = Inr (w', s')"
  have "bus_ok (w\<lparr>wk_channel := rest\<rparr>)" if "wk_channel w = ev # rest" for ev rest
    using ok that by (simp add: bus_ok_def)
  with ok t show ?thesis
    by (auto simp: listen_turn_def dispatch_def split: list.splits intro: bus_ok_dispatch_to)
qed

lemma bus_ok_listen: "bus_ok w \<Longrightarrow> listen n hnd w s = Some (Inr (w', s')) \<Longrightarrow> bus_ok w'"
  by (induction n arbitrary: w s)
     (auto split: if_splits sum.splits dest: bus_ok_listen_turn)

section \<open>The registry keeps the subscriptions\<close>

definition subs_of :: "workspace \<Rightarrow> string \<Rightarrow> nat multiset" where
  "subs_of w ty = mset (dict_get (wk_subs w) ty [])"

text \<open>What the agents contribute: one subscription for each time a type is listed.\<close>

definition agent_subs :: "agent \<Rightarrow> string \<Rightarrow> nat multiset" where
  "agent_subs a ty = replicate_mset (count_list (ag_subscribes_to a) ty) (ag_handle a)"

definition agents_subs :: "registry \<Rightarrow> string \<Rightarrow> nat multiset" where
  "agents_subs r ty = sum_list (map (\<lambda>(n, a). agent_subs a ty) (rg_agents r))"

lemma subs_of_subscribe: "subs_of (subscribe ty h w) t = subs_of w t + (if t = ty then {#h#} else {#})"
  by (simp add: subs_of_def subscribe_def dict_get_def)

lemma subs_of_unsubscribe: "subs_of (unsubscribe ty h w) t = subs_of w t - (if t = ty then {#h#} else {#})"
  by (auto simp: subs_of_def unsubscribe_def dict_get_def split: option.splits)

lemma subs_of_wire_list:
  "subs_of (fold (\<lambda>ty. subscribe ty h) tys w) t = subs_of w t + replicate_mset (count_list tys t) h"
  by (induction tys arbitrary: w) (auto simp: subs_of_subscribe)

lemma subs_of_unwire_list:
  "subs_of (fold (\<lambda>ty. unsubscribe ty h) tys w) t = subs_of w t - replicate_mset (count_list tys t) h"
  by (induction tys arbitrary: w) (auto simp: subs_of_unsubscribe)

lemma subs_of_wire [simp]: "subs_of (wire a w) t = subs_of w t + agent_subs a t"
  by (simp add: wire_def agent_subs_def subs_of_wire_list)

lemma subs_of_unwire [simp]: "subs_of (unwire a w) t = subs_of w t - agent_subs a t"
  by (simp add: unwire_def agent_subs_def subs_of_unwire_list)

text \<open>\<open>base\<close> are the subscriptions made apart from the registry.  Agents are keyed by name.\<close>

definition wired :: "(string \<Rightarrow> nat multiset) \<Rightarrow> registry \<Rightarrow> workspace \<Rightarrow> bool" where
  "wired base r w \<longleftrightarrow> distinct (map fst (rg_agents r)) \<and>
     (\<forall>t. subs_of w t = base t + (if rg_attached r then agents_subs r t else {#}))"

datatype registry_op = Register agent | Unregister string

fun registry_step :: "registry_op \<Rightarrow> registry \<times> workspace \<Rightarrow> registry \<times> workspace" where
  "registry_step (Register a) (r, w) =
     (case register a r w of Inl _ \<Rightarrow> (r, w) | Inr p \<Rightarrow> p)"
| "registry_step (Unregister n) (r, w) = unregister n r w"

lemma dict_put_new: "k \<notin> set (map fst d) \<Longrightarrow> dict_put k v d = d @ [(k, v)]"
  by (induction k v d rule: dict_put.induct) auto

lemma dict_del_map_of:
  "distinct (map fst d) \<Longrightarrow> map_of d k = Some v \<Longrightarrow>
   \<exists>d1 d2. d = d1 @ (k, v) # d2 \<and> dict_del k d = d1 @ d2"
proof (induction d)
  case (Cons e d)
  obtain k' v' where e: "e = (k', v')" by (cases e)
  show ?case
  proof (cases "k' = k")
    case True
    with Cons.prems e have "v' = v" "dict_del k d = d"
      by (auto simp: dict_del_def filter_id_conv)
    with True e have "e # d = [] @ (k, v) # d" "dict_del k (e # d) = [] @ d"
      by (simp_all add: dict_del_def)
    then show ?thesis by blast
  next
    case False
    with Cons e obtain d1 d2 where "d = d1 @ (k, v) # d2 \<and> dict_del k d = d1 @ d2" by auto
    with False e have "e # d = (e # d1) @ (k, v) # d2" "dict_del k (e # d) = (e # d1) @ d2"
      by (auto simp: dict_del_def)
    then show ?thesis by blast
  qed
qed simp

lemma wired_step:
  assumes "wired base r w" "registry_step op (r, w) = (r', w')"
  shows "wired base r' w' \<and> rg_attached r' = rg_attached r"
proof (cases op)
  case (Register a)
  show ?thesis
  proof (cases "ag_name a \<in> set (map fst (rg_agents r))")
    case True
    with assms Register show ?thesis by (auto simp: register_def)
  next
    case False
    with assms Register have
      "r' = r\<lparr>rg_agents := rg_agents r @ [(ag_name a, a)]\<rparr>" "w' = (if rg_attached r then wire a w else w)"
      by (simp_all add: register_def dict_put_new)
    with assms(1) False show ?thesis
      by (auto simp: wired_def agents_subs_def add.assoc)
  qed
next
  case (Unregister n)
  show ?thesis
  proof (cases "map_of (rg_agents r) n")
    case None
    with assms Unregister show ?thesis by (auto simp: unregister_def)
  next
    case (Some a)
    from assms(1) have "distinct (map fst (rg_agents r))" by (simp add: wired_def)
    from dict_del_map_of [OF this Some] obtain d1 d2 where
      d: "rg_agents r = d1 @ (n, a) # d2" "dict_del n (rg_agents r) = d1 @ d2" by blast
    from assms(2) Unregister Some have
      "r' = r\<lparr>rg_agents := d1 @ d2\<rparr>" "w' = (if rg_attached r then unwire a w else w)"
      by (simp_all add: unregister_def d(2))
    with assms(1) d(1) show ?thesis
      by (auto simp: wired_def agents_subs_def add.assoc add.left_commute)
  qed
qed

lemma wired_run:
  "wired base r w \<Longrightarrow> fold registry_step ops (r, w) = (r', w') \<Longrightarrow> wired base r' w' \<and> rg_attached r' = rg_attached r"
proof (induction ops arbitrary: r w)
  case (Cons op ops)
  obtain r1 w1 where s: "registry_step op (r, w) = (r1, w1)" by (cases "registry_step op (r, w)")
  with Cons wired_step [OF Cons.prems(1) s] show ?case by auto
qed simp

lemma subs_of_attach:
  "subs_of (fold (\<lambda>(n, a). wire a) as w) t = subs_of w t + sum_list (map (\<lambda>(n, a). agent_subs a t) as)"
  by (induction as arbitrary: w) (auto simp: add.assoc)

section \<open>Properties\<close>


definition demo_workspace :: workspace where
  "demo_workspace =
     \<lparr>wk_secrets = demo_secrets, wk_max_hops = DEFAULT_MAX_HOPS, wk_now = (\<lambda>n. real n), wk_log = [],
      wk_channel = [], wk_subs = [], wk_contents = None\<rparr>"

definition demo_event :: ws_event where
  "demo_event = \<lparr>ev_id = None, ev_ts = None, ev_module = ''a'', ev_type = ''t'', ev_payload = [], ev_hops = 0\<rparr>"


text \<open>Attaching the registry wires exactly the agents it holds, and after any sequence of
  registrations and removals the subscriptions on the bus are exactly those of the live agents
  and those made apart from the registry: a retired agent gets no event it did not subscribe to
  otherwise.\<close>

theorem registry_wired:
  assumes "wired base r w" "\<not> rg_attached r" "attach r w = (r1, w1)"
    and "fold registry_step ops (r1, w1) = (r2, w2)"
  shows "subs_of w2 t = base t + agents_subs r2 t"
proof -
  from assms(1-3) have "wired base r1 w1" "rg_attached r1"
    by (auto simp: wired_def attach_def subs_of_attach agents_subs_def)
  with wired_run [OF _ assms(4), of base] show ?thesis unfolding wired_def by simp
qed

definition demo_agent :: "string \<Rightarrow> nat \<Rightarrow> agent" where
  "demo_agent n h = \<lparr>ag_name = n, ag_subscribes_to = [''t''], ag_handle = h\<rparr>"

theorem registry_wired_witness:
  "let (r1, w1) = attach \<lparr>rg_agents = [(''a'', demo_agent ''a'' 0)], rg_attached = False\<rparr> demo_workspace;
       (r2, w2) = fold registry_step [Register (demo_agent ''b'' 1), Unregister ''a''] (r1, w1)
   in subs_of w2 ''t'' = {#1#}"
proof -
  let ?r = "\<lparr>rg_agents = [(''a'', demo_agent ''a'' 0)], rg_attached = False\<rparr>"
  obtain r1 w1 where a: "attach ?r demo_workspace = (r1, w1)" by (cases "attach ?r demo_workspace")
  obtain r2 w2 where f: "fold registry_step [Register (demo_agent ''b'' 1), Unregister ''a''] (r1, w1) = (r2, w2)"
    by (cases "fold registry_step [Register (demo_agent ''b'' 1), Unregister ''a''] (r1, w1)")
  have "wired (\<lambda>_. {#}) ?r demo_workspace"
    by (simp add: wired_def subs_of_def demo_workspace_def dict_get_def)
  from registry_wired [OF this _ a f, of "''t''"]
  have "subs_of w2 ''t'' = agents_subs r2 ''t''" by simp
  moreover have "rg_agents r2 = [(''b'', demo_agent ''b'' 1)]"
    using a f by (auto simp: attach_def register_def unregister_def dict_del_def demo_agent_def
        split: if_splits)
  ultimately show ?thesis
    using a f by (simp add: agents_subs_def agent_subs_def demo_agent_def)
qed

end
