(* ===== verification/Affect.thy ===== *)
theory Affect
  imports DriveEngine Workspace
begin

text \<open>
  \<^verbatim>\<open>brain/affect/appraisal.py\<close> (appraisal, mood, the blend) and \<^verbatim>\<open>brain/affect/agent.py\<close>
  (the running mood, its table and the appraisal paths).  The \<^verbatim>\<open>mood\<close> table is the list of
  its rows; the row \<^verbatim>\<open>ORDER BY ts DESC LIMIT 1\<close> returns among rows of equal time is the
  database's choice, so it is the parameter \<open>latest\<close>.  The router's completion and pydantic's
  parsing of it are the parameters \<open>ask\<close> and \<open>parse\<close>.
\<close>

section \<open>Moods and appraisals\<close>

definition clamp :: "real \<Rightarrow> real \<Rightarrow> real \<Rightarrow> real" where
  "clamp value lo hi = min hi (max lo value)"

lemma clamp_range [simp]: "lo \<le> hi \<Longrightarrow> lo \<le> clamp v lo hi" "lo \<le> hi \<Longrightarrow> clamp v lo hi \<le> hi"
  by (auto simp: clamp_def)

lemma clamp_id: "lo \<le> v \<Longrightarrow> v \<le> hi \<Longrightarrow> clamp v lo hi = v"
  by (simp add: clamp_def)

type_synonym emotions = "(string \<times> real) list"

record appraisal =
  ap_goal_congruence :: real
  ap_novelty :: real
  ap_agency :: real
  ap_certainty :: real
  ap_emotions :: emotions

record mood_delta =
  de_valence :: real
  de_arousal :: real
  de_emotions :: emotions

record mood =
  mo_id :: "nat option"
  mo_ts :: "real option"
  mo_valence :: real
  mo_arousal :: real
  mo_emotions :: emotions

definition EMOTION_FLOOR :: real where "EMOTION_FLOOR = 12/100"

definition mood_baseline :: mood where
  "mood_baseline = \<lparr>mo_id = None, mo_ts = None, mo_valence = 0, mo_arousal = 3/10, mo_emotions = []\<rparr>"

definition dominant_emotion :: "mood \<Rightarrow> string option" where
  "dominant_emotion m = map_option fst (first_max snd (mo_emotions m))"

definition descriptor :: "mood \<Rightarrow> string" where
  "descriptor m =
     (let quadrant =
        (if 15/100 \<le> mo_valence m
         then (if 5/10 \<le> mo_arousal m then ''bright and energised'' else ''calm and content'')
         else if mo_valence m \<le> - (15/100)
         then (if 5/10 \<le> mo_arousal m then ''tense and on edge'' else ''low and flat'')
         else (if 5/10 \<le> mo_arousal m then ''alert and neutral'' else ''quiet and even''))
      in case dominant_emotion m of
           None \<Rightarrow> quadrant
         | Some e \<Rightarrow> if e = [] then quadrant else quadrant @ '', with a thread of '' @ e)"

definition derive_emotions :: "real \<Rightarrow> real \<Rightarrow> real \<Rightarrow> real \<Rightarrow> emotions" where
  "derive_emotions congruence novelty agency certainty =
     (if 0 < congruence
      then [(''excitement'', congruence * novelty), (''joy'', congruence * agency),
            (''contentment'', congruence * (1 - novelty) * certainty)]
      else if congruence < 0
      then [(''frustration'', - congruence * agency), (''anxiety'', - congruence * (1 - certainty))]
      else [])"

definition appraise_dimensions :: "appraisal \<Rightarrow> mood_delta" where
  "appraise_dimensions a =
     (let congruence = clamp (ap_goal_congruence a) (- 1) 1;
          novelty = clamp01 (ap_novelty a);
          agency = clamp01 (ap_agency a);
          certainty = clamp01 (ap_certainty a);
          arousal = clamp (55/100 * novelty + 35/100 * (1 - certainty) + 30/100 * \<bar>congruence\<bar> - 45/100) (- 1) 1;
          emotions = (if ap_emotions a \<noteq> [] then ap_emotions a
                      else derive_emotions congruence novelty agency certainty)
      in \<lparr>de_valence = congruence, de_arousal = arousal,
          de_emotions = map (\<lambda>(e, v). (e, clamp01 v))
            (filter (\<lambda>(e, v). EMOTION_FLOOR \<le> clamp01 v) emotions)\<rparr>)"

fun fold_emotions :: "real \<Rightarrow> emotions \<Rightarrow> emotions \<Rightarrow> emotions" where
  "fold_emotions resp [] acc = acc"
| "fold_emotions resp ((e, i) # es) acc =
     fold_emotions resp es (dict_put e (clamp01 (dict_get acc e 0 + i * resp)) acc)"

definition retained :: "real \<Rightarrow> real \<Rightarrow> real" where
  "retained dt halflife = (if 0 < halflife then (1/2) powr (max 0 dt / halflife) else 0)"

definition EMOTION_DECAY :: real where "EMOTION_DECAY = 6/10"

definition blend_mood :: "mood \<Rightarrow> mood_delta \<Rightarrow> real \<Rightarrow> mood \<Rightarrow> real \<Rightarrow> real \<Rightarrow> real \<Rightarrow> mood" where
  "blend_mood current delta dt baseline halflife responsiveness emotion_decay =
     (let ret = retained dt halflife;
          valence = mo_valence baseline + (mo_valence current - mo_valence baseline) * ret;
          arousal = mo_arousal baseline + (mo_arousal current - mo_arousal baseline) * ret;
          emotions = fold_emotions responsiveness (de_emotions delta)
                       (map (\<lambda>(e, v). (e, v * ret * emotion_decay)) (mo_emotions current))
      in \<lparr>mo_id = None, mo_ts = None,
          mo_valence = clamp (valence + de_valence delta * responsiveness) (- 1) 1,
          mo_arousal = clamp01 (arousal + de_arousal delta * responsiveness),
          mo_emotions = filter (\<lambda>(e, v). EMOTION_FLOOR \<le> v) emotions\<rparr>)"

section \<open>The rule-based appraisal\<close>

definition INPUT_KIND :: string where "INPUT_KIND = ''input''"

definition has_event :: "string \<Rightarrow> drive_event list \<Rightarrow> bool" where
  "has_event k events \<longleftrightarrow> k \<in> set (map de_kind events)"

definition max_unmet :: "reading list \<Rightarrow> real" where
  "max_unmet drives =
     (let unmet = map urgency (filter (\<lambda>d. over_threshold d \<and> rd_drive d \<noteq> SLEEP_DRIVE) drives)
      in if unmet = [] then 0 else Max (set unmet))"

definition event_congruence :: "drive_event list \<Rightarrow> real" where
  "event_congruence events =
     (if has_event EVENT_SUCCESS events then 6/10 else 0)
     - (if has_event EVENT_FAILURE events then 6/10 else 0)
     + (if has_event EVENT_INTERACTION events then 3/10 else 0)
     + (if has_event EVENT_LEARNING events then 3/10 else 0)
     + (if has_event EVENT_PERSISTENCE_CONFIRMED events then 25/100 else 0)
     - (if has_event EVENT_SHUTDOWN_SIGNAL events then 7/10 else 0)"

definition derive_appraisal :: "ws_item list \<Rightarrow> reading list \<Rightarrow> drive_event list \<Rightarrow> appraisal" where
  "derive_appraisal items drives events =
     (let has_input = list_ex (\<lambda>i. wi_kind i = INPUT_KIND) items;
          congruence = event_congruence events - 25/100 * max_unmet drives;
          novelty0 = (if has_event EVENT_LEARNING events then max (1/10) (7/10) else 1/10);
          novelty = (if has_input then max novelty0 (8/10) else novelty0);
          agency = (if has_event EVENT_SUCCESS events \<or> has_event EVENT_FAILURE events then 7/10
                    else if has_input then 35/100 else 45/100);
          certainty0 = (case map_of (rev (map (\<lambda>d. (rd_drive d, d)) drives)) COHERENCE of
                          None \<Rightarrow> 7/10
                        | Some c \<Rightarrow> if over_threshold c then 7/10 - 5/10 * urgency c else 7/10);
          certainty = (if has_event EVENT_SHUTDOWN_SIGNAL events then min certainty0 (2/10)
                       else certainty0)
      in \<lparr>ap_goal_congruence = max (- 1) (min 1 congruence), ap_novelty = clamp01 novelty,
          ap_agency = clamp01 agency, ap_certainty = clamp01 certainty, ap_emotions = []\<rparr>)"

section \<open>The agent\<close>

record affect =
  af_halflife :: real
  af_responsiveness :: real
  af_persist_min_change :: real
  af_current :: "mood option"
  af_rows :: "mood list"

definition ensure_loaded :: "(mood list \<Rightarrow> mood option) \<Rightarrow> affect \<Rightarrow> affect" where
  "ensure_loaded latest a =
     (case af_current a of
        Some _ \<Rightarrow> a
      | None \<Rightarrow> a\<lparr>af_current := Some (case latest (af_rows a) of Some row \<Rightarrow> row | None \<Rightarrow> mood_baseline)\<rparr>)"

definition current_mood :: "(mood list \<Rightarrow> mood option) \<Rightarrow> affect \<Rightarrow> affect \<times> mood" where
  "current_mood latest a = (let a' = ensure_loaded latest a in (a', the (af_current a')))"

definition fresh_input :: "ws_item list \<Rightarrow> string option" where
  "fresh_input items = map_option wi_content (find (\<lambda>i. wi_kind i = INPUT_KIND) items)"

text \<open>\<open>None\<close> inside the result: every provider is tired.\<close>

definition appraise_with_llm :: "(string \<Rightarrow> string res) \<Rightarrow> (string \<Rightarrow> appraisal res) \<Rightarrow> string \<Rightarrow>
    appraisal option res" where
  "appraise_with_llm ask parse situation =
     (case ask situation of
        Inl LLMUnavailableError \<Rightarrow> Inr None
      | Inl e \<Rightarrow> Inl e
      | Inr content \<Rightarrow> ok_bind (parse content) (\<lambda>a. Inr (Some a)))"

definition appraise :: "(string \<Rightarrow> string res) option \<Rightarrow> (string \<Rightarrow> appraisal res) \<Rightarrow> ws_item list \<Rightarrow>
    reading list \<Rightarrow> drive_event list \<Rightarrow> appraisal res" where
  "appraise router parse items drives events =
     (case (fresh_input items, router) of
        (Some situation, Some ask) \<Rightarrow>
          ok_bind (appraise_with_llm ask parse situation)
            (\<lambda>llm. case llm of Some a \<Rightarrow> Inr a | None \<Rightarrow> Inr (derive_appraisal items drives events))
      | _ \<Rightarrow> Inr (derive_appraisal items drives events))"

definition tag_loneliness :: "mood_delta \<Rightarrow> reading list \<Rightarrow> mood_delta" where
  "tag_loneliness delta drives =
     (case find (\<lambda>d. rd_drive d = CONNECTION) drives of
        None \<Rightarrow> delta
      | Some c \<Rightarrow>
          if \<not> over_threshold c then delta
          else delta\<lparr>de_emotions := dict_put ''loneliness''
                 (clamp01 (max (dict_get (de_emotions delta) ''loneliness'' 0) (urgency c)))
                 (de_emotions delta)\<rparr>)"

definition elapsed :: "mood \<Rightarrow> real \<Rightarrow> real" where
  "elapsed m reference = (case mo_ts m of None \<Rightarrow> 0 | Some ts \<Rightarrow> max 0 (reference - ts))"

definition should_persist :: "real \<Rightarrow> mood \<Rightarrow> mood \<Rightarrow> bool" where
  "should_persist min_change old new \<longleftrightarrow>
     (if mo_id old = None then True
      else if min_change \<le> \<bar>mo_valence new - mo_valence old\<bar> + \<bar>mo_arousal new - mo_arousal old\<bar> then True
      else set (map fst (mo_emotions new)) \<noteq> set (map fst (mo_emotions old)))"

definition commit_mood :: "mood \<Rightarrow> mood \<Rightarrow> real \<Rightarrow> affect \<Rightarrow> affect \<times> mood" where
  "commit_mood old new reference a =
     (if should_persist (af_persist_min_change a) old new
      then let row = new\<lparr>mo_id := Some (Suc (length (af_rows a))), mo_ts := Some reference\<rparr>
           in (a\<lparr>af_rows := af_rows a @ [row], af_current := Some row\<rparr>, row)
      else let m = new\<lparr>mo_id := mo_id old, mo_ts := Some reference\<rparr>
           in (a\<lparr>af_current := Some m\<rparr>, m))"

definition appraise_tick :: "(mood list \<Rightarrow> mood option) \<Rightarrow> (string \<Rightarrow> string res) option \<Rightarrow>
    (string \<Rightarrow> appraisal res) \<Rightarrow> ws_item list \<Rightarrow> reading list \<Rightarrow> drive_event list \<Rightarrow> real \<Rightarrow> affect \<Rightarrow>
    affect \<times> mood res" where
  "appraise_tick latest router parse items drives events reference a =
     (let (a1, old) = current_mood latest a
      in case appraise router parse items drives events of
           Inl e \<Rightarrow> (a1, Inl e)
         | Inr ap \<Rightarrow>
             let delta = tag_loneliness (appraise_dimensions ap) drives;
                 new = blend_mood old delta (elapsed old reference) mood_baseline (af_halflife a1)
                         (af_responsiveness a1) EMOTION_DECAY;
                 (a2, m) = commit_mood old new reference a1
             in (a2, Inr m))"

section \<open>Ranges\<close>

definition emotions_ok :: "emotions \<Rightarrow> bool" where
  "emotions_ok es \<longleftrightarrow> (\<forall>(e, v) \<in> set es. 0 \<le> v \<and> v \<le> 1)"

definition mood_ok :: "mood \<Rightarrow> bool" where
  "mood_ok m \<longleftrightarrow> - 1 \<le> mo_valence m \<and> mo_valence m \<le> 1 \<and> in01 (mo_arousal m) \<and>
     (\<forall>(e, v) \<in> set (mo_emotions m). EMOTION_FLOOR \<le> v \<and> v \<le> 1)"

lemma retained_range [simp]: "0 \<le> retained dt h" "retained dt h \<le> 1"
  by (auto simp: retained_def powr_le_one_le powr_le1)

lemma emotions_ok_put: "emotions_ok es \<Longrightarrow> emotions_ok (dict_put e (clamp01 v) es)"
  by (induction e "clamp01 v" es rule: dict_put.induct) (auto simp: emotions_ok_def)

lemma emotions_ok_fold: "emotions_ok acc \<Longrightarrow> emotions_ok (fold_emotions r es acc)"
  by (induction r es acc rule: fold_emotions.induct) (auto intro: emotions_ok_put)

lemma mood_ok_blend:
  assumes "mood_ok cur" "0 \<le> k" "k \<le> 1"
  shows "mood_ok (blend_mood cur delta dt base h r k)"
proof -
  have "emotions_ok (map (\<lambda>(e, v). (e, v * retained dt h * k)) (mo_emotions cur))"
    using assms unfolding emotions_ok_def
    by (auto simp: mood_ok_def EMOTION_FLOOR_def intro!: mult_le_one mult_nonneg_nonneg)
  then have "emotions_ok (fold_emotions r (de_emotions delta)
      (map (\<lambda>(e, v). (e, v * retained dt h * k)) (mo_emotions cur)))"
    by (rule emotions_ok_fold)
  then show ?thesis by (auto simp: mood_ok_def blend_mood_def Let_def emotions_ok_def)
qed

lemma mood_ok_baseline [simp]: "mood_ok mood_baseline"
  by (simp add: mood_ok_def mood_baseline_def in01_def)

lemma mood_ok_stamp [simp]: "mood_ok (m\<lparr>mo_id := i, mo_ts := t\<rparr>) = mood_ok m"
  by (simp add: mood_ok_def)

definition affect_ok :: "affect \<Rightarrow> bool" where
  "affect_ok a \<longleftrightarrow> (\<forall>m \<in> set (af_rows a). mood_ok m) \<and>
     (case af_current a of None \<Rightarrow> True | Some m \<Rightarrow> mood_ok m)"

text \<open>What \<^verbatim>\<open>ORDER BY ts DESC LIMIT 1\<close> promises: a row of the table with the greatest time.\<close>

definition latest_ok :: "(mood list \<Rightarrow> mood option) \<Rightarrow> bool" where
  "latest_ok latest \<longleftrightarrow>
     (\<forall>rows. case latest rows of None \<Rightarrow> rows = []
        | Some m \<Rightarrow> m \<in> set rows \<and> (\<forall>r \<in> set rows. the (mo_ts r) \<le> the (mo_ts m)))"

lemma latest_ok_first_max: "latest_ok (first_max (\<lambda>m. the (mo_ts m)))"
  using first_max_ge [of "\<lambda>m. the (mo_ts m)"]
  by (auto simp: latest_ok_def first_max_in split: option.splits)

lemma latest_in: "latest_ok latest \<Longrightarrow> latest rows = Some m \<Longrightarrow> m \<in> set rows"
  unfolding latest_ok_def by (auto dest: spec [of _ rows])

lemma affect_ok_loaded:
  assumes "affect_ok a" "latest_ok latest" "current_mood latest a = (a1, old)"
  shows "affect_ok a1 \<and> mood_ok old \<and> af_current a1 = Some old \<and> af_rows a1 = af_rows a \<and>
         af_persist_min_change a1 = af_persist_min_change a"
proof -
  have "mood_ok m" if "latest (af_rows a) = Some m" for m
    using latest_in [OF assms(2) that] assms(1) by (simp add: affect_ok_def)
  with assms show ?thesis
    by (auto simp: current_mood_def ensure_loaded_def affect_ok_def Let_def split: option.splits)
qed

lemma commit_mood_ok:
  assumes "affect_ok a" "mood_ok new" "commit_mood old new t a = (a', m)"
  shows "affect_ok a' \<and> mood_ok m \<and> af_current a' = Some m \<and> mo_ts m = Some t"
  using assms by (auto simp: commit_mood_def affect_ok_def Let_def split: if_splits)

lemma appraise_tick_cases:
  assumes "affect_ok a" "latest_ok latest"
    and "appraise_tick latest router parse items drives events t a = (a', r)"
  shows "affect_ok a' \<and>
    (\<exists>a1 old. current_mood latest a = (a1, old) \<and> mood_ok old \<and>
       (case r of
          Inl e \<Rightarrow> a' = a1 \<and> appraise router parse items drives events = Inl e
        | Inr m \<Rightarrow> \<exists>delta. let new = blend_mood old delta (elapsed old t) mood_baseline (af_halflife a1)
                         (af_responsiveness a1) EMOTION_DECAY
             in mood_ok new \<and> mood_ok m \<and> commit_mood old new t a1 = (a', m)))"
proof -
  obtain a1 old where c: "current_mood latest a = (a1, old)" by (cases "current_mood latest a")
  note l = affect_ok_loaded [OF assms(1,2) c]
  show ?thesis
  proof (cases "appraise router parse items drives events")
    case (Inl e)
    with assms(3) c have "a' = a1" "r = Inl e" by (auto simp: appraise_tick_def Let_def)
    with Inl c l show ?thesis by auto
  next
    case (Inr ap)
    define delta where "delta = tag_loneliness (appraise_dimensions ap) drives"
    define new where "new = blend_mood old delta (elapsed old t) mood_baseline (af_halflife a1)
      (af_responsiveness a1) EMOTION_DECAY"
    obtain a2 m where m: "commit_mood old new t a1 = (a2, m)" by (cases "commit_mood old new t a1")
    have n: "mood_ok new" unfolding new_def
      by (rule mood_ok_blend) (use l in \<open>simp_all add: EMOTION_DECAY_def\<close>)
    from l have "affect_ok a1" by simp
    from commit_mood_ok [OF this n m] have "affect_ok a2" "mood_ok m" by auto
    moreover from assms(3) c m Inr have "a' = a2" "r = Inr m"
      by (auto simp: appraise_tick_def Let_def delta_def new_def)
    ultimately show ?thesis using c l m n unfolding new_def by (auto simp: Let_def)
  qed
qed

lemma appraise_tick_no_router:
  "\<exists>a' m. appraise_tick latest None parse items drives events t a = (a', Inr m)"
proof -
  obtain a' r where t: "appraise_tick latest None parse items drives events t a = (a', r)"
    by fastforce
  then have "\<exists>m. r = Inr m"
    by (auto simp: appraise_tick_def appraise_def Let_def split: prod.splits option.splits)
  with t show ?thesis by blast
qed

section \<open>Properties\<close>

text \<open>Appraising a tick keeps the running mood and every stored row in range (valence in
  [-1, 1], arousal in [0, 1], each tagged emotion between the floor and 1) whatever the drives,
  the events and the model's own appraisal are; the mood returned is the new current mood,
  stamped with the tick's time.  It fails only when the model's answer cannot be used, and then
  the table is as it was.\<close>

theorem appraise_tick_in_range:
  assumes "affect_ok a" "latest_ok latest"
    and "appraise_tick latest router parse items drives events t a = (a', r)"
  shows "affect_ok a' \<and>
    (case r of
       Inr m \<Rightarrow> mood_ok m \<and> af_current a' = Some m \<and> mo_ts m = Some t
     | Inl e \<Rightarrow> af_rows a' = af_rows a \<and> router \<noteq> None \<and> e \<noteq> LLMUnavailableError \<or>
               af_rows a' = af_rows a \<and> (\<exists>c. parse c = Inl e))"
proof (cases r)
  case (Inr m)
  with appraise_tick_cases [OF assms] obtain a1 old new where
    "commit_mood old new t a1 = (a', m)" "mood_ok m" "affect_ok a'"
    by (auto simp: Let_def)
  moreover from this have "af_current a' = Some m \<and> mo_ts m = Some t"
    by (auto simp: commit_mood_def Let_def split: if_splits)
  ultimately show ?thesis using Inr by simp
next
  case (Inl e)
  with appraise_tick_cases [OF assms] obtain old where
    c: "current_mood latest a = (a', old)" "appraise router parse items drives events = Inl e"
      "affect_ok a'"
    by auto
  then have "af_rows a' = af_rows a" using affect_ok_loaded [OF assms(1,2)] by blast
  with c Inl show ?thesis
    by (auto simp: appraise_def appraise_with_llm_def ok_bind_def split: option.splits sum.splits exn.splits)
qed

definition demo_affect :: affect where
  "demo_affect = \<lparr>af_halflife = 600, af_responsiveness = 1/2, af_persist_min_change = 1/10,
     af_current = None, af_rows = []\<rparr>"

theorem appraise_tick_in_range_witness:
  "\<exists>a' m. appraise_tick (first_max (\<lambda>m. the (mo_ts m))) None (\<lambda>_. Inl ValidationError) [] []
      [\<lparr>de_kind = EVENT_SUCCESS, de_intensity = 1\<rparr>] 5 demo_affect = (a', Inr m) \<and> mood_ok m"
proof -
  obtain a' r where t: "appraise_tick (first_max (\<lambda>m. the (mo_ts m))) None (\<lambda>_. Inl ValidationError) [] []
      [\<lparr>de_kind = EVENT_SUCCESS, de_intensity = 1\<rparr>] 5 demo_affect = (a', r)"
    by fastforce
  have "affect_ok demo_affect" by (simp add: affect_ok_def demo_affect_def)
  note p = appraise_tick_in_range [OF this latest_ok_first_max t]
  obtain m where "r = Inr m"
    using t by (auto simp: appraise_tick_def appraise_def fresh_input_def Let_def split: prod.splits)
  with t p show ?thesis by auto
qed

text \<open>An update with no push.\<close>

definition idle_delta :: mood_delta where
  "idle_delta = \<lparr>de_valence = 0, de_arousal = 0, de_emotions = []\<rparr>"

definition idle_blend :: "real \<Rightarrow> real \<Rightarrow> real \<Rightarrow> real \<Rightarrow> mood \<Rightarrow> mood" where
  "idle_blend h r k dt m = blend_mood m idle_delta dt mood_baseline h r k"

text \<open>Left without an appraisal push, the distance of valence and arousal from the baseline
  is multiplied by \<open>(1/2) powr (dt / halflife)\<close>: it halves every half-life, and two updates have
  the effect of one over the total time.\<close>

theorem blend_mood_decays:
  assumes "mood_ok m" "0 < h" "0 \<le> s" "0 \<le> t"
  shows "mo_valence (idle_blend h r k t m) = mo_valence m * (1/2) powr (t / h) \<and>
         mo_arousal (idle_blend h r k t m) - 3/10 = (mo_arousal m - 3/10) * (1/2) powr (t / h) \<and>
         mo_valence (idle_blend h r k t (idle_blend h r k s m)) = mo_valence (idle_blend h r k (s + t) m) \<and>
         mo_arousal (idle_blend h r k t (idle_blend h r k s m)) = mo_arousal (idle_blend h r k (s + t) m)"
proof -
  let ?step = "idle_blend h r k"
  have v: "mo_valence (?step u n) = mo_valence n * (1/2) powr (u / h) \<and>
           mo_arousal (?step u n) - 3/10 = (mo_arousal n - 3/10) * (1/2) powr (u / h) \<and>
           - 1 \<le> mo_valence (?step u n) \<and> mo_valence (?step u n) \<le> 1 \<and> in01 (mo_arousal (?step u n))"
    if n: "- 1 \<le> mo_valence n" "mo_valence n \<le> 1" "in01 (mo_arousal n)" and u: "0 \<le> u" for n u
  proof -
    have r: "retained u h = (1/2) powr (u / h)" using assms(2) u by (simp add: retained_def max_def)
    have "in01 (3/10 + (mo_arousal n - 3/10) * retained u h)"
      by (rule in01_relax) (use n in \<open>auto simp: in01_def\<close>)
    moreover have "- 1 \<le> mo_valence n * retained u h \<and> mo_valence n * retained u h \<le> 1"
    proof -
      have "\<bar>mo_valence n * retained u h\<bar> \<le> 1 * 1"
        unfolding abs_mult by (rule mult_mono) (use n in auto)
      then show ?thesis by linarith
    qed
    ultimately show ?thesis
      by (simp add: idle_blend_def idle_delta_def blend_mood_def Let_def mood_baseline_def clamp_id clamp01_id r)
  qed
  have m: "- 1 \<le> mo_valence m" "mo_valence m \<le> 1" "in01 (mo_arousal m)"
    using assms(1) by (simp_all add: mood_ok_def)
  note 1 = v [OF m assms(4)] and 2 = v [OF m assms(3)]
  have "0 \<le> s + t" using assms(3,4) by simp
  note 3 = v [OF m this]
  note 4 = v [OF _ _ _ assms(4), of "?step s m"]
  have p: "(1/2::real) powr ((s + t) / h) = (1/2) powr (s / h) * (1/2) powr (t / h)"
    by (simp add: add_divide_distrib powr_add)
  have "mo_arousal (?step t (?step s m)) - 3/10 = mo_arousal (?step (s + t) m) - 3/10"
    using 2 3 4 p by simp
  then have "mo_arousal (?step t (?step s m)) = mo_arousal (?step (s + t) m)" by simp
  moreover have "mo_valence (?step t (?step s m)) = mo_valence (?step (s + t) m)"
    using 2 3 4 p by simp
  ultimately show ?thesis using 1 by blast
qed

theorem blend_mood_decays_witness:
  "mo_valence (idle_blend 60 (1/2) (6/10) 60 (mood_baseline\<lparr>mo_valence := 8/10\<rparr>)) = 4/10"
proof -
  have "mood_ok (mood_baseline\<lparr>mo_valence := 8/10\<rparr>)"
    by (simp add: mood_ok_def mood_baseline_def in01_def)
  from blend_mood_decays [OF this, of 60 0 60 "1/2" "6/10"] show ?thesis by simp
qed

text \<open>A tick appends a row to the mood table exactly when it is the first mood, or valence
  and arousal together moved by at least the configured amount, or the set of tagged emotions
  changed; otherwise the table is untouched and the returned mood keeps the id of the last row.
  Either way the clock of the running mood advances.\<close>

theorem appraise_tick_persists:
  assumes "affect_ok a" "latest_ok latest"
    and "appraise_tick latest router parse items drives events t a = (a', Inr m)"
  shows "(let old = snd (current_mood latest a) in
     if should_persist (af_persist_min_change a) old m
     then af_rows a' = af_rows a @ [m] \<and> mo_id m = Some (length (af_rows a'))
     else af_rows a' = af_rows a \<and> mo_id m = mo_id old) \<and> mo_ts m = Some t"
proof -
  from appraise_tick_cases [OF assms] obtain a1 old new where
    c: "current_mood latest a = (a1, old)" and m: "commit_mood old new t a1 = (a', m)"
    by (auto simp: Let_def)
  note l = affect_ok_loaded [OF assms(1,2) c]
  have "should_persist k old (new\<lparr>mo_id := i, mo_ts := u\<rparr>) = should_persist k old new" for k i u
    by (simp add: should_persist_def)
  with m c l show ?thesis
    by (auto simp: commit_mood_def Let_def split: if_splits)
qed

theorem appraise_tick_persists_witness:
  "\<exists>a' m. appraise_tick (first_max (\<lambda>m. the (mo_ts m))) None (\<lambda>_. Inl ValidationError) [] [] [] 5
     demo_affect = (a', Inr m) \<and> af_rows a' = [m] \<and> mo_id m = Some 1"
proof -
  obtain a' m where t: "appraise_tick (first_max (\<lambda>m. the (mo_ts m))) None (\<lambda>_. Inl ValidationError) [] []
      [] 5 demo_affect = (a', Inr m)"
    using appraise_tick_no_router by blast
  have "affect_ok demo_affect" by (simp add: affect_ok_def demo_affect_def)
  from appraise_tick_persists [OF this latest_ok_first_max t]
  have "af_rows a' = [m] \<and> mo_id m = Some 1"
    by (simp add: current_mood_def ensure_loaded_def demo_affect_def mood_baseline_def
        should_persist_def Let_def)
  with t show ?thesis by blast
qed

end
