(* ===== verification/Goals.thy ===== *)
theory Goals
  imports Affect
begin

text \<open>
  \<^verbatim>\<open>brain/goals/store.py\<close> and \<^verbatim>\<open>brain/goals/arbiter.py\<close>.  The \<^verbatim>\<open>goal\<close> table is the list of
  its rows in id order (rows are never deleted, so the row with id \<open>n\<close> is the \<open>n\<close>-th inserted).
  The order in which the database returns rows of equal \<^verbatim>\<open>created_at\<close> is its own choice: the
  queries take the ordering as the parameter \<open>newest\<close>, of which \<open>newest_ok\<close> states what
  \<^verbatim>\<open>ORDER BY created_at DESC\<close> promises.  (The em dashes of the goal texts, outside the
  model's characters, are written as \<^verbatim>\<open>-\<close>.)
\<close>

section \<open>Goals and their table\<close>

datatype goal_status = Active | Resolved | Abandoned

record goal =
  go_id :: "nat option"
  go_source :: string
  go_description :: string
  go_priority :: real
  go_status :: goal_status
  go_plan :: "(string \<times> json) list"
  go_outcome :: "(string \<times> json) list"
  go_created_at :: "real option"
  go_resolved_at :: "real option"

type_synonym goal_table = "goal list"

type_synonym goal_order = "goal list \<Rightarrow> goal list"

definition newest_ok :: "goal_order \<Rightarrow> bool" where
  "newest_ok newest \<longleftrightarrow> (\<forall>rows. mset (newest rows) = mset rows \<and>
     sorted_wrt (\<lambda>x y. the (go_created_at y) \<le> the (go_created_at x)) (newest rows))"

definition active_goals :: "goal_order \<Rightarrow> goal_table \<Rightarrow> goal list" where
  "active_goals newest tbl = newest (filter (\<lambda>g. go_status g = Active) tbl)"

text \<open>\<^verbatim>\<open>ORDER BY resolved_at DESC LIMIT limit\<close> over the closed goals.\<close>

definition recent_closed :: "goal_order \<Rightarrow> nat \<Rightarrow> goal_table \<Rightarrow> goal list" where
  "recent_closed latest limit tbl = take limit (latest (filter (\<lambda>g. go_status g \<noteq> Active) tbl))"

definition promote :: "real \<Rightarrow> goal \<Rightarrow> goal_table \<Rightarrow> goal_table \<times> goal" where
  "promote now g tbl =
     (let row = \<lparr>go_id = Some (Suc (length tbl)), go_source = go_source g,
                 go_description = go_description g, go_priority = go_priority g,
                 go_status = Active, go_plan = go_plan g, go_outcome = [],
                 go_created_at = Some (case go_created_at g of Some t \<Rightarrow> t | None \<Rightarrow> now),
                 go_resolved_at = None\<rparr>
      in (tbl @ [row], row))"

definition update_goal :: "nat \<Rightarrow> (goal \<Rightarrow> goal) \<Rightarrow> goal_table \<Rightarrow> goal_table" where
  "update_goal i f tbl = map (\<lambda>g. if go_id g = Some i then f g else g) tbl"

definition set_plan :: "nat \<Rightarrow> (string \<times> json) list \<Rightarrow> goal_table \<Rightarrow> goal_table" where
  "set_plan i p tbl = update_goal i (\<lambda>g. g\<lparr>go_plan := p\<rparr>) tbl"

definition close_goal :: "real \<Rightarrow> nat \<Rightarrow> goal_status \<Rightarrow> (string \<times> json) list \<Rightarrow> goal_table \<Rightarrow> goal_table" where
  "close_goal now i st outc tbl =
     update_goal i (\<lambda>g. g\<lparr>go_status := st, go_outcome := outc, go_resolved_at := Some now\<rparr>) tbl"

definition resolve :: "real \<Rightarrow> nat \<Rightarrow> (string \<times> json) list \<Rightarrow> goal_table \<Rightarrow> goal_table" where
  "resolve now i outc tbl = close_goal now i Resolved outc tbl"

definition abandon :: "real \<Rightarrow> nat \<Rightarrow> (string \<times> json) list \<Rightarrow> goal_table \<Rightarrow> goal_table" where
  "abandon now i outc tbl = close_goal now i Abandoned outc tbl"

section \<open>The arbiter\<close>

definition DRIVE_INTENT :: "(string \<times> string) list" where
  "DRIVE_INTENT =
     [(CURIOSITY, ''explore something new and learn''),
      (BOREDOM, ''find something fresh to engage with''),
      (CONNECTION, ''reconnect - reach out or reflect on the people I care about''),
      (MASTERY, ''practise and get better at something I've struggled with''),
      (COHERENCE, ''reconcile something that doesn't add up in what I believe''),
      (CONTINUITY, ''make sure I'll persist - check my memory is safe'')]"

definition describe_drive :: "string \<Rightarrow> string" where
  "describe_drive d = dict_get DRIVE_INTENT d (''address my rising '' @ d)"

record arbiter =
  ar_min_dwell :: real
  ar_margin :: real
  ar_arousal_weight :: real

definition priority :: "arbiter \<Rightarrow> mood option \<Rightarrow> urge \<Rightarrow> real" where
  "priority ar m u =
     (let arousal = (case m of Some m \<Rightarrow> mo_arousal m | None \<Rightarrow> 0)
      in ur_urgency u * (1 + ar_arousal_weight ar * arousal))"

definition goal_from_urge :: "arbiter \<Rightarrow> real \<Rightarrow> mood option \<Rightarrow> urge \<Rightarrow> goal" where
  "goal_from_urge ar clk m u =
     \<lparr>go_id = None, go_source = ur_drive u, go_description = describe_drive (ur_drive u),
      go_priority = priority ar m u, go_status = Active, go_plan = [], go_outcome = [],
      go_created_at = Some clk, go_resolved_at = None\<rparr>"

definition incumbent_priority :: "arbiter \<Rightarrow> mood option \<Rightarrow> goal \<Rightarrow> urge list \<Rightarrow> real" where
  "incumbent_priority ar m inc us =
     (case find (\<lambda>u. ur_drive u = go_source inc) us of Some u \<Rightarrow> priority ar m u | None \<Rightarrow> 0)"

definition select_goal :: "arbiter \<Rightarrow> real \<Rightarrow> real \<Rightarrow> urge list \<Rightarrow> mood option \<Rightarrow> goal list \<Rightarrow> goal option" where
  "select_goal ar clk reference us m active =
     (case first_max (priority ar m) (filter (\<lambda>u. \<not> is_sleep_signal u) us) of
        None \<Rightarrow> None
      | Some best \<Rightarrow>
          (case active of
             [] \<Rightarrow> Some (goal_from_urge ar clk m best)
           | inc # _ \<Rightarrow>
               if (case go_created_at inc of Some t \<Rightarrow> reference - t < ar_min_dwell ar | None \<Rightarrow> False)
               then None
               else if ur_drive best = go_source inc then None
               else if incumbent_priority ar m inc us + ar_margin ar < priority ar m best
               then Some (goal_from_urge ar clk m best)
               else None))"

text \<open>\<open>now\<close> overrides the reference time of the decision; the clock \<open>clk\<close> stamps the rows.\<close>

definition arbitrate :: "goal_order \<Rightarrow> arbiter \<Rightarrow> real \<Rightarrow> real option \<Rightarrow> urge list \<Rightarrow> mood option \<Rightarrow>
    goal_table \<Rightarrow> goal_table \<times> goal option" where
  "arbitrate newest ar clk now us m tbl =
     (let active = active_goals newest tbl;
          reference = (case now of Some t \<Rightarrow> t | None \<Rightarrow> clk)
      in case select_goal ar clk reference us m active of
           None \<Rightarrow> (tbl, (case active of [] \<Rightarrow> None | g # _ \<Rightarrow> Some g))
         | Some decision \<Rightarrow>
             let tbl1 = (case active of
                           [] \<Rightarrow> tbl
                         | g # _ \<Rightarrow> abandon clk (the (go_id g))
                                      [(''abandoned_for'', JStr (go_source decision))] tbl);
                 (tbl2, promoted) = promote clk decision tbl1
             in (tbl2, Some promoted))"

section \<open>One pursuit at a time\<close>

text \<open>Rows are numbered in order and at most one is active.\<close>

definition goals_ok :: "goal_table \<Rightarrow> bool" where
  "goals_ok tbl \<longleftrightarrow>
     map go_id tbl = map Some [1..<Suc (length tbl)] \<and>
     (\<forall>g \<in> set tbl. go_created_at g \<noteq> None) \<and>
     length (filter (\<lambda>g. go_status g = Active) tbl) \<le> 1"

definition current_goal :: "goal_table \<Rightarrow> goal option" where
  "current_goal tbl = find (\<lambda>g. go_status g = Active) tbl"

lemma length_update_goal [simp]: "length (update_goal i f tbl) = length tbl"
  by (simp add: update_goal_def)

lemma goals_ok_ids: "goals_ok tbl \<Longrightarrow> k < length tbl \<Longrightarrow> go_id (tbl ! k) = Some (Suc k)"
proof -
  assume ok: "goals_ok tbl" and k: "k < length tbl"
  then have "map go_id tbl ! k = map Some [1..<Suc (length tbl)] ! k" by (simp add: goals_ok_def)
  with k show ?thesis by (simp del: upt_Suc)
qed

lemma newest_set: "newest_ok newest \<Longrightarrow> set (newest rows) = set rows"
  unfolding newest_ok_def by (metis mset_eq_setD)

lemma newest_small: "newest_ok newest \<Longrightarrow> length rows \<le> 1 \<Longrightarrow> newest rows = rows"
proof -
  assume n: "newest_ok newest" and l: "length rows \<le> 1"
  then have m: "mset (newest rows) = mset rows" by (simp add: newest_ok_def)
  from l consider "rows = []" | g where "rows = [g]" by (cases rows) auto
  then show ?thesis using m by cases auto
qed

lemma filter_single: "length (filter P xs) \<le> 1 \<Longrightarrow>
    filter P xs = (case find P xs of None \<Rightarrow> [] | Some x \<Rightarrow> [x])"
  by (induction xs) (auto simp: find_None_iff filter_empty_conv split: option.splits if_splits)

lemma goals_ok_single: "goals_ok tbl \<Longrightarrow> length (filter (\<lambda>g. go_status g = Active) tbl) \<le> 1"
  by (simp add: goals_ok_def)

lemma active_goals_ok:
  "newest_ok newest \<Longrightarrow> goals_ok tbl \<Longrightarrow>
   active_goals newest tbl = (case current_goal tbl of None \<Rightarrow> [] | Some g \<Rightarrow> [g])"
  unfolding active_goals_def current_goal_def
  using newest_small [OF _ goals_ok_single] filter_single [OF goals_ok_single] by metis

lemma find_append: "find P (xs @ ys) = (case find P xs of None \<Rightarrow> find P ys | r \<Rightarrow> r)"
  by (induction xs) auto

lemma goals_ok_promote:
  assumes "goals_ok tbl" "current_goal tbl = None" "promote now g tbl = (tbl', p)"
  shows "goals_ok tbl' \<and> current_goal tbl' = Some p \<and> tbl' = tbl @ [p] \<and>
         go_source p = go_source g \<and> go_priority p = go_priority g \<and>
         go_created_at p = Some (case go_created_at g of Some t \<Rightarrow> t | None \<Rightarrow> now)"
proof -
  from assms(3) have p: "tbl' = tbl @ [p]" "go_id p = Some (Suc (length tbl))" "go_status p = Active"
    "go_source p = go_source g" "go_priority p = go_priority g"
    "go_created_at p = Some (case go_created_at g of Some t \<Rightarrow> t | None \<Rightarrow> now)"
    by (auto simp: promote_def Let_def)
  moreover from assms(2) have "filter (\<lambda>g. go_status g = Active) tbl = []"
    by (simp add: current_goal_def find_None_iff filter_empty_conv)
  ultimately show ?thesis using assms(1,2)
    by (simp add: goals_ok_def current_goal_def find_append)
qed

text \<open>Closing the active goal of a sound table leaves none active, and changes no other row.\<close>

lemma close_active:
  assumes "goals_ok tbl" "current_goal tbl = Some g" "st \<noteq> Active"
  shows "goals_ok (close_goal now (the (go_id g)) st outc tbl) \<and>
         current_goal (close_goal now (the (go_id g)) st outc tbl) = None \<and>
         (\<forall>k < length tbl. go_status (tbl ! k) \<noteq> Active \<longrightarrow>
            close_goal now (the (go_id g)) st outc tbl ! k = tbl ! k)"
proof -
  let ?t = "close_goal now (the (go_id g)) st outc tbl"
  from assms(2) obtain j where j: "j < length tbl" "tbl ! j = g" "go_status g = Active"
    by (auto simp: current_goal_def find_Some_iff)
  then have gid: "go_id g = Some (Suc j)" using goals_ok_ids [OF assms(1)] by blast
  have only: "k = j" if "k < length tbl" "go_status (tbl ! k) = Active" for k
  proof (rule ccontr)
    assume "k \<noteq> j"
    then have "{k, j} \<subseteq> {i. i < length tbl \<and> go_status (tbl ! i) = Active}" using that j by auto
    then have "card {k, j} \<le> card {i. i < length tbl \<and> go_status (tbl ! i) = Active}"
      by (intro card_mono) auto
    then have "2 \<le> length (filter (\<lambda>g. go_status g = Active) tbl)"
      using \<open>k \<noteq> j\<close> by (simp add: length_filter_conv_card)
    with assms(1) show False by (simp add: goals_ok_def)
  qed
  have nth: "?t ! k = (if k = j then (tbl ! k)\<lparr>go_status := st, go_outcome := outc, go_resolved_at := Some now\<rparr>
      else tbl ! k)" if "k < length tbl" for k
    using that goals_ok_ids [OF assms(1) that] gid by (simp add: close_goal_def update_goal_def)
  have len: "length ?t = length tbl" by (simp add: close_goal_def)
  have none: "go_status x \<noteq> Active" if "x \<in> set ?t" for x
  proof -
    from that obtain k where k: "k < length tbl" "x = ?t ! k"
      using len by (auto simp: in_set_conv_nth)
    show ?thesis
      using nth [OF k(1)] only [OF k(1)] assms(3) k(2) by (cases "k = j") auto
  qed
  have "map go_id ?t = map go_id tbl"
    by (simp add: close_goal_def update_goal_def)
  moreover have "\<forall>x \<in> set tbl. go_created_at x \<noteq> None"
    using assms(1) by (simp add: goals_ok_def)
  then have "\<forall>x \<in> set ?t. go_created_at x \<noteq> None"
    by (auto simp: close_goal_def update_goal_def)
  moreover have "filter (\<lambda>g. go_status g = Active) ?t = []" using none by (simp add: filter_empty_conv)
  ultimately have "goals_ok ?t" using assms(1) len by (simp add: goals_ok_def del: upt_Suc)
  moreover have "current_goal ?t = None" using none by (simp add: current_goal_def find_None_iff)
  moreover have "\<forall>k < length tbl. go_status (tbl ! k) \<noteq> Active \<longrightarrow> ?t ! k = tbl ! k"
    using nth j by auto
  ultimately show ?thesis by blast
qed

lemma arbitrate_effect:
  assumes "newest_ok newest" "goals_ok tbl" "arbitrate newest ar clk now us m tbl = (tbl', r)"
  shows "goals_ok tbl' \<and> r = current_goal tbl' \<and>
    (case select_goal ar clk (case now of Some t \<Rightarrow> t | None \<Rightarrow> clk) us m
            (case current_goal tbl of None \<Rightarrow> [] | Some g \<Rightarrow> [g]) of
       None \<Rightarrow> tbl' = tbl
     | Some d \<Rightarrow> length tbl' = Suc (length tbl) \<and>
         (\<forall>k < length tbl. go_status (tbl ! k) \<noteq> Active \<longrightarrow> tbl' ! k = tbl ! k) \<and>
         (\<exists>p. r = Some p \<and> go_source p = go_source d \<and> go_priority p = go_priority d \<and>
              go_created_at p = Some (case go_created_at d of Some t \<Rightarrow> t | None \<Rightarrow> clk)))"
proof (cases "select_goal ar clk (case now of Some t \<Rightarrow> t | None \<Rightarrow> clk) us m
            (case current_goal tbl of None \<Rightarrow> [] | Some g \<Rightarrow> [g])")
  case None
  with assms(3) show ?thesis using assms(2)
    by (auto simp: arbitrate_def active_goals_ok [OF assms(1,2)] Let_def split: option.splits)
next
  case (Some d)
  define tbl1 where "tbl1 = (case current_goal tbl of None \<Rightarrow> tbl
     | Some g \<Rightarrow> abandon clk (the (go_id g)) [(''abandoned_for'', JStr (go_source d))] tbl)"
  obtain tbl2 p where p: "promote clk d tbl1 = (tbl2, p)" by (cases "promote clk d tbl1")
  have r: "tbl' = tbl2" "r = Some p"
    using assms(3) Some p
    by (auto simp: arbitrate_def active_goals_ok [OF assms(1,2)] Let_def tbl1_def split: option.splits)
  have 1: "goals_ok tbl1 \<and> current_goal tbl1 = None \<and> length tbl1 = length tbl \<and>
      (\<forall>k < length tbl. go_status (tbl ! k) \<noteq> Active \<longrightarrow> tbl1 ! k = tbl ! k)"
  proof (cases "current_goal tbl")
    case None
    then show ?thesis using assms(2) by (simp add: tbl1_def)
  next
    case (Some g)
    then show ?thesis using close_active [OF assms(2) Some, of Abandoned]
      by (simp add: tbl1_def abandon_def) (simp add: close_goal_def)
  qed
  then have "goals_ok tbl2 \<and> current_goal tbl2 = Some p \<and> tbl2 = tbl1 @ [p] \<and>
      go_source p = go_source d \<and> go_priority p = go_priority d \<and>
      go_created_at p = Some (case go_created_at d of Some t \<Rightarrow> t | None \<Rightarrow> clk)"
    using goals_ok_promote p by blast
  with 1 r Some show ?thesis by (auto simp: nth_append)
qed

section \<open>The interface of the pursuit\<close>

text \<open>
  What deliberation and the state surface rely on: arbitration keeps the store sound, its result
  is the store's current pursuit, and a pursuit younger than the dwell is kept.
\<close>

locale pursuit =
  fixes ok :: "'t \<Rightarrow> bool"
    and current :: "'t \<Rightarrow> 'g option"
    and born :: "'g \<Rightarrow> real"
    and arb :: "real \<Rightarrow> urge list \<Rightarrow> mood option \<Rightarrow> 't \<Rightarrow> 't \<times> 'g option"
    and dwell :: real
  assumes arb_ok: "ok t \<Longrightarrow> arb now us m t = (t', r) \<Longrightarrow> ok t' \<and> r = current t'"
    and arb_dwell: "ok t \<Longrightarrow> current t = Some g \<Longrightarrow> now - born g < dwell \<Longrightarrow> arb now us m t = (t, Some g)"

fun run_arb :: "(real \<Rightarrow> urge list \<Rightarrow> mood option \<Rightarrow> 't \<Rightarrow> 't \<times> 'g option) \<Rightarrow>
    (real \<times> urge list \<times> mood option) list \<Rightarrow> 't \<Rightarrow> 't \<times> 'g option list" where
  "run_arb arb [] t = (t, [])"
| "run_arb arb ((now, us, m) # xs) t =
     (let (t1, r) = arb now us m t; (t2, rs) = run_arb arb xs t1 in (t2, r # rs))"

context pursuit begin

lemma run_ok: "ok t \<Longrightarrow> run_arb arb xs t = (t', rs) \<Longrightarrow> ok t'"
proof (induction xs arbitrary: t rs)
  case (Cons x xs)
  obtain now us m where x: "x = (now, us, m)" by (cases x)
  obtain t1 r where a: "arb now us m t = (t1, r)" by (cases "arb now us m t")
  obtain t2 rs2 where "run_arb arb xs t1 = (t2, rs2)" by (cases "run_arb arb xs t1")
  with Cons x a arb_ok [OF Cons.prems(1) a] show ?case by (auto simp: Let_def)
qed simp

lemma run_dwell:
  assumes "ok t" "current t = Some g" "\<forall>(now, us, m) \<in> set xs. now - born g < dwell"
  shows "run_arb arb xs t = (t, map (\<lambda>_. Some g) xs)"
  using assms(3)
proof (induction xs)
  case (Cons x xs)
  obtain now us m where "x = (now, us, m)" by (cases x)
  with Cons arb_dwell [OF assms(1,2), of now us m] show ?case by (simp add: Let_def)
qed simp

end

definition arb_at :: "goal_order \<Rightarrow> arbiter \<Rightarrow> real \<Rightarrow> urge list \<Rightarrow> mood option \<Rightarrow> goal_table \<Rightarrow>
    goal_table \<times> goal option" where
  "arb_at newest ar clk us m tbl = arbitrate newest ar clk None us m tbl"

definition by_created_at :: goal_order where
  "by_created_at rows = sort_desc (\<lambda>g. the (go_created_at g)) rows"

lemma newest_ok_by_created_at [simp]: "newest_ok by_created_at"
  by (simp add: newest_ok_def by_created_at_def sort_desc_sorted)

lemma current_goal_created: "goals_ok tbl \<Longrightarrow> current_goal tbl = Some g \<Longrightarrow> go_created_at g \<noteq> None"
  by (auto simp: goals_ok_def current_goal_def find_Some_iff)

lemma select_within_dwell:
  "go_created_at g = Some t \<Longrightarrow> reference - t < ar_min_dwell ar \<Longrightarrow>
   select_goal ar clk reference us m (g # gs) = None"
  by (simp add: select_goal_def split: option.splits)

lemma arbitrate_dwell:
  assumes "newest_ok newest" "goals_ok tbl" "current_goal tbl = Some g"
    and "now - the (go_created_at g) < ar_min_dwell ar"
  shows "arb_at newest ar now us m tbl = (tbl, Some g)"
proof -
  obtain t where "go_created_at g = Some t" using current_goal_created assms(2,3) by fastforce
  then show ?thesis
    using assms(3,4) select_within_dwell [of g t now ar]
    by (simp add: arb_at_def arbitrate_def active_goals_ok [OF assms(1,2)] Let_def)
qed

interpretation goal_pursuit: pursuit goals_ok current_goal "\<lambda>g. the (go_created_at g)"
  "arb_at by_created_at ar" "ar_min_dwell ar" for ar
proof unfold_locales
  fix t now us m t' r assume "goals_ok t" "arb_at by_created_at ar now us m t = (t', r)"
  then show "goals_ok t' \<and> r = current_goal t'"
    using arbitrate_effect [OF newest_ok_by_created_at] unfolding arb_at_def by blast
qed (use arbitrate_dwell [OF newest_ok_by_created_at] in blast)

section \<open>Properties\<close>

definition goal_demo :: "string \<Rightarrow> real \<Rightarrow> goal" where
  "goal_demo src t = \<lparr>go_id = Some 1, go_source = src, go_description = [], go_priority = 1/2,
     go_status = Active, go_plan = [], go_outcome = [], go_created_at = Some t, go_resolved_at = None\<rparr>"

definition urge_demo :: "string \<Rightarrow> real \<Rightarrow> urge" where
  "urge_demo d u = \<lparr>ur_drive = d, ur_value = 1, ur_threshold = 1/2, ur_urgency = u\<rparr>"

definition arbiter_demo :: arbiter where
  "arbiter_demo = \<lparr>ar_min_dwell = 300, ar_margin = 15/100, ar_arousal_weight = 1/2\<rparr>"

text \<open>C26: arbitration, with any urges, mood and clock and in whatever order the database returns
  rows of equal age, keeps the goal table sound (rows numbered in order, at most one active),
  returns exactly the table's active goal, and leaves every closed goal as it was.\<close>

theorem arbitrate_single_pursuit:
  assumes "newest_ok newest" "goals_ok tbl" "arbitrate newest ar clk now us m tbl = (tbl', r)"
  shows "goals_ok tbl' \<and> r = current_goal tbl' \<and> length tbl \<le> length tbl' \<and>
    (\<forall>k < length tbl. go_status (tbl ! k) \<noteq> Active \<longrightarrow> tbl' ! k = tbl ! k)"
  using arbitrate_effect [OF assms] by (auto split: option.splits)

theorem arbitrate_single_pursuit_witness:
  "let (t, r) = arbitrate by_created_at arbiter_demo 1000 None [urge_demo BOREDOM 1] None [goal_demo CURIOSITY 0]
   in goals_ok t \<and> r = current_goal t \<and> map go_status t = [Abandoned, Active] \<and>
      map go_source t = [CURIOSITY, BOREDOM]"
proof -
  obtain t r where a: "arbitrate by_created_at arbiter_demo 1000 None [urge_demo BOREDOM 1] None
      [goal_demo CURIOSITY 0] = (t, r)" by fastforce
  have "goals_ok [goal_demo CURIOSITY 0]" by (simp add: goals_ok_def goal_demo_def)
  from arbitrate_single_pursuit [OF newest_ok_by_created_at this a]
  have "goals_ok t \<and> r = current_goal t" by blast
  moreover have "map go_status t = [Abandoned, Active] \<and> map go_source t = [CURIOSITY, BOREDOM]"
    using a by (auto simp: arbitrate_def active_goals_def by_created_at_def sort_desc_def goal_demo_def
        select_goal_def is_sleep_signal_def urge_demo_def SLEEP_DRIVE_def drive_name_defs arbiter_demo_def
        priority_def incumbent_priority_def Let_def promote_def abandon_def close_goal_def update_goal_def
        goal_from_urge_def)
  ultimately show ?thesis using a by simp
qed

text \<open>C27: a goal promoted less than the dwell ago is kept: whatever urges and moods the following
  arbitrations see, each returns that goal and the table does not change.\<close>

theorem arbitrate_no_thrash:
  assumes "goals_ok tbl" "current_goal tbl = Some g" "go_created_at g = Some t0"
    and "\<forall>(now, us, m) \<in> set xs. now - t0 < ar_min_dwell ar"
  shows "run_arb (arb_at by_created_at ar) xs tbl = (tbl, map (\<lambda>_. Some g) xs)"
  by (rule goal_pursuit.run_dwell) (use assms in auto)

theorem arbitrate_no_thrash_witness:
  "run_arb (arb_at by_created_at arbiter_demo) [(10, [urge_demo BOREDOM 1], None), (299, [], None)]
     [goal_demo CURIOSITY 0] = ([goal_demo CURIOSITY 0], [Some (goal_demo CURIOSITY 0), Some (goal_demo CURIOSITY 0)])"
  using arbitrate_no_thrash [of "[goal_demo CURIOSITY 0]" "goal_demo CURIOSITY 0" 0
      "[(10, [urge_demo BOREDOM 1], None), (299, [], None)]" arbiter_demo]
  by (simp add: goals_ok_def goal_demo_def current_goal_def arbiter_demo_def)

text \<open>when an incumbent is displaced, it was held at least the dwell, the winner is another
  drive's urge, not the sleep signal, of the highest priority among the urges that can be pursued,
  and it beats the incumbent's present priority by more than the margin.\<close>

theorem select_switch_justified:
  assumes "select_goal ar clk reference us m (inc # rest) = Some d"
  shows "(\<exists>u \<in> set us. \<not> is_sleep_signal u \<and> d = goal_from_urge ar clk m u \<and> ur_drive u \<noteq> go_source inc \<and>
            incumbent_priority ar m inc us + ar_margin ar < priority ar m u \<and>
            (\<forall>v \<in> set us. \<not> is_sleep_signal v \<longrightarrow> priority ar m v \<le> priority ar m u)) \<and>
         (\<forall>t. go_created_at inc = Some t \<longrightarrow> ar_min_dwell ar \<le> reference - t)"
proof -
  from assms obtain u where u: "first_max (priority ar m) (filter (\<lambda>u. \<not> is_sleep_signal u) us) = Some u"
    "d = goal_from_urge ar clk m u" "ur_drive u \<noteq> go_source inc"
    "incumbent_priority ar m inc us + ar_margin ar < priority ar m u"
    and dwell: "\<forall>t. go_created_at inc = Some t \<longrightarrow> ar_min_dwell ar \<le> reference - t"
    by (auto simp: select_goal_def not_less split: option.splits if_splits)
  have "u \<in> set us \<and> \<not> is_sleep_signal u" using first_max_in [OF u(1)] by simp
  moreover have "\<forall>v \<in> set us. \<not> is_sleep_signal v \<longrightarrow> priority ar m v \<le> priority ar m u"
    using first_max_ge [OF u(1)] by simp
  ultimately show ?thesis using u dwell by blast
qed

theorem select_switch_justified_witness:
  "\<exists>d. select_goal arbiter_demo 1000 1000 [urge_demo ENERGY 1, urge_demo BOREDOM (8/10)] None
         [goal_demo CURIOSITY 0] = Some d \<and> go_source d = BOREDOM \<and>
       ar_min_dwell arbiter_demo \<le> 1000 - 0"
proof -
  have s: "select_goal arbiter_demo 1000 1000 [urge_demo ENERGY 1, urge_demo BOREDOM (8/10)] None
         [goal_demo CURIOSITY 0] = Some (goal_from_urge arbiter_demo 1000 None (urge_demo BOREDOM (8/10)))"
    by (simp add: select_goal_def goal_demo_def urge_demo_def is_sleep_signal_def SLEEP_DRIVE_def
        drive_name_defs arbiter_demo_def priority_def incumbent_priority_def Let_def)
  from select_switch_justified [OF s] have "ar_min_dwell arbiter_demo \<le> 1000 - 0"
    by (simp add: goal_demo_def)
  with s show ?thesis by (simp add: goal_from_urge_def urge_demo_def)
qed

end
