(* ===== verification/Attention.thy ===== *)
theory Attention
  imports Workspace
begin

text \<open>
  \<^verbatim>\<open>brain/agents/attention.py\<close>: the scored, bounded selection of the salient set.  The
  window of recent contents is the list a \<^verbatim>\<open>deque(maxlen=horizon)\<close> holds.
\<close>

record attention_bias =
  ab_arousal :: real
  ab_kind_boosts :: "(string \<times> real) list"

record attention =
  at_capacity :: nat
  at_w_salience :: real
  at_w_novelty :: real
  at_repeat_penalty :: real
  at_w_arousal :: real
  at_horizon :: nat
  at_recent :: "string list"
  at_bias :: attention_bias

definition AROUSAL_NEUTRAL :: real where "AROUSAL_NEUTRAL = 3/10"

definition default_horizon :: "nat \<Rightarrow> nat" where "default_horizon capacity = max (capacity * 4) 12"

definition set_bias :: "attention_bias \<Rightarrow> attention \<Rightarrow> attention" where
  "set_bias b a = a\<lparr>at_bias := b\<rparr>"

definition novelty :: "attention \<Rightarrow> string \<Rightarrow> real" where
  "novelty a c = (let repeats = count_list (at_recent a) c
                  in if repeats = 0 then 1 else at_repeat_penalty a ^ repeats)"

definition score_item :: "attention \<Rightarrow> ws_item \<Rightarrow> real" where
  "score_item a i =
     (let base = at_w_salience a * wi_salience i + at_w_novelty a * novelty a (wi_content i)
                 + dict_get (ab_kind_boosts (at_bias a)) (wi_kind i) 0;
          sharpen = 1 + at_w_arousal a * (ab_arousal (at_bias a) - AROUSAL_NEUTRAL) * (wi_salience i - 5/10)
      in max 0 (base * sharpen))"

fun dedupe_into :: "(string \<times> ws_item) list \<Rightarrow> ws_item list \<Rightarrow> (string \<times> ws_item) list" where
  "dedupe_into best [] = best"
| "dedupe_into best (i # is) =
     dedupe_into (case map_of best (wi_content i) of
                    None \<Rightarrow> dict_put (wi_content i) i best
                  | Some e \<Rightarrow> if wi_salience e < wi_salience i then dict_put (wi_content i) i best else best) is"

definition dedupe :: "ws_item list \<Rightarrow> ws_item list" where
  "dedupe is = map snd (dedupe_into [] is)"

definition deque_append :: "nat \<Rightarrow> 'a \<Rightarrow> 'a list \<Rightarrow> 'a list" where
  "deque_append maxlen x xs = drop (length xs + 1 - maxlen) (xs @ [x])"

definition remember :: "string list \<Rightarrow> attention \<Rightarrow> attention" where
  "remember cs a = a\<lparr>at_recent := fold (deque_append (at_horizon a)) cs (at_recent a)\<rparr>"

definition select_items :: "ws_item list \<Rightarrow> ws_item list \<Rightarrow> attention \<Rightarrow> attention \<times> ws_item list" where
  "select_items working_memory percepts a =
     (let candidates = dedupe (percepts @ working_memory);
          scored = sort_desc fst (map (\<lambda>i. (score_item a i, i)) candidates);
          selected = map (\<lambda>(s, i). i\<lparr>wi_salience := clamp01 s\<rparr>) (take (at_capacity a) scored)
      in (remember (map wi_content selected) a, selected))"

section \<open>Deduplication\<close>

text \<open>The dictionary of the best instances: keyed by content, and each as salient as any item
  of its content seen so far.\<close>

definition best_ok :: "ws_item list \<Rightarrow> (string \<times> ws_item) list \<Rightarrow> bool" where
  "best_ok seen best \<longleftrightarrow> distinct (map fst best) \<and> fst ` set best = wi_content ` set seen \<and>
     (\<forall>(c, i) \<in> set best. wi_content i = c \<and> i \<in> set seen \<and>
        (\<forall>j \<in> set seen. wi_content j = c \<longrightarrow> wi_salience j \<le> wi_salience i))"

lemma set_dict_put: "distinct (map fst d) \<Longrightarrow> set (dict_put k v d) = insert (k, v) {e \<in> set d. fst e \<noteq> k}"
  by (induction k v d rule: dict_put.induct) force+

lemma best_ok_step:
  assumes "best_ok seen best"
  shows "best_ok (seen @ [i]) (case map_of best (wi_content i) of
           None \<Rightarrow> dict_put (wi_content i) i best
         | Some e \<Rightarrow> if wi_salience e < wi_salience i then dict_put (wi_content i) i best else best)"
proof -
  have d: "distinct (map fst best)" and k: "fst ` set best = wi_content ` set seen"
    and b: "\<And>c j. (c, j) \<in> set best \<Longrightarrow> wi_content j = c \<and> j \<in> set seen \<and>
        (\<forall>x \<in> set seen. wi_content x = c \<longrightarrow> wi_salience x \<le> wi_salience j)"
    using assms by (auto simp: best_ok_def)
  have put: "best_ok (seen @ [i]) (dict_put (wi_content i) i best)"
    if "\<And>x. x \<in> set seen \<Longrightarrow> wi_content x = wi_content i \<Longrightarrow> wi_salience x \<le> wi_salience i"
    unfolding best_ok_def
  proof (intro conjI ballI)
    show "distinct (map fst (dict_put (wi_content i) i best))" by (rule distinct_dict_put [OF d])
    show "fst ` set (dict_put (wi_content i) i best) = wi_content ` set (seen @ [i])"
      using k by simp
    fix x assume "x \<in> set (dict_put (wi_content i) i best)"
    then have "x = (wi_content i, i) \<or> (x \<in> set best \<and> fst x \<noteq> wi_content i)"
      by (auto simp: set_dict_put [OF d])
    then show "case x of (c, j) \<Rightarrow> wi_content j = c \<and> j \<in> set (seen @ [i]) \<and>
        (\<forall>y \<in> set (seen @ [i]). wi_content y = c \<longrightarrow> wi_salience y \<le> wi_salience j)"
      using that b by (cases x) auto
  qed
  show ?thesis
  proof (cases "map_of best (wi_content i)")
    case None
    then have "wi_content i \<notin> wi_content ` set seen" using k by (auto simp: map_of_eq_None_iff)
    then have "\<And>x. x \<in> set seen \<Longrightarrow> wi_content x \<noteq> wi_content i" by (metis imageI)
    then have "best_ok (seen @ [i]) (dict_put (wi_content i) i best)" by (intro put) blast
    with None show ?thesis by simp
  next
    case (Some e)
    then have e: "(wi_content i, e) \<in> set best" by (rule map_of_SomeD)
    show ?thesis
    proof (cases "wi_salience e < wi_salience i")
      case True
      have "best_ok (seen @ [i]) (dict_put (wi_content i) i best)"
        using b [OF e] True by (intro put) force
      with Some True show ?thesis by simp
    next
      case False
      have "best_ok (seen @ [i]) best"
        unfolding best_ok_def
      proof (intro conjI ballI)
        have "wi_content i \<in> wi_content ` set seen" using b [OF e] by (metis imageI)
        then show "fst ` set best = wi_content ` set (seen @ [i])" using k by auto
        fix x assume x: "x \<in> set best"
        obtain c j where cj: "x = (c, j)" by (cases x)
        note bj = b [of c j]
        have "wi_salience i \<le> wi_salience j" if "wi_content i = c"
        proof -
          from that x cj e d have "j = e" by (metis eq_key_imp_eq_value)
          with False show ?thesis by simp
        qed
        with bj x cj show "case x of (c, j) \<Rightarrow> wi_content j = c \<and> j \<in> set (seen @ [i]) \<and>
            (\<forall>y \<in> set (seen @ [i]). wi_content y = c \<longrightarrow> wi_salience y \<le> wi_salience j)" by auto
      qed (rule d)
      with Some False show ?thesis by simp
    qed
  qed
qed

lemma best_ok_dedupe_into: "best_ok seen best \<Longrightarrow> best_ok (seen @ is) (dedupe_into best is)"
proof (induction best "is" arbitrary: seen rule: dedupe_into.induct)
  case (2 best i "is")
  from "2.IH" [OF best_ok_step [OF "2.prems", of i]] show ?case by simp
qed simp

lemma dedupe_ok:
  "distinct (map wi_content (dedupe is)) \<and> wi_content ` set (dedupe is) = wi_content ` set is \<and>
   set (dedupe is) \<subseteq> set is \<and>
   (\<forall>i \<in> set (dedupe is). \<forall>j \<in> set is. wi_content j = wi_content i \<longrightarrow> wi_salience j \<le> wi_salience i)"
proof -
  have ok: "best_ok is (dedupe_into [] is)"
    using best_ok_dedupe_into [of "[]" "[]" "is"] by (simp add: best_ok_def)
  let ?b = "dedupe_into [] is"
  have key: "\<And>c i. (c, i) \<in> set ?b \<Longrightarrow> wi_content i = c \<and> i \<in> set is \<and>
      (\<forall>j \<in> set is. wi_content j = c \<longrightarrow> wi_salience j \<le> wi_salience i)"
    using ok by (auto simp: best_ok_def)
  then have keys: "map (wi_content \<circ> snd) ?b = map fst ?b" by (intro map_cong) auto
  then have 1: "map wi_content (dedupe is) = map fst ?b" by (simp add: dedupe_def)
  have "wi_content ` set (dedupe is) = set (map wi_content (dedupe is))" by simp
  also have "\<dots> = wi_content ` set is" unfolding 1 using ok by (simp add: best_ok_def)
  finally have 2: "wi_content ` set (dedupe is) = wi_content ` set is" .
  have "distinct (map wi_content (dedupe is))" unfolding 1 using ok by (simp add: best_ok_def)
  with 2 key show ?thesis by (fastforce simp: dedupe_def)
qed

section \<open>The window\<close>

lemma length_deque_append: "length xs \<le> n \<Longrightarrow> length (deque_append n x xs) \<le> n"
  by (simp add: deque_append_def)

lemma length_remember: "length (at_recent a) \<le> at_horizon a \<Longrightarrow> length (at_recent (remember cs a)) \<le> at_horizon a"
proof -
  have "length xs \<le> n \<Longrightarrow> length (fold (deque_append n) cs xs) \<le> n" for xs :: "string list" and n
    by (induction cs arbitrary: xs) (simp_all add: length_deque_append)
  then show "length (at_recent a) \<le> at_horizon a \<Longrightarrow> ?thesis" by (simp add: remember_def)
qed

section \<open>The ranking of the candidates\<close>

definition ranked :: "attention \<Rightarrow> ws_item list \<Rightarrow> (real \<times> ws_item) list" where
  "ranked a cs = sort_desc fst (map (\<lambda>i. (score_item a i, i)) (dedupe cs))"

definition rescored :: "real \<times> ws_item \<Rightarrow> ws_item" where
  "rescored = (\<lambda>(s, i). i\<lparr>wi_salience := clamp01 s\<rparr>)"

lemma rescored_simps [simp]:
  "wi_content (rescored p) = wi_content (snd p)" "wi_salience (rescored p) = clamp01 (fst p)"
  by (simp_all add: rescored_def case_prod_unfold)

lemma select_items_ranked:
  assumes "select_items wm ps a = (a', sel)"
  shows "sel = map rescored (take (at_capacity a) (ranked a (ps @ wm)))" "a' = remember (map wi_content sel) a"
  using assms by (auto simp: select_items_def Let_def ranked_def rescored_def)

lemma set_ranked: "set (ranked a cs) = (\<lambda>i. (score_item a i, i)) ` set (dedupe cs)"
  by (simp add: ranked_def)

lemma length_ranked [simp]: "length (ranked a cs) = length (dedupe cs)"
  by (simp add: ranked_def)

lemma ranked_distinct: "distinct (map (wi_content \<circ> snd) (ranked a cs))"
proof -
  have "mset (map (wi_content \<circ> snd) (ranked a cs)) = image_mset (wi_content \<circ> snd) (mset (ranked a cs))"
    by simp
  also have "\<dots> = mset (map wi_content (dedupe cs))"
    by (simp add: ranked_def image_mset.compositionality comp_def)
  finally show ?thesis
    using dedupe_ok [of cs] by (metis mset_eq_imp_distinct_iff)
qed

lemma top_sorted: "sorted_wrt (\<lambda>x y. wi_salience y \<le> wi_salience x) (map rescored (take n (ranked a cs)))"
proof -
  have "sorted_wrt (\<lambda>x y. fst y \<le> fst x) (take n (ranked a cs))"
    by (simp add: ranked_def sort_desc_sorted sorted_wrt_take)
  then show ?thesis
    unfolding sorted_wrt_map by (rule sorted_wrt_mono_rel [rotated]) (simp add: clamp01_mono)
qed

lemma left_out_scores_less:
  assumes "j \<in> set (dedupe cs)" "wi_content j \<notin> wi_content ` rescored ` set (take n (ranked a cs))"
    "p \<in> set (take n (ranked a cs))"
  shows "score_item a j \<le> fst p"
proof -
  have "(score_item a j, j) \<notin> set (take n (ranked a cs))"
    using assms(2) imageI [of "(score_item a j, j)" "set (take n (ranked a cs))" "\<lambda>p. wi_content (snd p)"]
    by (auto simp: image_image)
  moreover have "(score_item a j, j) \<in> set (take n (ranked a cs) @ drop n (ranked a cs))"
    using assms(1) by (simp add: set_ranked)
  ultimately have "(score_item a j, j) \<in> set (drop n (ranked a cs))"
    unfolding set_append by blast
  with assms(3) show ?thesis
    using take_sort_desc_ge [of p n fst "map (\<lambda>i. (score_item a i, i)) (dedupe cs)" "(score_item a j, j)"]
    by (simp add: ranked_def)
qed

section \<open>Properties\<close>

text \<open>C24: the selection has at most \<open>capacity\<close> items with distinct contents, each the most salient
  instance of its content among the candidates, carrying its own score (clamped to the unit
  interval) as its salience, in descending order; every candidate content left out scores no more
  than any selected one, and nothing is left out while there is room.  The window of remembered
  contents stays within its horizon.\<close>

theorem select_bounded:
  assumes "select_items wm ps a = (a', sel)" "length (at_recent a) \<le> at_horizon a"
  shows "length sel = min (at_capacity a) (length (dedupe (ps @ wm))) \<and> distinct (map wi_content sel) \<and>
    sorted_wrt (\<lambda>x y. wi_salience y \<le> wi_salience x) sel \<and>
    (\<forall>s \<in> set sel. \<exists>i \<in> set (ps @ wm). s = i\<lparr>wi_salience := clamp01 (score_item a i)\<rparr> \<and>
       (\<forall>j \<in> set (ps @ wm). wi_content j = wi_content i \<longrightarrow> wi_salience j \<le> wi_salience i)) \<and>
    (\<forall>j \<in> set (dedupe (ps @ wm)). wi_content j \<notin> wi_content ` set sel \<longrightarrow>
       (\<forall>s \<in> set sel. clamp01 (score_item a j) \<le> wi_salience s)) \<and>
    length (at_recent a') \<le> at_horizon a'"
proof -
  let ?r = "ranked a (ps @ wm)"
  note sel = select_items_ranked(1) [OF assms(1)] and a' = select_items_ranked(2) [OF assms(1)]
  have "distinct (map wi_content sel)"
    using distinct_take [OF ranked_distinct [of a "ps @ wm"], of "at_capacity a"]
    by (simp add: sel take_map comp_def)
  moreover have "\<exists>i \<in> set (ps @ wm). s = i\<lparr>wi_salience := clamp01 (score_item a i)\<rparr> \<and>
       (\<forall>j \<in> set (ps @ wm). wi_content j = wi_content i \<longrightarrow> wi_salience j \<le> wi_salience i)"
    if "s \<in> set sel" for s
  proof -
    from that obtain p where "p \<in> set ?r" "s = rescored p" by (auto simp: sel dest: in_set_takeD)
    then obtain i where "i \<in> set (dedupe (ps @ wm))" "s = i\<lparr>wi_salience := clamp01 (score_item a i)\<rparr>"
      by (auto simp: set_ranked rescored_def)
    with dedupe_ok [of "ps @ wm"] show ?thesis by (intro bexI [of _ i]) auto
  qed
  moreover have "clamp01 (score_item a j) \<le> wi_salience s"
    if "j \<in> set (dedupe (ps @ wm))" "wi_content j \<notin> wi_content ` set sel" "s \<in> set sel" for j s
  proof -
    from that(3) obtain p where p: "p \<in> set (take (at_capacity a) ?r)" "s = rescored p" by (auto simp: sel)
    from that(2) have "wi_content j \<notin> wi_content ` rescored ` set (take (at_capacity a) ?r)" by (simp add: sel)
    from left_out_scores_less [OF that(1) this p(1)] p(2) show ?thesis by (simp add: clamp01_mono)
  qed
  moreover have "length (at_recent a') \<le> at_horizon a'"
    using length_remember [OF assms(2)] a' by (simp add: remember_def)
  ultimately show ?thesis
    using top_sorted [of "at_capacity a" a "ps @ wm"] by (auto simp: sel)
qed

definition attention_demo :: attention where
  "attention_demo = \<lparr>at_capacity = 2, at_w_salience = 6/10, at_w_novelty = 4/10, at_repeat_penalty = 1/2,
     at_w_arousal = 1/2, at_horizon = 12, at_recent = [''hum''],
     at_bias = \<lparr>ab_arousal = 3/10, ab_kind_boosts = []\<rparr>\<rparr>"

definition item_demo :: "string \<Rightarrow> string \<Rightarrow> real \<Rightarrow> ws_item" where
  "item_demo k c s = \<lparr>wi_id = [], wi_kind = k, wi_content = c, wi_salience = s, wi_source = [], wi_metadata = []\<rparr>"

theorem select_bounded_witness:
  "\<exists>a' sel. select_items [item_demo ''note'' ''hum'' (2/10), item_demo ''note'' ''hello'' (1/10)]
      [item_demo ''input'' ''hello'' (9/10), item_demo ''ambient'' ''quiet'' (1/10)] attention_demo = (a', sel) \<and>
    length sel = 2 \<and> distinct (map wi_content sel)"
proof -
  obtain a' sel where s: "select_items [item_demo ''note'' ''hum'' (2/10), item_demo ''note'' ''hello'' (1/10)]
      [item_demo ''input'' ''hello'' (9/10), item_demo ''ambient'' ''quiet'' (1/10)] attention_demo = (a', sel)"
    by fastforce
  have "length (at_recent attention_demo) \<le> at_horizon attention_demo" by (simp add: attention_demo_def)
  from select_bounded [OF s this] s show ?thesis
    by (simp add: dedupe_def item_demo_def attention_demo_def)
qed

end
