(* ===== verification/WorkingMem.thy ===== *)
theory WorkingMem
  imports Prelude
begin

text \<open>
  \<^verbatim>\<open>brain/memory/working.py\<close>: the bounded, decaying working set over Redis.  The hash and the
  sorted set are association lists with one entry for a key.  Two choices are Redis's own and are
  parameters: the order in which \<^verbatim>\<open>HGETALL\<close> lists the hash (\<open>hvals\<close>) and which of equally
  scored members \<^verbatim>\<open>ZRANGE 0 n-1\<close> puts first (\<open>zlow\<close>); \<open>hvals_ok\<close> and \<open>zlow_ok\<close> say what
  Redis documents.
\<close>

record wm_item =
  wm_id :: string
  wm_content :: string
  wm_kind :: string
  wm_salience :: real
  wm_created_at :: real
  wm_expires_at :: "real option"

record working_memory =
  wm_items :: "(string \<times> wm_item) list"
  wm_scores :: "(string \<times> real) list"
  wm_capacity :: nat
  wm_decay_factor :: real
  wm_floor :: real
  wm_default_ttl :: real

type_synonym hvals = "(string \<times> wm_item) list \<Rightarrow> wm_item list"
type_synonym zlow = "nat \<Rightarrow> (string \<times> real) list \<Rightarrow> string list"

definition hvals_ok :: "hvals \<Rightarrow> bool" where
  "hvals_ok hv \<longleftrightarrow> (\<forall>d. distinct (map fst d) \<longrightarrow> mset (hv d) = mset (map snd d))"

definition zlow_ok :: "zlow \<Rightarrow> bool" where
  "zlow_ok zl \<longleftrightarrow> (\<forall>n d. distinct (map fst d) \<longrightarrow> n \<le> length d \<longrightarrow>
     distinct (zl n d) \<and> length (zl n d) = n \<and> set (zl n d) \<subseteq> fst ` set d \<and>
     (\<forall>(x, s) \<in> set d. \<forall>(y, t) \<in> set d. x \<in> set (zl n d) \<longrightarrow> y \<notin> set (zl n d) \<longrightarrow> s \<le> t))"

section \<open>The internals\<close>

definition wm_persist :: "wm_item \<Rightarrow> working_memory \<Rightarrow> working_memory" where
  "wm_persist i w = w\<lparr>wm_items := dict_put (wm_id i) i (wm_items w),
                     wm_scores := dict_put (wm_id i) (wm_salience i) (wm_scores w)\<rparr>"

definition wm_evict :: "string \<Rightarrow> working_memory \<Rightarrow> working_memory" where
  "wm_evict k w = w\<lparr>wm_items := dict_del k (wm_items w), wm_scores := dict_del k (wm_scores w)\<rparr>"

definition read_all :: "hvals \<Rightarrow> working_memory \<Rightarrow> wm_item list" where
  "read_all hv w = hv (wm_items w)"

definition expired :: "real \<Rightarrow> wm_item \<Rightarrow> bool" where
  "expired now i \<longleftrightarrow> (case wm_expires_at i of None \<Rightarrow> False | Some t \<Rightarrow> t \<le> now)"

fun prune_loop :: "real \<Rightarrow> wm_item list \<Rightarrow> working_memory \<Rightarrow> working_memory \<times> wm_item list" where
  "prune_loop now [] w = (w, [])"
| "prune_loop now (i # is) w =
     (if expired now i
      then let (w', ev) = prune_loop now is (wm_evict (wm_id i) w) in (w', i # ev)
      else prune_loop now is w)"

definition prune_expired :: "hvals \<Rightarrow> real \<Rightarrow> working_memory \<Rightarrow> working_memory \<times> wm_item list" where
  "prune_expired hv now w = prune_loop now (read_all hv w) w"

definition wm_count :: "working_memory \<Rightarrow> nat" where
  "wm_count w = length (wm_scores w)"

definition trim_to_capacity :: "zlow \<Rightarrow> working_memory \<Rightarrow> working_memory" where
  "trim_to_capacity zl w =
     (let overflow = wm_count w - wm_capacity w
      in if wm_count w \<le> wm_capacity w then w
         else fold wm_evict (zl overflow (wm_scores w)) w)"

section \<open>The public operations\<close>

definition wm_put :: "hvals \<Rightarrow> zlow \<Rightarrow> real \<Rightarrow> wm_item \<Rightarrow> real option \<Rightarrow> working_memory \<Rightarrow>
    working_memory \<times> wm_item" where
  "wm_put hv zl now i ttl w =
     (let eff = (case ttl of None \<Rightarrow> wm_default_ttl w | Some t \<Rightarrow> t);
          stored = i\<lparr>wm_salience := clamp01 (wm_salience i), wm_created_at := now,
                     wm_expires_at := (if 0 < eff then Some (now + eff) else None)\<rparr>;
          w1 = fst (prune_expired hv now w)
      in (trim_to_capacity zl (wm_persist stored w1), stored))"

text \<open>\<^verbatim>\<open>sort(key=(salience, created_at), reverse=True)\<close>: by the age first, then, stably, by the
  salience.\<close>

definition wm_contents :: "hvals \<Rightarrow> real \<Rightarrow> working_memory \<Rightarrow> working_memory \<times> wm_item list" where
  "wm_contents hv now w =
     (let w1 = fst (prune_expired hv now w)
      in (w1, sort_desc wm_salience (sort_desc wm_created_at (read_all hv w1))))"

fun decay_loop :: "wm_item list \<Rightarrow> working_memory \<Rightarrow> working_memory \<times> wm_item list" where
  "decay_loop [] w = (w, [])"
| "decay_loop (i # is) w =
     (let decayed = wm_salience i * wm_decay_factor w
      in if decayed < wm_floor w
         then let (w', ev) = decay_loop is (wm_evict (wm_id i) w) in (w', i # ev)
         else decay_loop is (wm_persist (i\<lparr>wm_salience := decayed\<rparr>) w))"

definition wm_decay :: "hvals \<Rightarrow> real \<Rightarrow> working_memory \<Rightarrow> working_memory \<times> wm_item list" where
  "wm_decay hv now w =
     (let (w1, ev1) = prune_expired hv now w;
          (w2, ev2) = decay_loop (read_all hv w1) w1
      in (w2, ev1 @ ev2))"

definition wm_clear :: "working_memory \<Rightarrow> working_memory" where
  "wm_clear w = w\<lparr>wm_items := [], wm_scores := []\<rparr>"

definition export_items :: "hvals \<Rightarrow> real \<Rightarrow> working_memory \<Rightarrow> working_memory \<times> wm_item list" where
  "export_items hv now w = (let w1 = fst (prune_expired hv now w) in (w1, read_all hv w1))"

definition import_items :: "wm_item list \<Rightarrow> working_memory \<Rightarrow> working_memory" where
  "import_items is w = fold wm_persist is w"

section \<open>The invariant and the abstract view\<close>

text \<open>The abstract working set: what the hash holds for each id.  In a sound state every item is
  stored under its own id, and the sorted set holds exactly the items' saliences.\<close>

definition wm_view :: "working_memory \<Rightarrow> string \<Rightarrow> wm_item option" where
  "wm_view w = map_of (wm_items w)"

definition wm_ok :: "working_memory \<Rightarrow> bool" where
  "wm_ok w \<longleftrightarrow> distinct (map fst (wm_items w)) \<and> distinct (map fst (wm_scores w)) \<and>
     (\<forall>k i. wm_view w k = Some i \<longrightarrow> wm_id i = k) \<and>
     map_of (wm_scores w) = (\<lambda>k. map_option wm_salience (wm_view w k))"

definition same_config :: "working_memory \<Rightarrow> working_memory \<Rightarrow> bool" where
  "same_config w w' \<longleftrightarrow> wm_capacity w' = wm_capacity w \<and> wm_decay_factor w' = wm_decay_factor w \<and>
     wm_floor w' = wm_floor w \<and> wm_default_ttl w' = wm_default_ttl w"

lemma same_config_refl [simp]: "same_config w w"
  by (simp add: same_config_def)

lemma distinct_dict_del: "distinct (map fst d) \<Longrightarrow> distinct (map fst (dict_del k d))"
  by (induction d) (auto simp: dict_del_def)

lemma wm_view_persist [simp]: "wm_view (wm_persist i w) = (wm_view w)(wm_id i \<mapsto> i)"
  by (simp add: wm_view_def wm_persist_def)

lemma wm_view_evict [simp]: "wm_view (wm_evict k w) = (wm_view w)(k := None)"
  by (simp add: wm_view_def wm_evict_def)

lemma wm_ok_persist [intro]: "wm_ok w \<Longrightarrow> wm_ok (wm_persist i w)"
  by (auto simp: wm_ok_def distinct_dict_put) (auto simp: wm_persist_def distinct_dict_put)

lemma wm_ok_evict [intro]: "wm_ok w \<Longrightarrow> wm_ok (wm_evict k w)"
  by (auto simp: wm_ok_def split: if_splits) (auto simp: wm_evict_def distinct_dict_del)

lemma same_config_steps [simp]:
  "same_config w (wm_persist i w') = same_config w w'" "same_config w (wm_evict k w') = same_config w w'"
  "same_config (wm_persist i w) w' = same_config w w'" "same_config (wm_evict k w) w' = same_config w w'"
  by (simp_all add: same_config_def wm_persist_def wm_evict_def)

lemma config_steps [simp]:
  "wm_decay_factor (wm_persist i w) = wm_decay_factor w" "wm_decay_factor (wm_evict k w) = wm_decay_factor w"
  "wm_floor (wm_persist i w) = wm_floor w" "wm_floor (wm_evict k w) = wm_floor w"
  "wm_default_ttl (wm_persist i w) = wm_default_ttl w" "wm_default_ttl (wm_evict k w) = wm_default_ttl w"
  "wm_capacity (wm_persist i w) = wm_capacity w" "wm_capacity (wm_evict k w) = wm_capacity w"
  by (simp_all add: wm_persist_def wm_evict_def)

lemma wm_ok_ids:
  assumes "wm_ok w" "hvals_ok hv"
  shows "distinct (map wm_id (read_all hv w)) \<and> set (read_all hv w) = ran (wm_view w)"
proof -
  have d: "distinct (map fst (wm_items w))" using assms(1) by (simp add: wm_ok_def)
  have m: "mset (hv (wm_items w)) = mset (map snd (wm_items w))"
    using assms(2) d by (simp add: hvals_ok_def)
  have "wm_id i = k" if "(k, i) \<in> set (wm_items w)" for k i
    using that assms(1) d by (simp add: wm_ok_def wm_view_def)
  then have ids: "map wm_id (map snd (wm_items w)) = map fst (wm_items w)" by (auto intro: map_cong)
  have "mset (map wm_id (hv (wm_items w))) = mset (map fst (wm_items w))"
    unfolding ids [symmetric] by (simp only: mset_map m)
  then have "distinct (map wm_id (hv (wm_items w)))" using d by (metis mset_eq_imp_distinct_iff)
  moreover have "set (hv (wm_items w)) = snd ` set (wm_items w)"
    using m by (metis mset_eq_setD set_map)
  ultimately show ?thesis using ran_distinct [OF d] by (simp add: read_all_def wm_view_def)
qed

lemma wm_count_view: "wm_ok w \<Longrightarrow> wm_count w = card (dom (wm_view w))"
proof -
  assume ok: "wm_ok w"
  then have "dom (map_of (wm_scores w)) = dom (wm_view w)" by (auto simp: wm_ok_def)
  then have "fst ` set (wm_scores w) = dom (wm_view w)" by (simp add: dom_map_of_conv_image_fst)
  moreover have "card (fst ` set (wm_scores w)) = length (wm_scores w)"
    using ok distinct_card [of "map fst (wm_scores w)"] by (simp add: wm_ok_def)
  ultimately show ?thesis by (simp add: wm_count_def)
qed

section \<open>Pruning, trimming, decaying\<close>

lemma prune_loop_effect:
  assumes "prune_loop now is w = (w', ev)" "wm_ok w"
  shows "wm_ok w' \<and> same_config w w' \<and> ev = filter (expired now) is \<and>
         wm_view w' = (\<lambda>k. if k \<in> wm_id ` set ev then None else wm_view w k)"
  using assms
proof (induction "is" arbitrary: w w' ev)
  case (Cons i "is")
  show ?case
  proof (cases "expired now i")
    case True
    with Cons.prems obtain ev1 where l: "prune_loop now is (wm_evict (wm_id i) w) = (w', ev1)"
      and ev: "ev = i # ev1" by (auto split: prod.splits)
    from Cons.IH [OF l wm_ok_evict [OF Cons.prems(2)]] True ev show ?thesis
      by (auto simp: fun_eq_iff)
  qed (use Cons in auto)
qed auto

lemma ran_view: "wm_ok w \<Longrightarrow> i \<in> ran (wm_view w) \<longleftrightarrow> wm_view w (wm_id i) = Some i"
  by (auto simp: ran_def wm_ok_def)

lemma prune_expired_effect:
  assumes "prune_expired hv now w = (w', ev)" "wm_ok w" "hvals_ok hv"
  shows "wm_ok w' \<and> same_config w w' \<and>
    set ev = {i \<in> ran (wm_view w). expired now i} \<and> distinct (map wm_id ev) \<and>
    wm_view w' = (\<lambda>k. case wm_view w k of Some i \<Rightarrow> if expired now i then None else Some i | None \<Rightarrow> None)"
proof -
  note ids = wm_ok_ids [OF assms(2,3)]
  note e = prune_loop_effect [OF assms(1) [unfolded prune_expired_def] assms(2)]
  have "wm_view w' k = (case wm_view w k of Some i \<Rightarrow> if expired now i then None else Some i | None \<Rightarrow> None)" for k
  proof (cases "wm_view w k")
    case (Some i)
    then have k: "wm_id i = k" using assms(2) by (simp add: wm_ok_def)
    have "k \<in> wm_id ` set ev \<longleftrightarrow> expired now i"
    proof
      assume "k \<in> wm_id ` set ev"
      then obtain j where j: "j \<in> ran (wm_view w)" "expired now j" "wm_id j = k"
        using e ids by auto
      then have "wm_view w k = Some j" using ran_view [OF assms(2)] by blast
      with Some j(2) show "expired now i" by simp
    next
      assume "expired now i"
      moreover have "i \<in> ran (wm_view w)" using Some by (rule ranI)
      ultimately have "i \<in> set ev" using e ids by simp
      with k show "k \<in> wm_id ` set ev" by blast
    qed
    with e Some show ?thesis by simp
  qed (use e in simp)
  then have "wm_view w' = (\<lambda>k. case wm_view w k of Some i \<Rightarrow> if expired now i then None else Some i | None \<Rightarrow> None)"
    by (rule ext)
  moreover have "distinct (map wm_id ev)" using e ids by (simp add: distinct_map_filter)
  moreover have "set ev = {i \<in> ran (wm_view w). expired now i}" using e ids by simp
  ultimately show ?thesis using e by blast
qed

lemma fold_evict:
  "wm_ok w \<Longrightarrow> wm_ok (fold wm_evict ks w) \<and> same_config w (fold wm_evict ks w) \<and>
   wm_view (fold wm_evict ks w) = (\<lambda>k. if k \<in> set ks then None else wm_view w k)"
proof (induction ks arbitrary: w)
  case (Cons k ks)
  from Cons.IH [OF wm_ok_evict [OF Cons.prems, of k]] show ?case
    by (auto simp: fun_eq_iff)
qed simp

lemma trim_effect:
  assumes "wm_ok w" "zlow_ok zl"
  shows "wm_ok (trim_to_capacity zl w) \<and> same_config w (trim_to_capacity zl w) \<and>
    wm_count (trim_to_capacity zl w) = min (wm_count w) (wm_capacity w) \<and>
    (\<forall>k i. wm_view (trim_to_capacity zl w) k = Some i \<longrightarrow> wm_view w k = Some i) \<and>
    (\<forall>k i l j. wm_view w k = Some i \<longrightarrow> wm_view (trim_to_capacity zl w) k = None \<longrightarrow>
       wm_view (trim_to_capacity zl w) l = Some j \<longrightarrow> wm_salience i \<le> wm_salience j)"
proof (cases "wm_count w \<le> wm_capacity w")
  case True
  then show ?thesis using assms(1) by (simp add: trim_to_capacity_def Let_def min_def)
next
  case False
  define n where "n = wm_count w - wm_capacity w"
  define ks where "ks = zl n (wm_scores w)"
  have t: "trim_to_capacity zl w = fold wm_evict ks w"
    using False by (simp add: trim_to_capacity_def Let_def ks_def n_def)
  note f = fold_evict [OF assms(1), of ks]
  have d: "distinct (map fst (wm_scores w))" "n \<le> length (wm_scores w)"
    using assms(1) by (simp_all add: wm_ok_def n_def wm_count_def)
  then have z: "distinct ks" "length ks = n" "set ks \<subseteq> fst ` set (wm_scores w)"
    and low: "\<And>x s y t. (x, s) \<in> set (wm_scores w) \<Longrightarrow> (y, t) \<in> set (wm_scores w) \<Longrightarrow>
        x \<in> set ks \<Longrightarrow> y \<notin> set ks \<Longrightarrow> s \<le> t"
    using assms(2) unfolding zlow_ok_def ks_def by (blast, blast, blast, fastforce)
  have dom: "fst ` set (wm_scores w) = dom (wm_view w)"
    using assms(1) by (auto simp: wm_ok_def simp flip: dom_map_of_conv_image_fst)
  have fin: "finite (dom (wm_view w))" by (simp add: wm_view_def finite_dom_map_of)
  have "dom (wm_view (fold wm_evict ks w)) = dom (wm_view w) - set ks"
    using f by (auto simp: dom_def)
  then have "wm_count (fold wm_evict ks w) = card (dom (wm_view w)) - card (set ks)"
    using f z(3) dom fin by (simp add: wm_count_view card_Diff_subset)
  then have c: "wm_count (fold wm_evict ks w) = min (wm_count w) (wm_capacity w)"
    using z(1,2) False by (simp add: wm_count_view [OF assms(1)] distinct_card n_def)
  have score: "wm_view w k = Some i \<Longrightarrow> (k, wm_salience i) \<in> set (wm_scores w)" for k i
    using assms(1) by (intro map_of_SomeD) (simp add: wm_ok_def)
  have "wm_salience i \<le> wm_salience j"
    if "wm_view w k = Some i" "wm_view (fold wm_evict ks w) k = None"
      "wm_view (fold wm_evict ks w) l = Some j" for k i l j
  proof -
    from that f have "k \<in> set ks" "l \<notin> set ks" "wm_view w l = Some j"
      by (auto split: if_splits)
    then show ?thesis using low score that(1) by blast
  qed
  with f c show ?thesis unfolding t by (auto split: if_splits)
qed

lemma decay_loop_effect:
  assumes "decay_loop is w = (w', ev)" "wm_ok w" "distinct (map wm_id is)"
  shows "wm_ok w' \<and> same_config w w' \<and>
    ev = filter (\<lambda>i. wm_salience i * wm_decay_factor w < wm_floor w) is \<and>
    (\<forall>k. k \<notin> wm_id ` set is \<longrightarrow> wm_view w' k = wm_view w k) \<and>
    (\<forall>i \<in> set is. wm_view w' (wm_id i) =
       (if wm_salience i * wm_decay_factor w < wm_floor w then None
        else Some (i\<lparr>wm_salience := wm_salience i * wm_decay_factor w\<rparr>)))"
  using assms
proof (induction "is" arbitrary: w w' ev)
  case (Cons i "is")
  define w1 where "w1 = (if wm_salience i * wm_decay_factor w < wm_floor w then wm_evict (wm_id i) w
    else wm_persist (i\<lparr>wm_salience := wm_salience i * wm_decay_factor w\<rparr>) w)"
  obtain ev1 where l: "decay_loop is w1 = (w', ev1)"
    and ev: "ev = (if wm_salience i * wm_decay_factor w < wm_floor w then i # ev1 else ev1)"
    using Cons.prems(1) by (auto simp: w1_def Let_def split: if_splits prod.splits)
  have "wm_ok w1" "same_config w w1" using Cons.prems(2) by (auto simp: w1_def)
  moreover have "wm_view w1 = (wm_view w)(wm_id i := (if wm_salience i * wm_decay_factor w < wm_floor w
      then None else Some (i\<lparr>wm_salience := wm_salience i * wm_decay_factor w\<rparr>)))"
    by (simp add: w1_def)
  moreover have "wm_id i \<notin> wm_id ` set is" using Cons.prems(3) by simp
  ultimately show ?case
    using Cons.IH [OF l] Cons.prems(3) ev by (auto simp: same_config_def)
qed simp

section \<open>Redis instances\<close>

text \<open>One order Redis may choose: insertion order for the hash, and members of equal score in
  insertion order.\<close>

definition hvals_fifo :: hvals where "hvals_fifo d = map snd d"

definition zlow_fifo :: zlow where "zlow_fifo n d = map fst (take n (sort_key snd d))"

lemma hvals_ok_fifo [simp]: "hvals_ok hvals_fifo"
  by (simp add: hvals_ok_def hvals_fifo_def)

lemma zlow_ok_fifo [simp]: "zlow_ok zlow_fifo"
  unfolding zlow_ok_def
proof (intro allI impI)
  fix n and d :: "(string \<times> real) list"
  assume d: "distinct (map fst d)" and n: "n \<le> length d"
  let ?s = "sort_key snd d"
  have ms: "mset (map fst ?s) = mset (map fst d)" by simp
  have ds: "distinct (map fst ?s)" using d ms by (metis mset_eq_imp_distinct_iff)
  have 1: "distinct (zlow_fifo n d)"
    using ds by (simp add: zlow_fifo_def take_map [symmetric] distinct_take)
  have 2: "set (zlow_fifo n d) \<subseteq> fst ` set d"
    using set_take_subset [of n ?s] by (auto simp: zlow_fifo_def)
  have "s \<le> t" if "(x, s) \<in> set d" "(y, t) \<in> set d" "x \<in> set (zlow_fifo n d)" "y \<notin> set (zlow_fifo n d)"
    for x s y t
  proof -
    from that(3) obtain s' where s': "(x, s') \<in> set (take n ?s)" by (auto simp: zlow_fifo_def)
    then have "(x, s') \<in> set ?s" by (rule in_set_takeD)
    then have "s' = s" using that(1) d by (metis eq_key_imp_eq_value set_sort)
    moreover have "(y, t) \<notin> set (take n ?s)" using that(4) by (force simp: zlow_fifo_def)
    moreover have "(y, t) \<in> set (take n ?s @ drop n ?s)" using that(2) by simp
    then have "(y, t) \<in> set (take n ?s) \<or> (y, t) \<in> set (drop n ?s)" by (metis Un_iff set_append)
    ultimately have "(y, t) \<in> set (drop n ?s)" by blast
    moreover have "sorted_wrt (\<lambda>p q. snd p \<le> snd q) (take n ?s @ drop n ?s)"
      using sorted_sort_key [of snd d] by (simp add: sorted_map)
    ultimately have "snd (x, s') \<le> snd (y, t)"
      using s' unfolding sorted_wrt_append by blast
    then show "s \<le> t" using \<open>s' = s\<close> by simp
  qed
  then have 4: "\<forall>(x, s) \<in> set d. \<forall>(y, t) \<in> set d. x \<in> set (zlow_fifo n d) \<longrightarrow> y \<notin> set (zlow_fifo n d) \<longrightarrow> s \<le> t"
    by blast
  have "length (zlow_fifo n d) = n" using n by (simp add: zlow_fifo_def)
  with 1 2 4 show "distinct (zlow_fifo n d) \<and> length (zlow_fifo n d) = n \<and> set (zlow_fifo n d) \<subseteq> fst ` set d \<and>
     (\<forall>(x, s) \<in> set d. \<forall>(y, t) \<in> set d. x \<in> set (zlow_fifo n d) \<longrightarrow> y \<notin> set (zlow_fifo n d) \<longrightarrow> s \<le> t)"
    by blast
qed

definition wm_demo :: working_memory where
  "wm_demo = \<lparr>wm_items = [], wm_scores = [], wm_capacity = 1, wm_decay_factor = 1/2, wm_floor = 1/10,
     wm_default_ttl = 60\<rparr>"

definition wm_item_demo :: "string \<Rightarrow> real \<Rightarrow> wm_item" where
  "wm_item_demo n s = \<lparr>wm_id = n, wm_content = n, wm_kind = ''note'', wm_salience = s, wm_created_at = 0,
     wm_expires_at = None\<rparr>"

lemma wm_ok_demo [simp]: "wm_ok wm_demo"
  by (simp add: wm_ok_def wm_demo_def wm_view_def)

section \<open>Properties\<close>

text \<open>The unexpired items of \<open>w\<close>, with the stored one.\<close>

definition wm_live :: "real \<Rightarrow> wm_item \<Rightarrow> working_memory \<Rightarrow> string \<Rightarrow> wm_item option" where
  "wm_live now stored w =
     (\<lambda>k. case wm_view w k of Some j \<Rightarrow> if expired now j then None else Some j | None \<Rightarrow> None)
       (wm_id stored \<mapsto> stored)"

text \<open>C23: after a put the working set is sound and within its capacity, its salience index agrees
  with the items, everything in it is the stored item or an unexpired item it held before,
  unchanged; and an unexpired item (or the stored one) is lost only when the set is full, and
  then only to items at least as salient.\<close>

theorem put_bounded:
  assumes "wm_ok w" "hvals_ok hv" "zlow_ok zl" "wm_put hv zl now i ttl w = (w', stored)"
  shows "wm_ok w' \<and> same_config w w' \<and> wm_count w' \<le> wm_capacity w \<and>
    (\<forall>k j. wm_view w' k = Some j \<longrightarrow> wm_live now stored w k = Some j) \<and>
    (\<forall>k j. wm_live now stored w k = Some j \<longrightarrow> wm_view w' k = None \<longrightarrow>
       wm_count w' = wm_capacity w \<and> (\<forall>l m. wm_view w' l = Some m \<longrightarrow> wm_salience j \<le> wm_salience m))"
proof -
  obtain w1 ev where p: "prune_expired hv now w = (w1, ev)" by fastforce
  note pe = prune_expired_effect [OF p assms(1,2)]
  define w2 where "w2 = wm_persist stored w1"
  from assms(4) p have w': "w' = trim_to_capacity zl w2" and id: "wm_id stored = wm_id i"
    by (auto simp: wm_put_def Let_def w2_def)
  have ok2: "wm_ok w2" using pe unfolding w2_def by blast
  have v2: "wm_view w2 = wm_live now stored w" using pe id by (simp add: w2_def wm_live_def)
  note t = trim_effect [OF ok2 assms(3), folded w']
  have cfg: "same_config w w'" "wm_capacity w2 = wm_capacity w"
    using t pe by (simp_all add: same_config_def w2_def)
  have full: "wm_count w' = wm_capacity w" if "wm_live now stored w k = Some j" "wm_view w' k = None" for k j
  proof (rule ccontr)
    assume "wm_count w' \<noteq> wm_capacity w"
    then have "wm_count w2 \<le> wm_capacity w2" using t cfg(2) by (simp add: min_def split: if_splits)
    then have "w' = w2" by (simp add: w' trim_to_capacity_def Let_def)
    with that v2 show False by simp
  qed
  with t cfg v2 show ?thesis by auto
qed

theorem put_bounded_witness:
  "wm_count (fst (wm_put hvals_fifo zlow_fifo 0 (wm_item_demo ''b'' (9/10)) None
     (fst (wm_put hvals_fifo zlow_fifo 0 (wm_item_demo ''a'' (2/10)) None wm_demo)))) \<le> 1"
proof -
  obtain w s where a: "wm_put hvals_fifo zlow_fifo 0 (wm_item_demo ''a'' (2/10)) None wm_demo = (w, s)" by fastforce
  obtain w' s' where b: "wm_put hvals_fifo zlow_fifo 0 (wm_item_demo ''b'' (9/10)) None w = (w', s')" by fastforce
  have "wm_ok w" "wm_capacity w = 1"
    using put_bounded [OF wm_ok_demo hvals_ok_fifo zlow_ok_fifo a]
    by (simp_all add: same_config_def wm_demo_def)
  from put_bounded [OF this(1) hvals_ok_fifo zlow_ok_fifo b] this(2) a b show ?thesis by simp
qed

text \<open>A decay sweep evicts exactly the items that have expired or would fall below the floor,
  scales the salience of every other item by the decay factor and changes nothing else of it; it
  returns exactly the evicted items, each once, in whatever order Redis lists the hash.\<close>

theorem decay_exact:
  assumes "wm_ok w" "hvals_ok hv" "wm_decay hv now w = (w', ev)"
  shows "wm_ok w' \<and> same_config w w' \<and> wm_count w' \<le> wm_count w \<and> distinct (map wm_id ev) \<and>
    (\<forall>k. wm_view w' k = (case wm_view w k of None \<Rightarrow> None
       | Some i \<Rightarrow> if expired now i \<or> wm_salience i * wm_decay_factor w < wm_floor w then None
                 else Some (i\<lparr>wm_salience := wm_salience i * wm_decay_factor w\<rparr>))) \<and>
    set ev = {i \<in> ran (wm_view w). expired now i \<or> wm_salience i * wm_decay_factor w < wm_floor w}"
proof -
  obtain w1 ev1 where p: "prune_expired hv now w = (w1, ev1)" by fastforce
  note pe = prune_expired_effect [OF p assms(1,2)]
  obtain ev2 where d: "decay_loop (read_all hv w1) w1 = (w', ev2)" and ev: "ev = ev1 @ ev2"
    using assms(3) p by (auto simp: wm_decay_def split: prod.splits)
  have ok1: "wm_ok w1" using pe by blast
  note ids = wm_ok_ids [OF ok1 assms(2)]
  note de = decay_loop_effect [OF d ok1 ids [THEN conjunct1]]
  have cfg: "wm_decay_factor w1 = wm_decay_factor w" "wm_floor w1 = wm_floor w" "same_config w w'"
    using pe de by (simp_all add: same_config_def)
  have v: "wm_view w' k = (case wm_view w k of None \<Rightarrow> None
       | Some i \<Rightarrow> if expired now i \<or> wm_salience i * wm_decay_factor w < wm_floor w then None
                 else Some (i\<lparr>wm_salience := wm_salience i * wm_decay_factor w\<rparr>))" for k
  proof (cases "wm_view w1 k")
    case None
    then have "k \<notin> wm_id ` set (read_all hv w1)"
      using ids ran_view [OF ok1] by auto
    with de None have "wm_view w' k = None" by simp
    moreover from None pe have "case wm_view w k of None \<Rightarrow> True | Some i \<Rightarrow> expired now i"
      by (auto split: option.splits if_splits)
    ultimately show ?thesis by (auto split: option.splits)
  next
    case (Some i)
    then have i: "i \<in> set (read_all hv w1)" "wm_id i = k"
      using ids ranI [of "wm_view w1" k i] ok1 by (auto simp: wm_ok_def)
    moreover from Some pe have "wm_view w k = Some i" "\<not> expired now i"
      by (auto split: option.splits if_splits)
    ultimately show ?thesis using de cfg by auto
  qed
  have r1: "i \<in> ran (wm_view w1) \<longleftrightarrow> i \<in> ran (wm_view w) \<and> \<not> expired now i" for i
  proof -
    have v1: "wm_view w1 = (\<lambda>k. case wm_view w k of Some i \<Rightarrow> if expired now i then None else Some i | None \<Rightarrow> None)"
      using pe by blast
    have "i \<in> ran (wm_view w1) \<longleftrightarrow> wm_view w1 (wm_id i) = Some i" by (rule ran_view [OF ok1])
    also have "\<dots> \<longleftrightarrow> wm_view w (wm_id i) = Some i \<and> \<not> expired now i"
      unfolding v1 by (auto split: option.splits if_splits)
    finally show ?thesis by (simp add: ran_view [OF assms(1)])
  qed
  have s2: "set ev2 = {i \<in> ran (wm_view w1). wm_salience i * wm_decay_factor w < wm_floor w}"
    using de ids cfg by auto
  have se: "set ev = {i \<in> ran (wm_view w). expired now i \<or> wm_salience i * wm_decay_factor w < wm_floor w}"
    using pe s2 r1 by (auto simp: ev)
  have "distinct (map wm_id ev2)" using de ids by (simp add: distinct_map_filter)
  moreover have "wm_id i \<noteq> wm_id j" if "i \<in> set ev1" "j \<in> set ev2" for i j
  proof
    assume e: "wm_id i = wm_id j"
    have "set ev1 = {i \<in> ran (wm_view w). expired now i}" using pe by blast
    with that(1) have "i \<in> ran (wm_view w)" "expired now i" by simp_all
    moreover from that(2) s2 have "j \<in> ran (wm_view w1)" by simp
    then have "j \<in> ran (wm_view w)" "\<not> expired now j" using r1 by simp_all
    ultimately show False using ran_view [OF assms(1)] e by (metis option.inject)
  qed
  ultimately have "distinct (map wm_id ev)" using pe by (auto simp: ev)
  moreover have "wm_count w' \<le> wm_count w"
  proof -
    have "dom (wm_view w') \<subseteq> dom (wm_view w)" using v by (auto simp: dom_def split: option.splits)
    moreover have "finite (dom (wm_view w))" by (simp add: wm_view_def finite_dom_map_of)
    ultimately show ?thesis using de assms(1) by (simp add: wm_count_view card_mono)
  qed
  ultimately show ?thesis using v se cfg de by blast
qed

theorem decay_exact_witness:
  "let w = fst (wm_put hvals_fifo zlow_fifo 0 (wm_item_demo ''a'' (1/10)) None wm_demo);
       (w', ev) = wm_decay hvals_fifo 30 w
   in wm_view w' ''a'' = None \<and> map wm_id ev = [''a'']"
proof -
  let ?w = "fst (wm_put hvals_fifo zlow_fifo 0 (wm_item_demo ''a'' (1/10)) None wm_demo)"
  obtain w' ev where d: "wm_decay hvals_fifo 30 ?w = (w', ev)" by fastforce
  have w: "wm_items ?w = [(''a'', (wm_item_demo ''a'' (1/10))\<lparr>wm_created_at := 0, wm_expires_at := Some 60\<rparr>)]"
    "wm_decay_factor ?w = 1/2" "wm_floor ?w = 1/10" "wm_scores ?w = [(''a'', 1/10)]"
    by (simp_all add: wm_put_def prune_expired_def read_all_def hvals_fifo_def wm_demo_def wm_item_demo_def
        trim_to_capacity_def wm_count_def wm_persist_def clamp01_def Let_def)
  have "wm_ok ?w" using w by (simp add: wm_ok_def wm_view_def wm_item_demo_def fun_eq_iff)
  note e = decay_exact [OF this hvals_ok_fifo d]
  have "wm_view w' ''a'' = None"
    using e w by (simp add: wm_view_def wm_item_demo_def)
  have "set ev = {(wm_item_demo ''a'' (1/10))\<lparr>wm_created_at := 0, wm_expires_at := Some 60\<rparr>}"
    using e w by (auto simp: wm_view_def wm_item_demo_def)
  then have "set (map wm_id ev) = {''a''}" by (simp add: wm_item_demo_def)
  moreover from e have "distinct (map wm_id ev)" by blast
  ultimately have "map wm_id ev = [''a'']"
    by (cases "map wm_id ev"; cases "tl (map wm_id ev)") auto
  with d \<open>wm_view w' ''a'' = None\<close> show ?thesis by simp
qed

end
