(* ===== verification/MemScore.thy ===== *)
theory MemScore
  imports Affect
begin

text \<open>
  The scoring of \<^verbatim>\<open>brain/memory/base.py\<close>, the write and recall paths of
  \<^verbatim>\<open>brain/memory/episodic.py\<close>, and the RECALL and LEARN stages of
  \<^verbatim>\<open>brain/agents/memory_stages.py\<close>.  The embedder and the vector index are third-party:
  \<open>emb\<close> and \<open>nearest\<close> are parameters, and \<open>nearest_ok\<close> states what the index query promises
  (at most \<open>limit\<close> rows of the table, each once, with a cosine distance between 0 and 2; the
  index is approximate, so not that they are the nearest).
\<close>

section \<open>Scores\<close>

record recall_weights =
  rw_similarity :: real
  rw_recency :: real
  rw_salience :: real
  rw_halflife :: real

definition similarity_from_distance :: "real \<Rightarrow> real" where
  "similarity_from_distance d = clamp01 (1 - d)"

definition dot :: "real list \<Rightarrow> real list \<Rightarrow> real" where
  "dot a b = sum_list (map2 (*) a b)"

definition norm2 :: "real list \<Rightarrow> real" where
  "norm2 a = sqrt (sum_list (map (\<lambda>x. x * x) a))"

definition cosine_similarity :: "real list \<Rightarrow> real list \<Rightarrow> real res" where
  "cosine_similarity a b =
     (if length a \<noteq> length b then Inl ValueError
      else if norm2 a = 0 \<or> norm2 b = 0 then Inr 0
      else Inr (dot a b / (norm2 a * norm2 b)))"

definition recency_score :: "real \<Rightarrow> real \<Rightarrow> real \<Rightarrow> real" where
  "recency_score ts now halflife =
     (if halflife \<le> 0 then 1
      else exp (- ln 2 * max 0 (now - ts) / halflife))"

definition blended_score :: "real \<Rightarrow> real \<Rightarrow> real \<Rightarrow> recall_weights \<Rightarrow> real" where
  "blended_score sim rec sal w = rw_similarity w * sim + rw_recency w * rec + rw_salience w * sal"

lemma in01_similarity [simp]: "in01 (similarity_from_distance d)"
  by (simp add: similarity_from_distance_def)

lemma in01_recency [simp]: "in01 (recency_score ts now h)"
proof (cases "h \<le> 0")
  case False
  have "- ln 2 * max 0 (now - ts) / h \<le> 0"
    using False by (simp add: divide_nonpos_pos mult_nonneg_nonneg)
  then show ?thesis using False by (simp add: recency_score_def in01_def)
qed (simp add: recency_score_def in01_def)

lemma recency_halves:
  "0 < h \<Longrightarrow> ts \<le> now \<Longrightarrow> recency_score ts (now + h) h = recency_score ts now h / 2"
proof -
  assume h: "0 < h" and t: "ts \<le> now"
  have "- ln 2 * (now + h - ts) / h = - ln 2 * (now - ts) / h + - ln (2::real)"
    using h by (simp add: field_simps)
  then have "exp (- ln 2 * (now + h - ts) / h) = exp (- ln 2 * (now - ts) / h) * exp (- ln (2::real))"
    by (simp flip: exp_add)
  then show ?thesis using h t by (simp add: recency_score_def max_def exp_minus field_simps)
qed

lemma blended_range:
  assumes "in01 sim" "in01 rec" "in01 sal" "0 \<le> rw_similarity w" "0 \<le> rw_recency w" "0 \<le> rw_salience w"
  shows "0 \<le> blended_score sim rec sal w \<and>
         blended_score sim rec sal w \<le> rw_similarity w + rw_recency w + rw_salience w"
proof -
  have "0 \<le> a * x \<and> a * x \<le> a" if "0 \<le> a" "in01 x" for a x :: real
    using that by (auto simp: in01_def mult_left_le)
  from this [OF assms(4,1)] this [OF assms(5,2)] this [OF assms(6,3)]
  show ?thesis unfolding blended_score_def by linarith
qed

text \<open>Cauchy-Schwarz, for the range of the cosine.\<close>

lemma dot_Cons [simp]: "dot (x # xs) (y # ys) = x * y + dot xs ys"
  by (simp add: dot_def)

lemma dot_Nil [simp]: "dot [] ys = 0"
  by (simp add: dot_def)

lemma dot_self_nonneg: "0 \<le> dot a a"
  by (induction a) simp_all

lemma norm2_dot: "norm2 a = sqrt (dot a a)"
proof -
  have "sum_list (map (\<lambda>x. x * x) a) = dot a a" by (induction a) simp_all
  then show ?thesis by (simp add: norm2_def)
qed

lemma dot_lin:
  "length a = length b \<Longrightarrow>
   dot (map2 (\<lambda>x y. s * x + t * y) a b) (map2 (\<lambda>x y. s * x + t * y) a b) =
   s * s * dot a a + 2 * s * t * dot a b + t * t * dot b b"
  by (induction a b rule: list_induct2) (auto simp: algebra_simps)

lemma cauchy_schwarz: "length a = length b \<Longrightarrow> (dot a b)\<^sup>2 \<le> dot a a * dot b b"
proof -
  assume l: "length a = length b"
  show ?thesis
  proof (cases "dot b b = 0")
    case True
    have "dot a b = 0"
    proof (rule ccontr)
      assume ne: "dot a b \<noteq> 0"
      let ?t = "- (dot a a + 1) / (2 * dot a b)"
      have "0 \<le> 1 * 1 * dot a a + 2 * 1 * ?t * dot a b + ?t * ?t * dot b b"
        using dot_lin [OF l, of 1 ?t] dot_self_nonneg by metis
      with True ne show False by (simp add: field_simps)
    qed
    with True show ?thesis by simp
  next
    case False
    then have pos: "0 < dot b b" using dot_self_nonneg [of b] by linarith
    have "0 \<le> dot b b * dot b b * dot a a + 2 * dot b b * (- dot a b) * dot a b
        + (- dot a b) * (- dot a b) * dot b b"
      using dot_lin [OF l, of "dot b b" "- dot a b"] dot_self_nonneg by metis
    then have "0 \<le> dot b b * (dot a a * dot b b - (dot a b)\<^sup>2)"
      by (simp add: power2_eq_square algebra_simps)
    then show ?thesis using pos by (simp add: zero_le_mult_iff)
  qed
qed

lemma cosine_range: "cosine_similarity a b = Inr c \<Longrightarrow> \<bar>c\<bar> \<le> 1"
proof -
  assume c: "cosine_similarity a b = Inr c"
  then have l: "length a = length b" by (auto simp: cosine_similarity_def split: if_splits)
  have n: "0 \<le> norm2 a * norm2 b" by (simp add: norm2_dot dot_self_nonneg)
  have "(dot a b)\<^sup>2 \<le> (norm2 a * norm2 b)\<^sup>2"
    using cauchy_schwarz [OF l] by (simp add: norm2_dot power_mult_distrib dot_self_nonneg)
  then have "\<bar>dot a b\<bar> \<le> norm2 a * norm2 b"
    using n abs_le_square_iff [of "dot a b" "norm2 a * norm2 b"] by simp
  moreover have "\<bar>x\<bar> / y \<le> 1" if "\<bar>x\<bar> \<le> y" "0 \<le> y" for x y :: real
    using that by (cases "y = 0") (auto simp: divide_le_eq_1)
  ultimately have "\<bar>dot a b\<bar> / (norm2 a * norm2 b) \<le> 1" using n by blast
  with c n show ?thesis
    by (auto simp: cosine_similarity_def abs_divide abs_of_nonneg split: if_splits)
qed

section \<open>Episodic memory\<close>

record episode_row =
  er_id :: nat
  er_ts :: real
  er_kind :: string
  er_content :: string
  er_actors :: "string list"
  er_emotion_tags :: "string list"
  er_salience :: real
  er_embedding :: "real list"

record episode =
  ep_id :: "nat option"
  ep_ts :: "real option"
  ep_kind :: string
  ep_content :: string
  ep_actors :: "string list"
  ep_emotion_tags :: "string list"
  ep_salience :: real
  ep_score :: "real option"

definition row_to_episode :: "real option \<Rightarrow> episode_row \<Rightarrow> episode" where
  "row_to_episode s r =
     \<lparr>ep_id = Some (er_id r), ep_ts = Some (er_ts r), ep_kind = er_kind r, ep_content = er_content r,
      ep_actors = er_actors r, ep_emotion_tags = er_emotion_tags r, ep_salience = er_salience r,
      ep_score = s\<rparr>"

text \<open>Rows are never deleted, so the next id is one past the number of rows.\<close>

definition episodic_write :: "(string \<Rightarrow> real list res) \<Rightarrow> real \<Rightarrow> episode \<Rightarrow> episode_row list \<Rightarrow>
    (episode_row list \<times> episode) res" where
  "episodic_write emb now e tbl =
     ok_bind (emb (ep_content e)) (\<lambda>v.
       let row = \<lparr>er_id = Suc (length tbl), er_ts = (case ep_ts e of Some t \<Rightarrow> t | None \<Rightarrow> now),
                  er_kind = ep_kind e, er_content = ep_content e, er_actors = ep_actors e,
                  er_emotion_tags = ep_emotion_tags e, er_salience = clamp01 (ep_salience e),
                  er_embedding = v\<rparr>
       in Inr (tbl @ [row], row_to_episode None row))"

type_synonym nearest = "real list \<Rightarrow> nat \<Rightarrow> episode_row list \<Rightarrow> (episode_row \<times> real) list"

definition nearest_ok :: "nearest \<Rightarrow> bool" where
  "nearest_ok near \<longleftrightarrow> (\<forall>v n tbl. length (near v n tbl) \<le> n \<and> set (map fst (near v n tbl)) \<subseteq> set tbl \<and>
     (distinct tbl \<longrightarrow> distinct (map fst (near v n tbl))) \<and> (\<forall>(r, d) \<in> set (near v n tbl). 0 \<le> d \<and> d \<le> 2))"

definition episode_score :: "recall_weights \<Rightarrow> real \<Rightarrow> episode_row \<Rightarrow> real \<Rightarrow> real" where
  "episode_score w now r d =
     blended_score (similarity_from_distance d) (recency_score (er_ts r) now (rw_halflife w))
       (clamp01 (er_salience r)) w"

definition score_of :: "episode \<Rightarrow> real" where
  "score_of e = (case ep_score e of Some s \<Rightarrow> s | None \<Rightarrow> 0)"

definition episodic_recall :: "(string \<Rightarrow> real list res) \<Rightarrow> nearest \<Rightarrow> nat \<Rightarrow> recall_weights \<Rightarrow> string \<Rightarrow>
    int \<Rightarrow> real \<Rightarrow> recall_weights option \<Rightarrow> episode_row list \<Rightarrow> episode list res" where
  "episodic_recall emb near candidate_pool default_weights query k now weights tbl =
     (if k \<le> 0 then Inr []
      else let blend = (case weights of Some w \<Rightarrow> w | None \<Rightarrow> default_weights);
               pool = max candidate_pool (nat k)
           in ok_bind (emb query) (\<lambda>v.
                Inr (take (nat k) (sort_desc score_of
                  (map (\<lambda>(r, d). row_to_episode (Some (episode_score blend now r d)) r) (near v pool tbl))))))"

section \<open>The RECALL stage\<close>

record fact =
  fa_id :: nat
  fa_subject :: string
  fa_predicate :: string
  fa_object :: string
  fa_confidence :: real
  fa_sources :: "nat list"
  fa_score :: "real option"

record recaller =
  rc_episodes_k :: int
  rc_facts_k :: int
  rc_ceiling :: real
  rc_base_weights :: recall_weights
  rc_arousal_gain :: real
  rc_mood :: "mood option"

definition set_recall_mood :: "mood option \<Rightarrow> recaller \<Rightarrow> recaller" where
  "set_recall_mood m r = r\<lparr>rc_mood := m\<rparr>"

definition biased_weights :: "recaller \<Rightarrow> recall_weights option" where
  "biased_weights r =
     (case rc_mood r of
        None \<Rightarrow> None
      | Some m \<Rightarrow>
          let excess = max 0 (mo_arousal m - 3/10); base = rc_base_weights r
          in if excess \<le> 0 then None
             else Some (base\<lparr>rw_salience := rw_salience base * (1 + rc_arousal_gain r * excess)\<rparr>))"

definition build_query :: "ws_item list \<Rightarrow> string" where
  "build_query focus =
     (let notable = filter (\<lambda>i. wi_kind i \<noteq> ''ambient'') focus;
          chosen = (if notable \<noteq> [] then notable else focus)
      in if chosen = [] then []
         else strip (join '' '' (map wi_content (take 3 (sort_desc wi_salience chosen)))))"

definition recalled_item :: "string \<Rightarrow> string \<Rightarrow> string \<Rightarrow> real \<Rightarrow> (string \<times> json) list \<Rightarrow> ws_item" where
  "recalled_item kind content source sal meta =
     \<lparr>wi_id = [], wi_kind = kind, wi_content = content, wi_salience = sal, wi_source = source,
      wi_metadata = meta\<rparr>"

definition episodes_to_items :: "real \<Rightarrow> episode list \<Rightarrow> ws_item list" where
  "episodes_to_items ceil es =
     (if es = [] then []
      else let m = Max (set (map score_of es)); top = (if m = 0 then 1 else m)
           in map (\<lambda>e. recalled_item ''memory'' (ep_content e) ''episodic''
                         (clamp01 (score_of e / top * ceil))
                         [(''episode_id'', (case ep_id e of Some n \<Rightarrow> JInt (int n) | None \<Rightarrow> JNull)),
                          (''episode_kind'', JStr (ep_kind e))]) es)"

definition facts_to_items :: "real \<Rightarrow> fact list \<Rightarrow> ws_item list" where
  "facts_to_items ceil fs =
     map (\<lambda>f. recalled_item ''fact'' (fa_subject f @ '' '' @ fa_predicate f @ '' '' @ fa_object f) ''semantic''
                (clamp01 ((case fa_score f of Some s \<Rightarrow> s | None \<Rightarrow> 0) * ceil))
                [(''fact_id'', JInt (int (fa_id f)))]) fs"

text \<open>The two stores' recalls are the arguments \<open>ep_recall\<close> and \<open>fact_recall\<close>.\<close>

definition recall_stage :: "(string \<Rightarrow> int \<Rightarrow> recall_weights option \<Rightarrow> episode list res) \<Rightarrow>
    (string \<Rightarrow> int \<Rightarrow> fact list res) \<Rightarrow> ws_item list \<Rightarrow> recaller \<Rightarrow> ws_item list res" where
  "recall_stage ep_recall fact_recall focus r =
     (let query = build_query focus
      in if query = [] then Inr []
         else ok_bind (ep_recall query (rc_episodes_k r) (biased_weights r)) (\<lambda>es.
              ok_bind (fact_recall query (rc_facts_k r)) (\<lambda>fs.
                Inr (episodes_to_items (rc_ceiling r) es @ facts_to_items (rc_ceiling r) fs))))"

section \<open>The LEARN stage\<close>

record learner =
  le_idle_every :: nat
  le_ticks :: nat

definition new_learner :: "nat option \<Rightarrow> nat \<Rightarrow> learner" where
  "new_learner idle_every setting =
     \<lparr>le_idle_every = max 1 (case idle_every of Some n \<Rightarrow> if n = 0 then setting else n | None \<Rightarrow> setting),
      le_ticks = 0\<rparr>"

definition new_episode :: "string \<Rightarrow> string \<Rightarrow> string list \<Rightarrow> real \<Rightarrow> episode" where
  "new_episode kind content actors sal =
     \<lparr>ep_id = None, ep_ts = None, ep_kind = kind, ep_content = content, ep_actors = actors,
      ep_emotion_tags = [], ep_salience = sal, ep_score = None\<rparr>"

definition interaction_episode :: "ws_item list \<Rightarrow> string option \<Rightarrow> episode" where
  "interaction_episode inputs thought =
     new_episode ''interaction''
       (''Dan said: '' @ join '' / '' (map wi_content inputs) @ ''.'' @
        (case thought of Some t \<Rightarrow> if t = [] then [] else '' I thought: '' @ t | None \<Rightarrow> []))
       [''dan'', ''johnny''] (75/100)"

definition reflection_episode :: "string \<Rightarrow> episode" where
  "reflection_episode thought = new_episode ''reflection'' thought [''johnny''] (5/10)"

text \<open>The episode a LEARN stage writes, if any.\<close>

definition learn_stage :: "ws_item list \<Rightarrow> string option \<Rightarrow> learner \<Rightarrow> learner \<times> episode option" where
  "learn_stage items thought l =
     (let l' = l\<lparr>le_ticks := le_ticks l + 1\<rparr>;
          inputs = filter (\<lambda>i. wi_kind i = INPUT_KIND) items
      in (l', if inputs \<noteq> [] then Some (interaction_episode inputs thought)
              else case thought of
                     None \<Rightarrow> None
                   | Some t \<Rightarrow> if t \<noteq> [] \<and> le_ticks l' mod le_idle_every l = 0
                              then Some (reflection_episode t) else None))"

section \<open>Properties\<close>

text \<open>A recall returns at most \<open>k\<close> episodes of the table, in descending order of the blended
  score each carries, which lies between 0 and the sum of the weights; a candidate of the pool
  that is left out scores no more than any returned one; with \<open>k \<le> 0\<close> it returns nothing without
  asking the embedder.\<close>

theorem episodic_recall_top:
  assumes "nearest_ok near"
    and "episodic_recall emb near pool dw query k now w tbl = Inr es"
    and "0 \<le> rw_similarity b" "0 \<le> rw_recency b" "0 \<le> rw_salience b" "b = (case w of Some w \<Rightarrow> w | None \<Rightarrow> dw)"
  shows "length es \<le> nat k \<and> sorted_wrt (\<lambda>x y. score_of y \<le> score_of x) es \<and>
    (\<forall>e \<in> set es. \<exists>r \<in> set tbl. \<exists>d. e = row_to_episode (Some (episode_score b now r d)) r \<and>
       0 \<le> score_of e \<and> score_of e \<le> rw_similarity b + rw_recency b + rw_salience b) \<and>
    (\<forall>v. emb query = Inr v \<longrightarrow> 0 < k \<longrightarrow>
       (\<forall>(r, d) \<in> set (near v (max pool (nat k)) tbl).
          row_to_episode (Some (episode_score b now r d)) r \<notin> set es \<longrightarrow>
          (\<forall>e \<in> set es. episode_score b now r d \<le> score_of e)))"
proof (cases "k \<le> 0")
  case True
  with assms(2) show ?thesis by (simp add: episodic_recall_def)
next
  case False
  with assms(2) obtain v where v: "emb query = Inr v"
    by (auto simp: episodic_recall_def Let_def ok_bind_Inr_iff)
  define f where "f = (\<lambda>(r, d). row_to_episode (Some (episode_score b now r d)) r)"
  define c where "c = near v (max pool (nat k)) tbl"
  have es: "es = take (nat k) (sort_desc score_of (map f c))"
    using assms(2,6) False v by (simp add: episodic_recall_def Let_def f_def c_def)
  have score: "score_of (f (r, d)) = episode_score b now r d" for r d
    by (simp add: f_def score_of_def row_to_episode_def)
  have range: "0 \<le> episode_score b now r d \<and>
      episode_score b now r d \<le> rw_similarity b + rw_recency b + rw_salience b" for r d
    unfolding episode_score_def using assms(3-5) by (intro blended_range) auto
  have sub: "set es \<subseteq> f ` set c" using set_take_subset [of "nat k"] es by fastforce
  have tbl: "fst p \<in> set tbl" if "p \<in> set c" for p
    using that assms(1) unfolding nearest_ok_def c_def by (metis image_eqI set_map subsetD)
  have "\<exists>r \<in> set tbl. \<exists>d. e = row_to_episode (Some (episode_score b now r d)) r \<and>
       0 \<le> score_of e \<and> score_of e \<le> rw_similarity b + rw_recency b + rw_salience b" if e: "e \<in> set es" for e
  proof -
    from e sub obtain r d where rd: "(r, d) \<in> set c" "e = f (r, d)" by auto
    with tbl [OF rd(1)] score range show ?thesis by (auto simp: f_def)
  qed
  moreover have "episode_score b now r d \<le> score_of e"
    if "(r, d) \<in> set c" "f (r, d) \<notin> set es" "e \<in> set es" for r d e
  proof -
    have "f (r, d) \<in> set (sort_desc score_of (map f c))" using that(1) by simp
    then have "f (r, d) \<in> set (drop (nat k) (sort_desc score_of (map f c)))"
      using that(2) es by (metis Un_iff append_take_drop_id set_append)
    from take_sort_desc_ge [OF that(3) [unfolded es] this] show ?thesis by (simp add: score)
  qed
  moreover have "sorted_wrt (\<lambda>x y. score_of y \<le> score_of x) es"
    by (simp add: es sort_desc_sorted sorted_wrt_take)
  ultimately show ?thesis using v es by (auto simp: f_def c_def)
qed

definition weights_demo :: recall_weights where
  "weights_demo = \<lparr>rw_similarity = 1, rw_recency = 1, rw_salience = 1, rw_halflife = 86400\<rparr>"

definition row_demo :: "nat \<Rightarrow> real \<Rightarrow> episode_row" where
  "row_demo n sal = \<lparr>er_id = n, er_ts = 0, er_kind = ''reflection'', er_content = [], er_actors = [],
     er_emotion_tags = [], er_salience = sal, er_embedding = [1]\<rparr>"

text \<open>An index that returns the first rows, at distance 1.\<close>

definition near_first :: nearest where
  "near_first v n tbl = map (\<lambda>r. (r, 1)) (take n tbl)"

lemma nearest_ok_first: "nearest_ok near_first"
  by (auto simp: nearest_ok_def near_first_def comp_def dest: in_set_takeD)

theorem episodic_recall_top_witness:
  "\<exists>es. episodic_recall (\<lambda>_. Inr [1]) near_first 5 weights_demo ''q'' 1 0 None [row_demo 1 (1/10), row_demo 2 (9/10)] = Inr es \<and>
    length es \<le> 1 \<and> (\<forall>e \<in> set es. 0 \<le> score_of e \<and> score_of e \<le> 3)"
proof -
  obtain es where e: "episodic_recall (\<lambda>_. Inr [1]) near_first 5 weights_demo ''q'' 1 0 None
      [row_demo 1 (1/10), row_demo 2 (9/10)] = Inr es"
    by (simp add: episodic_recall_def Let_def)
  have w: "0 \<le> rw_similarity weights_demo" "0 \<le> rw_recency weights_demo" "0 \<le> rw_salience weights_demo"
    by (simp_all add: weights_demo_def)
  from episodic_recall_top [OF nearest_ok_first e w]
  have "length es \<le> 1 \<and> (\<forall>e \<in> set es. 0 \<le> score_of e \<and> score_of e \<le> 3)"
    by (simp add: weights_demo_def)
  with e show ?thesis by blast
qed

text \<open>Recalled items never outrank the ceiling: when the stores' scores are what their recalls
  promise, every item the RECALL stage adds has a salience between 0 and the ceiling, and the best
  episode of a batch with a positive score has exactly the ceiling.  With no focus at all the
  stores are not queried.\<close>

theorem recall_stage_below_ceiling:
  assumes "0 \<le> rc_ceiling r" "rc_ceiling r \<le> 1"
    and "\<And>q k w es e. ep_recall q k w = Inr es \<Longrightarrow> e \<in> set es \<Longrightarrow> 0 \<le> score_of e"
    and "\<And>q k fs f. fact_recall q k = Inr fs \<Longrightarrow> f \<in> set fs \<Longrightarrow> in01 (case fa_score f of Some s \<Rightarrow> s | None \<Rightarrow> 0)"
    and "recall_stage ep_recall fact_recall focus r = Inr items"
  shows "(\<forall>i \<in> set items. 0 \<le> wi_salience i \<and> wi_salience i \<le> rc_ceiling r) \<and>
    (focus = [] \<longrightarrow> items = []) \<and>
    (\<forall>es. build_query focus \<noteq> [] \<longrightarrow> ep_recall (build_query focus) (rc_episodes_k r) (biased_weights r) = Inr es \<longrightarrow>
       (\<exists>e \<in> set es. 0 < score_of e) \<longrightarrow> (\<exists>i \<in> set items. wi_kind i = ''memory'' \<and> wi_salience i = rc_ceiling r))"
proof (cases "build_query focus = []")
  case True
  with assms(5) show ?thesis by (simp add: recall_stage_def)
next
  case False
  with assms(5) obtain es fs where
    es: "ep_recall (build_query focus) (rc_episodes_k r) (biased_weights r) = Inr es"
    and fs: "fact_recall (build_query focus) (rc_facts_k r) = Inr fs"
    and items: "items = episodes_to_items (rc_ceiling r) es @ facts_to_items (rc_ceiling r) fs"
    by (auto simp: recall_stage_def Let_def ok_bind_Inr_iff)
  have ep: "0 \<le> wi_salience i \<and> wi_salience i \<le> rc_ceiling r"
    if "i \<in> set (episodes_to_items (rc_ceiling r) es)" for i
  proof -
    define m where "m = Max (set (map score_of es))"
    from that obtain e where e: "e \<in> set es"
      "wi_salience i = clamp01 (score_of e / (if m = 0 then 1 else m) * rc_ceiling r)"
      by (auto simp: episodes_to_items_def m_def recalled_item_def Let_def split: if_splits)
    have "score_of e \<le> m" "0 \<le> score_of e" using e(1) assms(3) [OF es] by (auto simp: m_def)
    then have "score_of e / (if m = 0 then 1 else m) \<le> 1" by auto
    then have "score_of e / (if m = 0 then 1 else m) * rc_ceiling r \<le> 1 * rc_ceiling r"
      using assms(1) by (rule mult_right_mono)
    then show ?thesis using e(2) assms(1) by (simp add: clamp01_le)
  qed
  have fp: "0 \<le> wi_salience i \<and> wi_salience i \<le> rc_ceiling r"
    if "i \<in> set (facts_to_items (rc_ceiling r) fs)" for i
  proof -
    from that obtain f where f: "f \<in> set fs"
      "wi_salience i = clamp01 ((case fa_score f of Some s \<Rightarrow> s | None \<Rightarrow> 0) * rc_ceiling r)"
      by (auto simp: facts_to_items_def recalled_item_def)
    have "(case fa_score f of Some s \<Rightarrow> s | None \<Rightarrow> 0) * rc_ceiling r \<le> 1 * rc_ceiling r"
      using assms(4) [OF fs f(1)] assms(1) by (intro mult_right_mono) (simp_all add: in01_def)
    then show ?thesis using f(2) assms(1) by (simp add: clamp01_le)
  qed
  have top: "\<exists>i \<in> set items. wi_kind i = ''memory'' \<and> wi_salience i = rc_ceiling r"
    if "\<exists>e \<in> set es. 0 < score_of e"
  proof -
    define m where "m = Max (set (map score_of es))"
    from that have ne: "set (map score_of es) \<noteq> {}" by auto
    then have "m \<in> set (map score_of es)" unfolding m_def by (intro Max_in) auto
    then obtain e where e: "e \<in> set es" "score_of e = m" by auto
    from that have "0 < m" unfolding m_def using ne by (auto simp: Max_gr_iff)
    then have "\<exists>i \<in> set (episodes_to_items (rc_ceiling r) es). wi_kind i = ''memory'' \<and> wi_salience i = rc_ceiling r"
      using e assms(1,2)
      by (auto simp: episodes_to_items_def recalled_item_def Let_def m_def clamp01_id in01_def intro!: bexI [of _ e])
    with items show ?thesis by auto
  qed
  have "focus = [] \<Longrightarrow> items = []" using False by (simp add: build_query_def)
  with items ep fp top es show ?thesis by auto
qed

definition recaller_demo :: recaller where
  "recaller_demo = \<lparr>rc_episodes_k = 3, rc_facts_k = 2, rc_ceiling = 6/10, rc_base_weights = weights_demo,
     rc_arousal_gain = 1, rc_mood = None\<rparr>"

theorem recall_stage_below_ceiling_witness:
  "\<exists>items. recall_stage (\<lambda>q k w. Inr [row_to_episode (Some 2) (row_demo 1 0), row_to_episode (Some 1) (row_demo 2 0)])
      (\<lambda>q k. Inr []) [recalled_item ''input'' ''hi'' [] 1 []] recaller_demo = Inr items \<and>
    (\<forall>i \<in> set items. wi_salience i \<le> 6/10)"
proof -
  let ?ep = "\<lambda>(q :: string) (k :: int) (w :: recall_weights option).
     Inr [row_to_episode (Some 2) (row_demo 1 0), row_to_episode (Some 1) (row_demo 2 0)] :: episode list res"
  let ?fr = "\<lambda>(q :: string) (k :: int). Inr [] :: fact list res"
  obtain items where i: "recall_stage ?ep ?fr [recalled_item ''input'' ''hi'' [] 1 []] recaller_demo = Inr items"
    by (cases "build_query [recalled_item ''input'' ''hi'' [] 1 []] = []") (simp_all add: recall_stage_def Let_def)
  have "\<forall>i \<in> set items. 0 \<le> wi_salience i \<and> wi_salience i \<le> rc_ceiling recaller_demo"
    by (rule recall_stage_below_ceiling [OF _ _ _ _ i, THEN conjunct1])
       (auto simp: recaller_demo_def score_of_def row_to_episode_def)
  with i show ?thesis by (auto simp: recaller_demo_def)
qed

text \<open>A run of ticks through the LEARN stage.\<close>

fun learn_run :: "(ws_item list \<times> string option) list \<Rightarrow> learner \<Rightarrow> learner \<times> episode list" where
  "learn_run [] l = (l, [])"
| "learn_run ((items, thought) # xs) l =
     (let (l1, e) = learn_stage items thought l; (l2, es) = learn_run xs l1
      in (l2, (case e of Some e \<Rightarrow> [e] | None \<Rightarrow> []) @ es))"

lemma learn_run_idle:
  assumes "\<forall>(items, thought) \<in> set xs. (\<forall>i \<in> set items. wi_kind i \<noteq> INPUT_KIND) \<and> thought \<noteq> None \<and> thought \<noteq> Some []"
    and "0 < le_idle_every l" "learn_run xs l = (l', es)"
  shows "le_ticks l' = le_ticks l + length xs \<and> le_idle_every l' = le_idle_every l \<and>
    length es + le_ticks l div le_idle_every l = le_ticks l' div le_idle_every l \<and>
    (\<forall>e \<in> set es. ep_kind e = ''reflection'')"
  using assms
proof (induction xs arbitrary: l es)
  case (Cons x xs)
  obtain items thought where x: "x = (items, thought)" by (cases x)
  with Cons.prems(1) obtain t where t: "thought = Some t" "t \<noteq> []"
    and no: "filter (\<lambda>i. wi_kind i = INPUT_KIND) items = []"
    by (auto simp: filter_empty_conv)
  define l1 where "l1 = l\<lparr>le_ticks := le_ticks l + 1\<rparr>"
  obtain es1 where r: "learn_run xs l1 = (l', es1)"
    and es: "es = (if (le_ticks l + 1) mod le_idle_every l = 0 then [reflection_episode t] else []) @ es1"
    using Cons.prems(3) x t no by (auto simp: learn_stage_def l1_def Let_def split: prod.splits if_splits)
  have "\<forall>(items, thought) \<in> set xs. (\<forall>i \<in> set items. wi_kind i \<noteq> INPUT_KIND) \<and> thought \<noteq> None \<and> thought \<noteq> Some []"
    using Cons.prems(1) by simp
  from Cons.IH [OF this _ r] Cons.prems(2) have ih: "le_ticks l' = le_ticks l + 1 + length xs"
    "le_idle_every l' = le_idle_every l"
    "length es1 + (le_ticks l + 1) div le_idle_every l = le_ticks l' div le_idle_every l"
    "\<forall>e \<in> set es1. ep_kind e = ''reflection''"
    by (simp_all add: l1_def)
  have "(le_ticks l + 1) div le_idle_every l =
      le_ticks l div le_idle_every l + (if (le_ticks l + 1) mod le_idle_every l = 0 then 1 else 0)"
    by (simp add: div_Suc)
  with ih es show ?case
    by (auto simp: reflection_episode_def new_episode_def)
qed simp

text \<open>Every tick with an interaction writes exactly one interaction episode; a run of \<open>n\<close> idle
  ticks, each with a thought, writes exactly the reflections the sub-cadence allows, one every
  \<open>idle_every\<close> ticks.\<close>

theorem learn_cadence:
  assumes "\<forall>(items, thought) \<in> set xs. (\<forall>i \<in> set items. wi_kind i \<noteq> INPUT_KIND) \<and> thought \<noteq> None \<and> thought \<noteq> Some []"
    and "learn_run xs (new_learner every setting) = (l', es)"
    and "\<exists>i \<in> set items. wi_kind i = INPUT_KIND"
  shows "length es = length xs div le_idle_every (new_learner every setting) \<and>
    (\<forall>e \<in> set es. ep_kind e = ''reflection'') \<and>
    (\<exists>e. snd (learn_stage items thought l') = Some e \<and> ep_kind e = ''interaction'')"
proof -
  have "0 < le_idle_every (new_learner every setting)" by (simp add: new_learner_def)
  note r = learn_run_idle [OF assms(1) this assms(2)]
  have "filter (\<lambda>i. wi_kind i = INPUT_KIND) items \<noteq> []" using assms(3) by (auto simp: filter_empty_conv)
  then have "snd (learn_stage items thought l') = Some (interaction_episode (filter (\<lambda>i. wi_kind i = INPUT_KIND) items) thought)"
    by (simp add: learn_stage_def Let_def)
  with r show ?thesis
    by (auto simp: new_learner_def interaction_episode_def new_episode_def)
qed

theorem learn_cadence_witness:
  "length (snd (learn_run (replicate 7 ([], Some ''quiet'')) (new_learner None 3))) = 2"
proof -
  obtain l' es where r: "learn_run (replicate 7 ([], Some ''quiet'')) (new_learner None 3) = (l', es)" by fastforce
  have "\<forall>(items, thought) \<in> set (replicate 7 ([] :: ws_item list, Some ''quiet'')).
      (\<forall>i \<in> set items. wi_kind i \<noteq> INPUT_KIND) \<and> thought \<noteq> None \<and> thought \<noteq> Some []" by simp
  from learn_cadence [OF this r, of "[recalled_item INPUT_KIND [] [] 1 []]"] r show ?thesis
    by (simp add: recalled_item_def new_learner_def)
qed

end
