(* ===== verification/Consolidation.thy ===== *)
theory Consolidation
  imports MemScore
begin

text \<open>
  \<^verbatim>\<open>brain/memory/consolidator.py\<close> (clustering and the consolidation pass) and the upsert and
  recall of \<^verbatim>\<open>brain/memory/semantic.py\<close>.  The table \<^verbatim>\<open>semantic_fact\<close> is the list of its
  rows, with the next value of its id sequence (which an upsert consumes even when it updates).
  The model's summary of a cluster is the parameter \<open>llm\<close>: \<open>None\<close> inside the result when every
  provider is tired.
\<close>

section \<open>Clustering\<close>

record cluster =
  cl_episodes :: "episode_row list"
  cl_sum :: "real list"

definition cluster_add :: "cluster \<Rightarrow> episode_row \<Rightarrow> real list \<Rightarrow> cluster res" where
  "cluster_add c e v =
     (if cl_sum c = [] then Inr \<lparr>cl_episodes = cl_episodes c @ [e], cl_sum = v\<rparr>
      else if length (cl_sum c) \<noteq> length v then Inl ValueError
      else Inr \<lparr>cl_episodes = cl_episodes c @ [e], cl_sum = map2 (+) (cl_sum c) v\<rparr>)"

definition centroid :: "cluster \<Rightarrow> real list" where
  "centroid c = (let n = length (cl_episodes c)
                 in if n = 0 then cl_sum c else map (\<lambda>s. s / real n) (cl_sum c))"

fun nearest_loop :: "nat \<Rightarrow> nat option \<Rightarrow> real \<Rightarrow> cluster list \<Rightarrow> real list \<Rightarrow> (nat option \<times> real) res" where
  "nearest_loop idx best sim [] v = Inr (best, sim)"
| "nearest_loop idx best sim (c # cs) v =
     ok_bind (cosine_similarity v (centroid c)) (\<lambda>s.
       if sim < s then nearest_loop (Suc idx) (Some idx) s cs v
       else nearest_loop (Suc idx) best sim cs v)"

definition nearest_cluster :: "cluster list \<Rightarrow> real list \<Rightarrow> (nat option \<times> real) res" where
  "nearest_cluster cs v = nearest_loop 0 None (- 1) cs v"

definition cluster_step :: "real \<Rightarrow> nat \<Rightarrow> episode_row \<Rightarrow> cluster list \<Rightarrow> cluster list res" where
  "cluster_step threshold max_clusters e cs =
     ok_bind (nearest_cluster cs (er_embedding e)) (\<lambda>(best, sim).
       case best of
         Some i \<Rightarrow>
           if threshold \<le> sim \<or> max 1 max_clusters \<le> length cs
           then ok_bind (cluster_add (cs ! i) e (er_embedding e)) (\<lambda>c. Inr (cs[i := c]))
           else Inr (cs @ [\<lparr>cl_episodes = [e], cl_sum = er_embedding e\<rparr>])
       | None \<Rightarrow> Inr (cs @ [\<lparr>cl_episodes = [e], cl_sum = er_embedding e\<rparr>]))"

fun cluster_loop :: "real \<Rightarrow> nat \<Rightarrow> episode_row list \<Rightarrow> cluster list \<Rightarrow> cluster list res" where
  "cluster_loop t m [] cs = Inr cs"
| "cluster_loop t m (e # es) cs = ok_bind (cluster_step t m e cs) (cluster_loop t m es)"

definition cluster_episodes :: "real \<Rightarrow> nat \<Rightarrow> episode_row list \<Rightarrow> episode_row list list res" where
  "cluster_episodes t m es = ok_bind (cluster_loop t m es []) (\<lambda>cs. Inr (map cl_episodes cs))"

section \<open>What clustering keeps\<close>

text \<open>The running sum of a cluster is the sum of its members' embeddings, all of length \<open>n\<close>.\<close>

definition cluster_ok :: "nat \<Rightarrow> cluster \<Rightarrow> bool" where
  "cluster_ok n c \<longleftrightarrow> cl_episodes c \<noteq> [] \<and> length (cl_sum c) = n \<and>
     (\<forall>v. length v = n \<longrightarrow> dot v (cl_sum c) = sum_list (map (\<lambda>e. dot v (er_embedding e)) (cl_episodes c)))"

lemma dot_add_right: "length a = length b \<Longrightarrow> length v = length a \<Longrightarrow> dot v (map2 (+) a b) = dot v a + dot v b"
proof (induction a b arbitrary: v rule: list_induct2)
  case (Cons x xs y ys)
  then show ?case by (cases v) (auto simp: algebra_simps)
qed simp

lemma dot_div_right: "dot v (map (\<lambda>s. s / r) a) = dot v a / r"
proof (induction a arbitrary: v)
  case (Cons x xs)
  then show ?case by (cases v) (simp_all add: dot_def add_divide_distrib)
qed (simp add: dot_def)

lemma cluster_ok_new: "length (er_embedding e) = n \<Longrightarrow> cluster_ok n \<lparr>cl_episodes = [e], cl_sum = er_embedding e\<rparr>"
  by (simp add: cluster_ok_def)

lemma cluster_ok_add:
  assumes "cluster_ok n c" "length (er_embedding e) = n" "0 < n"
  shows "\<exists>c'. cluster_add c e (er_embedding e) = Inr c' \<and> cluster_ok n c' \<and> cl_episodes c' = cl_episodes c @ [e]"
proof -
  from assms have ne: "cl_sum c \<noteq> []" and l: "length (cl_sum c) = length (er_embedding e)"
    by (auto simp: cluster_ok_def)
  have "cluster_ok n \<lparr>cl_episodes = cl_episodes c @ [e], cl_sum = map2 (+) (cl_sum c) (er_embedding e)\<rparr>"
    using assms l by (auto simp: cluster_ok_def dot_add_right)
  with ne l show ?thesis by (simp add: cluster_add_def)
qed

lemma length_centroid: "cluster_ok n c \<Longrightarrow> length (centroid c) = n"
  by (simp add: cluster_ok_def centroid_def Let_def)

lemma cosine_total: "length a = length b \<Longrightarrow> \<exists>c. cosine_similarity a b = Inr c"
  by (simp add: cosine_similarity_def)

text \<open>The loop ends with a similarity at least as high as it started with; it finds a cluster as
  soon as one similarity exceeds the start value.\<close>

lemma nearest_loop_effect:
  assumes "\<forall>c \<in> set cs. cluster_ok n c" "length v = n"
  shows "\<exists>b s. nearest_loop idx best sim cs v = Inr (b, s) \<and> sim \<le> s \<and>
     (b = best \<or> (\<exists>i. b = Some i \<and> idx \<le> i \<and> i < idx + length cs)) \<and>
     ((\<exists>c \<in> set cs. \<exists>x. cosine_similarity v (centroid c) = Inr x \<and> sim < x) \<longrightarrow>
        (\<exists>i. b = Some i \<and> idx \<le> i \<and> i < idx + length cs))"
  using assms
proof (induction cs arbitrary: idx best sim)
  case (Cons c cs)
  from Cons.prems have ok: "\<forall>c \<in> set cs. cluster_ok n c" "cluster_ok n c" by auto
  obtain x where x: "cosine_similarity v (centroid c) = Inr x"
    using cosine_total [of v "centroid c"] length_centroid [OF ok(2)] Cons.prems(2) by auto
  show ?case
  proof (cases "sim < x")
    case True
    from Cons.IH [OF ok(1) Cons.prems(2), of "Suc idx" "Some idx" x] obtain b s where
      r: "nearest_loop (Suc idx) (Some idx) x cs v = Inr (b, s)" "x \<le> s"
        "b = Some idx \<or> (\<exists>i. b = Some i \<and> Suc idx \<le> i \<and> i < Suc idx + length cs)" by blast
    then have "\<exists>i. b = Some i \<and> idx \<le> i \<and> i < idx + length (c # cs)" by auto
    with r True x show ?thesis by auto
  next
    case False
    from Cons.IH [OF ok(1) Cons.prems(2), of "Suc idx" best sim] obtain b s where
      r: "nearest_loop (Suc idx) best sim cs v = Inr (b, s)" "sim \<le> s"
        "b = best \<or> (\<exists>i. b = Some i \<and> Suc idx \<le> i \<and> i < Suc idx + length cs)"
        "(\<exists>c \<in> set cs. \<exists>x. cosine_similarity v (centroid c) = Inr x \<and> sim < x) \<longrightarrow>
          (\<exists>i. b = Some i \<and> Suc idx \<le> i \<and> i < Suc idx + length cs)" by blast
    have "(\<exists>d \<in> set (c # cs). \<exists>y. cosine_similarity v (centroid d) = Inr y \<and> sim < y) \<longrightarrow>
        (\<exists>i. b = Some i \<and> idx \<le> i \<and> i < idx + length (c # cs))"
      using r(4) x False by fastforce
    with r False x show ?thesis by auto
  qed
qed simp

definition clusters_ok :: "nat \<Rightarrow> episode_row list \<Rightarrow> cluster list \<Rightarrow> bool" where
  "clusters_ok n seen cs \<longleftrightarrow> (\<forall>c \<in> set cs. cluster_ok n c) \<and>
     mset (concat (map cl_episodes cs)) = mset seen"

text \<open>No two episodes point away from each other.\<close>

definition acute :: "episode_row list \<Rightarrow> bool" where
  "acute es \<longleftrightarrow> (\<forall>a \<in> set es. \<forall>b \<in> set es. 0 \<le> dot (er_embedding a) (er_embedding b))"

lemma cosine_nonneg:
  assumes "cluster_ok n c" "length v = n" "\<forall>e \<in> set (cl_episodes c). 0 \<le> dot v (er_embedding e)"
  shows "\<exists>x. cosine_similarity v (centroid c) = Inr x \<and> - 1 < x"
proof -
  have "0 \<le> dot v (cl_sum c)"
    using assms by (auto simp: cluster_ok_def intro!: sum_list_nonneg)
  then have "0 \<le> dot v (centroid c)"
    using assms(1) by (simp add: centroid_def Let_def dot_div_right)
  moreover have "0 \<le> norm2 v * norm2 (centroid c)" by (simp add: norm2_dot dot_self_nonneg)
  ultimately have "0 \<le> dot v (centroid c) / (norm2 v * norm2 (centroid c))" by simp
  with assms(2) length_centroid [OF assms(1)] show ?thesis
    by (auto simp: cosine_similarity_def intro: less_le_trans [of _ 0])
qed

lemma cluster_step_effect:
  assumes ok: "clusters_ok n seen cs" and n: "0 < n" "length (er_embedding e) = n"
  shows "\<exists>cs'. cluster_step t m e cs = Inr cs' \<and> clusters_ok n (seen @ [e]) cs' \<and>
    length cs \<le> length cs' \<and>
    (acute (seen @ [e]) \<longrightarrow> length cs \<le> max 1 m \<longrightarrow> length cs' \<le> max 1 m)"
proof -
  have c: "\<forall>c \<in> set cs. cluster_ok n c" using ok by (simp add: clusters_ok_def)
  from nearest_loop_effect [OF c n(2), of 0 None "- 1"] obtain b s where
    b: "nearest_loop 0 None (- 1) cs (er_embedding e) = Inr (b, s)" "b = None \<or> (\<exists>i. b = Some i \<and> i < length cs)"
       "(\<exists>c \<in> set cs. \<exists>x. cosine_similarity (er_embedding e) (centroid c) = Inr x \<and> - 1 < x) \<longrightarrow> b \<noteq> None"
    by auto
  show ?thesis
  proof (cases "\<exists>i. b = Some i \<and> (t \<le> s \<or> max 1 m \<le> length cs)")
    case True
    then obtain i where i: "b = Some i" "t \<le> s \<or> max 1 m \<le> length cs" "i < length cs" using b(2) by auto
    with c have "cluster_ok n (cs ! i)" by simp
    from cluster_ok_add [OF this n(2,1)] obtain c' where
      c': "cluster_add (cs ! i) e (er_embedding e) = Inr c'" "cluster_ok n c'" "cl_episodes c' = cl_episodes (cs ! i) @ [e]"
      by blast
    have s: "cluster_step t m e cs = Inr (cs[i := c'])"
      using i b(1) c'(1) by (simp add: cluster_step_def nearest_cluster_def)
    have cs: "cs = take i cs @ cs ! i # drop (Suc i) cs" using i(3) by (rule id_take_nth_drop)
    have u: "cs[i := c'] = take i cs @ c' # drop (Suc i) cs" using i(3) by (rule upd_conv_take_nth_drop)
    have "mset (concat (map cl_episodes (cs[i := c']))) = mset (concat (map cl_episodes cs)) + {#e#}"
      unfolding u by (subst (2) cs) (simp add: c'(3) del: append_take_drop_id id_take_nth_drop)
    moreover have "\<forall>c \<in> set (cs[i := c']). cluster_ok n c"
      using c c'(2) set_update_subset_insert [of cs i c'] by blast
    ultimately have "clusters_ok n (seen @ [e]) (cs[i := c'])" using ok by (simp add: clusters_ok_def)
    with s show ?thesis by auto
  next
    case False
    let ?new = "\<lparr>cl_episodes = [e], cl_sum = er_embedding e\<rparr>"
    have s: "cluster_step t m e cs = Inr (cs @ [?new])"
      using False b(1) by (cases b) (auto simp: cluster_step_def nearest_cluster_def)
    have "clusters_ok n (seen @ [e]) (cs @ [?new])"
      using ok cluster_ok_new [OF n(2)] by (simp add: clusters_ok_def)
    moreover have "length (cs @ [?new]) \<le> max 1 m" if a: "acute (seen @ [e])" and l: "length cs \<le> max 1 m"
    proof (cases cs)
      case Nil
      then show ?thesis by simp
    next
      case (Cons c0 rest)
      then have "cluster_ok n c0" using c by simp
      moreover have "set (cl_episodes c0) \<subseteq> set seen"
      proof -
        have "set (cl_episodes c0) \<subseteq> set (concat (map cl_episodes cs))" using Cons by auto
        also have "\<dots> = set seen" using ok unfolding clusters_ok_def by (metis mset_eq_setD)
        finally show ?thesis .
      qed
      then have "\<forall>x \<in> set (cl_episodes c0). 0 \<le> dot (er_embedding e) (er_embedding x)"
        using a by (auto simp: acute_def)
      ultimately have "\<exists>x. cosine_similarity (er_embedding e) (centroid c0) = Inr x \<and> - 1 < x"
        using n(2) by (intro cosine_nonneg)
      then have "b \<noteq> None" using b(3) Cons by auto
      with False show ?thesis by auto
    qed
    ultimately show ?thesis using s by auto
  qed
qed

lemma cluster_loop_effect:
  assumes "clusters_ok n seen cs" "0 < n" "\<forall>e \<in> set es. length (er_embedding e) = n"
  shows "\<exists>cs'. cluster_loop t m es cs = Inr cs' \<and> clusters_ok n (seen @ es) cs' \<and>
    (acute (seen @ es) \<longrightarrow> length cs \<le> max 1 m \<longrightarrow> length cs' \<le> max 1 m)"
  using assms
proof (induction es arbitrary: seen cs)
  case (Cons e es)
  from Cons.prems have e: "length (er_embedding e) = n" by simp
  from cluster_step_effect [OF Cons.prems(1,2) e] obtain cs1 where
    s: "cluster_step t m e cs = Inr cs1" "clusters_ok n (seen @ [e]) cs1"
      "acute (seen @ [e]) \<longrightarrow> length cs \<le> max 1 m \<longrightarrow> length cs1 \<le> max 1 m" by blast
  from Cons.IH [OF s(2) Cons.prems(2)] Cons.prems(3) obtain cs2 where
    r: "cluster_loop t m es cs1 = Inr cs2" "clusters_ok n (seen @ e # es) cs2"
      "acute (seen @ e # es) \<longrightarrow> length cs1 \<le> max 1 m \<longrightarrow> length cs2 \<le> max 1 m" by auto
  moreover have "acute (seen @ e # es) \<Longrightarrow> acute (seen @ [e])" by (auto simp: acute_def)
  ultimately show ?case using s by auto
qed simp

section \<open>Facts\<close>

record fact_row =
  fr_id :: nat
  fr_subject :: string
  fr_predicate :: string
  fr_object :: string
  fr_confidence :: real
  fr_sources :: "nat list"
  fr_embedding :: "real list"
  fr_updated_at :: real

record fact_store =
  fs_rows :: "fact_row list"
  fs_next_id :: nat

definition fact_text :: "string \<Rightarrow> string \<Rightarrow> string \<Rightarrow> string" where
  "fact_text s p obj = s @ '' '' @ p @ '' '' @ obj"

text \<open>\<^verbatim>\<open>INSERT ... ON CONFLICT (subject, predicate) DO UPDATE ... RETURNING\<close>.\<close>

definition same_key :: "string \<Rightarrow> string \<Rightarrow> fact_row \<Rightarrow> bool" where
  "same_key s p r \<longleftrightarrow> fr_subject r = s \<and> fr_predicate r = p"

definition upsert_fact :: "(string \<Rightarrow> real list res) \<Rightarrow> real \<Rightarrow> string \<Rightarrow> string \<Rightarrow> string \<Rightarrow> real \<Rightarrow> nat list \<Rightarrow>
    fact_store \<Rightarrow> (fact_store \<times> fact_row) res" where
  "upsert_fact emb now subj pred obj conf sources fs =
     ok_bind (emb (fact_text subj pred obj)) (\<lambda>v.
       case find (same_key subj pred) (fs_rows fs) of
         None \<Rightarrow>
           let row = \<lparr>fr_id = fs_next_id fs, fr_subject = subj, fr_predicate = pred, fr_object = obj,
                      fr_confidence = clamp01 conf, fr_sources = sources, fr_embedding = v, fr_updated_at = now\<rparr>
           in Inr (\<lparr>fs_rows = fs_rows fs @ [row], fs_next_id = Suc (fs_next_id fs)\<rparr>, row)
       | Some old \<Rightarrow>
           let row = old\<lparr>fr_object := obj, fr_confidence := clamp01 conf, fr_sources := sources,
                         fr_embedding := v, fr_updated_at := now\<rparr>
           in Inr (\<lparr>fs_rows = map (\<lambda>r. if same_key subj pred r then row else r) (fs_rows fs),
                    fs_next_id = Suc (fs_next_id fs)\<rparr>, row))"

definition row_to_fact :: "real option \<Rightarrow> fact_row \<Rightarrow> fact" where
  "row_to_fact s r =
     \<lparr>fa_id = fr_id r, fa_subject = fr_subject r, fa_predicate = fr_predicate r, fa_object = fr_object r,
      fa_confidence = fr_confidence r, fa_sources = fr_sources r, fa_score = s\<rparr>"

text \<open>\<open>nearest_f\<close> is the fact index's query.\<close>

definition semantic_recall :: "(string \<Rightarrow> real list res) \<Rightarrow>
    (real list \<Rightarrow> nat \<Rightarrow> fact_row list \<Rightarrow> (fact_row \<times> real) list) \<Rightarrow> string \<Rightarrow> int \<Rightarrow> fact_row list \<Rightarrow>
    fact list res" where
  "semantic_recall emb nearest_f query k rows =
     (if k \<le> 0 then Inr []
      else ok_bind (emb query) (\<lambda>v. Inr (map (\<lambda>(r, d). row_to_fact (Some (similarity_from_distance d)) r)
             (nearest_f v (nat k) rows))))"

text \<open>\<open>newest\<close> is the query \<^verbatim>\<open>ORDER BY updated_at DESC LIMIT n\<close>.\<close>

definition semantic_recent :: "(nat \<Rightarrow> fact_row list \<Rightarrow> fact_row list) \<Rightarrow> int \<Rightarrow> fact_row list \<Rightarrow> fact list" where
  "semantic_recent newest n rows = (if n \<le> 0 then [] else map (row_to_fact None) (newest (nat n) rows))"

lemma semantic_recall_scores:
  "semantic_recall emb nf q k rows = Inr fs \<Longrightarrow> f \<in> set fs \<Longrightarrow>
   in01 (case fa_score f of Some s \<Rightarrow> s | None \<Rightarrow> 0)"
  by (auto simp: semantic_recall_def row_to_fact_def ok_bind_Inr_iff split: if_splits)

section \<open>The consolidation pass\<close>

record summary =
  su_subject :: string
  su_predicate :: string
  su_object :: string
  su_confidence :: real

fun count_kinds :: "episode_row list \<Rightarrow> (string \<times> nat) list \<Rightarrow> (string \<times> nat) list" where
  "count_kinds [] d = d"
| "count_kinds (e # es) d = count_kinds es (dict_put (er_kind e) (dict_get d (er_kind e) 0 + 1) d)"

definition dominant_kind :: "episode_row list \<Rightarrow> string" where
  "dominant_kind es =
     (case first_max (\<lambda>e. real (snd e)) (count_kinds es []) of
        Some (k, _) \<Rightarrow> k | None \<Rightarrow> ''experience'')"

definition fallback_summary :: "episode_row list \<Rightarrow> summary" where
  "fallback_summary es =
     \<lparr>su_subject = ''my recent '' @ dominant_kind es, su_predicate = ''recent_experience'',
      su_object = take 480 (join ''; '' (map er_content es)), su_confidence = 3/10\<rparr>"

text \<open>\<open>llm\<close> is absent when there is no router or no prompt.\<close>

definition summarise :: "(episode_row list \<Rightarrow> summary option res) option \<Rightarrow> episode_row list \<Rightarrow> summary res" where
  "summarise llm es =
     (case llm of
        None \<Rightarrow> Inr (fallback_summary es)
      | Some f \<Rightarrow> ok_bind (f es) (\<lambda>s. case s of Some s \<Rightarrow> Inr s | None \<Rightarrow> Inr (fallback_summary es)))"

fun write_facts :: "(string \<Rightarrow> real list res) \<Rightarrow> real \<Rightarrow> (episode_row list \<Rightarrow> summary option res) option \<Rightarrow>
    episode_row list list \<Rightarrow> fact_store \<Rightarrow> fact_store \<times> fact_row list res" where
  "write_facts emb now llm [] fs = (fs, Inr [])"
| "write_facts emb now llm (es # ess) fs =
     (case ok_bind (summarise llm es) (\<lambda>s.
             upsert_fact emb now (su_subject s) (su_predicate s) (su_object s) (su_confidence s) (map er_id es) fs) of
        Inl e \<Rightarrow> (fs, Inl e)
      | Inr (fs1, row) \<Rightarrow>
          let (fs2, r) = write_facts emb now llm ess fs1
          in (fs2, ok_bind r (\<lambda>rows. Inr (row # rows))))"

text \<open>\<open>recent cap\<close> is the query \<^verbatim>\<open>ORDER BY ts DESC LIMIT cap\<close>; each fact is committed on its own.\<close>

definition consolidate :: "(string \<Rightarrow> real list res) \<Rightarrow> real \<Rightarrow> (episode_row list \<Rightarrow> summary option res) option \<Rightarrow>
    (nat \<Rightarrow> episode_row list \<Rightarrow> episode_row list) \<Rightarrow> real \<Rightarrow> nat \<Rightarrow> nat \<Rightarrow> episode_row list \<Rightarrow> fact_store \<Rightarrow>
    fact_store \<times> fact_row list res" where
  "consolidate emb now llm recent threshold max_clusters cap tbl fs =
     (let rec = recent cap tbl
      in if rec = [] then (fs, Inr [])
         else case cluster_episodes threshold max_clusters rec of
                Inl e \<Rightarrow> (fs, Inl e)
              | Inr clusters \<Rightarrow> write_facts emb now llm clusters fs)"

text \<open>Subject and predicate identify a row.\<close>

definition facts_ok :: "fact_store \<Rightarrow> bool" where
  "facts_ok fs \<longleftrightarrow> distinct (map (\<lambda>r. (fr_subject r, fr_predicate r)) (fs_rows fs)) \<and>
     distinct (map fr_id (fs_rows fs)) \<and> (\<forall>r \<in> set (fs_rows fs). fr_id r < fs_next_id fs)"

lemma upsert_fact_effect:
  assumes "facts_ok fs" "upsert_fact emb now s p obj c src fs = Inr (fs', row)"
  shows "facts_ok fs' \<and> row \<in> set (fs_rows fs') \<and> same_key s p row \<and> fr_sources row = src \<and>
    in01 (fr_confidence row) \<and> (\<forall>r. \<not> same_key s p r \<longrightarrow> (r \<in> set (fs_rows fs') \<longleftrightarrow> r \<in> set (fs_rows fs))) \<and>
    (\<forall>r \<in> set (fs_rows fs'). same_key s p r \<longrightarrow> r = row)"
proof -
  from assms(2) obtain v where v: "emb (fact_text s p obj) = Inr v"
    by (auto simp: upsert_fact_def ok_bind_Inr_iff)
  show ?thesis
  proof (cases "find (same_key s p) (fs_rows fs)")
    case None
    then have no: "\<forall>r \<in> set (fs_rows fs). \<not> same_key s p r" by (simp add: find_None_iff)
    from assms(2) v None have row: "row = \<lparr>fr_id = fs_next_id fs, fr_subject = s, fr_predicate = p, fr_object = obj,
                      fr_confidence = clamp01 c, fr_sources = src, fr_embedding = v, fr_updated_at = now\<rparr>"
      and fs': "fs' = \<lparr>fs_rows = fs_rows fs @ [row], fs_next_id = Suc (fs_next_id fs)\<rparr>"
      by (auto simp: upsert_fact_def Let_def)
    have "(s, p) \<notin> (\<lambda>r. (fr_subject r, fr_predicate r)) ` set (fs_rows fs)"
      using no by (auto simp: same_key_def)
    moreover have "fs_next_id fs \<notin> fr_id ` set (fs_rows fs)" using assms(1) by (auto simp: facts_ok_def)
    ultimately have "facts_ok fs'" using assms(1) row fs' by (auto simp: facts_ok_def)
    moreover have "same_key s p row" using row by (simp add: same_key_def)
    ultimately show ?thesis using row fs' no by auto
  next
    case (Some old)
    then have old: "old \<in> set (fs_rows fs)" "same_key s p old"
      by (auto simp: find_Some_iff)
    define f where "f = (\<lambda>r. if same_key s p r then row else r)"
    from assms(2) v Some have row: "row = old\<lparr>fr_object := obj, fr_confidence := clamp01 c, fr_sources := src,
                         fr_embedding := v, fr_updated_at := now\<rparr>"
      and fs': "fs' = \<lparr>fs_rows = map f (fs_rows fs), fs_next_id = Suc (fs_next_id fs)\<rparr>"
      by (auto simp: upsert_fact_def Let_def f_def)
    have only: "r = old" if "r \<in> set (fs_rows fs)" "same_key s p r" for r
    proof (rule inj_onD [of "\<lambda>r. (fr_subject r, fr_predicate r)"])
      show "inj_on (\<lambda>r. (fr_subject r, fr_predicate r)) (set (fs_rows fs))"
        using assms(1) by (simp add: facts_ok_def distinct_map)
    qed (use that old in \<open>auto simp: same_key_def\<close>)
    have rk: "same_key s p row" "fr_id row = fr_id old" using row old(2) by (simp_all add: same_key_def)
    have ids: "map fr_id (map f (fs_rows fs)) = map fr_id (fs_rows fs)"
      using only rk by (auto simp: f_def)
    have keys: "map (\<lambda>r. (fr_subject r, fr_predicate r)) (map f (fs_rows fs)) =
        map (\<lambda>r. (fr_subject r, fr_predicate r)) (fs_rows fs)"
      using rk by (auto simp: f_def same_key_def)
    have "facts_ok fs'"
      unfolding facts_ok_def
    proof (intro conjI ballI)
      have rows: "fs_rows fs' = map f (fs_rows fs)" using fs' by simp
      show "distinct (map (\<lambda>r. (fr_subject r, fr_predicate r)) (fs_rows fs'))"
        unfolding rows keys using assms(1) by (simp add: facts_ok_def)
      show "distinct (map fr_id (fs_rows fs'))"
        unfolding rows ids using assms(1) by (simp add: facts_ok_def)
      fix r assume "r \<in> set (fs_rows fs')"
      then have "fr_id r \<in> fr_id ` set (map f (fs_rows fs))" unfolding rows by (rule imageI)
      then have "fr_id r \<in> set (map fr_id (map f (fs_rows fs)))" by (simp only: set_map)
      then have "fr_id r \<in> set (map fr_id (fs_rows fs))" unfolding ids .
      then show "fr_id r < fs_next_id fs'" using assms(1) fs' by (auto simp: facts_ok_def less_Suc_eq)
    qed
    moreover have "row \<in> set (fs_rows fs')" using old fs' by (force simp: f_def)
    moreover have "fr_sources row = src \<and> in01 (fr_confidence row)" using row by simp
    moreover have "\<forall>r. \<not> same_key s p r \<longrightarrow> (r \<in> set (fs_rows fs') \<longleftrightarrow> r \<in> set (fs_rows fs))"
      using fs' rk by (auto simp: f_def image_iff)
    moreover have "\<forall>r \<in> set (fs_rows fs'). same_key s p r \<longrightarrow> r = row"
      using fs' by (auto simp: f_def)
    ultimately show ?thesis using rk by blast
  qed
qed

lemma split_Cons:
  "(\<exists>a b. y # ys = a @ x # b \<and> P b) \<longleftrightarrow> (x = y \<and> P ys) \<or> (\<exists>a b. ys = a @ x # b \<and> P b)"
proof
  assume "\<exists>a b. y # ys = a @ x # b \<and> P b"
  then obtain a b where ab: "y # ys = a @ x # b" "P b" by blast
  then show "(x = y \<and> P ys) \<or> (\<exists>a b. ys = a @ x # b \<and> P b)" by (cases a) auto
next
  assume "(x = y \<and> P ys) \<or> (\<exists>a b. ys = a @ x # b \<and> P b)"
  then show "\<exists>a b. y # ys = a @ x # b \<and> P b"
  proof
    assume "x = y \<and> P ys"
    then show ?thesis by (intro exI [of _ "[]"] exI [of _ ys]) simp
  next
    assume "\<exists>a b. ys = a @ x # b \<and> P b"
    then obtain a b where "ys = a @ x # b" "P b" by blast
    then show ?thesis by (intro exI [of _ "y # a"] exI [of _ b]) simp
  qed
qed

lemma write_facts_effect:
  assumes "facts_ok fs" "write_facts emb now llm ess fs = (fs', r)"
  shows "facts_ok fs' \<and>
    (\<forall>rows. r = Inr rows \<longrightarrow> map fr_sources rows = map (map er_id) ess \<and> (\<forall>x \<in> set rows. in01 (fr_confidence x)) \<and>
       (\<forall>x. x \<in> set (fs_rows fs') \<longleftrightarrow>
          (x \<in> set (fs_rows fs) \<and> (\<forall>y \<in> set rows. \<not> same_key (fr_subject x) (fr_predicate x) y)) \<or>
          (\<exists>a b. rows = a @ x # b \<and> (\<forall>y \<in> set b. \<not> same_key (fr_subject x) (fr_predicate x) y))))"
  using assms
proof (induction ess arbitrary: fs fs' r)
  case (Cons es ess)
  show ?case
  proof (cases "ok_bind (summarise llm es) (\<lambda>s.
      upsert_fact emb now (su_subject s) (su_predicate s) (su_object s) (su_confidence s) (map er_id es) fs)")
    case (Inl e)
    with Cons.prems show ?thesis by auto
  next
    case (Inr p)
    then obtain fs1 row where p: "p = (fs1, row)" by (cases p)
    with Inr obtain su where su: "summarise llm es = Inr su"
      and u: "upsert_fact emb now (su_subject su) (su_predicate su) (su_object su) (su_confidence su) (map er_id es) fs = Inr (fs1, row)"
      by (auto simp: ok_bind_Inr_iff)
    note ue = upsert_fact_effect [OF Cons.prems(1) u]
    obtain r1 where w: "write_facts emb now llm ess fs1 = (fs', r1)"
      and r: "r = ok_bind r1 (\<lambda>rows. Inr (row # rows))"
      using Cons.prems(2) Inr p by (auto simp: Let_def split: prod.splits)
    from ue have ok1: "facts_ok fs1" by blast
    note ih = Cons.IH [OF ok1 w]
    show ?thesis
    proof (intro conjI allI impI)
      show "facts_ok fs'" using ih by blast
    next
      fix rows assume "r = Inr rows"
      then obtain rows1 where rows: "r1 = Inr rows1" "rows = row # rows1"
        using r by (cases r1) auto
      from ih rows show "map fr_sources rows = map (map er_id) (es # ess)" using ue by auto
    next
      fix rows assume "r = Inr rows"
      then obtain rows1 where rows: "r1 = Inr rows1" "rows = row # rows1"
        using r by (cases r1) auto
      from ih rows ue show "\<forall>x \<in> set rows. in01 (fr_confidence x)" by auto
    next
      fix rows and x :: fact_row assume "r = Inr rows"
      then obtain rows1 where rows: "r1 = Inr rows1" "rows = row # rows1"
        using r by (cases r1) auto
      let ?k = "same_key (fr_subject x) (fr_predicate x)"
      have sym: "?k row \<longleftrightarrow> same_key (su_subject su) (su_predicate su) x"
        using ue by (auto simp: same_key_def)
      have 1: "x \<in> set (fs_rows fs1) \<longleftrightarrow> (x \<in> set (fs_rows fs) \<and> \<not> ?k row) \<or> x = row"
      proof (cases "?k row")
        case True
        then have "same_key (su_subject su) (su_predicate su) x" using sym by simp
        then show ?thesis using ue True by blast
      next
        case False
        then have "\<not> same_key (su_subject su) (su_predicate su) x" using sym by simp
        then show ?thesis using ue False by blast
      qed
      have 2: "x \<in> set (fs_rows fs') \<longleftrightarrow>
          (x \<in> set (fs_rows fs1) \<and> (\<forall>y \<in> set rows1. \<not> ?k y)) \<or>
          (\<exists>a b. rows1 = a @ x # b \<and> (\<forall>y \<in> set b. \<not> ?k y))"
        using ih rows(1) by blast
      show "x \<in> set (fs_rows fs') \<longleftrightarrow>
          (x \<in> set (fs_rows fs) \<and> (\<forall>y \<in> set rows. \<not> ?k y)) \<or>
          (\<exists>a b. rows = a @ x # b \<and> (\<forall>y \<in> set b. \<not> ?k y))"
        unfolding 2 1 rows(2) split_Cons by auto
    qed
  qed
qed auto

section \<open>Properties\<close>

text \<open>Clustering embeddings of one dimension always succeeds and partitions the episodes: every
  episode is in exactly one cluster (with its multiplicity), no cluster is empty.  The number of
  clusters, hence of model calls, is at most \<open>max 1 max_clusters\<close> when no two episodes point away
  from each other.\<close>

theorem cluster_partition_cap:
  assumes "0 < n" "\<forall>e \<in> set es. length (er_embedding e) = n"
  shows "\<exists>css. cluster_episodes t m es = Inr css \<and> mset (concat css) = mset es \<and> [] \<notin> set css \<and>
    (acute es \<longrightarrow> length css \<le> max 1 m)"
proof -
  have "clusters_ok n [] []" by (simp add: clusters_ok_def)
  from cluster_loop_effect [OF this assms] obtain cs where
    cs: "cluster_loop t m es [] = Inr cs" "clusters_ok n es cs" "acute es \<longrightarrow> length cs \<le> max 1 m"
    by fastforce
  moreover have "[] \<notin> set (map cl_episodes cs)" using cs(2) by (auto simp: clusters_ok_def cluster_ok_def)
  ultimately show ?thesis by (auto simp: cluster_episodes_def clusters_ok_def)
qed

definition ep_at :: "nat \<Rightarrow> real list \<Rightarrow> episode_row" where
  "ep_at i v = (row_demo i (1/2))\<lparr>er_embedding := v\<rparr>"

theorem cluster_partition_cap_witness:
  "\<exists>css. cluster_episodes (9/10) 1 [ep_at 1 [1, 0], ep_at 2 [0, 1]] = Inr css \<and> length css \<le> 1"
proof -
  have "acute [ep_at 1 [1, 0], ep_at 2 [0, 1]]" by (simp add: acute_def ep_at_def)
  with cluster_partition_cap [of 2 "[ep_at 1 [1, 0], ep_at 2 [0, 1]]" "9/10" 1] show ?thesis
    by (auto simp: ep_at_def)
qed

text \<open>Opposite embeddings escape the cap: the search starts from similarity -1 and wants more.\<close>

lemma cluster_cap_exceeded:
  "map_sum id length (cluster_episodes (9/10) 1 [ep_at 1 [1], ep_at 2 [-1]]) = Inr 2"
  by (simp add: cluster_episodes_def cluster_step_def nearest_cluster_def centroid_def ep_at_def
      cosine_similarity_def norm2_def dot_def)

text \<open>a pass over the clusters that succeeds returns one fact for each, in order, carrying exactly
  that cluster's episode ids and a confidence in the unit interval.  In the table subject and
  predicate stay a key; a fact returned is still there, with its provenance, unless a later cluster
  of the pass was given the same subject and predicate, which overwrites it; the facts of other
  keys are untouched.\<close>

theorem consolidate_provenance:
  assumes "facts_ok fs" "write_facts emb now llm clusters fs = (fs', Inr rows)"
  shows "facts_ok fs' \<and> map fr_sources rows = map (map er_id) clusters \<and> (\<forall>x \<in> set rows. in01 (fr_confidence x)) \<and>
    (\<forall>x :: fact_row. x \<in> set (fs_rows fs') \<longleftrightarrow>
       (x \<in> set (fs_rows fs) \<and> (\<forall>y \<in> set rows. \<not> same_key (fr_subject x) (fr_predicate x) y)) \<or>
       (\<exists>a b. rows = a @ x # b \<and> (\<forall>y \<in> set b. \<not> same_key (fr_subject x) (fr_predicate x) y)))"
  using write_facts_effect [OF assms] by blast

definition empty_facts :: fact_store where
  "empty_facts = \<lparr>fs_rows = [], fs_next_id = 1\<rparr>"

text \<open>With every provider tired, two clusters of the same kind leave one fact: the episodes of the
  first lose their provenance.\<close>

theorem consolidate_provenance_witness:
  "\<exists>fs' a b. write_facts (\<lambda>_. Inr [1]) 0 None [[ep_at 1 [1]], [ep_at 2 [-1]]] empty_facts = (fs', Inr [a, b]) \<and>
     fr_sources a = [1] \<and> fr_sources b = [2] \<and> map fr_sources (fs_rows fs') = [[2]]"
proof -
  obtain fs' rows where w: "write_facts (\<lambda>_. Inr [1]) 0 None [[ep_at 1 [1]], [ep_at 2 [-1]]] empty_facts = (fs', Inr rows)"
    and t: "map fr_sources (fs_rows fs') = [[2]]"
    by (simp add: upsert_fact_def summarise_def fallback_summary_def dominant_kind_def ep_at_def row_demo_def
        empty_facts_def same_key_def Let_def)
  have "facts_ok empty_facts" by (simp add: facts_ok_def empty_facts_def)
  from consolidate_provenance [OF this w] have m: "map fr_sources rows = [[1], [2]]"
    by (simp add: ep_at_def row_demo_def)
  then obtain a b where "rows = [a, b]" "fr_sources a = [1]" "fr_sources b = [2]"
    by (auto simp: Cons_eq_map_conv dest!: sym [of "map fr_sources rows"])
  with w t show ?thesis by auto
qed

end
