(* ===== verification/Decay.thy ===== *)
theory Decay
  imports Consolidation
begin

text \<open>
  \<^verbatim>\<open>brain/memory/decay.py\<close>: the fading of episodes (which never deletes a row) and the merge
  of near-duplicate facts with the re-aiming of the edges.  \<open>oldest n\<close> is the query
  \<^verbatim>\<open>ORDER BY ts LIMIT n\<close>, whose choice among rows of equal time is the database's.  The edge
  table is the list of its rows in the order the database returns them.
\<close>

section \<open>Decay of episodes\<close>

definition adjusted_salience :: "real \<Rightarrow> real \<Rightarrow> real \<Rightarrow> real \<Rightarrow> real \<Rightarrow> bool \<Rightarrow> real \<Rightarrow> real" where
  "adjusted_salience sal ts now halflife flr charged boost =
     (let age = max 0 (now - ts);
          ret = (if 0 < halflife then (1/2) powr (age / halflife) else 1);
          value = flr + (sal - flr) * ret
      in clamp01 (if charged then value + boost * (1 - value) else value))"

record decay_config =
  dy_episode_limit :: nat
  dy_halflife :: real
  dy_floor :: real
  dy_boost :: real
  dy_merge_threshold :: real

definition consolidated_source_ids :: "fact_row list \<Rightarrow> nat set" where
  "consolidated_source_ids facts = (\<Union>f \<in> set facts. set (fr_sources f))"

definition charged :: "nat set \<Rightarrow> episode_row \<Rightarrow> bool" where
  "charged ids r \<longleftrightarrow> er_emotion_tags r \<noteq> [] \<or> er_id r \<in> ids"

definition decayed_row :: "decay_config \<Rightarrow> real \<Rightarrow> nat set \<Rightarrow> episode_row \<Rightarrow> episode_row" where
  "decayed_row cfg now ids r =
     (let new = adjusted_salience (er_salience r) (er_ts r) now (dy_halflife cfg) (dy_floor cfg)
                  (charged ids r) (dy_boost cfg)
      in if new < er_salience r - 1 / 10 ^ 9 then r\<lparr>er_salience := new\<rparr>
         else if er_salience r + 1 / 10 ^ 9 < new then r\<lparr>er_salience := new\<rparr>
         else r)"

definition decay_episodes :: "(nat \<Rightarrow> episode_row list \<Rightarrow> episode_row list) \<Rightarrow> decay_config \<Rightarrow> real \<Rightarrow> fact_row list \<Rightarrow>
    episode_row list \<Rightarrow> episode_row list \<times> nat \<times> nat" where
  "decay_episodes oldest cfg now facts tbl =
     (let ids = consolidated_source_ids facts;
          rows = oldest (dy_episode_limit cfg) tbl;
          decayed = filter (\<lambda>r. er_salience (decayed_row cfg now ids r) < er_salience r) rows;
          strengthened = filter (\<lambda>r. er_salience r < er_salience (decayed_row cfg now ids r)) rows
      in (map (\<lambda>r. if r \<in> set rows then decayed_row cfg now ids r else r) tbl,
          length decayed, length strengthened))"

lemma adjusted_uncharged:
  assumes "0 \<le> flr" "flr \<le> sal" "sal \<le> 1"
  shows "flr \<le> adjusted_salience sal ts now h flr False b \<and> adjusted_salience sal ts now h flr False b \<le> sal"
proof -
  define ret where "ret = (if 0 < h then (1/2) powr (max 0 (now - ts) / h) else (1::real))"
  have "0 \<le> ret" "ret \<le> 1" by (auto simp: ret_def powr_le1)
  from relax_above [OF this assms(2)] have "flr \<le> flr + (sal - flr) * ret \<and> flr + (sal - flr) * ret \<le> sal" .
  then show ?thesis using assms
    by (simp add: adjusted_salience_def Let_def ret_def [symmetric] clamp01_id in01_def)
qed

lemma adjusted_charged_ge:
  assumes "0 \<le> flr" "flr \<le> sal" "sal \<le> 1" "0 \<le> b" "b \<le> 1"
  shows "adjusted_salience sal ts now h flr False b \<le> adjusted_salience sal ts now h flr True b"
proof -
  define v where "v = flr + (sal - flr) * (if 0 < h then (1/2) powr (max 0 (now - ts) / h) else (1::real))"
  have "0 \<le> (if 0 < h then (1/2) powr (max 0 (now - ts) / h) else (1::real))"
    "(if 0 < h then (1/2) powr (max 0 (now - ts) / h) else (1::real)) \<le> 1" by (auto simp: powr_le1)
  from relax_above [OF this assms(2)] have "v \<le> 1" using assms by (simp add: v_def)
  then have "v \<le> v + b * (1 - v)" using assms(4) by simp
  then show ?thesis
    by (simp add: adjusted_salience_def Let_def v_def [symmetric] clamp01_mono)
qed

section \<open>Duplicate groups\<close>

definition fact_sim :: "fact_row \<Rightarrow> fact_row \<Rightarrow> real res" where
  "fact_sim f g = cosine_similarity (fr_embedding f) (fr_embedding g)"

fun place_fact :: "real \<Rightarrow> fact_row \<Rightarrow> fact_row list list \<Rightarrow> fact_row list list res" where
  "place_fact t f [] = Inr [[f]]"
| "place_fact t f (g # gs) =
     ok_bind (fact_sim f (hd g)) (\<lambda>c.
       if t \<le> c then Inr ((g @ [f]) # gs)
       else ok_bind (place_fact t f gs) (\<lambda>r. Inr (g # r)))"

fun group_loop :: "real \<Rightarrow> fact_row list \<Rightarrow> fact_row list list \<Rightarrow> fact_row list list res" where
  "group_loop t [] gs = Inr gs"
| "group_loop t (f # fs) gs = ok_bind (place_fact t f gs) (group_loop t fs)"

definition duplicate_fact_groups :: "real \<Rightarrow> fact_row list \<Rightarrow> fact_row list list res" where
  "duplicate_fact_groups t fs = group_loop t fs []"

section \<open>Edges\<close>

record edge_row =
  ed_id :: nat
  ed_from :: nat
  ed_to :: nat
  ed_relation :: string

definition edge_key :: "edge_row \<Rightarrow> nat \<times> nat \<times> string" where
  "edge_key e = (ed_from e, ed_to e, ed_relation e)"

text \<open>\<^verbatim>\<open>link\<close>: insert unless the key exists, then read the row of that key back.  The foreign keys
  refuse an end that is no fact, the column a relation beyond it; the sequence of ids advances even when the
  conflict drops the row, so the next id is a parameter.\<close>

definition RELATION_COLUMN :: nat where "RELATION_COLUMN = 128"

definition link :: "nat \<Rightarrow> nat \<Rightarrow> nat \<Rightarrow> string \<Rightarrow> nat set \<Rightarrow> edge_row list \<Rightarrow> edge_row list \<times> edge_row res" where
  "link next_id from_fact to_fact relation facts es =
     (if RELATION_COLUMN < length relation \<or> CHR 0x00 \<in> set relation then (es, Inl (OtherError ''DataError''))
      else case find (\<lambda>e. edge_key e = (from_fact, to_fact, relation)) es of
             Some e \<Rightarrow> (es, Inr e)
           | None \<Rightarrow>
               if from_fact \<notin> facts \<or> to_fact \<notin> facts then (es, Inl (OtherError ''IntegrityError''))
               else let e = \<lparr>ed_id = next_id, ed_from = from_fact, ed_to = to_fact, ed_relation = relation\<rparr>
                    in (es @ [e], Inr e))"

text \<open>The facts joined to the outgoing edges, in an order the database chooses (here that of the edges).\<close>

definition neighbours :: "nat \<Rightarrow> string option \<Rightarrow> fact_row list \<Rightarrow> edge_row list \<Rightarrow> fact list" where
  "neighbours fact_id relation rows es =
     concat (map (\<lambda>e. map (row_to_fact None) (filter (\<lambda>r. fr_id r = ed_to e) rows))
       (filter (\<lambda>e. ed_from e = fact_id \<and> (case relation of Some l \<Rightarrow> ed_relation e = l | None \<Rightarrow> True)) es))"

lemma link_kept:
  assumes "link n a b l facts es = (es', Inr e)"
  shows "e \<in> set es' \<and> edge_key e = (a, b, l) \<and> (distinct (map edge_key es) \<longrightarrow> distinct (map edge_key es'))"
proof (cases "find (\<lambda>e. edge_key e = (a, b, l)) es")
  case None
  with assms have e: "es' = es @ [e]" "e = \<lparr>ed_id = n, ed_from = a, ed_to = b, ed_relation = l\<rparr>"
    by (auto simp: link_def Let_def split: if_splits)
  then have "edge_key e = (a, b, l)" by (simp add: edge_key_def)
  moreover have "(a, b, l) \<notin> edge_key ` set es" using None by (auto simp: find_None_iff)
  ultimately show ?thesis using e(1) by simp
next
  case (Some x)
  then have "x \<in> set es" "edge_key x = (a, b, l)"
    by (auto simp: find_Some_iff)
  with Some assms show ?thesis by (auto simp: link_def split: if_splits)
qed

lemma link_again:
  assumes "link n a b l facts es = (es', Inr e)"
  shows "link n' a b l facts es' = (es', Inr e)"
proof (cases "find (\<lambda>e. edge_key e = (a, b, l)) es")
  case None
  with assms have e: "es' = es @ [e]" "e = \<lparr>ed_id = n, ed_from = a, ed_to = b, ed_relation = l\<rparr>"
    and c: "\<not> RELATION_COLUMN < length l" "CHR 0x00 \<notin> set l"
    by (auto simp: link_def Let_def split: if_splits)
  have "find P (es @ [x]) = Some x" if "find P es = None" "P x" for P and x :: edge_row
    using that by (induction es) (auto split: if_splits)
  from this [OF None, of e] e c show ?thesis by (simp add: link_def edge_key_def)
next
  case (Some x)
  with assms show ?thesis by (auto simp: link_def split: if_splits)
qed

lemma link_reaches:
  assumes "link n a b l facts es = (es', Inr e)" "r \<in> set rows" "fr_id r = b"
  shows "row_to_fact None r \<in> set (neighbours a None rows es') \<and>
         row_to_fact None r \<in> set (neighbours a (Some l) rows es')"
  using link_kept [OF assms(1)] assms(2, 3) by (fastforce simp: neighbours_def edge_key_def)

definition reaim :: "nat set \<Rightarrow> nat \<Rightarrow> edge_row \<Rightarrow> edge_row" where
  "reaim dups surv e =
     e\<lparr>ed_from := (if ed_from e \<in> dups then surv else ed_from e),
       ed_to := (if ed_to e \<in> dups then surv else ed_to e)\<rparr>"

text \<open>The affected edges, in order, against the keys taken so far.\<close>

fun reaim_loop :: "nat set \<Rightarrow> nat \<Rightarrow> (nat \<times> nat \<times> string) set \<Rightarrow> edge_row list \<Rightarrow> edge_row list" where
  "reaim_loop dups surv keys [] = []"
| "reaim_loop dups surv keys (e # es) =
     (let e' = reaim dups surv e
      in if ed_from e' = ed_to e' \<or> edge_key e' \<in> keys then reaim_loop dups surv keys es
         else e' # reaim_loop dups surv (insert (edge_key e') keys) es)"

definition touches :: "nat set \<Rightarrow> edge_row \<Rightarrow> bool" where
  "touches dups e \<longleftrightarrow> ed_from e \<in> dups \<or> ed_to e \<in> dups"

definition repoint_edges :: "nat set \<Rightarrow> nat \<Rightarrow> edge_row list \<Rightarrow> edge_row list" where
  "repoint_edges dups surv es =
     (let kept = filter (\<lambda>e. \<not> touches dups e) es
      in kept @ reaim_loop dups surv (edge_key ` set kept) (filter (touches dups) es))"

section \<open>The merge\<close>

definition merge_survivor :: "fact_row list \<Rightarrow> fact_row" where
  "merge_survivor g =
     (case g of
        [] \<Rightarrow> undefined
      | s # dups \<Rightarrow>
          s\<lparr>fr_sources := sorted_list_of_set (set (fr_sources s) \<union> (\<Union>d \<in> set dups. set (fr_sources d))),
            fr_confidence := fold (\<lambda>d c. max c (fr_confidence d)) dups (fr_confidence s)\<rparr>)"

definition merge_group :: "fact_row list \<Rightarrow> fact_row list \<times> edge_row list \<times> nat \<Rightarrow>
    fact_row list \<times> edge_row list \<times> nat" where
  "merge_group g st =
     (case (g, st) of
        (s # d # ds, (facts, edges, merged)) \<Rightarrow>
          let dups = fr_id ` set (d # ds)
          in (filter (\<lambda>f. fr_id f \<notin> dups)
                (map (\<lambda>f. if fr_id f = fr_id s then merge_survivor g else f) facts),
              repoint_edges dups (fr_id s) edges, merged + length (d # ds))
      | _ \<Rightarrow> st)"

definition merge_facts :: "real \<Rightarrow> fact_row list \<Rightarrow> edge_row list \<Rightarrow>
    (fact_row list \<times> edge_row list \<times> nat) res" where
  "merge_facts t facts edges =
     ok_bind (duplicate_fact_groups t (sort_key fr_id facts))
       (\<lambda>gs. Inr (fold merge_group gs (facts, edges, 0)))"

record decay_report =
  dr_decayed :: nat
  dr_strengthened :: nat
  dr_merged :: nat

text \<open>Both passes run in one transaction: on an exception nothing changes.\<close>

definition decay_run :: "(nat \<Rightarrow> episode_row list \<Rightarrow> episode_row list) \<Rightarrow> decay_config \<Rightarrow> real \<Rightarrow>
    episode_row list \<Rightarrow> fact_row list \<Rightarrow> edge_row list \<Rightarrow>
    (episode_row list \<times> fact_row list \<times> edge_row list \<times> decay_report) res" where
  "decay_run oldest cfg now tbl facts edges =
     (let (tbl', dec, str) = decay_episodes oldest cfg now facts tbl
      in ok_bind (merge_facts (dy_merge_threshold cfg) facts edges) (\<lambda>(facts', edges', merged).
           Inr (tbl', facts', edges', \<lparr>dr_decayed = dec, dr_strengthened = str, dr_merged = merged\<rparr>)))"

section \<open>Grouping partitions, representatives are dissimilar\<close>

definition groups_ok :: "real \<Rightarrow> fact_row list \<Rightarrow> fact_row list list \<Rightarrow> bool" where
  "groups_ok t seen gs \<longleftrightarrow> [] \<notin> set gs \<and> mset (concat gs) = mset seen \<and>
     (\<forall>g \<in> set gs. \<forall>f \<in> set (tl g). \<exists>c. fact_sim f (hd g) = Inr c \<and> t \<le> c) \<and>
     sorted_wrt (\<lambda>g h. \<exists>c. fact_sim (hd h) (hd g) = Inr c \<and> c < t) gs"

lemma place_fact_effect:
  assumes "place_fact t f gs = Inr gs'" "[] \<notin> set gs"
  shows "[] \<notin> set gs' \<and> mset (concat gs') = add_mset f (mset (concat gs)) \<and>
    (((\<exists>a g b c. gs = a @ g # b \<and> gs' = a @ (g @ [f]) # b \<and> fact_sim f (hd g) = Inr c \<and> t \<le> c)) \<or>
     (gs' = gs @ [[f]] \<and> (\<forall>g \<in> set gs. \<exists>c. fact_sim f (hd g) = Inr c \<and> c < t)))"
  using assms
proof (induction gs arbitrary: gs')
  case (Cons g gs)
  then obtain c where c: "fact_sim f (hd g) = Inr c" by (auto simp: ok_bind_Inr_iff)
  show ?case
  proof (cases "t \<le> c")
    case True
    with Cons.prems c have "gs' = (g @ [f]) # gs" by simp
    with True c Cons.prems(2) show ?thesis
      by (intro conjI disjI1 exI [of _ "[]"] exI [of _ g] exI [of _ gs] exI [of _ c]) auto
  next
    case False
    with Cons.prems(1) c obtain gs1 where p: "place_fact t f gs = Inr gs1" and gs': "gs' = g # gs1"
      by (auto simp: ok_bind_Inr_iff)
    from Cons.IH [OF p] Cons.prems(2) have ih: "[] \<notin> set gs1" "mset (concat gs1) = add_mset f (mset (concat gs))"
      "(\<exists>a g b c. gs = a @ g # b \<and> gs1 = a @ (g @ [f]) # b \<and> fact_sim f (hd g) = Inr c \<and> t \<le> c) \<or>
       (gs1 = gs @ [[f]] \<and> (\<forall>g \<in> set gs. \<exists>c. fact_sim f (hd g) = Inr c \<and> c < t))" by auto
    from ih(3) show ?thesis
    proof (elim disjE exE conjE)
      fix a h b c' assume "gs = a @ h # b" "gs1 = a @ (h @ [f]) # b" "fact_sim f (hd h) = Inr c'" "t \<le> c'"
      then have "g # gs = (g # a) @ h # b \<and> gs' = (g # a) @ (h @ [f]) # b \<and> fact_sim f (hd h) = Inr c' \<and> t \<le> c'"
        using gs' by simp
      then have "\<exists>a h b c. g # gs = a @ h # b \<and> gs' = a @ (h @ [f]) # b \<and> fact_sim f (hd h) = Inr c \<and> t \<le> c"
        by blast
      moreover have "[] \<notin> set gs' \<and> mset (concat gs') = add_mset f (mset (concat (g # gs)))"
        using ih(1,2) gs' Cons.prems(2) by simp
      ultimately show ?thesis by blast
    next
      assume "gs1 = gs @ [[f]]" "\<forall>g \<in> set gs. \<exists>c. fact_sim f (hd g) = Inr c \<and> c < t"
      with ih(1,2) gs' Cons.prems(2) False c show ?thesis by (auto simp: not_le)
    qed
  qed
qed simp

lemma sorted_wrt_heads:
  "sorted_wrt (\<lambda>g h. P (hd g) (hd h)) (a @ g # b) \<Longrightarrow> g \<noteq> [] \<Longrightarrow>
   sorted_wrt (\<lambda>g h. P (hd g) (hd h)) (a @ (g @ [f]) # b)"
  by (auto simp: sorted_wrt_append)

lemma groups_ok_place:
  assumes "groups_ok t seen gs" "place_fact t f gs = Inr gs'"
  shows "groups_ok t (seen @ [f]) gs'"
proof -
  have ne: "[] \<notin> set gs" using assms(1) by (simp add: groups_ok_def)
  note p = place_fact_effect [OF assms(2) ne]
  from p have m: "mset (concat gs') = mset (seen @ [f])" using assms(1) by (simp add: groups_ok_def)
  from p [THEN conjunct2, THEN conjunct2] show ?thesis
  proof (elim disjE exE conjE)
    fix a g b c assume g: "gs = a @ g # b" "gs' = a @ (g @ [f]) # b" "fact_sim f (hd g) = Inr c" "t \<le> c"
    have gne: "g \<noteq> []" using ne g(1) by auto
    have "sorted_wrt (\<lambda>g h. \<exists>c. fact_sim (hd h) (hd g) = Inr c \<and> c < t) gs'"
      using assms(1) g(1) gne unfolding groups_ok_def g(2) by (intro sorted_wrt_heads) auto
    moreover have "\<exists>c. fact_sim x (hd h) = Inr c \<and> t \<le> c" if "h \<in> set gs'" "x \<in> set (tl h)" for h x
    proof (cases "h = g @ [f]")
      case True
      with that gne have "x \<in> set (tl g) \<or> x = f" by (auto simp: tl_append split: list.splits)
      then show ?thesis
        using True gne g assms(1) unfolding groups_ok_def by auto
    next
      case False
      then have "h \<in> set gs" using that(1) g by auto
      with that(2) assms(1) show ?thesis unfolding groups_ok_def by blast
    qed
    ultimately show ?thesis using p m unfolding groups_ok_def by blast
  next
    assume g: "gs' = gs @ [[f]]" "\<forall>g \<in> set gs. \<exists>c. fact_sim f (hd g) = Inr c \<and> c < t"
    then show ?thesis using p m assms(1) unfolding groups_ok_def
      by (auto simp: sorted_wrt_append)
  qed
qed

lemma groups_ok_loop:
  "groups_ok t seen gs \<Longrightarrow> group_loop t fs gs = Inr gs' \<Longrightarrow> groups_ok t (seen @ fs) gs'"
proof (induction fs arbitrary: seen gs)
  case (Cons f fs)
  then obtain gs1 where "place_fact t f gs = Inr gs1" "group_loop t fs gs1 = Inr gs'"
    by (auto simp: ok_bind_Inr_iff)
  with Cons groups_ok_place show ?case by fastforce
qed simp

lemma duplicate_groups_ok: "duplicate_fact_groups t fs = Inr gs \<Longrightarrow> groups_ok t fs gs"
  using groups_ok_loop [of t "[]" "[]" fs gs] by (simp add: duplicate_fact_groups_def groups_ok_def)

section \<open>Merging keeps provenance, confidence and the graph\<close>

lemma merge_survivor_sel:
  "g \<noteq> [] \<Longrightarrow> fr_id (merge_survivor g) = fr_id (hd g)"
  "g \<noteq> [] \<Longrightarrow> fr_embedding (merge_survivor g) = fr_embedding (hd g)"
  "g \<noteq> [] \<Longrightarrow> set (fr_sources (merge_survivor g)) = (\<Union>f \<in> set g. set (fr_sources f))"
  by (auto simp: merge_survivor_def split: list.splits)

lemma fold_max_conf:
  "fold (\<lambda>d c. max c (fr_confidence d)) ds c0 = Max (insert c0 (fr_confidence ` set ds))"
proof (induction ds arbitrary: c0)
  case (Cons d ds)
  have "fold (\<lambda>d c. max c (fr_confidence d)) (d # ds) c0 = Max (insert (max c0 (fr_confidence d)) (fr_confidence ` set ds))"
    using Cons by simp
  also have "\<dots> = Max (insert c0 (fr_confidence ` set (d # ds)))"
    by (cases "ds = []") (auto simp: max.assoc max.left_commute Max_insert)
  finally show ?case .
qed simp

lemma merge_survivor_conf:
  "g \<noteq> [] \<Longrightarrow> fr_confidence (merge_survivor g) = Max (fr_confidence ` set g)"
  by (cases g) (simp_all add: merge_survivor_def fold_max_conf)

text \<open>A group of one is left as it is.\<close>

definition survivor_of :: "fact_row list \<Rightarrow> fact_row" where
  "survivor_of g = (if tl g = [] then hd g else merge_survivor g)"

lemma survivor_of_sel:
  assumes "g \<noteq> []"
  shows "fr_id (survivor_of g) = fr_id (hd g)" "fr_embedding (survivor_of g) = fr_embedding (hd g)"
    "set (fr_sources (survivor_of g)) = (\<Union>f \<in> set g. set (fr_sources f))"
    "f \<in> set g \<Longrightarrow> fr_confidence f \<le> fr_confidence (survivor_of g)"
proof -
  have 1: "survivor_of g = hd g \<and> g = [hd g] \<or> survivor_of g = merge_survivor g"
    using assms by (cases g) (auto simp: survivor_of_def)
  then show "fr_id (survivor_of g) = fr_id (hd g)" "fr_embedding (survivor_of g) = fr_embedding (hd g)"
    using merge_survivor_sel [OF assms] by auto
  show "set (fr_sources (survivor_of g)) = (\<Union>f \<in> set g. set (fr_sources f))"
    using 1
  proof
    assume "survivor_of g = hd g \<and> g = [hd g]"
    then obtain x where "g = [x]" "survivor_of g = x" by metis
    then show ?thesis by simp
  qed (simp add: merge_survivor_sel [OF assms])
  show "f \<in> set g \<Longrightarrow> fr_confidence f \<le> fr_confidence (survivor_of g)"
    using 1
  proof
    assume "survivor_of g = hd g \<and> g = [hd g]" and f: "f \<in> set g"
    then obtain x where "g = [x]" "survivor_of g = x" by metis
    with f show ?thesis by simp
  qed (simp add: merge_survivor_conf [OF assms])
qed

text \<open>The fold over the groups: with the groups' facts distinct by id and among the table's, the
  facts of the groups are replaced by the groups' survivors.\<close>

lemma merge_group_facts:
  assumes "merge_group g (facts, edges, m) = (facts', edges', m')" "g \<noteq> []" "set g \<subseteq> set facts"
    and "distinct (map fr_id facts)" "distinct (map fr_id g)"
  shows "set facts' = (set facts - set g) \<union> {survivor_of g} \<and> distinct (map fr_id facts') \<and> m' + 1 = m + length g"
proof (cases "tl g")
  case Nil
  then obtain s where g: "g = [s]" using assms(2) by (cases g) auto
  with assms show ?thesis by (auto simp: merge_group_def survivor_of_def)
next
  case (Cons d ds)
  then obtain s where g: "g = s # d # ds" using assms(2) by (cases g) auto
  let ?dups = "fr_id ` set (d # ds)"
  let ?f = "\<lambda>f. if fr_id f = fr_id s then merge_survivor g else f"
  have r: "facts' = filter (\<lambda>f. fr_id f \<notin> ?dups) (map ?f facts)" "m' = m + length (d # ds)"
    using assms(1) g by (auto simp: merge_group_def Let_def)
  have sid: "fr_id (merge_survivor g) = fr_id s" using merge_survivor_sel(1) [OF assms(2)] g by simp
  have inj: "x = y" if "x \<in> set facts" "y \<in> set facts" "fr_id x = fr_id y" for x y
    using assms(4) that by (auto simp: distinct_map dest: inj_onD)
  have sn: "fr_id s \<notin> ?dups" using assms(5) g by auto
  have "set facts' = {x \<in> ?f ` set facts. fr_id x \<notin> ?dups}" using r by auto
  also have "\<dots> = (set facts - set g) \<union> {merge_survivor g}"
  proof (intro set_eqI iffI)
    fix x assume "x \<in> {x \<in> ?f ` set facts. fr_id x \<notin> ?dups}"
    then obtain y where y: "y \<in> set facts" "x = ?f y" "fr_id x \<notin> ?dups" by blast
    show "x \<in> (set facts - set g) \<union> {merge_survivor g}"
    proof (cases "fr_id y = fr_id s")
      case False
      then have "x = y" using y by simp
      moreover have "y \<notin> set g" using y False \<open>x = y\<close> g by auto
      ultimately show ?thesis using y by simp
    qed (use y in simp)
  next
    fix x assume "x \<in> (set facts - set g) \<union> {merge_survivor g}"
    then consider "x = merge_survivor g" | "x \<in> set facts" "x \<notin> set g" by blast
    then show "x \<in> {x \<in> ?f ` set facts. fr_id x \<notin> ?dups}"
    proof cases
      case 1
      have "s \<in> set facts" using assms(3) g by auto
      then have "?f s \<in> ?f ` set facts" by (rule imageI)
      then show ?thesis using 1 sid sn by simp
    next
      case 2
      have "fr_id x \<noteq> fr_id z" if "z \<in> set g" for z
        using inj [of x z] 2 that assms(3) by auto
      then have "fr_id x \<noteq> fr_id s" "fr_id x \<notin> ?dups" using g by auto
      then show ?thesis using 2(1) by force
    qed
  qed
  finally have 1: "set facts' = (set facts - set g) \<union> {merge_survivor g}" .
  have "map fr_id (map ?f facts) = map fr_id facts" using sid by auto
  then have "distinct (map fr_id (map ?f facts))" using assms(4) by metis
  then have "distinct (map fr_id facts')" unfolding r(1) by (rule distinct_map_filter)
  with 1 r(2) g show ?thesis by (simp add: survivor_of_def)
qed

lemma fold_merge_facts:
  assumes "fold merge_group gs (facts, edges, m) = (facts', edges', m')" "[] \<notin> set gs"
    and "set (concat gs) \<subseteq> set facts" "distinct (map fr_id facts)" "distinct (map fr_id (concat gs))"
  shows "set facts' = (set facts - set (concat gs)) \<union> survivor_of ` set gs \<and> distinct (map fr_id facts') \<and>
    m' + length gs = m + length (concat gs)"
  using assms
proof (induction gs arbitrary: facts edges m)
  case (Cons g gs)
  obtain f1 e1 m1 where s: "merge_group g (facts, edges, m) = (f1, e1, m1)"
    by (cases "merge_group g (facts, edges, m)")
  have g: "g \<noteq> []" "set g \<subseteq> set facts" "distinct (map fr_id g)" using Cons.prems by auto
  from merge_group_facts [OF s g(1,2) Cons.prems(4) g(3)] have
    1: "set f1 = (set facts - set g) \<union> {survivor_of g}" "distinct (map fr_id f1)" "m1 + 1 = m + length g"
    by auto
  have disj: "fr_id x \<noteq> fr_id y" if "x \<in> set g" "y \<in> set (concat gs)" for x y
    using Cons.prems(5) that by auto
  then have d: "set g \<inter> set (concat gs) = {}" by blast
  then have sub: "set (concat gs) \<subseteq> set f1" using Cons.prems(3) 1(1) by auto
  have "survivor_of g \<notin> set (concat gs)"
    using disj [of "hd g"] survivor_of_sel(1) [OF g(1)] g(1) by (metis list.set_sel(1))
  then have eq: "set f1 - set (concat gs) = (set facts - set (concat (g # gs))) \<union> {survivor_of g}"
    using 1(1) by auto
  from Cons.IH [OF _ _ sub 1(2)] Cons.prems s have
    "set facts' = (set f1 - set (concat gs)) \<union> survivor_of ` set gs" "distinct (map fr_id facts')"
    "m' + length gs = m1 + length (concat gs)" by auto
  with eq 1(3) show ?case by auto
qed auto

text \<open>A sound edge table over a set of facts: the unique constraint, the foreign keys, no loops.\<close>

definition edges_ok :: "nat set \<Rightarrow> edge_row list \<Rightarrow> bool" where
  "edges_ok ids es \<longleftrightarrow> distinct (map edge_key es) \<and>
     (\<forall>e \<in> set es. ed_from e \<in> ids \<and> ed_to e \<in> ids \<and> ed_from e \<noteq> ed_to e)"

lemma reaim_loop_effect:
  "distinct (map edge_key (reaim_loop dups surv keys es)) \<and>
   edge_key ` set (reaim_loop dups surv keys es) \<inter> keys = {} \<and>
   (\<forall>e \<in> set (reaim_loop dups surv keys es). ed_from e \<noteq> ed_to e \<and> (\<exists>e0 \<in> set es. e = reaim dups surv e0))"
proof (induction es arbitrary: keys)
  case (Cons e es)
  show ?case
  proof (cases "ed_from (reaim dups surv e) = ed_to (reaim dups surv e) \<or> edge_key (reaim dups surv e) \<in> keys")
    case True
    then show ?thesis using Cons [of keys] by (auto simp: Let_def)
  next
    case False
    then show ?thesis using Cons [of "insert (edge_key (reaim dups surv e)) keys"]
      by (auto simp: Let_def)
  qed
qed simp

lemma edges_ok_repoint:
  assumes "edges_ok ids es" "surv \<in> ids" "surv \<notin> dups"
  shows "edges_ok (ids - dups) (repoint_edges dups surv es)"
proof -
  define kept where "kept = filter (\<lambda>e. \<not> touches dups e) es"
  define new where "new = reaim_loop dups surv (edge_key ` set kept) (filter (touches dups) es)"
  note r = reaim_loop_effect [of dups surv "edge_key ` set kept" "filter (touches dups) es", folded new_def]
  have eq: "repoint_edges dups surv es = kept @ new" by (simp add: repoint_edges_def Let_def kept_def new_def)
  have "distinct (map edge_key (kept @ new))"
    using r assms(1) by (auto simp: edges_ok_def kept_def distinct_map_filter)
  moreover have "ed_from e \<in> ids - dups \<and> ed_to e \<in> ids - dups \<and> ed_from e \<noteq> ed_to e"
    if "e \<in> set (kept @ new)" for e
  proof (cases "e \<in> set kept")
    case True
    then show ?thesis using assms(1) by (auto simp: kept_def touches_def edges_ok_def)
  next
    case False
    with that have "e \<in> set new" by simp
    with r obtain e0 where "e0 \<in> set es" "e = reaim dups surv e0" "ed_from e \<noteq> ed_to e" by auto
    then show ?thesis using assms by (auto simp: reaim_def edges_ok_def)
  qed
  ultimately show ?thesis unfolding eq edges_ok_def by blast
qed

lemma insert_diff:
  "a \<notin> D \<Longrightarrow> insert a D \<inter> C = {} \<Longrightarrow> H \<subseteq> C \<Longrightarrow> (insert a D \<union> C) - insert a H = D \<union> (C - H)"
  by auto

lemma fold_merge_edges:
  assumes "fold merge_group gs (facts, edges, m) = (facts', edges', m')" "[] \<notin> set gs"
    and "distinct (map fr_id (concat gs))" "fr_id ` set (concat gs) \<subseteq> ids" "edges_ok ids edges"
  shows "edges_ok (ids - (fr_id ` set (concat gs) - (fr_id \<circ> hd) ` set gs)) edges'"
  using assms
proof (induction gs arbitrary: facts edges m ids)
  case (Cons g gs)
  obtain f1 e1 m1 where s: "merge_group g (facts, edges, m) = (f1, e1, m1)"
    by (cases "merge_group g (facts, edges, m)")
  define dg where "dg = fr_id ` set (tl g)"
  from Cons.prems(2) have gne: "g \<noteq> []" by auto
  then have gs: "set g = insert (hd g) (set (tl g))" by (cases g) auto
  have hd: "fr_id (hd g) \<notin> dg" "fr_id (hd g) \<in> ids"
    using Cons.prems(3,4) gne by (cases g; auto simp: dg_def)+
  have e1: "edges_ok (ids - dg) e1"
  proof (cases "tl g")
    case Nil
    then have "e1 = edges" using s gne by (cases g) (auto simp: merge_group_def)
    with Nil Cons.prems(5) show ?thesis by (simp add: dg_def)
  next
    case (Cons d ds)
    then obtain x where "g = x # d # ds" using gne by (cases g) auto
    then have "e1 = repoint_edges dg (fr_id (hd g)) edges"
      using s by (auto simp: merge_group_def Let_def dg_def)
    then show ?thesis using edges_ok_repoint [OF Cons.prems(5) hd(2,1)] by simp
  qed
  have disj: "fr_id ` set g \<inter> fr_id ` set (concat gs) = {}" using Cons.prems(3) by auto
  have gi: "fr_id ` set g = insert (fr_id (hd g)) dg" unfolding dg_def by (subst gs) simp
  have ci: "fr_id ` set (concat (g # gs)) = fr_id ` set g \<union> fr_id ` set (concat gs)" by (simp add: image_Un)
  have sub: "fr_id ` set (concat gs) \<subseteq> ids - dg"
    using Cons.prems(4) disj unfolding ci gi by blast
  have "edges_ok (ids - dg - (fr_id ` set (concat gs) - (fr_id \<circ> hd) ` set gs)) edges'"
    using Cons.IH [OF _ _ _ sub e1] Cons.prems s by simp
  moreover have "ids - dg - (fr_id ` set (concat gs) - (fr_id \<circ> hd) ` set gs) =
      ids - (fr_id ` set (concat (g # gs)) - (fr_id \<circ> hd) ` set (g # gs))"
  proof -
    have hs: "(fr_id \<circ> hd) ` set gs \<subseteq> fr_id ` set (concat gs)"
    proof
      fix x assume "x \<in> (fr_id \<circ> hd) ` set gs"
      then obtain h where "h \<in> set gs" "x = fr_id (hd h)" by auto
      moreover from this Cons.prems(2) have "hd h \<in> set h" by (metis list.set_intros(2) list.set_sel(1))
      ultimately show "x \<in> fr_id ` set (concat gs)" by auto
    qed
    have "fr_id ` set (concat (g # gs)) - (fr_id \<circ> hd) ` set (g # gs) =
        dg \<union> (fr_id ` set (concat gs) - (fr_id \<circ> hd) ` set gs)"
    proof -
      have "(fr_id \<circ> hd) ` set (g # gs) = insert (fr_id (hd g)) ((fr_id \<circ> hd) ` set gs)" by simp
      then show ?thesis unfolding ci using insert_diff [OF hd(1) disj [unfolded gi] hs] gi by simp
    qed
    then show ?thesis by blast
  qed
  ultimately show ?case by simp
qed simp

lemma sorted_wrt_either: "sorted_wrt P xs \<Longrightarrow> x \<in> set xs \<Longrightarrow> y \<in> set xs \<Longrightarrow> x \<noteq> y \<Longrightarrow> P x y \<or> P y x"
  by (induction xs) auto

lemma dot_commute: "dot a b = dot b a"
proof (induction a arbitrary: b)
  case (Cons x xs)
  then show ?case by (cases b) (simp_all add: dot_def mult.commute)
qed (simp add: dot_def)

lemma fact_sim_sym: "fact_sim f g = fact_sim g f"
  by (auto simp: fact_sim_def cosine_similarity_def dot_commute mult.commute)

section \<open>Properties\<close>

text \<open>a decay pass deletes no episode and changes nothing of one but its salience: the table
  keeps its length, and each row its place and every other field.  Only rows the query picked
  change; an uncharged row between the floor and 1 ends between the floor and its old salience, and
  being charged never leaves a row with less than being uncharged would, up to the \<open>1e-9\<close> below
  which a change is not written.\<close>

theorem decay_never_deletes:
  assumes "decay_episodes oldest cfg now facts tbl = (tbl', dec, str)" "0 \<le> dy_floor cfg"
    and "k < length tbl" "dy_floor cfg \<le> er_salience (tbl ! k)" "er_salience (tbl ! k) \<le> 1"
    and "0 \<le> dy_boost cfg" "dy_boost cfg \<le> 1"
  shows "length tbl' = length tbl \<and> (\<exists>s. in01 s \<and> tbl' ! k = (tbl ! k)\<lparr>er_salience := s\<rparr>) \<and>
    (tbl ! k \<notin> set (oldest (dy_episode_limit cfg) tbl) \<longrightarrow> tbl' ! k = tbl ! k) \<and>
    (\<not> charged (consolidated_source_ids facts) (tbl ! k) \<longrightarrow>
       dy_floor cfg \<le> er_salience (tbl' ! k) \<and> er_salience (tbl' ! k) \<le> er_salience (tbl ! k)) \<and>
    adjusted_salience (er_salience (tbl ! k)) (er_ts (tbl ! k)) now (dy_halflife cfg) (dy_floor cfg) False (dy_boost cfg)
      \<le> er_salience (tbl' ! k) + 1 / 10 ^ 9"
proof -
  let ?r = "tbl ! k" and ?ids = "consolidated_source_ids facts"
  let ?rows = "oldest (dy_episode_limit cfg) tbl"
  define unch where "unch = adjusted_salience (er_salience ?r) (er_ts ?r) now (dy_halflife cfg) (dy_floor cfg) False (dy_boost cfg)"
  define new where "new = adjusted_salience (er_salience ?r) (er_ts ?r) now (dy_halflife cfg) (dy_floor cfg) (charged ?ids ?r) (dy_boost cfg)"
  have tbl': "tbl' = map (\<lambda>r. if r \<in> set ?rows then decayed_row cfg now ?ids r else r) tbl"
    using assms(1) by (simp add: decay_episodes_def Let_def)
  then have k': "tbl' ! k = (if ?r \<in> set ?rows then decayed_row cfg now ?ids ?r else ?r)"
    using assms(3) by simp
  have u: "dy_floor cfg \<le> unch" "unch \<le> er_salience ?r"
    using adjusted_uncharged [OF assms(2,4,5)] unfolding unch_def by auto
  have un: "unch \<le> new"
    using adjusted_charged_ge [OF assms(2,4,5,6,7)] unfolding unch_def new_def
    by (cases "charged ?ids ?r") auto
  have new01: "in01 new" by (simp add: new_def adjusted_salience_def Let_def)
  have d: "decayed_row cfg now ?ids ?r =
      (if new < er_salience ?r - 1 / 10 ^ 9 then ?r\<lparr>er_salience := new\<rparr>
       else if er_salience ?r + 1 / 10 ^ 9 < new then ?r\<lparr>er_salience := new\<rparr> else ?r)"
    by (simp add: decayed_row_def new_def Let_def)
  have same: "?r = ?r\<lparr>er_salience := er_salience ?r\<rparr>" by simp
  have s01: "in01 (er_salience ?r)" using assms(2,4,5) by (simp add: in01_def)
  obtain s where s: "in01 s" "tbl' ! k = ?r\<lparr>er_salience := s\<rparr>" "s = er_salience ?r \<or> s = new"
    "s = er_salience ?r \<or> ?r \<in> set ?rows"
    using k' d same s01 new01 by (metis (no_types))
  have "\<not> charged ?ids ?r \<Longrightarrow> new = unch" by (simp add: new_def unch_def)
  with s u un assms(4) have
    "\<not> charged ?ids ?r \<longrightarrow> dy_floor cfg \<le> er_salience (tbl' ! k) \<and> er_salience (tbl' ! k) \<le> er_salience ?r"
    by auto
  moreover have "unch \<le> er_salience (tbl' ! k) + 1 / 10 ^ 9"
  proof -
    have "unch \<le> er_salience (tbl' ! k)" using s u un by auto
    then show ?thesis by simp
  qed
  ultimately show ?thesis
    using s(1,2) k' unfolding unch_def by (auto simp: tbl')
qed

definition decay_demo :: decay_config where
  "decay_demo = \<lparr>dy_episode_limit = 10, dy_halflife = 100, dy_floor = 1/10, dy_boost = 1/10, dy_merge_threshold = 9/10\<rparr>"

theorem decay_never_deletes_witness:
  "\<exists>tbl' dec str. decay_episodes (\<lambda>n t. take n t) decay_demo 100 [] [row_demo 1 (9/10)] = (tbl', dec, str) \<and>
     length tbl' = 1 \<and> 1/10 \<le> er_salience (tbl' ! 0) \<and> er_salience (tbl' ! 0) \<le> 9/10"
proof -
  obtain tbl' dec str where d: "decay_episodes (\<lambda>n t. take n t) decay_demo 100 [] [row_demo 1 (9/10)] = (tbl', dec, str)"
    by (metis prod_cases3)
  have "\<not> charged (consolidated_source_ids []) ([row_demo 1 (9/10)] ! 0)"
    by (simp add: charged_def consolidated_source_ids_def row_demo_def)
  with decay_never_deletes [OF d, of 0] have "length tbl' = 1 \<and> 1/10 \<le> er_salience (tbl' ! 0) \<and> er_salience (tbl' ! 0) \<le> 9/10"
    by (simp add: decay_demo_def row_demo_def)
  with d show ?thesis by blast
qed

text \<open>The fade compounds over the sleeps, because each pass applies the whole age to the salience
  the last pass left: an uncharged episode faded at one half-life and again at two keeps an eighth
  of its distance from the floor, where a single pass at two half-lives keeps a quarter.\<close>

theorem decay_compounds:
  assumes "0 < h" "0 \<le> flr" "flr \<le> sal" "sal \<le> 1"
  shows "adjusted_salience (adjusted_salience sal ts (ts + h) h flr False b) ts (ts + 2 * h) h flr False b
           = flr + (sal - flr) / 8 \<and>
         adjusted_salience sal ts (ts + 2 * h) h flr False b = flr + (sal - flr) / 4"
proof -
  have q: "(1/2::real) powr 2 = 1/4" using powr_numeral [of "1/2::real" "num.Bit0 num.One"]
    by (simp add: power2_eq_square)
  have c: "clamp01 (flr + (sal - flr) * r) = flr + (sal - flr) * r" if "0 \<le> r" "r \<le> 1" for r
    using relax_above [OF that assms(3)] assms by (intro clamp01_id) (simp add: in01_def)
  have 1: "adjusted_salience sal ts (ts + h) h flr False b = flr + (sal - flr) * (1/2)"
    using assms(1) c [of "1/2"] by (simp add: adjusted_salience_def Let_def max_def)
  have 2: "adjusted_salience v ts (ts + 2 * h) h flr False b = clamp01 (flr + (v - flr) * (1/4))" for v
  proof -
    have "(max 0 (ts + 2 * h - ts)) / h = 2" using assms(1) by simp
    then show ?thesis using assms(1) q by (simp only: adjusted_salience_def Let_def if_True if_False simp_thms)
  qed
  have "clamp01 (flr + (flr + (sal - flr) * (1/2) - flr) * (1/4)) = flr + (sal - flr) * (1/8)"
    using c [of "1/8"] by simp
  then show ?thesis unfolding 1 2 using c [of "1/4"] by simp
qed

theorem decay_compounds_witness:
  "adjusted_salience (adjusted_salience 1 0 100 100 (2/10) False 0) 0 200 100 (2/10) False 0 = 3/10 \<and>
   adjusted_salience 1 0 200 100 (2/10) False 0 = 4/10"
  using decay_compounds [of 100 "2/10" 1 0 0] by simp

lemma groups_represent:
  assumes "groups_ok t fs gs" "f \<in> set (concat gs)"
  shows "\<exists>s \<in> survivor_of ` set gs. set (fr_sources f) \<subseteq> set (fr_sources s) \<and> fr_confidence f \<le> fr_confidence s \<and>
      (fr_id s = fr_id f \<or> (\<exists>c. fact_sim f s = Inr c \<and> t \<le> c))"
proof -
  from assms(2) obtain h where h: "h \<in> set gs" "f \<in> set h" by auto
  then have hne: "h \<noteq> []" by auto
  note sel = survivor_of_sel [OF hne]
  have "fr_id (survivor_of h) = fr_id f \<or> (\<exists>c. fact_sim f (survivor_of h) = Inr c \<and> t \<le> c)"
  proof (cases "f = hd h")
    case True
    then show ?thesis using sel(1) by simp
  next
    case False
    then have "f \<in> set (tl h)" using h(2) hne by (cases h) auto
    then obtain c where "fact_sim f (hd h) = Inr c" "t \<le> c" using assms(1) h(1) by (auto simp: groups_ok_def)
    then show ?thesis using sel(2) by (simp add: fact_sim_def)
  qed
  then show ?thesis using h sel(3,4) by (intro bexI [of _ "survivor_of h"]) auto
qed

lemma survivors_apart:
  assumes "groups_ok t fs gs" "a \<in> survivor_of ` set gs" "b \<in> survivor_of ` set gs" "a \<noteq> b"
  shows "\<exists>c. fact_sim a b = Inr c \<and> c < t"
proof -
  from assms(2-4) obtain x y where xy: "x \<in> set gs" "y \<in> set gs" "a = survivor_of x" "b = survivor_of y" "x \<noteq> y"
    by auto
  moreover from assms(1) xy(1,2) have "x \<noteq> []" "y \<noteq> []" by (auto simp: groups_ok_def)
  ultimately have sim: "fact_sim a b = fact_sim (hd x) (hd y)"
    using survivor_of_sel(2) by (simp add: fact_sim_def)
  let ?apart = "\<lambda>g h. \<exists>c. fact_sim (hd h) (hd g) = Inr c \<and> c < t"
  have "sorted_wrt ?apart gs" using assms(1) unfolding groups_ok_def by (elim conjE)
  then have "?apart x y \<or> ?apart y x" using xy(1,2,5) by (rule sorted_wrt_either)
  then have "\<exists>c. fact_sim (hd x) (hd y) = Inr c \<and> c < t"
  proof
    assume "?apart x y"
    then show ?thesis by (subst fact_sim_sym)
  qed
  with sim show ?thesis by simp
qed

lemma survivor_ids:
  assumes "[] \<notin> set gs"
  shows "fr_id ` survivor_of ` set gs = (fr_id \<circ> hd) ` set gs"
proof -
  have "fr_id (survivor_of h) = fr_id (hd h)" if "h \<in> set gs" for h
    using that assms by (intro survivor_of_sel(1)) auto
  then show ?thesis by (simp add: image_image)
qed

lemma distinct_heads:
  "distinct (map fr_id (concat gs)) \<Longrightarrow> [] \<notin> set gs \<Longrightarrow> distinct (map (fr_id \<circ> hd) gs)"
proof (induction gs)
  case (Cons h hs)
  from Cons.prems have "h \<noteq> []" "\<And>x. x \<in> set hs \<Longrightarrow> x \<noteq> []" by auto
  then have "fr_id (hd h) \<notin> (fr_id \<circ> hd) ` set hs"
    using Cons.prems(1) list.set_sel(1) by fastforce
  with Cons show ?case by auto
qed simp

lemma same_ids_length: "distinct xs \<Longrightarrow> distinct ys \<Longrightarrow> set xs = set ys \<Longrightarrow> length xs = length ys"
  by (metis distinct_card)

text \<open>What the merge works on and what it leaves.\<close>

lemma merge_factsE:
  assumes "merge_facts t facts edges = Inr (facts', edges', n)" "distinct (map fr_id facts)"
  obtains fs gs where "groups_ok t fs gs" "set (concat gs) = set facts" "distinct (map fr_id (concat gs))"
    "fold merge_group gs (facts, edges, 0) = (facts', edges', n)" "set facts' = survivor_of ` set gs"
    "length facts' + n = length facts"
proof -
  define fs where "fs = sort_key fr_id facts"
  from assms(1) obtain gs where gs: "duplicate_fact_groups t fs = Inr gs"
    and f: "fold merge_group gs (facts, edges, 0) = (facts', edges', n)"
    by (auto simp: merge_facts_def ok_bind_Inr_iff fs_def)
  note g = duplicate_groups_ok [OF gs]
  then have ne: "[] \<notin> set gs" and m: "mset (concat gs) = mset facts" by (auto simp: groups_ok_def fs_def)
  have sc: "set (concat gs) = set facts" using m by (rule mset_eq_setD)
  have "mset (map fr_id (concat gs)) = mset (map fr_id facts)" using m by (metis mset_map)
  then have d: "distinct (map fr_id (concat gs))" using assms(2) by (metis mset_eq_imp_distinct_iff)
  note ff = fold_merge_facts [OF f ne equalityD1 [OF sc] assms(2) d]
  then have s': "set facts' = survivor_of ` set gs" using sc by auto
  then have "length (map fr_id facts') = length (map (fr_id \<circ> hd) gs)"
    using ff distinct_heads [OF d ne] survivor_ids [OF ne] by (intro same_ids_length) auto
  then have "length facts' + n = length facts" using ff m by (metis add.commute add_0 length_map size_mset)
  with g sc d f s' show ?thesis by (rule that)
qed

text \<open>C28: the merge keeps what the facts knew: each fact is represented by a survivor
  that carries all its episode ids, is at least as confident, and either is that fact or has an
  embedding at least as similar to it as the threshold; no provenance is lost or invented; two
  survivors are less similar than the threshold; the count reported is the number of facts gone;
  and the edges keep the unique key, refer to surviving facts only, and none loops.\<close>

theorem merge_keeps_knowledge:
  assumes "merge_facts t facts edges = Inr (facts', edges', n)" "distinct (map fr_id facts)"
    and "edges_ok (fr_id ` set facts) edges"
  shows "(\<forall>f \<in> set facts. \<exists>s \<in> set facts'. set (fr_sources f) \<subseteq> set (fr_sources s) \<and> fr_confidence f \<le> fr_confidence s \<and>
            (fr_id s = fr_id f \<or> (\<exists>c. fact_sim f s = Inr c \<and> t \<le> c))) \<and>
         (\<Union>f \<in> set facts'. set (fr_sources f)) = (\<Union>f \<in> set facts. set (fr_sources f)) \<and>
         (\<forall>a \<in> set facts'. \<forall>b \<in> set facts'. a \<noteq> b \<longrightarrow> (\<exists>c. fact_sim a b = Inr c \<and> c < t)) \<and>
         length facts' + n = length facts \<and> fr_id ` set facts' \<subseteq> fr_id ` set facts \<and>
         edges_ok (fr_id ` set facts') edges'"
proof -
  obtain fs gs where g: "groups_ok t fs gs" and sc: "set (concat gs) = set facts" and d: "distinct (map fr_id (concat gs))"
    and f: "fold merge_group gs (facts, edges, 0) = (facts', edges', n)" and s': "set facts' = survivor_of ` set gs"
    and cnt: "length facts' + n = length facts"
    by (rule merge_factsE [OF assms(1,2)])
  have ne: "[] \<notin> set gs" using g by (simp add: groups_ok_def)
  then have hd: "h \<in> set gs \<Longrightarrow> h \<noteq> [] \<and> hd h \<in> set h" for h by (metis list.set_sel(1))
  have "(\<Union>f \<in> set facts'. set (fr_sources f)) = (\<Union>h \<in> set gs. \<Union>f \<in> set h. set (fr_sources f))"
    unfolding s' using survivor_of_sel(3) hd by auto
  also have "\<dots> = (\<Union>f \<in> set facts. set (fr_sources f))" using sc by auto
  finally have un: "(\<Union>f \<in> set facts'. set (fr_sources f)) = (\<Union>f \<in> set facts. set (fr_sources f))" .
  have ids: "fr_id ` set facts' = (fr_id \<circ> hd) ` set gs" unfolding s' by (rule survivor_ids [OF ne])
  have sub: "fr_id ` set facts' \<subseteq> fr_id ` set facts"
    unfolding ids using sc hd by fastforce
  have "edges_ok (fr_id ` set facts - (fr_id ` set (concat gs) - (fr_id \<circ> hd) ` set gs)) edges'"
    by (rule fold_merge_edges [OF f ne d _ assms(3)]) (simp only: sc order.refl)
  moreover have "fr_id ` set facts - (fr_id ` set (concat gs) - (fr_id \<circ> hd) ` set gs) = fr_id ` set facts'"
    using sub unfolding sc ids by blast
  ultimately have "edges_ok (fr_id ` set facts') edges'" by simp
  then show ?thesis
    using groups_represent [OF g] survivors_apart [OF g] un cnt sub unfolding s' sc by blast
qed

definition fact_demo :: "nat \<Rightarrow> real list \<Rightarrow> nat list \<Rightarrow> fact_row" where
  "fact_demo i v src = \<lparr>fr_id = i, fr_subject = [], fr_predicate = [], fr_object = [], fr_confidence = 1/2,
     fr_sources = src, fr_embedding = v, fr_updated_at = 0\<rparr>"

theorem merge_keeps_knowledge_witness:
  "\<exists>facts' edges'. merge_facts (9/10) [fact_demo 1 [1] [7], fact_demo 2 [2] [8]]
       [\<lparr>ed_id = 1, ed_from = 1, ed_to = 2, ed_relation = ''r''\<rparr>] = Inr (facts', edges', 1) \<and>
     length facts' = 1 \<and> edges_ok (fr_id ` set facts') edges' \<and> (\<Union>f \<in> set facts'. set (fr_sources f)) = {7, 8}"
proof -
  let ?f = "[fact_demo 1 [1] [7], fact_demo 2 [2] [8]]"
  let ?e = "[\<lparr>ed_id = 1, ed_from = 1, ed_to = 2, ed_relation = ''r''\<rparr>]"
  have "duplicate_fact_groups (9/10) (sort_key fr_id ?f) = Inr [?f]"
    by (simp add: duplicate_fact_groups_def fact_sim_def cosine_similarity_def norm2_def dot_def fact_demo_def
        real_sqrt_mult [symmetric])
  then obtain facts' edges' where m: "merge_facts (9/10) ?f ?e = Inr (facts', edges', 1)"
    by (simp add: merge_facts_def merge_group_def Let_def)
  have "edges_ok (fr_id ` set ?f) ?e" by (simp add: edges_ok_def fact_demo_def)
  from merge_keeps_knowledge [OF m _ this] m show ?thesis by (auto simp: fact_demo_def)
qed

end
