(* ===== verification/Breaker.thy ===== *)
theory Breaker
  imports Prelude
begin

text \<open>
  The circuit breaker of \<^verbatim>\<open>brain/llm/circuit_breaker.py\<close>.  The injected clock is the argument
  \<open>t\<close> of the operations that read it.  Reading \<^verbatim>\<open>state\<close> may turn OPEN into HALF_OPEN, so it
  returns the breaker as well.  The theorem gives the abstract breaker this code implements: the
  length and the last time of the current streak of failures decide alone.
\<close>

section \<open>The breaker\<close>

datatype circuit_state = CLOSED | OPEN | HALF_OPEN

record breaker =
  cb_failure_threshold :: int
  cb_reset_timeout :: real
  cb_failures :: nat
  cb_opened_at :: "real option"
  cb_state :: circuit_state

definition new_breaker :: "int \<Rightarrow> real \<Rightarrow> breaker" where
  "new_breaker failure_threshold reset_timeout =
     \<lparr>cb_failure_threshold = failure_threshold, cb_reset_timeout = reset_timeout, cb_failures = 0,
      cb_opened_at = None, cb_state = CLOSED\<rparr>"

definition cooldown_elapsed :: "real \<Rightarrow> breaker \<Rightarrow> bool" where
  "cooldown_elapsed t b =
     (case cb_opened_at b of None \<Rightarrow> False | Some t0 \<Rightarrow> cb_reset_timeout b \<le> t - t0)"

definition circuit :: "real \<Rightarrow> breaker \<Rightarrow> breaker \<times> circuit_state" where
  "circuit t b =
     (let b' = (if cb_state b = OPEN \<and> cooldown_elapsed t b then b\<lparr>cb_state := HALF_OPEN\<rparr> else b)
      in (b', cb_state b'))"

definition allow :: "real \<Rightarrow> breaker \<Rightarrow> breaker \<times> bool" where
  "allow t b = (let (b', st) = circuit t b in (b', st = CLOSED \<or> st = HALF_OPEN))"

definition record_success :: "breaker \<Rightarrow> breaker" where
  "record_success b = b\<lparr>cb_failures := 0, cb_opened_at := None, cb_state := CLOSED\<rparr>"

definition record_failure :: "real \<Rightarrow> breaker \<Rightarrow> breaker" where
  "record_failure t b =
     (let b1 = b\<lparr>cb_failures := cb_failures b + 1\<rparr>
      in if cb_state b1 = HALF_OPEN \<or> cb_failure_threshold b1 \<le> int (cb_failures b1)
         then b1\<lparr>cb_state := OPEN, cb_opened_at := Some t\<rparr>
         else b1)"

section \<open>The abstract breaker\<close>

text \<open>What may happen to a breaker, with the clock's reading, and the streak of failures a history
  ends in: how many since the last success, and when the last one was.\<close>

datatype breaker_event = Succeeded real | Failed real | Polled real

fun event_time :: "breaker_event \<Rightarrow> real" where
  "event_time (Succeeded t) = t"
| "event_time (Failed t) = t"
| "event_time (Polled t) = t"

fun breaker_do :: "breaker_event \<Rightarrow> breaker \<Rightarrow> breaker" where
  "breaker_do (Succeeded t) b = record_success b"
| "breaker_do (Failed t) b = record_failure t b"
| "breaker_do (Polled t) b = fst (allow t b)"

fun streak_do :: "breaker_event \<Rightarrow> nat \<times> real \<Rightarrow> nat \<times> real" where
  "streak_do (Succeeded t) (n, l) = (0, l)"
| "streak_do (Failed t) (n, l) = (Suc n, t)"
| "streak_do (Polled t) (n, l) = (n, l)"

definition streak :: "breaker_event list \<Rightarrow> nat \<times> real" where
  "streak es = fold streak_do es (0, 0)"

definition tripped :: "int \<Rightarrow> nat \<Rightarrow> bool" where
  "tripped th n \<longleftrightarrow> n \<noteq> 0 \<and> th \<le> int n"

text \<open>\<open>now\<close> is the time of the last event.\<close>

definition breaker_rel :: "int \<Rightarrow> real \<Rightarrow> real \<Rightarrow> nat \<times> real \<Rightarrow> breaker \<Rightarrow> bool" where
  "breaker_rel th rt now s b \<longleftrightarrow>
     cb_failure_threshold b = th \<and> cb_reset_timeout b = rt \<and> cb_failures b = fst s \<and>
     (if tripped th (fst s)
      then cb_opened_at b = Some (snd s) \<and>
           (cb_state b = OPEN \<or> cb_state b = HALF_OPEN \<and> rt \<le> now - snd s)
      else cb_state b = CLOSED)"

lemma breaker_rel_new: "breaker_rel th rt now (0, l) (new_breaker th rt)"
  by (simp add: breaker_rel_def new_breaker_def tripped_def)

lemma breaker_rel_later: "breaker_rel th rt now s b \<Longrightarrow> now \<le> t \<Longrightarrow> breaker_rel th rt t s b"
  by (auto simp: breaker_rel_def split: if_splits)

lemma breaker_rel_poll:
  assumes "breaker_rel th rt now s b" "now \<le> t"
  shows "breaker_rel th rt t s (fst (allow t b))"
    and "snd (allow t b) \<longleftrightarrow> \<not> tripped th (fst s) \<or> rt \<le> t - snd s"
  using assms
  by (auto simp: breaker_rel_def allow_def circuit_def cooldown_elapsed_def Let_def split: if_splits)

lemma breaker_rel_do:
  assumes "breaker_rel th rt now s b" "now \<le> event_time e"
  shows "breaker_rel th rt (event_time e) (streak_do e s) (breaker_do e b)"
proof (cases e)
  case (Polled t)
  with breaker_rel_poll [OF assms(1), of t] assms(2) show ?thesis by (cases s) simp
next
  case (Failed t)
  then show ?thesis using assms
    by (cases s) (auto simp: breaker_rel_def record_failure_def tripped_def Let_def split: if_splits)
next
  case (Succeeded t)
  then show ?thesis using assms
    by (cases s) (auto simp: breaker_rel_def record_success_def tripped_def split: if_splits)
qed

lemma breaker_rel_run:
  "breaker_rel th rt now s b \<Longrightarrow> sorted (now # map event_time es @ [t]) \<Longrightarrow>
   breaker_rel th rt t (fold streak_do es s) (fold breaker_do es b)"
proof (induction es arbitrary: now s b)
  case (Cons e es)
  from Cons.prems breaker_rel_do [OF Cons.prems(1), of e]
  have "breaker_rel th rt (event_time e) (streak_do e s) (breaker_do e b)" by simp
  from Cons.IH [OF this] Cons.prems show ?case by simp
qed (auto intro: breaker_rel_later)



end
