(* ===== verification/LlmRouter.thy ===== *)
theory LlmRouter
  imports Breaker
begin

text \<open>
  The doorway to inference: \<^verbatim>\<open>brain/llm/router.py\<close> with the pricing (\<^verbatim>\<open>pricing.py\<close>), the
  routing policy (\<^verbatim>\<open>routing.py\<close>), the call log (\<^verbatim>\<open>call_logger.py\<close>) and the budget
  governor of \<^verbatim>\<open>core/governors.py\<close>.

  Providers, the clocks and the database are the outside: a record of functions on an opaque world
  state that a provider call may change.  Money is in micro-dollars, the precision the code rounds
  to.  Providers are registered under their own names, as \<^verbatim>\<open>build_router\<close> does.  The gate is an
  argument, as in the code; \<open>is_exhausted\<close> is the governor \<^verbatim>\<open>build_router\<close> passes.
\<close>

section \<open>Messages and completions\<close>

datatype msg_content = Text string | Parts "json list"

record message =
  ms_role :: string
  ms_content :: msg_content

record completion =
  co_content :: string
  co_reasoning :: "string option"
  co_provider :: string
  co_model :: string
  co_prompt_tokens :: int
  co_completion_tokens :: int
  co_finish_reason :: "string option"

record request =
  rq_messages :: "message list"
  rq_temperature :: real
  rq_max_tokens :: "int option"
  rq_json :: bool

text \<open>A schema: its name, and what the validator says against a content, if anything.\<close>

record schema =
  sc_name :: string
  sc_error :: "string \<Rightarrow> string option"

section \<open>Pricing\<close>

text \<open>Cents for a million tokens, in and out.\<close>

definition PRICING :: "((string \<times> string) \<times> int \<times> int) list" where
  "PRICING = [((''groq'', ''llama-3.3-70b-versatile''), (59, 79))]"

definition estimate_cost :: "string \<Rightarrow> string \<Rightarrow> int \<Rightarrow> int \<Rightarrow> int" where
  "estimate_cost provider model prompt_tokens completion_tokens =
     (case map_of PRICING (provider, model) of
        None \<Rightarrow> 0
      | Some (i, out) \<Rightarrow>
          let cents = prompt_tokens * i + completion_tokens * out
          in sgn cents * ((\<bar>cents\<bar> + 50) div 100))"

definition is_paid :: "string \<Rightarrow> string \<Rightarrow> bool" where
  "is_paid provider model \<longleftrightarrow> \<not> estimate_cost provider model 1 1 \<le> 0"

section \<open>Routing\<close>

record model_step =
  st_provider :: string
  st_model :: string

type_synonym roles = "(string \<times> model_step list) list"

definition chain_for :: "roles \<Rightarrow> string \<Rightarrow> model_step list res" where
  "chain_for roles role =
     (case map_of roles role of
        Some steps \<Rightarrow> Inr steps
      | None \<Rightarrow> (case map_of roles ''default'' of Some steps \<Rightarrow> Inr steps | None \<Rightarrow> Inl KeyError))"

text \<open>The parsed file: slots with their \<^verbatim>\<open>provider\<close> and \<^verbatim>\<open>model_setting\<close> (absent when the key
  is), roles with their slots.  \<open>settings\<close> gives the string of a settings field.\<close>

fun resolve_slots :: "(string \<Rightarrow> string option) \<Rightarrow> (string \<times> string option \<times> string option) list \<Rightarrow>
    (string \<times> model_step) list \<Rightarrow> (string \<times> model_step) list res" where
  "resolve_slots settings [] acc = Inr acc"
| "resolve_slots settings ((slot, prov, setting) # slots) acc =
     (case (prov, setting) of
        (Some p, Some f) \<Rightarrow>
          (case settings f of
             None \<Rightarrow> Inl ValueError
           | Some m \<Rightarrow> resolve_slots settings slots (dict_put slot \<lparr>st_provider = p, st_model = m\<rparr> acc))
      | _ \<Rightarrow> Inl KeyError)"

fun resolve_steps :: "(string \<times> model_step) list \<Rightarrow> string list \<Rightarrow> model_step list res" where
  "resolve_steps slots [] = Inr []"
| "resolve_steps slots (n # ns) =
     (case map_of slots n of
        None \<Rightarrow> Inl ValueError
      | Some st \<Rightarrow> ok_bind (resolve_steps slots ns) (\<lambda>sts. Inr (st # sts)))"

fun resolve_roles :: "(string \<times> model_step) list \<Rightarrow> (string \<times> string list) list \<Rightarrow> roles res" where
  "resolve_roles slots [] = Inr []"
| "resolve_roles slots ((role, ns) # rs) =
     ok_bind (resolve_steps slots ns) (\<lambda>sts.
     ok_bind (resolve_roles slots rs) (\<lambda>roles. Inr ((role, sts) # roles)))"

definition load_routing_config :: "(string \<Rightarrow> string option) \<Rightarrow>
    (string \<times> string option \<times> string option) list \<Rightarrow> (string \<times> string list) list \<Rightarrow> roles res" where
  "load_routing_config settings models role_slots =
     ok_bind (resolve_slots settings models []) (\<lambda>slots.
     ok_bind (resolve_roles slots role_slots) (\<lambda>roles.
       if roles = [] then Inl ValueError else Inr roles))"

section \<open>The outside and the router's state\<close>

record 'w outside =
  ou_complete :: "string \<Rightarrow> string \<Rightarrow> request \<Rightarrow> 'w \<Rightarrow> 'w \<times> completion res"
  ou_mono :: "'w \<Rightarrow> real"
  ou_perf :: "'w \<Rightarrow> real"
  ou_wall :: "'w \<Rightarrow> real"
  ou_db :: "'w \<Rightarrow> bool"

record call_row =
  cl_ts :: real
  cl_role :: string
  cl_provider :: string
  cl_model :: string
  cl_prompt_tokens :: int
  cl_completion_tokens :: int
  cl_latency_ms :: int
  cl_status :: string
  cl_cost :: int

text \<open>The configuration of a router, and what changes: the breakers, the call log, the world.\<close>

record router =
  rt_providers :: "string list"
  rt_roles :: roles
  rt_schema_retries :: int

record 'w rstate =
  rs_breakers :: "(string \<times> breaker) list"
  rs_log :: "call_row list"
  rs_world :: 'w

type_synonym 'w gate = "'w rstate \<Rightarrow> bool res"

definition new_router :: "string list \<Rightarrow> roles \<Rightarrow> int \<Rightarrow> int \<Rightarrow> real \<Rightarrow> call_row list \<Rightarrow> 'w \<Rightarrow>
    (router \<times> 'w rstate) res" where
  "new_router providers roles retries failure_threshold reset_timeout calls w =
     (if \<forall>(role, steps) \<in> set roles. \<forall>st \<in> set steps. st_provider st \<in> set providers
      then Inr (\<lparr>rt_providers = providers, rt_roles = roles, rt_schema_retries = retries\<rparr>,
                \<lparr>rs_breakers = map (\<lambda>n. (n, new_breaker failure_threshold reset_timeout)) providers,
                 rs_log = calls, rs_world = w\<rparr>)
      else Inl ValueError)"

section \<open>The budget governor\<close>

definition day_start :: "real \<Rightarrow> real" where
  "day_start now = of_int \<lfloor>now / 86400\<rfloor> * 86400"

definition spent_since :: "real \<Rightarrow> call_row list \<Rightarrow> int" where
  "spent_since since calls = sum_list (map cl_cost (filter (\<lambda>r. since \<le> cl_ts r) calls))"

definition spent_today :: "'w outside \<Rightarrow> 'w rstate \<Rightarrow> int res" where
  "spent_today ou s =
     (if ou_db ou (rs_world s) then Inr (spent_since (day_start (ou_wall ou (rs_world s))) (rs_log s))
      else Inl (OtherError ''database''))"

definition is_exhausted :: "'w outside \<Rightarrow> real \<Rightarrow> 'w gate" where
  "is_exhausted ou budget s = ok_bind (spent_today ou s) (\<lambda>spent. Inr (budget \<le> of_int spent))"

section \<open>One call\<close>

text \<open>A failed write of the log is swallowed.\<close>

definition log_call :: "'w outside \<Rightarrow> string \<Rightarrow> string \<Rightarrow> string \<Rightarrow> completion option \<Rightarrow> string \<Rightarrow>
    real option \<Rightarrow> 'w rstate \<Rightarrow> 'w rstate" where
  "log_call ou role provider model c status start s =
     (let pt = (case c of Some c \<Rightarrow> co_prompt_tokens c | None \<Rightarrow> 0);
          ct = (case c of Some c \<Rightarrow> co_completion_tokens c | None \<Rightarrow> 0);
          row = \<lparr>cl_ts = ou_wall ou (rs_world s), cl_role = role, cl_provider = provider, cl_model = model,
                 cl_prompt_tokens = pt, cl_completion_tokens = ct,
                 cl_latency_ms = (case start of Some t \<Rightarrow> \<lfloor>(ou_perf ou (rs_world s) - t) * 1000\<rfloor> | None \<Rightarrow> 0),
                 cl_status = status, cl_cost = estimate_cost provider model pt ct\<rparr>
      in if ou_db ou (rs_world s) then s\<lparr>rs_log := rs_log s @ [row]\<rparr> else s)"

definition attempt :: "'w outside \<Rightarrow> string \<Rightarrow> schema option \<Rightarrow> real \<Rightarrow> int option \<Rightarrow> model_step \<Rightarrow>
    message list \<Rightarrow> 'w rstate \<Rightarrow> 'w rstate \<times> completion res" where
  "attempt ou role sch temperature max_tokens st msgs s =
     (let p = st_provider st; m = st_model st; start = Some (ou_perf ou (rs_world s));
          (w, r) = ou_complete ou p m \<lparr>rq_messages = msgs, rq_temperature = temperature,
                     rq_max_tokens = max_tokens, rq_json = (sch \<noteq> None)\<rparr> (rs_world s);
          s1 = s\<lparr>rs_world := w\<rparr>
      in case r of
           Inl ProviderTimeoutError \<Rightarrow> (log_call ou role p m None ''timeout'' start s1, Inl ProviderTimeoutError)
         | Inl ProviderError \<Rightarrow> (log_call ou role p m None ''error'' start s1, Inl ProviderError)
         | Inl e \<Rightarrow> (s1, Inl e)
         | Inr c \<Rightarrow>
             (case (case sch of Some v \<Rightarrow> map_option (Pair v) (sc_error v (co_content c)) | None \<Rightarrow> None) of
                Some (v, err) \<Rightarrow>
                  (log_call ou role p m (Some c) ''schema_error'' start s1,
                   Inl (SchemaValidationError (''response did not match '' @ sc_name v @ '': '' @ err) (co_content c)))
              | None \<Rightarrow> (log_call ou role p m (Some c) ''ok'' start s1, Inr c)))"

definition feedback :: "string \<Rightarrow> string \<Rightarrow> message list" where
  "feedback err content =
     [\<lparr>ms_role = ''assistant'', ms_content = Text content\<rparr>,
      \<lparr>ms_role = ''user'', ms_content = Text (''Your previous response was invalid: '' @ err @
         ''. Respond with ONLY valid JSON matching the required schema.'')\<rparr>]"

text \<open>The first argument counts the attempts left.\<close>

fun invoke_loop :: "nat \<Rightarrow> 'w outside \<Rightarrow> string \<Rightarrow> schema option \<Rightarrow> real \<Rightarrow> int option \<Rightarrow> model_step \<Rightarrow>
    message list \<Rightarrow> 'w rstate \<Rightarrow> 'w rstate \<times> completion res" where
  "invoke_loop 0 ou role sch temperature max_tokens st msgs s = (s, Inl AssertionError)"
| "invoke_loop (Suc k) ou role sch temperature max_tokens st msgs s =
     (case attempt ou role sch temperature max_tokens st msgs s of
        (s1, Inl (SchemaValidationError err content)) \<Rightarrow>
          if k = 0 then (s1, Inl (SchemaValidationError err content))
          else invoke_loop k ou role sch temperature max_tokens st (msgs @ feedback err content) s1
      | (s1, r) \<Rightarrow> (s1, r))"

definition invoke_with_feedback :: "int \<Rightarrow> 'w outside \<Rightarrow> string \<Rightarrow> schema option \<Rightarrow> real \<Rightarrow> int option \<Rightarrow>
    model_step \<Rightarrow> message list \<Rightarrow> 'w rstate \<Rightarrow> 'w rstate \<times> completion res" where
  "invoke_with_feedback retries = invoke_loop (nat (retries + 1))"

section \<open>The chain\<close>

definition budget_blocks :: "'w gate option \<Rightarrow> model_step \<Rightarrow> 'w rstate \<Rightarrow> bool res" where
  "budget_blocks gate st s =
     (case gate of
        None \<Rightarrow> Inr False
      | Some g \<Rightarrow> if \<not> is_paid (st_provider st) (st_model st) then Inr False else g s)"

text \<open>How a call of \<^verbatim>\<open>complete\<close> ends.  \<open>Unavailable\<close> is \<^verbatim>\<open>LLMUnavailableError\<close> with its cause:
  an exception, or a paid provider skipped.\<close>

datatype cause = Failure exn | BudgetExhausted string

datatype outcome = Completed completion | Unavailable "cause option" | Raised exn

text \<open>The body of the loop: it returns or raises (\<open>Stop\<close>), or continues with the next step,
  having set \<^verbatim>\<open>last_error\<close> or not.\<close>

datatype step_end = Stop outcome | Next "cause option"

definition try_step :: "'w outside \<Rightarrow> 'w gate option \<Rightarrow> int \<Rightarrow> string \<Rightarrow> message list \<Rightarrow> schema option \<Rightarrow> real \<Rightarrow>
    int option \<Rightarrow> model_step \<Rightarrow> 'w rstate \<Rightarrow> 'w rstate \<times> step_end" where
  "try_step ou gate retries role msgs sch temp mt st s =
     (let p = st_provider st
      in case map_of (rs_breakers s) p of
           None \<Rightarrow> (s, Stop (Raised KeyError))
         | Some b \<Rightarrow>
             let (b1, ok) = allow (ou_mono ou (rs_world s)) b;
                 s1 = s\<lparr>rs_breakers := dict_put p b1 (rs_breakers s)\<rparr>
             in if \<not> ok then (s1, Next None)
                else case budget_blocks gate st s1 of
                       Inl e \<Rightarrow> (s1, Stop (Raised e))
                     | Inr True \<Rightarrow>
                         (log_call ou role p (st_model st) None ''budget_skip'' None s1,
                          Next (Some (BudgetExhausted p)))
                     | Inr False \<Rightarrow>
                         (case invoke_with_feedback retries ou role sch temp mt st msgs s1 of
                            (s2, Inr c) \<Rightarrow>
                              (s2\<lparr>rs_breakers := dict_put p (record_success b1) (rs_breakers s2)\<rparr>,
                               Stop (Completed c))
                          | (s2, Inl (SchemaValidationError why content)) \<Rightarrow>
                              (s2\<lparr>rs_breakers := dict_put p (record_success b1) (rs_breakers s2)\<rparr>,
                               Next (Some (Failure (SchemaValidationError why content))))
                          | (s2, Inl e) \<Rightarrow>
                              if e = ProviderError \<or> e = ProviderTimeoutError
                              then (s2\<lparr>rs_breakers := dict_put p
                                        (record_failure (ou_mono ou (rs_world s2)) b1) (rs_breakers s2)\<rparr>,
                                    Next (Some (Failure e)))
                              else (s2, Stop (Raised e))))"

fun run_chain :: "'w outside \<Rightarrow> 'w gate option \<Rightarrow> int \<Rightarrow> string \<Rightarrow> message list \<Rightarrow> schema option \<Rightarrow> real \<Rightarrow>
    int option \<Rightarrow> model_step list \<Rightarrow> cause option \<Rightarrow> 'w rstate \<Rightarrow> 'w rstate \<times> outcome" where
  "run_chain ou gate retries role msgs sch temp mt [] err s = (s, Unavailable err)"
| "run_chain ou gate retries role msgs sch temp mt (st # sts) err s =
     (case try_step ou gate retries role msgs sch temp mt st s of
        (s1, Stop out) \<Rightarrow> (s1, out)
      | (s1, Next c) \<Rightarrow>
          run_chain ou gate retries role msgs sch temp mt sts (case c of None \<Rightarrow> err | Some _ \<Rightarrow> c) s1)"

definition complete_role :: "'w outside \<Rightarrow> 'w gate option \<Rightarrow> router \<Rightarrow> string \<Rightarrow> message list \<Rightarrow> schema option \<Rightarrow>
    real \<Rightarrow> int option \<Rightarrow> 'w rstate \<Rightarrow> 'w rstate \<times> outcome" where
  "complete_role ou gate rt role msgs sch temp mt s =
     (case chain_for (rt_roles rt) role of
        Inl e \<Rightarrow> (s, Raised e)
      | Inr chain \<Rightarrow> run_chain ou gate (rt_schema_retries rt) role msgs sch temp mt chain None s)"

definition circuit_states :: "real \<Rightarrow> (string \<times> breaker) list \<Rightarrow> (string \<times> circuit_state) list" where
  "circuit_states t bs = map (\<lambda>(n, b). (n, snd (circuit t b))) bs"

section \<open>Calls and the log\<close>

text \<open>A world that records the calls made to the providers, and providers that keep their protocol:
  only the router raises \<^verbatim>\<open>SchemaValidationError\<close>.\<close>

definition records :: "'w outside \<Rightarrow> ('w \<Rightarrow> (string \<times> string) list) \<Rightarrow> bool" where
  "records ou calls \<longleftrightarrow> (\<forall>p m q w. calls (fst (ou_complete ou p m q w)) = calls w @ [(p, m)])"

definition protocol :: "'w outside \<Rightarrow> bool" where
  "protocol ou \<longleftrightarrow> (\<forall>p m q w err content. snd (ou_complete ou p m q w) \<noteq> Inl (SchemaValidationError err content))"

definition row_call :: "call_row \<Rightarrow> string \<times> string" where
  "row_call r = (cl_provider r, cl_model r)"

text \<open>What the chain handles; anything else a provider raises goes up to the caller.\<close>

definition handled :: "completion res \<Rightarrow> bool" where
  "handled r \<longleftrightarrow> (case r of Inr _ \<Rightarrow> True | Inl (SchemaValidationError _ _) \<Rightarrow> True
     | Inl e \<Rightarrow> e = ProviderError \<or> e = ProviderTimeoutError)"

lemma handled_simps [simp]:
  "handled (Inr c)" "handled (Inl (SchemaValidationError a b))" "handled (Inl ProviderError)"
  "handled (Inl ProviderTimeoutError)" "\<not> handled (Inl AssertionError)"
  by (simp_all add: handled_def)

definition logged :: "'w outside \<Rightarrow> ('w \<Rightarrow> (string \<times> string) list) \<Rightarrow> (string \<times> string) list \<Rightarrow> nat \<Rightarrow>
    'w rstate \<Rightarrow> 'w rstate \<Rightarrow> bool" where
  "logged ou calls cs oks s s' \<longleftrightarrow>
     calls (rs_world s') = calls (rs_world s) @ cs \<and>
     (\<exists>new. rs_log s' = rs_log s @ new \<and>
        map row_call (filter (\<lambda>r. cl_status r \<noteq> ''budget_skip'') new) = cs \<and>
        length (filter (\<lambda>r. cl_status r = ''ok'') new) = oks)"

lemma logged_trans:
  assumes "logged ou calls cs n s s1" "logged ou calls ds m s1 s2"
  shows "logged ou calls (cs @ ds) (n + m) s s2"
proof -
  from assms obtain a b where "rs_log s1 = rs_log s @ a" "rs_log s2 = rs_log s1 @ b"
    "map row_call (filter (\<lambda>r. cl_status r \<noteq> ''budget_skip'') a) = cs"
    "map row_call (filter (\<lambda>r. cl_status r \<noteq> ''budget_skip'') b) = ds"
    "length (filter (\<lambda>r. cl_status r = ''ok'') a) = n" "length (filter (\<lambda>r. cl_status r = ''ok'') b) = m"
    unfolding logged_def by blast
  moreover have "calls (rs_world s2) = calls (rs_world s) @ cs @ ds" using assms by (simp add: logged_def)
  ultimately show ?thesis unfolding logged_def by (intro conjI exI [of _ "a @ b"]) simp_all
qed

lemma logged_refl [simp]: "logged ou calls [] 0 s s"
  by (simp add: logged_def)

lemma logged_breakers [simp]:
  "logged ou calls cs n (s\<lparr>rs_breakers := bs\<rparr>) s' = logged ou calls cs n s s'"
  "logged ou calls cs n s (s'\<lparr>rs_breakers := bs\<rparr>) = logged ou calls cs n s s'"
  by (simp_all add: logged_def)

lemma log_call_world [simp]:
  "rs_world (log_call ou role p m c status start s) = rs_world s"
  "rs_breakers (log_call ou role p m c status start s) = rs_breakers s"
  by (simp_all add: log_call_def Let_def)

lemma log_call_rows:
  "ou_db ou (rs_world s) \<Longrightarrow> \<exists>row. rs_log (log_call ou role p m c status start s) = rs_log s @ [row] \<and>
     row_call row = (p, m) \<and> cl_status row = status"
  by (simp add: log_call_def Let_def row_call_def)

text \<open>One attempt is one call and, when the router handles its result, one row.\<close>

lemma attempt_logged:
  assumes "records ou calls" "\<forall>w. ou_db ou w"
    and "attempt ou role sch temp mt st msgs s = (s', r)" "handled r" "protocol ou"
  shows "logged ou calls [(st_provider st, st_model st)] (case r of Inr _ \<Rightarrow> 1 | Inl _ \<Rightarrow> 0) s s' \<and>
         rs_breakers s' = rs_breakers s"
proof -
  let ?q = "\<lparr>rq_messages = msgs, rq_temperature = temp, rq_max_tokens = mt, rq_json = (sch \<noteq> None)\<rparr>"
  obtain w r0 where o: "ou_complete ou (st_provider st) (st_model st) ?q (rs_world s) = (w, r0)" by fastforce
  have c: "calls w = calls (rs_world s) @ [(st_provider st, st_model st)]"
    using assms(1) o unfolding records_def by (metis fst_conv)
  have n: "r0 \<noteq> Inl (SchemaValidationError a b)" for a b
    using assms(5) o unfolding protocol_def by (metis snd_conv)
  define s1 where "s1 = s\<lparr>rs_world := w\<rparr>"
  obtain co status where s': "s' = log_call ou role (st_provider st) (st_model st) co status
      (Some (ou_perf ou (rs_world s))) s1"
    "status \<noteq> ''budget_skip''" "case r of Inr _ \<Rightarrow> status = ''ok'' | Inl _ \<Rightarrow> status \<noteq> ''ok''"
    using assms(3,4) o n
    by (auto simp: attempt_def s1_def Let_def handled_def split: sum.splits exn.splits option.splits)
  from log_call_rows [of ou s1 role "st_provider st" "st_model st" co status] assms(2)
  obtain row where row: "rs_log s' = rs_log s @ [row]" "row_call row = (st_provider st, st_model st)"
    "cl_status row = status" unfolding s'(1) s1_def by fastforce
  have "rs_world s' = w" "rs_breakers s' = rs_breakers s" unfolding s'(1) s1_def by simp_all
  with row s'(2,3) c show ?thesis
    unfolding logged_def by (auto intro!: exI [of _ "[row]"] split: sum.splits)
qed

lemma invoke_logged:
  assumes "records ou calls" "\<forall>w. ou_db ou w" "protocol ou"
  shows "invoke_loop k ou role sch temp mt st msgs s = (s', r) \<Longrightarrow> handled r \<Longrightarrow>
    (\<exists>n \<le> k. logged ou calls (replicate n (st_provider st, st_model st)) (case r of Inr _ \<Rightarrow> 1 | Inl _ \<Rightarrow> 0) s s') \<and>
    rs_breakers s' = rs_breakers s"
proof (induction k arbitrary: msgs s)
  case (Suc k)
  let ?p = "(st_provider st, st_model st)"
  obtain s1 r1 where a: "attempt ou role sch temp mt st msgs s = (s1, r1)" by fastforce
  show ?case
  proof (cases "\<exists>err content. r1 = Inl (SchemaValidationError err content) \<and> k \<noteq> 0")
    case True
    then obtain err content where r1: "r1 = Inl (SchemaValidationError err content)" "k \<noteq> 0" by blast
    with a Suc.prems(1) have "invoke_loop k ou role sch temp mt st (msgs @ feedback err content) s1 = (s', r)"
      by simp
    note ih = Suc.IH [OF this Suc.prems(2)]
    then obtain n where n: "n \<le> k" "logged ou calls (replicate n ?p) (case r of Inr _ \<Rightarrow> 1 | Inl _ \<Rightarrow> 0) s1 s'"
      by blast
    from attempt_logged [OF assms(1,2) a _ assms(3)] r1
    have l: "logged ou calls [?p] 0 s s1" "rs_breakers s1 = rs_breakers s" by simp_all
    from logged_trans [OF l(1) n(2)] have "logged ou calls (replicate (Suc n) ?p) (case r of Inr _ \<Rightarrow> 1 | Inl _ \<Rightarrow> 0) s s'"
      by simp
    with n(1) ih l(2) show ?thesis by (metis Suc_le_mono)
  next
    case False
    with a Suc.prems(1) have "s1 = s'" "r1 = r" by (auto split: sum.splits exn.splits if_splits)
    with attempt_logged [OF assms(1,2) a _ assms(3)] Suc.prems(2)
    have "logged ou calls (replicate 1 ?p) (case r of Inr _ \<Rightarrow> 1 | Inl _ \<Rightarrow> 0) s s' \<and> rs_breakers s' = rs_breakers s"
      by simp
    then show ?thesis by (metis One_nat_def Suc_le_mono le0)
  qed
qed auto

section \<open>The chain, step by step\<close>

lemma log_call_skip:
  "\<forall>w. ou_db ou w \<Longrightarrow> logged ou calls [] 0 s (log_call ou role p m c ''budget_skip'' start s)"
  using log_call_rows [of ou s role p m c "''budget_skip''" start] by (auto simp: logged_def)

text \<open>A step lets the call through, or is passed over; only a completion ends the chain.\<close>

lemma try_step_logged:
  assumes "records ou calls" "\<forall>w. ou_db ou w" "protocol ou"
    and "try_step ou gate retries role msgs sch temp mt st s = (s', v)" "\<forall>e. v \<noteq> Stop (Raised e)"
  shows "\<exists>n \<le> nat (retries + 1). logged ou calls (replicate n (st_provider st, st_model st))
           (case v of Stop _ \<Rightarrow> 1 | Next _ \<Rightarrow> 0) s s' \<and> (\<forall>c. v \<noteq> Stop (Unavailable c))"
proof -
  let ?p = "st_provider st"
  obtain b where b: "map_of (rs_breakers s) ?p = Some b"
    using assms(4,5) by (fastforce simp: try_step_def Let_def split: option.splits)
  obtain b1 ok where a: "allow (ou_mono ou (rs_world s)) b = (b1, ok)" by fastforce
  define s1 where "s1 = s\<lparr>rs_breakers := dict_put ?p b1 (rs_breakers s)\<rparr>"
  have l1: "logged ou calls cs n s t \<longleftrightarrow> logged ou calls cs n s1 t" for cs n t by (simp add: s1_def)
  note d = assms(4)[unfolded try_step_def Let_def b option.case a prod.case, folded s1_def]
  show ?thesis
  proof (cases "ok \<and> budget_blocks gate st s1 = Inr False")
    case False
    with d assms(2,5) have "logged ou calls (replicate 0 (?p, st_model st)) 0 s s' \<and> (\<exists>c. v = Next c)"
      unfolding l1 by (auto split: if_splits sum.splits bool.splits intro: log_call_skip)
    then show ?thesis by fastforce
  next
    case True
    obtain s2 r where i: "invoke_with_feedback retries ou role sch temp mt st msgs s1 = (s2, r)" by fastforce
    have h: "handled r" "case r of Inr _ \<Rightarrow> \<exists>c. v = Stop (Completed c) | Inl _ \<Rightarrow> \<exists>c. v = Next c"
      "\<exists>bs. s' = s2\<lparr>rs_breakers := bs\<rparr>"
      using d True assms(5) by (auto simp: i handled_def split: sum.splits exn.splits if_splits)
    from invoke_logged [OF assms(1-3) i[unfolded invoke_with_feedback_def] h(1)]
    obtain n where "n \<le> nat (retries + 1)"
      "logged ou calls (replicate n (?p, st_model st)) (case r of Inr _ \<Rightarrow> 1 | Inl _ \<Rightarrow> 0) s s2"
      unfolding l1 by blast
    with h(2,3) show ?thesis by (auto split: sum.splits)
  qed
qed

text \<open>The calls along a chain, \<open>ns\<close> of each step.\<close>

definition calls_of :: "nat list \<Rightarrow> model_step list \<Rightarrow> (string \<times> string) list" where
  "calls_of ns chain = concat (map2 (\<lambda>n st. replicate n (st_provider st, st_model st)) ns chain)"

lemma calls_of_Cons [simp]:
  "calls_of (n # ns) (st # sts) = replicate n (st_provider st, st_model st) @ calls_of ns sts"
  "calls_of [] [] = []"
  by (simp_all add: calls_of_def)

lemma calls_of_zeros: "calls_of (replicate (length sts) 0) sts = []"
  by (induction sts) simp_all

lemma run_chain_logged:
  assumes "records ou calls" "\<forall>w. ou_db ou w" "protocol ou"
  shows "run_chain ou gate retries role msgs sch temp mt chain err s = (s', out) \<Longrightarrow> \<forall>e. out \<noteq> Raised e \<Longrightarrow>
    \<exists>ns. length ns = length chain \<and> (\<forall>n \<in> set ns. n \<le> nat (retries + 1)) \<and>
         logged ou calls (calls_of ns chain) (case out of Completed _ \<Rightarrow> 1 | _ \<Rightarrow> 0) s s'"
proof (induction chain arbitrary: err s)
  case (Cons st sts)
  obtain s1 v where t: "try_step ou gate retries role msgs sch temp mt st s = (s1, v)" by fastforce
  with Cons.prems have "\<forall>e. v \<noteq> Stop (Raised e)" by auto
  from try_step_logged [OF assms t this] obtain n where n: "n \<le> nat (retries + 1)"
    "logged ou calls (replicate n (st_provider st, st_model st)) (case v of Stop _ \<Rightarrow> 1 | Next _ \<Rightarrow> 0) s s1"
    "\<forall>c. v \<noteq> Stop (Unavailable c)" by blast
  show ?case
  proof (cases v)
    case (Stop out1)
    with t Cons.prems n(3) obtain c where "out = Completed c" "s1 = s'" by (cases out1) auto
    with n Stop show ?thesis
      by (intro exI [of _ "n # replicate (length sts) 0"]) (auto simp: calls_of_zeros)
  next
    case (Next c)
    with t Cons.prems(1) have "run_chain ou gate retries role msgs sch temp mt sts
      (case c of None \<Rightarrow> err | Some _ \<Rightarrow> c) s1 = (s', out)" by simp
    from Cons.IH [OF this Cons.prems(2)] obtain ns where ns: "length ns = length sts"
      "\<forall>n \<in> set ns. n \<le> nat (retries + 1)"
      "logged ou calls (calls_of ns sts) (case out of Completed _ \<Rightarrow> 1 | _ \<Rightarrow> 0) s1 s'" by blast
    with n Next logged_trans [OF n(2) ns(3)] show ?thesis
      by (intro exI [of _ "n # ns"]) auto
  qed
qed auto

section \<open>Only what was asked for comes back\<close>

definition valid_for :: "schema option \<Rightarrow> completion \<Rightarrow> bool" where
  "valid_for sch c \<longleftrightarrow> (case sch of None \<Rightarrow> True | Some v \<Rightarrow> sc_error v (co_content c) = None)"

lemma attempt_valid:
  assumes "attempt ou role sch temp mt st msgs s = (s', Inr c)"
  shows "valid_for sch c \<and> (\<exists>q w. snd (ou_complete ou (st_provider st) (st_model st) q w) = Inr c)"
proof -
  let ?q = "\<lparr>rq_messages = msgs, rq_temperature = temp, rq_max_tokens = mt, rq_json = (sch \<noteq> None)\<rparr>"
  obtain w r0 where o: "ou_complete ou (st_provider st) (st_model st) ?q (rs_world s) = (w, r0)" by fastforce
  with assms have "r0 = Inr c \<and> valid_for sch c"
    by (auto simp: attempt_def Let_def valid_for_def split: sum.splits exn.splits option.splits)
  with o show ?thesis by (metis snd_conv)
qed

lemma invoke_valid:
  "invoke_loop k ou role sch temp mt st msgs s = (s', Inr c) \<Longrightarrow>
   valid_for sch c \<and> (\<exists>q w. snd (ou_complete ou (st_provider st) (st_model st) q w) = Inr c)"
proof (induction k arbitrary: msgs s)
  case (Suc k)
  obtain s1 r1 where a: "attempt ou role sch temp mt st msgs s = (s1, r1)" by fastforce
  then show ?case
    using Suc attempt_valid [of ou role sch temp mt st msgs s s1 c]
    by (auto split: sum.splits exn.splits if_splits)
qed simp

lemma try_step_valid:
  assumes "try_step ou gate retries role msgs sch temp mt st s = (s', Stop (Completed c))"
  shows "valid_for sch c \<and> (\<exists>q w. snd (ou_complete ou (st_provider st) (st_model st) q w) = Inr c) \<and>
    (\<exists>b. map_of (rs_breakers s') (st_provider st) = Some b \<and> cb_state b = CLOSED \<and> cb_failures b = 0)"
proof -
  let ?p = "st_provider st"
  obtain b where b: "map_of (rs_breakers s) ?p = Some b"
    using assms by (fastforce simp: try_step_def Let_def split: option.splits)
  obtain b1 ok where a: "allow (ou_mono ou (rs_world s)) b = (b1, ok)" by fastforce
  define s1 where "s1 = s\<lparr>rs_breakers := dict_put ?p b1 (rs_breakers s)\<rparr>"
  note d = assms[unfolded try_step_def Let_def b option.case a prod.case, folded s1_def]
  obtain s2 r where i: "invoke_with_feedback retries ou role sch temp mt st msgs s1 = (s2, r)" by fastforce
  from d have "r = Inr c \<and> s' = s2\<lparr>rs_breakers := dict_put ?p (record_success b1) (rs_breakers s2)\<rparr>"
    by (auto simp: i split: sum.splits exn.splits if_splits bool.splits)
  with invoke_valid [of "nat (retries + 1)" ou role sch temp mt st msgs s1 s2 c] i show ?thesis
    by (auto simp: invoke_with_feedback_def record_success_def)
qed

lemma run_chain_valid:
  "run_chain ou gate retries role msgs sch temp mt chain err s = (s', Completed c) \<Longrightarrow>
   \<exists>st \<in> set chain. valid_for sch c \<and> (\<exists>q w. snd (ou_complete ou (st_provider st) (st_model st) q w) = Inr c) \<and>
     (\<exists>b. map_of (rs_breakers s') (st_provider st) = Some b \<and> cb_state b = CLOSED \<and> cb_failures b = 0)"
proof (induction chain arbitrary: err s)
  case (Cons st sts)
  obtain s1 v where t: "try_step ou gate retries role msgs sch temp mt st s = (s1, v)" by fastforce
  show ?case
  proof (cases v)
    case (Stop out1)
    with t Cons.prems have "try_step ou gate retries role msgs sch temp mt st s = (s', Stop (Completed c))" by simp
    from try_step_valid [OF this] show ?thesis by (intro bexI [of _ st]) auto
  next
    case (Next e)
    with t Cons.prems have "run_chain ou gate retries role msgs sch temp mt sts
      (case e of None \<Rightarrow> err | Some _ \<Rightarrow> e) s1 = (s', Completed c)" by simp
    from Cons.IH [OF this] show ?thesis by (meson list.set_intros(2))
  qed
qed simp

section \<open>The budget gate\<close>

lemma unpaid_cost: "\<not> is_paid p m \<Longrightarrow> estimate_cost p m a b = 0"
  by (auto simp: is_paid_def estimate_cost_def PRICING_def split: if_splits)

text \<open>Outsides that differ only in what the paid providers do.\<close>

definition same_unpaid :: "'w outside \<Rightarrow> 'w outside \<Rightarrow> bool" where
  "same_unpaid ou ou' \<longleftrightarrow>
     ou_mono ou' = ou_mono ou \<and> ou_perf ou' = ou_perf ou \<and> ou_wall ou' = ou_wall ou \<and> ou_db ou' = ou_db ou \<and>
     (\<forall>p m. \<not> is_paid p m \<longrightarrow> ou_complete ou' p m = ou_complete ou p m)"

lemma log_call_same_unpaid: "same_unpaid ou ou' \<Longrightarrow> log_call ou' = log_call ou"
  unfolding log_call_def same_unpaid_def by (elim conjE, intro ext) (simp only:)

lemma attempt_same_unpaid:
  "same_unpaid ou ou' \<Longrightarrow> \<not> is_paid (st_provider st) (st_model st) \<Longrightarrow>
   attempt ou' role sch temp mt st msgs s = attempt ou role sch temp mt st msgs s"
  unfolding attempt_def by (simp only: log_call_same_unpaid) (simp add: same_unpaid_def)

lemma invoke_same_unpaid:
  assumes "same_unpaid ou ou'" "\<not> is_paid (st_provider st) (st_model st)"
  shows "invoke_loop k ou' role sch temp mt st msgs s = invoke_loop k ou role sch temp mt st msgs s"
proof (induction k arbitrary: msgs s)
  case (Suc k)
  obtain s1 r1 where "attempt ou role sch temp mt st msgs s = (s1, r1)" by fastforce
  then show ?case using Suc by (simp add: attempt_same_unpaid [OF assms] split: sum.split exn.split)
qed simp

text \<open>The interface: a gate that says exhausted goes on refusing while only free calls are logged and
  the world stays quiet.  A gate may also raise.\<close>

locale budget_gate =
  fixes gate :: "'w gate" and quiet :: "'w \<Rightarrow> 'w \<Rightarrow> bool"
  assumes quiet_refl: "quiet w w"
    and exhausted_stays: "gate s = Inr True \<Longrightarrow> quiet (rs_world s) (rs_world s') \<Longrightarrow>
      rs_log s' = rs_log s @ new \<Longrightarrow> \<forall>r \<in> set new. cl_cost r = 0 \<Longrightarrow> gate s' \<noteq> Inr False"
begin

definition later :: "'w rstate \<Rightarrow> 'w rstate \<Rightarrow> bool" where
  "later s0 s \<longleftrightarrow> quiet (rs_world s0) (rs_world s) \<and>
     (\<exists>new. rs_log s = rs_log s0 @ new \<and> (\<forall>r \<in> set new. cl_cost r = 0))"

definition stays :: "'w rstate \<Rightarrow> 'w outside \<Rightarrow> bool" where
  "stays s0 ou \<longleftrightarrow> (\<forall>p m q w. \<not> is_paid p m \<longrightarrow> quiet (rs_world s0) w \<longrightarrow>
     quiet (rs_world s0) (fst (ou_complete ou p m q w)))"

lemma later_refl: "later s s"
  by (simp add: later_def quiet_refl)

lemma later_breakers [simp]: "later s0 (s\<lparr>rs_breakers := bs\<rparr>) = later s0 s"
  by (simp add: later_def)

lemma later_log:
  assumes "later s0 s" "c = None \<or> \<not> is_paid p m"
  shows "later s0 (log_call ou role p m c status start s)"
proof -
  have z: "estimate_cost p m 0 0 = 0" by (simp add: estimate_cost_def split: option.splits)
  from assms(1) obtain new where "rs_log s = rs_log s0 @ new" "\<forall>r \<in> set new. cl_cost r = 0"
    "quiet (rs_world s0) (rs_world s)" unfolding later_def by blast
  with assms(2) z unpaid_cost show ?thesis
    unfolding later_def by (auto simp: log_call_def Let_def split: option.splits)
qed

lemma attempt_later:
  assumes "stays s0 ou" "later s0 s" "\<not> is_paid (st_provider st) (st_model st)"
  shows "later s0 (fst (attempt ou role sch temp mt st msgs s))"
proof -
  let ?q = "\<lparr>rq_messages = msgs, rq_temperature = temp, rq_max_tokens = mt, rq_json = (sch \<noteq> None)\<rparr>"
  obtain w r0 where o: "ou_complete ou (st_provider st) (st_model st) ?q (rs_world s) = (w, r0)" by fastforce
  have "quiet (rs_world s0) (rs_world s)" using assms(2) by (simp add: later_def)
  then have "quiet (rs_world s0) w" using assms(1,3) o unfolding stays_def by (metis fst_conv)
  then have "later s0 (s\<lparr>rs_world := w\<rparr>)" using assms(2) by (simp add: later_def)
  then show ?thesis using o assms(3)
    by (auto simp: attempt_def Let_def intro: later_log split: sum.splits exn.splits option.splits)
qed

lemma invoke_later:
  assumes "stays s0 ou" "\<not> is_paid (st_provider st) (st_model st)"
  shows "later s0 s \<Longrightarrow> later s0 (fst (invoke_loop k ou role sch temp mt st msgs s))"
proof (induction k arbitrary: msgs s)
  case (Suc k)
  obtain s1 r1 where a: "attempt ou role sch temp mt st msgs s = (s1, r1)" by fastforce
  with attempt_later [OF assms(1) Suc.prems assms(2)] have "later s0 s1" by (metis fst_conv)
  with a Suc.IH show ?case by (auto split: sum.splits exn.splits)
qed simp

lemma try_step_later:
  assumes "gate s0 = Inr True" "stays s0 ou" "same_unpaid ou ou'" "later s0 s"
  shows "try_step ou' (Some gate) retries role msgs sch temp mt st s =
           try_step ou (Some gate) retries role msgs sch temp mt st s \<and>
         later s0 (fst (try_step ou (Some gate) retries role msgs sch temp mt st s))"
proof (cases "map_of (rs_breakers s) (st_provider st)")
  case None
  then show ?thesis using assms(4) by (simp add: try_step_def)
next
  case (Some b)
  obtain b1 ok where a: "allow (ou_mono ou (rs_world s)) b = (b1, ok)" by fastforce
  define s1 where "s1 = s\<lparr>rs_breakers := dict_put (st_provider st) b1 (rs_breakers s)\<rparr>"
  have s1: "later s0 s1" using assms(4) by (simp add: s1_def)
  have m: "ou_mono ou' = ou_mono ou" using assms(3) by (simp add: same_unpaid_def)
  note lc = log_call_same_unpaid [OF assms(3)]
  note u = try_step_def Let_def Some option.case a prod.case m lc s1_def [symmetric]
  show ?thesis
  proof (cases "is_paid (st_provider st) (st_model st)")
    case True
    obtain new where new: "rs_log s1 = rs_log s0 @ new" "\<forall>r \<in> set new. cl_cost r = 0"
      "quiet (rs_world s0) (rs_world s1)" using s1 unfolding later_def by blast
    from exhausted_stays [OF assms(1) new(3,1,2)] True
    have "budget_blocks (Some gate) st s1 \<noteq> Inr False" by (simp add: budget_blocks_def)
    with s1 show ?thesis unfolding u
      by (cases "budget_blocks (Some gate) st s1") (auto intro: later_log split: bool.splits)
  next
    case False
    note inv = invoke_same_unpaid [OF assms(3) False]
    obtain s2 r where i: "invoke_with_feedback retries ou role sch temp mt st msgs s1 = (s2, r)" by fastforce
    with invoke_later [OF assms(2) False s1] have "later s0 s2" unfolding invoke_with_feedback_def by (metis fst_conv)
    with s1 False i show ?thesis unfolding u
      by (auto simp: budget_blocks_def invoke_with_feedback_def inv split: sum.splits exn.splits)
  qed
qed

lemma run_chain_later:
  assumes "gate s0 = Inr True" "stays s0 ou" "same_unpaid ou ou'"
  shows "later s0 s \<Longrightarrow>
    run_chain ou' (Some gate) retries role msgs sch temp mt chain err s =
      run_chain ou (Some gate) retries role msgs sch temp mt chain err s \<and>
    later s0 (fst (run_chain ou (Some gate) retries role msgs sch temp mt chain err s))"
proof (induction chain arbitrary: err s)
  case (Cons st sts)
  obtain s1 v where t: "try_step ou (Some gate) retries role msgs sch temp mt st s = (s1, v)" by fastforce
  from try_step_later [OF assms Cons.prems, of retries role msgs sch temp mt st] t
  have "try_step ou' (Some gate) retries role msgs sch temp mt st s = (s1, v)" "later s0 s1" by auto
  with t Cons.IH show ?case by (cases v) simp_all
qed simp

end

text \<open>The governor is such a gate while the day lasts: free rows leave the day's spend as it is.\<close>

definition same_day :: "'w outside \<Rightarrow> 'w \<Rightarrow> 'w \<Rightarrow> bool" where
  "same_day ou w w' \<longleftrightarrow> day_start (ou_wall ou w') = day_start (ou_wall ou w)"

lemma spent_since_free:
  "\<forall>r \<in> set new. cl_cost r = 0 \<Longrightarrow> spent_since d (calls @ new) = spent_since d calls"
proof -
  assume "\<forall>r \<in> set new. cl_cost r = 0"
  then have "sum_list (map cl_cost (filter (\<lambda>r. d \<le> cl_ts r) new)) = 0" by (induction new) simp_all
  then show ?thesis by (simp add: spent_since_def)
qed

interpretation governor: budget_gate "is_exhausted ou budget" "same_day ou" for ou budget
proof
  fix s s' :: "'a rstate" and new
  assume "is_exhausted ou budget s = Inr True" "same_day ou (rs_world s) (rs_world s')"
    "rs_log s' = rs_log s @ new" "\<forall>r \<in> set new. cl_cost r = 0"
  then show "is_exhausted ou budget s' \<noteq> Inr False"
    by (auto simp: is_exhausted_def spent_today_def same_day_def spent_since_free split: if_splits)
qed (simp add: same_day_def)

lemma is_exhausted_same_unpaid: "same_unpaid ou ou' \<Longrightarrow> is_exhausted ou' budget = is_exhausted ou budget"
  by (intro ext) (simp add: same_unpaid_def is_exhausted_def spent_today_def)

section \<open>A provider that works is reached\<close>

lemma attempt_breakers: "rs_breakers (fst (attempt ou role sch temp mt st msgs s)) = rs_breakers s"
  by (simp add: attempt_def Let_def split: prod.split sum.split exn.split option.split)

lemma invoke_breakers: "rs_breakers (fst (invoke_loop k ou role sch temp mt st msgs s)) = rs_breakers s"
proof (induction k arbitrary: msgs s)
  case (Suc k)
  obtain s1 r1 where a: "attempt ou role sch temp mt st msgs s = (s1, r1)" by fastforce
  with attempt_breakers [of ou role sch temp mt st msgs s] have "rs_breakers s1 = rs_breakers s" by simp
  with a Suc.IH show ?case by (simp split: sum.split exn.split)
qed simp

text \<open>Providers that fail the way their protocol says, and one that answers well.\<close>

definition fails_cleanly :: "'w outside \<Rightarrow> bool" where
  "fails_cleanly ou \<longleftrightarrow> (\<forall>p m q w e. snd (ou_complete ou p m q w) = Inl e \<longrightarrow> e = ProviderError \<or> e = ProviderTimeoutError)"

definition answers :: "'w outside \<Rightarrow> schema option \<Rightarrow> string \<Rightarrow> bool" where
  "answers ou sch p \<longleftrightarrow> (\<forall>m q w. case snd (ou_complete ou p m q w) of Inl e \<Rightarrow> False | Inr c \<Rightarrow> valid_for sch c)"

lemma attempt_handled:
  assumes "fails_cleanly ou"
  shows "handled (snd (attempt ou role sch temp mt st msgs s))"
proof -
  let ?q = "\<lparr>rq_messages = msgs, rq_temperature = temp, rq_max_tokens = mt, rq_json = (sch \<noteq> None)\<rparr>"
  obtain w r0 where o: "ou_complete ou (st_provider st) (st_model st) ?q (rs_world s) = (w, r0)" by fastforce
  have "r0 = Inl e \<longrightarrow> e = ProviderError \<or> e = ProviderTimeoutError" for e
    using assms o unfolding fails_cleanly_def by (metis snd_conv)
  then consider "r0 = Inl ProviderError" | "r0 = Inl ProviderTimeoutError" | c where "r0 = Inr c"
    by (cases r0) auto
  then show ?thesis using o by cases (auto simp: attempt_def Let_def split: option.split)
qed

lemma invoke_handled:
  "fails_cleanly ou \<Longrightarrow> handled (snd (invoke_loop (Suc k) ou role sch temp mt st msgs s))"
proof (induction k arbitrary: msgs s)
  case 0
  from attempt_handled [OF 0, of role sch temp mt st msgs s] show ?case
    by (auto split: prod.split sum.split exn.split)
next
  case (Suc k)
  obtain s1 r1 where a: "attempt ou role sch temp mt st msgs s = (s1, r1)" by fastforce
  with attempt_handled [OF Suc.prems, of role sch temp mt st msgs s] have "handled r1" by simp
  with a Suc show ?case by (auto simp del: invoke_loop.simps(2) simp: invoke_loop.simps(2) [of "Suc k"] split: sum.split exn.split)
qed

lemma invoke_answers:
  assumes "answers ou sch (st_provider st)"
  shows "\<exists>s' c. invoke_loop (Suc k) ou role sch temp mt st msgs s = (s', Inr c)"
proof -
  let ?q = "\<lparr>rq_messages = msgs, rq_temperature = temp, rq_max_tokens = mt, rq_json = (sch \<noteq> None)\<rparr>"
  obtain w r0 where o: "ou_complete ou (st_provider st) (st_model st) ?q (rs_world s) = (w, r0)" by fastforce
  have "case snd (ou_complete ou (st_provider st) (st_model st) ?q (rs_world s)) of Inl e \<Rightarrow> False | Inr c \<Rightarrow> valid_for sch c"
    using assms unfolding answers_def by blast
  with o obtain c where c: "r0 = Inr c" "valid_for sch c" by (auto split: sum.splits)
  have "(case sch of Some v \<Rightarrow> map_option (Pair v) (sc_error v (co_content c)) | None \<Rightarrow> None) = None"
    using c(2) by (auto simp: valid_for_def split: option.splits)
  then have "\<exists>s'. attempt ou role sch temp mt st msgs s = (s', Inr c)"
    using o c(1) by (simp add: attempt_def Let_def split: option.splits)
  then show ?thesis by auto
qed

text \<open>What the loop keeps while it has not answered.\<close>

definition serving :: "string \<Rightarrow> model_step list \<Rightarrow> 'w rstate \<Rightarrow> bool" where
  "serving p chain s \<longleftrightarrow> (\<forall>st \<in> set chain. map_of (rs_breakers s) (st_provider st) \<noteq> None) \<and>
     (\<exists>b. map_of (rs_breakers s) p = Some b \<and> cb_state b = CLOSED)"

lemma serving_log [simp]: "serving p chain (log_call ou role q m c status start s) = serving p chain s"
  by (simp add: serving_def)

lemma serving_put:
  "serving p chain s \<Longrightarrow> q = p \<longrightarrow> cb_state b = CLOSED \<Longrightarrow> serving p chain (s\<lparr>rs_breakers := dict_put q b (rs_breakers s)\<rparr>)"
  by (auto simp: serving_def)

lemma serving_same: "rs_breakers s' = rs_breakers s \<Longrightarrow> serving p chain s' = serving p chain s"
  by (simp add: serving_def)

lemma try_step_serves:
  assumes "fails_cleanly ou" "answers ou sch p" "0 \<le> retries" "\<forall>g s. gate = Some g \<longrightarrow> (\<forall>e. g s \<noteq> Inl e)"
    and "serving p chain s" "st \<in> set chain"
    and "try_step ou gate retries role msgs sch temp mt st s = (s', v)"
  shows "(\<exists>c. v = Stop (Completed c)) \<or>
    (\<exists>c. v = Next c) \<and> serving p chain s' \<and> (st_provider st = p \<longrightarrow> is_paid p (st_model st))"
proof -
  let ?p = "st_provider st"
  obtain b where b: "map_of (rs_breakers s) ?p = Some b" using assms(5,6) by (fastforce simp: serving_def)
  obtain b1 ok where a: "allow (ou_mono ou (rs_world s)) b = (b1, ok)" by fastforce
  define s1 where "s1 = s\<lparr>rs_breakers := dict_put ?p b1 (rs_breakers s)\<rparr>"
  note d = assms(7)[unfolded try_step_def Let_def b option.case a prod.case, folded s1_def]
  have cl: "?p = p \<longrightarrow> cb_state b1 = CLOSED \<and> ok"
    using a b assms(5) by (auto simp: serving_def allow_def circuit_def Let_def)
  then have s1: "serving p chain s1" using serving_put [OF assms(5), of ?p b1] by (simp add: s1_def)
  have blk: "budget_blocks gate st s1 \<noteq> Inl e'" for e'
    using assms(4) by (auto simp: budget_blocks_def split: option.splits)
  have paid: "budget_blocks gate st s1 = Inr True \<Longrightarrow> is_paid ?p (st_model st)"
    by (auto simp: budget_blocks_def split: option.splits if_splits)
  show ?thesis
  proof (cases "ok \<and> budget_blocks gate st s1 = Inr False")
    case False
    with d s1 cl blk paid show ?thesis by (auto split: if_splits sum.splits bool.splits)
  next
    case True
    obtain k where k: "nat (retries + 1) = Suc k" using assms(3) by (metis Suc_nat_eq_nat_zadd1 add.commute)
    obtain s2 r where i: "invoke_loop (Suc k) ou role sch temp mt st msgs s1 = (s2, r)" by fastforce
    have h: "handled r" using invoke_handled [OF assms(1), of k role sch temp mt st msgs s1] i by simp
    have "rs_breakers s2 = rs_breakers s1" using invoke_breakers [of "Suc k" ou role sch temp mt st msgs s1] i by simp
    then have s2: "serving p chain s2" using s1 serving_same by blast
    note d2 = d [unfolded invoke_with_feedback_def k i prod.case]
    show ?thesis
    proof (cases r)
      case (Inr c)
      with d2 True show ?thesis by auto
    next
      case (Inl e')
      have "?p \<noteq> p" using invoke_answers [of ou sch st k role temp mt msgs s1] assms(2) i Inl by auto
      then have "serving p chain (s2\<lparr>rs_breakers := dict_put ?p b' (rs_breakers s2)\<rparr>)" for b'
        using serving_put [OF s2] by blast
      with d2 True Inl h \<open>?p \<noteq> p\<close> show ?thesis by (auto simp: handled_def split: exn.splits if_splits)
    qed
  qed
qed

lemma run_chain_serves:
  assumes "fails_cleanly ou" "answers ou sch p" "0 \<le> retries" "\<forall>g s. gate = Some g \<longrightarrow> (\<forall>e. g s \<noteq> Inl e)"
  shows "serving p chain s \<Longrightarrow> set sts \<subseteq> set chain \<Longrightarrow> st \<in> set sts \<Longrightarrow> st_provider st = p \<Longrightarrow>
    \<not> is_paid p (st_model st) \<Longrightarrow> \<exists>c. snd (run_chain ou gate retries role msgs sch temp mt sts err s) = Completed c"
proof (induction sts arbitrary: s err)
  case (Cons st1 sts)
  obtain s1 v where t: "try_step ou gate retries role msgs sch temp mt st1 s = (s1, v)" by fastforce
  from try_step_serves [OF assms(1-3) _ Cons.prems(1) _ t] assms(4) Cons.prems(2)
  have "(\<exists>c. v = Stop (Completed c)) \<or> (\<exists>c. v = Next c) \<and> serving p chain s1 \<and>
      (st_provider st1 = p \<longrightarrow> is_paid p (st_model st1))" by auto
  then show ?case
  proof (elim disjE exE conjE)
    fix c assume "v = Next c" "serving p chain s1" "st_provider st1 = p \<longrightarrow> is_paid p (st_model st1)"
    with Cons.prems t Cons.IH [of s1 "case c of None \<Rightarrow> err | Some _ \<Rightarrow> c"] show ?thesis by auto
  qed (use t in auto)
qed simp

section \<open>Properties\<close>

text \<open>A world to try things on: it counts the calls and answers from a script.\<close>

definition scripted :: "(string \<Rightarrow> completion res) \<Rightarrow> (string \<times> string) list outside" where
  "scripted reply = \<lparr>ou_complete = (\<lambda>p m q w. (w @ [(p, m)], reply p)), ou_mono = (\<lambda>w. real (length w)),
     ou_perf = (\<lambda>w. real (length w)), ou_wall = (\<lambda>w. 1000), ou_db = (\<lambda>w. True)\<rparr>"

definition said :: "string \<Rightarrow> completion" where
  "said txt = \<lparr>co_content = txt, co_reasoning = None, co_provider = ''ollama'', co_model = ''qwen'',
     co_prompt_tokens = 10, co_completion_tokens = 5, co_finish_reason = None\<rparr>"

definition cloud_step :: model_step where
  "cloud_step = \<lparr>st_provider = ''groq'', st_model = ''llama-3.3-70b-versatile''\<rparr>"

definition local_step :: model_step where
  "local_step = \<lparr>st_provider = ''ollama'', st_model = ''qwen''\<rparr>"

definition demo_router :: router where
  "demo_router = \<lparr>rt_providers = [''groq'', ''ollama''], rt_roles = [(''default'', [cloud_step, local_step])],
     rt_schema_retries = 1\<rparr>"

definition demo_state :: "(string \<times> string) list rstate" where
  "demo_state = \<lparr>rs_breakers = [(''groq'', new_breaker 4 60), (''ollama'', new_breaker 4 60)],
     rs_log = [], rs_world = []\<rparr>"

definition down :: "string \<Rightarrow> completion res" where
  "down p = (if p = ''groq'' then Inl ProviderError else Inr (said ''hi''))"

lemmas demo_simps = complete_role_def chain_for_def demo_router_def demo_state_def cloud_step_def local_step_def
  try_step_def allow_def circuit_def new_breaker_def cooldown_elapsed_def budget_blocks_def invoke_with_feedback_def
  attempt_def scripted_def down_def said_def log_call_def is_paid_def estimate_cost_def PRICING_def
  record_success_def record_failure_def is_exhausted_def spent_today_def spent_since_def Let_def numeral_2_eq_2

text \<open>C4: once the day's spend has reached the ceiling, no paid provider is asked anything for the
  rest of the day: whatever the paid providers would do, the outcome, the log and the breakers are
  the same, and the day's spend does not grow.\<close>

theorem budget_is_hard:
  assumes "is_exhausted ou budget s = Inr True"
    and "\<forall>p m q w. \<not> is_paid p m \<longrightarrow> same_day ou (rs_world s) w \<longrightarrow>
           same_day ou (rs_world s) (fst (ou_complete ou p m q w))"
    and "same_unpaid ou ou'"
    and "complete_role ou (Some (is_exhausted ou budget)) rt role msgs sch temp mt s = (s', out)"
  shows "complete_role ou' (Some (is_exhausted ou' budget)) rt role msgs sch temp mt s = (s', out) \<and>
    spent_since (day_start (ou_wall ou (rs_world s))) (rs_log s') =
    spent_since (day_start (ou_wall ou (rs_world s))) (rs_log s)"
proof -
  have stays: "governor.stays ou s ou" using assms(2) by (simp add: governor.stays_def)
  note r = governor.run_chain_later [OF assms(1) stays assms(3) governor.later_refl]
  have "complete_role ou' (Some (is_exhausted ou' budget)) rt role msgs sch temp mt s = (s', out) \<and>
      governor.later ou s s'"
  proof (cases "chain_for (rt_roles rt) role")
    case (Inl e)
    with assms(4) governor.later_refl [of ou s] show ?thesis by (auto simp: complete_role_def)
  next
    case (Inr chain)
    with assms(4) r [of "rt_schema_retries rt" role msgs sch temp mt chain None] show ?thesis
      by (simp add: complete_role_def is_exhausted_same_unpaid [OF assms(3)])
  qed
  then show ?thesis by (auto simp: governor.later_def spent_since_free)
qed

definition rogue :: "(string \<times> string) list outside" where
  "rogue = (scripted down)\<lparr>ou_complete := \<lambda>p m q w.
     if is_paid p m then ([], Inr (said ''spent'')) else ou_complete (scripted down) p m q w\<rparr>"

theorem budget_is_hard_witness:
  "snd (complete_role rogue (Some (is_exhausted rogue 0)) demo_router ''r'' [] None 0 None demo_state) =
     Completed (said ''hi'') \<and>
   snd (complete_role rogue None demo_router ''r'' [] None 0 None demo_state) = Completed (said ''spent'')"
proof -
  let ?g = "\<lambda>ou. Some (is_exhausted ou 0)"
  obtain s' out where c: "complete_role (scripted down) (?g (scripted down)) demo_router ''r'' [] None 0 None demo_state
    = (s', out)" by fastforce
  then have "out = Completed (said ''hi'')" by (simp add: demo_simps)
  moreover have "same_unpaid (scripted down) rogue" by (simp add: same_unpaid_def rogue_def fun_eq_iff)
  moreover have "is_exhausted (scripted down) 0 demo_state = Inr True" by (simp add: demo_simps)
  ultimately show ?thesis
    using budget_is_hard [of "scripted down" 0 demo_state rogue demo_router "''r''" "[]" None 0 None, OF _ _ _ c]
    by (simp add: same_day_def) (simp add: demo_simps rogue_def)
qed

text \<open>C21: a request that is answered or given up is worth at most \<open>retries + 1\<close> calls of each step, in
  the chain's order, and every call is one row of the log, in order, for its provider and model;
  besides these only budget skips are logged.  One row says \<^verbatim>\<open>ok\<close> when the request is
  answered, none otherwise.  (With a database that accepts writes, and providers that raise what
  their protocol says.)\<close>

theorem calls_logged_in_order:
  assumes "records ou calls" "\<forall>w. ou_db ou w" "protocol ou"
    and "complete_role ou gate rt role msgs sch temp mt s = (s', out)" "\<forall>e. out \<noteq> Raised e"
  shows "\<exists>chain ns new. chain_for (rt_roles rt) role = Inr chain \<and> length ns = length chain \<and>
    (\<forall>n \<in> set ns. n \<le> nat (rt_schema_retries rt + 1)) \<and>
    calls (rs_world s') = calls (rs_world s) @ calls_of ns chain \<and>
    rs_log s' = rs_log s @ new \<and>
    map row_call (filter (\<lambda>r. cl_status r \<noteq> ''budget_skip'') new) = calls_of ns chain \<and>
    length (filter (\<lambda>r. cl_status r = ''ok'') new) = (case out of Completed _ \<Rightarrow> 1 | _ \<Rightarrow> 0)"
proof -
  obtain chain where ch: "chain_for (rt_roles rt) role = Inr chain"
    and r: "run_chain ou gate (rt_schema_retries rt) role msgs sch temp mt chain None s = (s', out)"
    using assms(4,5) by (auto simp: complete_role_def split: sum.splits)
  from run_chain_logged [OF assms(1-3) r assms(5)] ch show ?thesis unfolding logged_def by blast
qed

theorem calls_logged_in_order_witness:
  "\<exists>s' ns. complete_role (scripted down) None demo_router ''r'' [] None 0 None demo_state =
     (s', Completed (said ''hi'')) \<and> rs_world s' = calls_of ns [cloud_step, local_step] \<and> length (rs_log s') = 2"
proof -
  obtain s' out where c: "complete_role (scripted down) None demo_router ''r'' [] None 0 None demo_state = (s', out)"
    by fastforce
  then have o: "out = Completed (said ''hi'')" "length (rs_log s') = 2" by (auto simp: demo_simps)
  have "records (scripted down) id" "\<forall>w. ou_db (scripted down) w" "protocol (scripted down)"
    by (auto simp: records_def protocol_def scripted_def down_def)
  from calls_logged_in_order [OF this c] o obtain chain ns where
    "chain_for (rt_roles demo_router) ''r'' = Inr chain" "rs_world s' = rs_world demo_state @ calls_of ns chain" by auto
  with c o show ?thesis by (auto simp: demo_router_def chain_for_def demo_state_def)
qed

text \<open>C22: a completion handed out is a reply a provider of the role's chain gave, it validates against
  the schema asked for, and that provider's circuit is closed with no failures counted.\<close>

theorem completion_validated:
  assumes "complete_role ou gate rt role msgs sch temp mt s = (s', Completed c)"
  shows "\<exists>chain. chain_for (rt_roles rt) role = Inr chain \<and> (\<exists>st \<in> set chain.
    (\<exists>q w. snd (ou_complete ou (st_provider st) (st_model st) q w) = Inr c) \<and>
    (\<forall>v. sch = Some v \<longrightarrow> sc_error v (co_content c) = None) \<and>
    (\<exists>b. map_of (rs_breakers s') (st_provider st) = Some b \<and> cb_state b = CLOSED \<and> cb_failures b = 0))"
proof -
  obtain chain where ch: "chain_for (rt_roles rt) role = Inr chain"
    and r: "run_chain ou gate (rt_schema_retries rt) role msgs sch temp mt chain None s = (s', Completed c)"
    using assms by (auto simp: complete_role_def split: sum.splits)
  from run_chain_valid [OF r] ch show ?thesis by (auto simp: valid_for_def split: option.splits)
qed

theorem completion_validated_witness:
  "\<exists>s'. complete_role (scripted down) None demo_router ''r'' []
       (Some \<lparr>sc_name = ''S'', sc_error = \<lambda>t. if t = ''hi'' then None else Some ''no''\<rparr>) 0 None demo_state =
     (s', Completed (said ''hi'')) \<and> (\<exists>st \<in> {cloud_step, local_step}. \<exists>b.
       map_of (rs_breakers s') (st_provider st) = Some b \<and> cb_failures b = 0)"
proof -
  let ?v = "Some \<lparr>sc_name = ''S'', sc_error = \<lambda>t. if t = ''hi'' then None else Some ''no''\<rparr>"
  obtain s' out where c: "complete_role (scripted down) None demo_router ''r'' [] ?v 0 None demo_state = (s', out)"
    by fastforce
  then have o: "out = Completed (said ''hi'')" by (auto simp: demo_simps)
  from completion_validated [OF c[unfolded o]] c o show ?thesis by (auto simp: demo_router_def chain_for_def)
qed

text \<open>tired is not dead.  When the chain of a role has a free step whose provider answers well and
  whose circuit is closed, the request is answered, whatever the budget gate says and however the
  other providers fail, as long as they fail the way their protocol says and the gate can be read.\<close>

theorem tired_still_serves:
  assumes "chain_for (rt_roles rt) role = Inr chain" "st \<in> set chain" "\<not> is_paid (st_provider st) (st_model st)"
    and "map_of (rs_breakers s) (st_provider st) = Some b" "cb_state b = CLOSED" "answers ou sch (st_provider st)"
    and "fails_cleanly ou" "\<forall>st' \<in> set chain. map_of (rs_breakers s) (st_provider st') \<noteq> None"
    and "\<forall>g s. gate = Some g \<longrightarrow> (\<forall>e. g s \<noteq> Inl e)" "0 \<le> rt_schema_retries rt"
  shows "\<exists>c. snd (complete_role ou gate rt role msgs sch temp mt s) = Completed c"
proof -
  have "serving (st_provider st) chain s" using assms(4,5,8) by (auto simp: serving_def)
  from run_chain_serves [OF assms(7,6,10,9) this order_refl assms(2) refl assms(3)] assms(1)
  show ?thesis by (simp add: complete_role_def)
qed

theorem tired_still_serves_witness:
  "\<exists>c. snd (complete_role (scripted down) (Some (\<lambda>s. Inr True)) demo_router ''r'' [] None 0 None demo_state) = Completed c"
proof -
  have "answers (scripted down) None ''ollama''" "fails_cleanly (scripted down)"
    by (auto simp: answers_def fails_cleanly_def scripted_def down_def valid_for_def)
  then show ?thesis
    by (intro tired_still_serves [where chain = "[cloud_step, local_step]" and st = local_step and b = "new_breaker 4 60"])
      (auto simp: demo_router_def chain_for_def local_step_def cloud_step_def is_paid_def estimate_cost_def PRICING_def
        demo_state_def new_breaker_def)
qed

end
