(* ===== verification/Effectors.thy ===== *)
theory Effectors
  imports Workspace
begin

text \<open>
  Acting on the world: the tool belt (\<^verbatim>\<open>brain/effectors/tools.py\<close>), the Conscience
  (\<^verbatim>\<open>brain/agents/conscience.py\<close>), the one dispatch point (\<^verbatim>\<open>brain/effectors/dispatch.py\<close>) and
  the Core's audit writer (\<^verbatim>\<open>core/audit.py\<close>).

  A tool is a record of its name, its hazard class, its argument validator and its body, which may
  change the world or raise.  The model call, the JSON parser and printer, and whether the database
  can be reached are the record \<open>mind\<close>.  Settings' secrets are those of the bus.
\<close>

section \<open>Tools\<close>

datatype danger_class = SAFE | NETWORK | EXEC | PUBLIC

fun danger_name :: "danger_class \<Rightarrow> string" where
  "danger_name SAFE = ''safe''"
| "danger_name NETWORK = ''network''"
| "danger_name EXEC = ''exec''"
| "danger_name PUBLIC = ''public''"

record tool_result =
  tr_success :: bool
  tr_output :: "(string \<times> json) list"
  tr_summary :: string

definition result_dump :: "tool_result \<Rightarrow> (string \<times> json) list" where
  "result_dump r = [(''success'', JBool (tr_success r)), (''output'', JDict (tr_output r)),
                    (''summary'', JStr (tr_summary r))]"

record 'w tool =
  to_name :: string
  to_danger :: danger_class
  to_validate :: "(string \<times> json) list \<Rightarrow> json res"
  to_run :: "json \<Rightarrow> 'w \<Rightarrow> 'w \<times> tool_result res"

type_synonym 'w belt = "(string \<times> 'w tool) list"

definition belt_register :: "'w tool \<Rightarrow> 'w belt \<Rightarrow> 'w belt res" where
  "belt_register t b =
     (if map_of b (to_name t) \<noteq> None then Inl ValueError else Inr (dict_put (to_name t) t b))"

definition belt_retire :: "string \<Rightarrow> 'w belt \<Rightarrow> 'w belt" where
  "belt_retire n b = dict_del n b"

definition belt_resolve :: "string \<Rightarrow> 'w belt \<Rightarrow> 'w tool res" where
  "belt_resolve n b = (case map_of b n of None \<Rightarrow> Inl KeyError | Some t \<Rightarrow> Inr t)"

definition belt_get :: "string \<Rightarrow> 'w belt \<Rightarrow> 'w tool option" where
  "belt_get n b = map_of b n"

definition belt_names :: "'w belt \<Rightarrow> string list" where
  "belt_names b = map fst b"

definition validate_args :: "'w tool \<Rightarrow> (string \<times> json) list \<Rightarrow> json res" where
  "validate_args t raw = to_validate t raw"

text \<open>The inert tool: strict about its one argument.\<close>

definition noop_validate :: "(string \<times> json) list \<Rightarrow> json res" where
  "noop_validate raw =
     (case raw of
        [(k, JStr m)] \<Rightarrow> if k = ''message'' then Inr (JStr m) else Inl ValidationError
      | _ \<Rightarrow> Inl ValidationError)"

definition noop_run :: "json \<Rightarrow> 'w \<Rightarrow> 'w \<times> tool_result res" where
  "noop_run args w =
     (case args of
        JStr m \<Rightarrow> (w, Inr \<lparr>tr_success = True, tr_output = [(''echo'', JStr m)],
                            tr_summary = ''noop echoed: '' @ py_repr m\<rparr>)
      | _ \<Rightarrow> (w, Inl TypeError))"

definition noop_tool :: "'w tool" where
  "noop_tool = \<lparr>to_name = ''noop'', to_danger = SAFE, to_validate = noop_validate, to_run = noop_run\<rparr>"

definition default_tool_registry :: "'w belt res" where
  "default_tool_registry = belt_register noop_tool []"

section \<open>The Conscience\<close>

record proposed_action =
  pa_tool :: string
  pa_args :: "(string \<times> json) list"
  pa_danger :: string
  pa_goal_id :: "int option"
  pa_goal_description :: string

datatype verdict_kind = ALLOW | VETO

fun verdict_name :: "verdict_kind \<Rightarrow> string" where
  "verdict_name ALLOW = ''allow''"
| "verdict_name VETO = ''veto''"

record verdict =
  vd_kind :: verdict_kind
  vd_reason :: string

definition allowed :: "verdict \<Rightarrow> bool" where
  "allowed v \<longleftrightarrow> vd_kind v = ALLOW"

definition parse_verdict :: "(string \<Rightarrow> json option) \<Rightarrow> string \<Rightarrow> verdict res" where
  "parse_verdict parse content =
     (case parse content of
        Some (JDict d) \<Rightarrow>
          (let kind = (case map_of d ''verdict'' of
                         Some (JStr s) \<Rightarrow> if s = ''allow'' then Some ALLOW else if s = ''veto'' then Some VETO else None
                       | _ \<Rightarrow> None);
               reason = (case map_of d ''reason'' of
                           None \<Rightarrow> Some [] | Some (JStr s) \<Rightarrow> Some s | Some _ \<Rightarrow> None)
           in case (kind, reason) of
                (Some k, Some s) \<Rightarrow> Inr \<lparr>vd_kind = k, vd_reason = s\<rparr>
              | _ \<Rightarrow> Inl ValidationError)
      | _ \<Rightarrow> Inl ValidationError)"

record 'w mind =
  mi_ask :: "string \<Rightarrow> 'w \<Rightarrow> 'w \<times> string res"
  mi_parse :: "string \<Rightarrow> json option"
  mi_dumps :: "(string \<times> json) list \<Rightarrow> string"
  mi_db :: "'w \<Rightarrow> bool"

definition render_action :: "'w mind \<Rightarrow> proposed_action \<Rightarrow> ws_item list \<Rightarrow> string" where
  "render_action mi a items = join NEWLINE (
     [''Johnny is about to take this action:'',
      ''- tool: '' @ pa_tool a @ '' (hazard class: '' @ pa_danger a @ '')'',
      ''- arguments: '' @ mi_dumps mi (pa_args a)] @
     (if pa_goal_description a \<noteq> [] then [''- in service of the goal: '' @ pa_goal_description a] else []) @
     (if items \<noteq> [] then [''What is in his awareness right now:'',
        join NEWLINE (map (\<lambda>i. ''  - ['' @ wi_kind i @ ''] '' @ wi_content i) items)] else []) @
     ['''', ''Should he, given his values?'',
      ''Respond with ONLY JSON: {'' @ [CHR 0x22] @ ''verdict'' @ [CHR 0x22] @ '': '' @
      [CHR 0x22] @ ''allow'' @ [CHR 0x22] @ ''|'' @ [CHR 0x22] @ ''veto'' @ [CHR 0x22] @ '', '' @
      [CHR 0x22] @ ''reason'' @ [CHR 0x22] @ '': '' @ [CHR 0x22] @ ''<short first-person line>'' @
      [CHR 0x22] @ ''}.''])"

definition UNAVAILABLE_REASON :: string where
  "UNAVAILABLE_REASON = ''I couldn'' @ [CHR 0x27] @ ''t consult my conscience just now, so I'' @ [CHR 0x27] @
     ''m holding off on this.''"

definition conscience_vet :: "'w mind \<Rightarrow> proposed_action \<Rightarrow> ws_item list \<Rightarrow> 'w \<Rightarrow> 'w \<times> verdict res" where
  "conscience_vet mi a items w =
     (case mi_ask mi (render_action mi a items) w of
        (w1, Inl LLMUnavailableError) \<Rightarrow> (w1, Inr \<lparr>vd_kind = VETO, vd_reason = UNAVAILABLE_REASON\<rparr>)
      | (w1, Inl e) \<Rightarrow> (w1, Inl e)
      | (w1, Inr content) \<Rightarrow> (w1, parse_verdict (mi_parse mi) content))"

section \<open>The audit\<close>

record action_row =
  ac_tool :: string
  ac_args :: "(string \<times> json) list"
  ac_result :: "(string \<times> json) list option"
  ac_verdict :: verdict_kind
  ac_veto_reason :: "string option"
  ac_goal_id :: "int option"
  ac_success :: bool

definition TOOL_COLUMN :: nat where "TOOL_COLUMN = 128"

text \<open>The state of the effectors: the world, the \<^verbatim>\<open>action_log\<close> table, the bus.\<close>

record 'w effect_state =
  es_world :: 'w
  es_actions :: "action_row list"
  es_bus :: workspace

definition record_action :: "'w mind \<Rightarrow> action_row \<Rightarrow> 'w effect_state \<Rightarrow> 'w effect_state res" where
  "record_action mi row s =
     (let st = wk_secrets (es_bus s);
          safe = row\<lparr>ac_args := redact_payload st (ac_args row),
                     ac_result := map_option (redact_payload st) (ac_result row)\<rparr>
      in if \<not> mi_db mi (es_world s) then Inl (OtherError ''database'')
         else if TOOL_COLUMN < length (ac_tool row) then Inl (OtherError ''DataError'')
         else Inr (s\<lparr>es_actions := es_actions s @ [safe]\<rparr>))"

section \<open>The dispatch\<close>

record dispatch_outcome =
  oc_ran :: bool
  oc_verdict :: verdict
  oc_result :: "tool_result option"
  oc_summary :: string

record 'w vetted =
  va_action :: proposed_action
  va_tool :: "'w tool"
  va_validated :: json
  va_verdict :: verdict

definition vet :: "'w mind \<Rightarrow> 'w belt \<Rightarrow> proposed_action \<Rightarrow> ws_item list \<Rightarrow> 'w \<Rightarrow> 'w \<times> 'w vetted res" where
  "vet mi belt a items w =
     (case belt_get (pa_tool a) belt of
        None \<Rightarrow> (w, Inl DispatchError)
      | Some t \<Rightarrow>
          let a1 = a\<lparr>pa_danger := danger_name (to_danger t)\<rparr>
          in case validate_args t (pa_args a1) of
               Inl e \<Rightarrow> (w, Inl e)
             | Inr x \<Rightarrow>
                 (case conscience_vet mi a1 items w of
                    (w1, Inl e) \<Rightarrow> (w1, Inl e)
                  | (w1, Inr v) \<Rightarrow>
                      (w1, Inr \<lparr>va_action = a1, va_tool = t, va_validated = x, va_verdict = v\<rparr>)))"

definition emit_action :: "string \<Rightarrow> proposed_action \<Rightarrow> verdict \<Rightarrow> tool_result option \<Rightarrow> bool \<Rightarrow>
    'w effect_state \<Rightarrow> 'w effect_state res" where
  "emit_action ty a v result success s =
     ok_bind (broadcast \<lparr>ev_id = None, ev_ts = None, ev_module = ''effectors'', ev_type = ty,
         ev_payload = [(''tool'', JStr (pa_tool a)), (''danger'', JStr (pa_danger a)), (''args'', JDict (pa_args a)),
           (''verdict'', JStr (verdict_name (vd_kind v))), (''reason'', JStr (vd_reason v)),
           (''goal_id'', (case pa_goal_id a of Some g \<Rightarrow> JInt g | None \<Rightarrow> JNull)),
           (''success'', JBool success),
           (''result'', (case result of Some r \<Rightarrow> JDict (result_dump r) | None \<Rightarrow> JNull))],
         ev_hops = 0\<rparr> (es_bus s))
       (\<lambda>(bus, out). Inr (s\<lparr>es_bus := bus\<rparr>))"

definition strip_chars :: "string \<Rightarrow> string \<Rightarrow> string" where
  "strip_chars cs s = rev (dropWhile (\<lambda>c. c \<in> set cs) (rev (dropWhile (\<lambda>c. c \<in> set cs) s)))"

text \<open>What was done before an exception stays done: the state comes back with the result.\<close>

definition commit :: "'w mind \<Rightarrow> 'w vetted \<Rightarrow> 'w effect_state \<Rightarrow> 'w effect_state \<times> dispatch_outcome res" where
  "commit mi vt s =
     (let a = va_action vt; v = va_verdict vt
      in if \<not> allowed v then
           (case record_action mi \<lparr>ac_tool = pa_tool a, ac_args = pa_args a, ac_result = None,
                    ac_verdict = vd_kind v, ac_veto_reason = (if vd_reason v = [] then None else Some (vd_reason v)),
                    ac_goal_id = pa_goal_id a, ac_success = False\<rparr> s of
              Inl e \<Rightarrow> (s, Inl e)
            | Inr s1 \<Rightarrow>
                (case emit_action ''action.vetoed'' a v None False s1 of
                   Inl e \<Rightarrow> (s1, Inl e)
                 | Inr s2 \<Rightarrow> (s2, Inr \<lparr>oc_ran = False, oc_verdict = v, oc_result = None,
                                     oc_summary = strip_chars '': '' (''vetoed: '' @ vd_reason v)\<rparr>)))
         else
           (case to_run (va_tool vt) (va_validated vt) (es_world s) of
              (w1, Inl e) \<Rightarrow> (s\<lparr>es_world := w1\<rparr>, Inl e)
            | (w1, Inr r) \<Rightarrow>
                let s1 = s\<lparr>es_world := w1\<rparr>
                in case record_action mi \<lparr>ac_tool = pa_tool a, ac_args = pa_args a, ac_result = Some (result_dump r),
                          ac_verdict = vd_kind v, ac_veto_reason = None, ac_goal_id = pa_goal_id a,
                          ac_success = tr_success r\<rparr> s1 of
                     Inl e \<Rightarrow> (s1, Inl e)
                   | Inr s2 \<Rightarrow>
                       (case emit_action ''action.dispatched'' a v (Some r) (tr_success r) s2 of
                          Inl e \<Rightarrow> (s2, Inl e)
                        | Inr s3 \<Rightarrow> (s3, Inr \<lparr>oc_ran = True, oc_verdict = v, oc_result = Some r,
                                            oc_summary = tr_summary r\<rparr>))))"

definition propose :: "'w mind \<Rightarrow> 'w belt \<Rightarrow> proposed_action \<Rightarrow> ws_item list \<Rightarrow> 'w effect_state \<Rightarrow>
    'w effect_state \<times> dispatch_outcome res" where
  "propose mi belt a items s =
     (case vet mi belt a items (es_world s) of
        (w1, Inl e) \<Rightarrow> (s\<lparr>es_world := w1\<rparr>, Inl e)
      | (w1, Inr vt) \<Rightarrow> commit mi vt (s\<lparr>es_world := w1\<rparr>))"

section \<open>No run without an allow\<close>

text \<open>Belts with the same names, hazard classes and validators; the bodies may differ.\<close>

definition same_but_run :: "'w belt \<Rightarrow> 'w belt \<Rightarrow> bool" where
  "same_but_run b b' \<longleftrightarrow> (\<forall>n. map_option (\<lambda>t. (to_danger t, to_validate t)) (map_of b n) =
                               map_option (\<lambda>t. (to_danger t, to_validate t)) (map_of b' n))"

lemma vet_same:
  assumes "same_but_run b b'" "vet mi b a items w = (w1, r)"
  shows "\<exists>r'. vet mi b' a items w = (w1, r') \<and>
    (case r of Inl e \<Rightarrow> r' = Inl e
     | Inr vt \<Rightarrow> \<exists>t'. r' = Inr (vt\<lparr>va_tool := t'\<rparr>))"
proof -
  have m: "map_option (\<lambda>t. (to_danger t, to_validate t)) (map_of b (pa_tool a)) =
           map_option (\<lambda>t. (to_danger t, to_validate t)) (map_of b' (pa_tool a))"
    using assms(1) by (simp add: same_but_run_def)
  show ?thesis
  proof (cases "map_of b (pa_tool a)")
    case None
    with m assms(2) show ?thesis by (auto simp: vet_def belt_get_def)
  next
    case (Some t)
    with m obtain t' where t': "map_of b' (pa_tool a) = Some t'" "to_danger t' = to_danger t"
      "to_validate t' = to_validate t" by (cases "map_of b' (pa_tool a)") auto
    with Some assms(2) show ?thesis
      by (auto simp: vet_def belt_get_def validate_args_def Let_def split: sum.splits prod.splits)
  qed
qed

lemma commit_vetoed_same:
  "\<not> allowed (va_verdict vt) \<Longrightarrow> commit mi (vt\<lparr>va_tool := t'\<rparr>) s = commit mi vt s"
  by (simp add: commit_def Let_def)

lemma vet_InrD:
  assumes "vet mi b a items w = (w1, Inr vt)"
  shows "\<exists>t. map_of b (pa_tool a) = Some t \<and> va_tool vt = t \<and>
    va_action vt = a\<lparr>pa_danger := danger_name (to_danger t)\<rparr> \<and>
    to_validate t (pa_args a) = Inr (va_validated vt) \<and>
    conscience_vet mi (a\<lparr>pa_danger := danger_name (to_danger t)\<rparr>) items w = (w1, Inr (va_verdict vt))"
  using assms
  by (auto simp: vet_def belt_get_def validate_args_def Let_def split: option.splits sum.splits prod.splits)

lemma conscience_allow:
  assumes "conscience_vet mi a items w = (w1, Inr v)" "allowed v"
  shows "\<exists>content. mi_ask mi (render_action mi a items) w = (w1, Inr content) \<and> parse_verdict (mi_parse mi) content = Inr v"
  using assms by (auto simp: conscience_vet_def allowed_def split: prod.splits sum.splits exn.splits)

text \<open>C1: a tool acts only behind an allow.  Either the outcome and all that is left behind are
  independent of what the tools' bodies do, or the tool is on the belt, accepted the arguments, and
  the model, asked about this very action with the tool's own hazard class, gave an answer that
  parses to allow.  A model that is unavailable vetoes.\<close>

theorem acts_only_if_allowed:
  assumes "same_but_run belt belt'" "propose mi belt a items s = (s', r)"
  shows "propose mi belt' a items s = (s', r) \<or>
    (\<exists>t x w1 content v. map_of belt (pa_tool a) = Some t \<and> to_validate t (pa_args a) = Inr x \<and>
       mi_ask mi (render_action mi (a\<lparr>pa_danger := danger_name (to_danger t)\<rparr>) items) (es_world s) = (w1, Inr content) \<and>
       parse_verdict (mi_parse mi) content = Inr v \<and> vd_kind v = ALLOW)"
proof -
  obtain w1 r1 where v: "vet mi belt a items (es_world s) = (w1, r1)" by fastforce
  from vet_same [OF assms(1) this] obtain r1' where v': "vet mi belt' a items (es_world s) = (w1, r1')"
    "case r1 of Inl e \<Rightarrow> r1' = Inl e | Inr vt \<Rightarrow> \<exists>t'. r1' = Inr (vt\<lparr>va_tool := t'\<rparr>)" by blast
  show ?thesis
  proof (cases r1)
    case (Inl e)
    with v v' assms(2) show ?thesis by (simp add: propose_def)
  next
    case (Inr vt)
    show ?thesis
    proof (cases "allowed (va_verdict vt)")
      case False
      with v v' Inr assms(2) commit_vetoed_same [OF False] show ?thesis by (auto simp: propose_def)
    next
      case True
      from vet_InrD [OF v [unfolded Inr]] obtain t where t: "map_of belt (pa_tool a) = Some t"
        "to_validate t (pa_args a) = Inr (va_validated vt)"
        "conscience_vet mi (a\<lparr>pa_danger := danger_name (to_danger t)\<rparr>) items (es_world s) = (w1, Inr (va_verdict vt))"
        by blast
      from conscience_allow [OF t(3) True] t(1,2) True show ?thesis by (auto simp: allowed_def)
    qed
  qed
qed

section \<open>The trail\<close>

definition row_ok :: "secret_settings \<Rightarrow> action_row \<Rightarrow> bool" where
  "row_ok st row \<longleftrightarrow>
     scrubbed_json (known_secret_values st) (JDict (ac_args row)) \<and>
     (case ac_result row of None \<Rightarrow> ac_verdict row = VETO \<and> \<not> ac_success row
      | Some res \<Rightarrow> ac_verdict row = ALLOW \<and> ac_veto_reason row = None \<and>
          scrubbed_json (known_secret_values st) (JDict res))"

text \<open>What one proposal leaves in the log, against its result: a returned outcome is one row.\<close>

definition row_of :: "dispatch_outcome res \<Rightarrow> action_row list \<Rightarrow> bool" where
  "row_of r rows \<longleftrightarrow> length rows \<le> 1 \<and>
     (\<forall>oc. r = Inr oc \<longrightarrow> (\<exists>row. rows = [row] \<and> ac_verdict row = vd_kind (oc_verdict oc) \<and>
        (oc_ran oc \<longleftrightarrow> ac_verdict row = ALLOW) \<and>
        ac_success row = (case oc_result oc of Some r \<Rightarrow> tr_success r | None \<Rightarrow> False)))"

lemma scrubbed_payload:
  "list_all secret_ok (known_secret_values st) \<Longrightarrow> scrubbed_json (known_secret_values st) (JDict (redact_payload st p))"
  using scrubbed_redact_value [of "known_secret_values st" "JDict p"] by (simp only: redact_payload_json)

lemma emit_effect:
  assumes "emit_action ty a v r ok s = Inr s'"
  shows "es_actions s' = es_actions s \<and> es_world s' = es_world s \<and> wk_secrets (es_bus s') = wk_secrets (es_bus s)"
proof -
  from assms obtain bus out ev where "broadcast ev (es_bus s) = Inr (bus, out)" "s' = s\<lparr>es_bus := bus\<rparr>"
    by (auto simp: emit_action_def ok_bind_Inr_iff)
  with broadcast_effect [OF this(1)] show ?thesis by auto
qed

lemma record_effect:
  assumes "record_action mi row s = Inr s'" "list_all secret_ok (known_secret_values (wk_secrets (es_bus s)))"
  shows "\<exists>row'. es_actions s' = es_actions s @ [row'] \<and> es_bus s' = es_bus s \<and> ac_verdict row' = ac_verdict row \<and>
    ac_success row' = ac_success row \<and> ac_veto_reason row' = ac_veto_reason row \<and>
    scrubbed_json (known_secret_values (wk_secrets (es_bus s))) (JDict (ac_args row')) \<and>
    (ac_result row' = None \<longleftrightarrow> ac_result row = None) \<and>
    (\<forall>res. ac_result row' = Some res \<longrightarrow> scrubbed_json (known_secret_values (wk_secrets (es_bus s))) (JDict res))"
  using assms by (auto simp: record_action_def Let_def scrubbed_payload simp del: scrubbed_json.simps split: if_splits)

definition trail :: "'w effect_state \<Rightarrow> 'w effect_state \<Rightarrow> dispatch_outcome res \<Rightarrow> bool" where
  "trail s s' r \<longleftrightarrow> wk_secrets (es_bus s') = wk_secrets (es_bus s) \<and>
     (\<exists>rows. es_actions s' = es_actions s @ rows \<and> row_of r rows \<and> list_all (row_ok (wk_secrets (es_bus s))) rows)"

lemma trail_nothing: "es_actions s' = es_actions s \<Longrightarrow> es_bus s' = es_bus s \<Longrightarrow> trail s s' (Inl e)"
  by (simp add: trail_def row_of_def)

lemma trail_world [simp]: "trail (s\<lparr>es_world := w\<rparr>) s' r = trail s s' r"
  by (simp add: trail_def)

text \<open>Record, then emit: the row is there whether the event goes out or not.\<close>

lemma record_emit_trail:
  assumes rec: "record_action mi row s = Inr s1"
    and sec: "list_all secret_ok (known_secret_values (wk_secrets (es_bus s)))"
    and kind: "case ac_result row of None \<Rightarrow> ac_verdict row = VETO \<and> \<not> ac_success row
               | Some _ \<Rightarrow> ac_verdict row = ALLOW \<and> ac_veto_reason row = None"
    and oc: "ac_verdict row = vd_kind (oc_verdict oc)" "oc_ran oc \<longleftrightarrow> ac_verdict row = ALLOW"
      "ac_success row = (case oc_result oc of Some r \<Rightarrow> tr_success r | None \<Rightarrow> False)"
  shows "trail s s1 (Inl e)" "emit_action ty a v r ok s1 = Inr s2 \<Longrightarrow> trail s s2 (Inr oc)"
proof -
  from record_effect [OF rec sec] obtain row' where row':
    "es_actions s1 = es_actions s @ [row']" "es_bus s1 = es_bus s" "ac_verdict row' = ac_verdict row"
    "ac_success row' = ac_success row" "ac_veto_reason row' = ac_veto_reason row"
    "scrubbed_json (known_secret_values (wk_secrets (es_bus s))) (JDict (ac_args row'))"
    "ac_result row' = None \<longleftrightarrow> ac_result row = None"
    "\<forall>res. ac_result row' = Some res \<longrightarrow> scrubbed_json (known_secret_values (wk_secrets (es_bus s))) (JDict res)"
    by (elim exE conjE) (rule that, assumption+)
  have ok: "row_ok (wk_secrets (es_bus s)) row'"
  proof (cases "ac_result row")
    case None
    then have "ac_result row' = None" using row'(7) by simp
    with row'(3,4,6) kind None show ?thesis unfolding row_ok_def by simp
  next
    case (Some res)
    then obtain res' where "ac_result row' = Some res'" using row'(7) by (cases "ac_result row'") simp_all
    with row'(3,5,6,8) kind Some show ?thesis unfolding row_ok_def by (simp del: scrubbed_json.simps)
  qed
  have one: "row_of (Inl e) [row']" "row_of (Inr oc) [row']" using row'(3,4) oc by (simp_all add: row_of_def)
  show "trail s s1 (Inl e)" using row'(1,2) ok one(1) by (simp add: trail_def)
  assume "emit_action ty a v r ok s1 = Inr s2"
  from emit_effect [OF this] row'(1,2) ok one(2) show "trail s s2 (Inr oc)" by (simp add: trail_def)
qed

lemma commit_trail:
  assumes "commit mi vt s = (s', r)" "list_all secret_ok (known_secret_values (wk_secrets (es_bus s)))"
  shows "trail s s' r"
proof -
  let ?a = "va_action vt" and ?v = "va_verdict vt"
  show ?thesis
  proof (cases "allowed ?v")
    case False
    define row where "row = \<lparr>ac_tool = pa_tool ?a, ac_args = pa_args ?a, ac_result = None,
      ac_verdict = vd_kind ?v, ac_veto_reason = (if vd_reason ?v = [] then None else Some (vd_reason ?v)),
      ac_goal_id = pa_goal_id ?a, ac_success = False\<rparr>"
    have veto: "vd_kind ?v = VETO" using False by (cases "vd_kind ?v") (simp_all add: allowed_def)
    note c = assms(1)[unfolded commit_def Let_def, folded row_def]
    show ?thesis
    proof (cases "record_action mi row s")
      case (Inl e)
      with c False show ?thesis by (auto intro: trail_nothing)
    next
      case (Inr s1)
      let ?oc = "\<lparr>oc_ran = False, oc_verdict = ?v, oc_result = None,
        oc_summary = strip_chars '': '' (''vetoed: '' @ vd_reason ?v)\<rparr>"
      note re = record_emit_trail [OF Inr assms(2), of ?oc]
      from c False Inr show ?thesis using re veto
        by (auto simp: row_def split: sum.splits)
    qed
  next
    case True
    obtain w1 r1 where run: "to_run (va_tool vt) (va_validated vt) (es_world s) = (w1, r1)" by fastforce
    show ?thesis
    proof (cases r1)
      case (Inl e)
      with assms(1) True run show ?thesis by (auto simp: commit_def Let_def intro: trail_nothing)
    next
      case (Inr tr)
      define row where "row = \<lparr>ac_tool = pa_tool ?a, ac_args = pa_args ?a, ac_result = Some (result_dump tr),
        ac_verdict = vd_kind ?v, ac_veto_reason = None, ac_goal_id = pa_goal_id ?a, ac_success = tr_success tr\<rparr>"
      define s0 where "s0 = s\<lparr>es_world := w1\<rparr>"
      have sec: "list_all secret_ok (known_secret_values (wk_secrets (es_bus s0)))" using assms(2) by (simp add: s0_def)
      have t0: "trail s0 x y = trail s x y" for x y by (simp add: s0_def)
      note c = assms(1)[unfolded commit_def Let_def run prod.case Inr sum.case, folded s0_def row_def]
      show ?thesis
      proof (cases "record_action mi row s0")
        case (Inl e)
        with c True show ?thesis unfolding t0 [symmetric] by (auto intro: trail_nothing)
      next
        case rec: (Inr s1)
        let ?oc = "\<lparr>oc_ran = True, oc_verdict = ?v, oc_result = Some tr, oc_summary = tr_summary tr\<rparr>"
        note re = record_emit_trail [OF rec sec, of ?oc]
        from c True rec show ?thesis using re unfolding t0 [symmetric]
          by (auto simp: row_def allowed_def split: sum.splits)
      qed
    qed
  qed
qed

lemma propose_trail:
  assumes "propose mi belt a items s = (s', r)" "list_all secret_ok (known_secret_values (wk_secrets (es_bus s)))"
  shows "trail s s' r"
proof -
  obtain w1 r1 where v: "vet mi belt a items (es_world s) = (w1, r1)" by fastforce
  show ?thesis
  proof (cases r1)
    case (Inl e)
    with v assms(1) show ?thesis by (auto simp: propose_def intro: trail_nothing)
  next
    case (Inr vt)
    with v assms(1) have "commit mi vt (s\<lparr>es_world := w1\<rparr>) = (s', r)" by (simp add: propose_def)
    from commit_trail [OF this] assms(2) show ?thesis by simp
  qed
qed

text \<open>A session of proposals, one after the other.\<close>

fun propose_all :: "'w mind \<Rightarrow> 'w belt \<Rightarrow> (proposed_action \<times> ws_item list) list \<Rightarrow> 'w effect_state \<Rightarrow>
    'w effect_state \<times> dispatch_outcome res list" where
  "propose_all mi belt [] s = (s, [])"
| "propose_all mi belt ((a, items) # xs) s =
     (let (s1, r) = propose mi belt a items s; (s2, rs) = propose_all mi belt xs s1 in (s2, r # rs))"

lemma propose_all_trail:
  "propose_all mi belt xs s = (s', rs) \<Longrightarrow> list_all secret_ok (known_secret_values (wk_secrets (es_bus s))) \<Longrightarrow>
   \<exists>rowss. es_actions s' = es_actions s @ concat rowss \<and> list_all2 row_of rs rowss \<and>
     list_all (row_ok (wk_secrets (es_bus s))) (concat rowss)"
proof (induction xs arbitrary: s s' rs)
  case (Cons x xs)
  obtain a items where x: "x = (a, items)" by (cases x)
  obtain s1 r where 1: "propose mi belt a items s = (s1, r)" by fastforce
  obtain s2 rs' where 2: "propose_all mi belt xs s1 = (s2, rs')" by fastforce
  from propose_trail [OF 1 Cons.prems(2)] obtain rows where rows: "es_actions s1 = es_actions s @ rows"
    "row_of r rows" "list_all (row_ok (wk_secrets (es_bus s))) rows" "wk_secrets (es_bus s1) = wk_secrets (es_bus s)"
    unfolding trail_def by blast
  from Cons.IH [OF 2] Cons.prems(2) rows(4) obtain rowss where "es_actions s2 = es_actions s1 @ concat rowss"
    "list_all2 row_of rs' rowss" "list_all (row_ok (wk_secrets (es_bus s))) (concat rowss)" by auto
  with rows Cons.prems(1) 1 2 x show ?case by (intro exI [of _ "rows # rowss"]) auto
qed simp


section \<open>Examples\<close>

definition say :: "string \<Rightarrow> proposed_action" where
  "say m = \<lparr>pa_tool = ''noop'', pa_args = [(''message'', JStr m)], pa_danger = ''safe'', pa_goal_id = None,
     pa_goal_description = []\<rparr>"

text \<open>A model that answers \<^verbatim>\<open>A\<close> for allow or \<^verbatim>\<open>V\<close> for veto.\<close>

definition mind_demo :: "string \<Rightarrow> nat mind" where
  "mind_demo answer = \<lparr>mi_ask = \<lambda>q w. (w, Inr answer),
     mi_parse = \<lambda>c. Some (JDict [(''verdict'', JStr (if c = ''A'' then ''allow'' else ''veto''))]),
     mi_dumps = \<lambda>d. [], mi_db = \<lambda>w. True\<rparr>"

definition tally_tool :: "nat tool" where
  "tally_tool = noop_tool\<lparr>to_run := \<lambda>x w. (Suc w, Inr \<lparr>tr_success = True, tr_output = [], tr_summary = []\<rparr>)\<rparr>"

definition effects_demo :: "nat effect_state" where
  "effects_demo = \<lparr>es_world = 0, es_actions = [], es_bus =
     \<lparr>wk_secrets = \<lparr>groq_api_key = None, ws_token = None, postgres_password = None\<rparr>, wk_max_hops = 8,
      wk_now = real, wk_log = [], wk_channel = [], wk_subs = [], wk_contents = None\<rparr>\<rparr>"

lemmas effector_simps = propose_def vet_def belt_get_def validate_args_def conscience_vet_def parse_verdict_def
  commit_def allowed_def record_action_def emit_action_def broadcast_def persist_event_def publish_event_def
  mind_demo_def say_def tally_tool_def noop_tool_def noop_validate_def effects_demo_def Let_def
  TOOL_COLUMN_def NAME_COLUMN_def

theorem acts_only_if_allowed_witness:
  "propose (mind_demo ''V'') [(''noop'', noop_tool)] (say ''hi'') [] effects_demo =
   propose (mind_demo ''V'') [(''noop'', tally_tool)] (say ''hi'') [] effects_demo \<and>
   es_world (fst (propose (mind_demo ''A'') [(''noop'', tally_tool)] (say ''hi'') [] effects_demo)) = 1"
proof
  have same: "same_but_run [(''noop'', noop_tool)] [(''noop'', tally_tool)]"
    by (simp add: same_but_run_def tally_tool_def noop_tool_def)
  obtain s' r where p: "propose (mind_demo ''V'') [(''noop'', noop_tool)] (say ''hi'') [] effects_demo = (s', r)"
    by fastforce
  from acts_only_if_allowed [OF same p]
  show "propose (mind_demo ''V'') [(''noop'', noop_tool)] (say ''hi'') [] effects_demo =
        propose (mind_demo ''V'') [(''noop'', tally_tool)] (say ''hi'') [] effects_demo"
    unfolding p by (auto simp: mind_demo_def parse_verdict_def Let_def)
  show "es_world (fst (propose (mind_demo ''A'') [(''noop'', tally_tool)] (say ''hi'') [] effects_demo)) = 1"
    by (simp add: effector_simps)
qed


text \<open>A tool whose body raises has acted without a row in the log.\<close>

lemma raising_tool_unaudited:
  "let s = fst (propose (mind_demo ''A'') [(''noop'', tally_tool\<lparr>to_run := \<lambda>x w. (Suc w, Inl (OtherError ''boom''))\<rparr>)]
       (say ''hi'') [] effects_demo)
   in es_world s = 1 \<and> es_actions s = []"
  by (simp add: effector_simps)

end
