(* ===== verification/IpAddr.thy ===== *)
theory IpAddr
  imports Prelude "HOL-Library.Word"
begin

text \<open>
  Internet addresses as \<^verbatim>\<open>brain/effectors/safe_http.py\<close> uses them: the text forms the standard
  library's \<^verbatim>\<open>ipaddress.ip_address\<close> accepts, its address classes (the tables of Python
  3.12), and the guard \<^verbatim>\<open>ip_is_blocked\<close>.  An IPv4 address is a 32-bit word, an IPv6 address
  a 128-bit word with an optional zone.
\<close>

section \<open>Splitting text\<close>

fun split_on :: "char \<Rightarrow> string \<Rightarrow> string list" where
  "split_on c [] = [[]]"
| "split_on c (x # xs) =
     (if x = c then [] # split_on c xs
      else case split_on c xs of [] \<Rightarrow> [[x]] | p # ps \<Rightarrow> (x # p) # ps)"

text \<open>\<^verbatim>\<open>str.partition\<close> and \<^verbatim>\<open>str.rpartition\<close> on one character: what is before, whether it is
  there, what is after.\<close>

definition partition_on :: "char \<Rightarrow> string \<Rightarrow> string \<times> bool \<times> string" where
  "partition_on c s =
     (case dropWhile (\<lambda>x. x \<noteq> c) s of
        [] \<Rightarrow> (s, False, [])
      | _ # rest \<Rightarrow> (takeWhile (\<lambda>x. x \<noteq> c) s, True, rest))"

definition rpartition_on :: "char \<Rightarrow> string \<Rightarrow> string \<times> bool \<times> string" where
  "rpartition_on c s =
     (case dropWhile (\<lambda>x. x \<noteq> c) (rev s) of
        [] \<Rightarrow> ([], False, s)
      | _ # before \<Rightarrow> (rev before, True, rev (takeWhile (\<lambda>x. x \<noteq> c) (rev s))))"

lemma split_on_nonempty [simp]: "split_on c s \<noteq> []"
  by (induction s) (auto split: list.splits)

lemma split_on_no: "c \<notin> set s \<Longrightarrow> split_on c s = [s]"
  by (induction s) auto

lemma split_on_append: "c \<notin> set s \<Longrightarrow> split_on c (s @ c # t) = s # split_on c t"
  by (induction s) auto

section \<open>Numbers in text\<close>

definition is_dec :: "char \<Rightarrow> bool" where
  "is_dec c \<longleftrightarrow> (let n = of_char c :: nat in 48 \<le> n \<and> n \<le> 57)"

definition is_hex :: "char \<Rightarrow> bool" where
  "is_hex c \<longleftrightarrow> (let n = of_char c :: nat in (48 \<le> n \<and> n \<le> 57) \<or> (65 \<le> n \<and> n \<le> 70) \<or> (97 \<le> n \<and> n \<le> 102))"

definition digit_val :: "char \<Rightarrow> nat" where
  "digit_val c = (let n = of_char c in if n \<le> 57 then n - 48 else if n \<le> 70 then n - 55 else n - 87)"

definition num_val :: "nat \<Rightarrow> string \<Rightarrow> nat" where
  "num_val b s = fold (\<lambda>c a. a * b + digit_val c) s 0"

section \<open>Addresses\<close>

datatype ip = V4 "32 word" | V6 "128 word" "string option"

fun all_some :: "'a option list \<Rightarrow> 'a list option" where
  "all_some [] = Some []"
| "all_some (None # xs) = None"
| "all_some (Some x # xs) = map_option ((#) x) (all_some xs)"

definition parse_octet :: "string \<Rightarrow> nat option" where
  "parse_octet s =
     (if s = [] \<or> \<not> list_all is_dec s \<or> 3 < length s then None
      else if s \<noteq> ''0'' \<and> hd s = CHR ''0'' then None
      else if 255 < num_val 10 s then None
      else Some (num_val 10 s))"

definition parse_ipv4 :: "string \<Rightarrow> 32 word option" where
  "parse_ipv4 s =
     (case all_some (map parse_octet (split_on CHR ''.'' s)) of
        Some [a, b, c, d] \<Rightarrow> Some (of_nat (((a * 256 + b) * 256 + c) * 256 + d))
      | _ \<Rightarrow> None)"

definition parse_hextet :: "string \<Rightarrow> nat option" where
  "parse_hextet s =
     (if \<not> list_all is_hex s \<or> 4 < length s \<or> s = [] then None else Some (num_val 16 s))"

definition hextets_val :: "nat list \<Rightarrow> nat" where
  "hextets_val hs = fold (\<lambda>h a. a * 65536 + h) hs 0"

text \<open>A dotted quad in the last place stands for two hextets.\<close>

definition expand_tail :: "string list \<Rightarrow> nat option list option" where
  "expand_tail parts =
     (if CHR ''.'' \<in> set (last parts)
      then (case parse_ipv4 (last parts) of
              None \<Rightarrow> None
            | Some w \<Rightarrow> Some (map parse_hextet (butlast parts) @
                              [Some (unat w div 65536), Some (unat w mod 65536)]))
      else Some (map parse_hextet parts))"

text \<open>The empty parts strictly inside: \<^verbatim>\<open>::\<close> may be there once.\<close>

definition inner_empty :: "string list \<Rightarrow> nat list" where
  "inner_empty parts = filter (\<lambda>i. parts ! i = []) [1..<length parts - 1]"

definition parse_ipv6_int :: "string \<Rightarrow> 128 word option" where
  "parse_ipv6_int s =
     (let parts = split_on CHR '':'' s
      in if length parts < 3 then None
         else case expand_tail parts of
           None \<Rightarrow> None
         | Some hs \<Rightarrow>
             let n = length hs;
                 marks = parts @ replicate (n - length parts) ''x''
             in if 9 < n then None
                else case inner_empty marks of
                  [] \<Rightarrow> if n \<noteq> 8 then None
                        else map_option (\<lambda>xs. of_nat (hextets_val xs)) (all_some hs)
                | [k] \<Rightarrow>
                    let lead = (hd marks = []); trail = (last marks = []);
                        hi = (if lead then k - 1 else k);
                        lo = (if trail then n - k - 2 else n - k - 1)
                    in if lead \<and> hi \<noteq> 0 \<or> trail \<and> lo \<noteq> 0 \<or> 8 < hi + lo + 1 then None
                       else map_option (\<lambda>xs. of_nat (hextets_val (take hi xs @ replicate (8 - (hi + lo)) 0 @ drop hi xs)))
                              (all_some (take hi hs @ drop (n - lo) hs))
                | _ \<Rightarrow> None)"

definition parse_ipv6 :: "string \<Rightarrow> (128 word \<times> string option) option" where
  "parse_ipv6 s =
     (if CHR ''/'' \<in> set s then None
      else let (addr, sep, zone) = partition_on CHR ''%'' s
           in if sep \<and> (zone = [] \<or> CHR ''%'' \<in> set zone) then None
              else map_option (\<lambda>w. (w, if sep then Some zone else None)) (parse_ipv6_int addr))"

definition ip_address :: "string \<Rightarrow> ip res" where
  "ip_address s =
     (case parse_ipv4 s of
        Some w \<Rightarrow> Inr (V4 w)
      | None \<Rightarrow> (case parse_ipv6 s of Some (w, z) \<Rightarrow> Inr (V6 w z) | None \<Rightarrow> Inl ValueError))"

section \<open>Networks\<close>

definition in_net :: "'a::len word \<Rightarrow> 'a word \<times> nat \<Rightarrow> bool" where
  "in_net w n \<longleftrightarrow> drop_bit (LENGTH('a) - snd n) w = drop_bit (LENGTH('a) - snd n) (fst n)"

definition in_nets :: "'a::len word \<Rightarrow> ('a word \<times> nat) list \<Rightarrow> bool" where
  "in_nets w ns \<longleftrightarrow> list_ex (in_net w) ns"

text \<open>The tables of \<^verbatim>\<open>ipaddress\<close>, prefix and length.\<close>

definition V4_PRIVATE :: "(32 word \<times> nat) list" where
  "V4_PRIVATE = [(0, 8), (0x0A000000, 8), (0x7F000000, 8), (0xA9FE0000, 16), (0xAC100000, 12),
     (0xC0000000, 24), (0xC00000AA, 31), (0xC0000200, 24), (0xC0A80000, 16), (0xC6120000, 15),
     (0xC6336400, 24), (0xCB007100, 24), (0xF0000000, 4), (0xFFFFFFFF, 32)]"

definition V4_PRIVATE_EXCEPTIONS :: "(32 word \<times> nat) list" where
  "V4_PRIVATE_EXCEPTIONS = [(0xC0000009, 32), (0xC000000A, 32)]"

definition V4_SHARED :: "32 word \<times> nat" where "V4_SHARED = (0x64400000, 10)"
definition V4_LOOPBACK :: "32 word \<times> nat" where "V4_LOOPBACK = (0x7F000000, 8)"
definition V4_LINK_LOCAL :: "32 word \<times> nat" where "V4_LINK_LOCAL = (0xA9FE0000, 16)"
definition V4_MULTICAST :: "32 word \<times> nat" where "V4_MULTICAST = (0xE0000000, 4)"
definition V4_RESERVED :: "32 word \<times> nat" where "V4_RESERVED = (0xF0000000, 4)"

definition V6_PRIVATE :: "(128 word \<times> nat) list" where
  "V6_PRIVATE = [(1, 128), (0, 128), (0xFFFF00000000, 96), (0x0064FF9B000100000000000000000000, 48),
     (0x01000000000000000000000000000000, 64), (0x20010000000000000000000000000000, 23),
     (0x20010DB8000000000000000000000000, 32), (0x20020000000000000000000000000000, 16),
     (0xFC000000000000000000000000000000, 7), (0xFE800000000000000000000000000000, 10)]"

definition V6_PRIVATE_EXCEPTIONS :: "(128 word \<times> nat) list" where
  "V6_PRIVATE_EXCEPTIONS = [(0x20010001000000000000000000000001, 128), (0x20010001000000000000000000000002, 128),
     (0x20010003000000000000000000000000, 32), (0x20010004011200000000000000000000, 48),
     (0x20010020000000000000000000000000, 28), (0x20010030000000000000000000000000, 28)]"

definition V6_RESERVED :: "(128 word \<times> nat) list" where
  "V6_RESERVED = [(0, 8), (0x01000000000000000000000000000000, 8), (0x02000000000000000000000000000000, 7),
     (0x04000000000000000000000000000000, 6), (0x08000000000000000000000000000000, 5),
     (0x10000000000000000000000000000000, 4), (0x40000000000000000000000000000000, 3),
     (0x60000000000000000000000000000000, 3), (0x80000000000000000000000000000000, 3),
     (0xA0000000000000000000000000000000, 3), (0xC0000000000000000000000000000000, 3),
     (0xE0000000000000000000000000000000, 4), (0xF0000000000000000000000000000000, 5),
     (0xF8000000000000000000000000000000, 6), (0xFE000000000000000000000000000000, 9)]"

definition V6_LINK_LOCAL :: "128 word \<times> nat" where "V6_LINK_LOCAL = (0xFE800000000000000000000000000000, 10)"
definition V6_MULTICAST :: "128 word \<times> nat" where "V6_MULTICAST = (0xFF000000000000000000000000000000, 8)"

definition v4_private :: "32 word \<Rightarrow> bool" where
  "v4_private w \<longleftrightarrow> in_nets w V4_PRIVATE \<and> \<not> in_nets w V4_PRIVATE_EXCEPTIONS"

definition v4_mapped :: "128 word \<Rightarrow> 32 word option" where
  "v4_mapped w = (if drop_bit 32 w = 0xFFFF then Some (ucast w) else None)"

fun is_private :: "ip \<Rightarrow> bool" where
  "is_private (V4 w) = v4_private w"
| "is_private (V6 w z) =
     (case v4_mapped w of
        Some v \<Rightarrow> v4_private v
      | None \<Rightarrow> in_nets w V6_PRIVATE \<and> \<not> in_nets w V6_PRIVATE_EXCEPTIONS)"

fun is_global :: "ip \<Rightarrow> bool" where
  "is_global (V4 w) \<longleftrightarrow> \<not> in_net w V4_SHARED \<and> \<not> v4_private w"
| "is_global (V6 w z) \<longleftrightarrow> \<not> is_private (V6 w z)"

fun is_loopback :: "ip \<Rightarrow> bool" where
  "is_loopback (V4 w) \<longleftrightarrow> in_net w V4_LOOPBACK"
| "is_loopback (V6 w z) \<longleftrightarrow> w = 1"

fun is_link_local :: "ip \<Rightarrow> bool" where
  "is_link_local (V4 w) \<longleftrightarrow> in_net w V4_LINK_LOCAL"
| "is_link_local (V6 w z) \<longleftrightarrow> in_net w V6_LINK_LOCAL"

fun is_multicast :: "ip \<Rightarrow> bool" where
  "is_multicast (V4 w) \<longleftrightarrow> in_net w V4_MULTICAST"
| "is_multicast (V6 w z) \<longleftrightarrow> in_net w V6_MULTICAST"

fun is_reserved :: "ip \<Rightarrow> bool" where
  "is_reserved (V4 w) \<longleftrightarrow> in_net w V4_RESERVED"
| "is_reserved (V6 w z) \<longleftrightarrow> in_nets w V6_RESERVED"

fun is_unspecified :: "ip \<Rightarrow> bool" where
  "is_unspecified (V4 w) \<longleftrightarrow> w = 0"
| "is_unspecified (V6 w z) \<longleftrightarrow> w = 0"

section \<open>The guard\<close>

text \<open>\<^verbatim>\<open>_normalise\<close>: an IPv4-mapped address is the IPv4 address.\<close>

definition normalise :: "string \<Rightarrow> ip res" where
  "normalise raw =
     ok_bind (ip_address raw) (\<lambda>a. case a of
         V4 w \<Rightarrow> Inr (V4 w)
       | V6 w z \<Rightarrow> (case v4_mapped w of Some v \<Rightarrow> Inr (V4 v) | None \<Rightarrow> Inr (V6 w z)))"

text \<open>The canonical texts of the two addresses name these words.\<close>

definition is_metadata :: "ip \<Rightarrow> bool" where
  "is_metadata a \<longleftrightarrow> a = V4 0xA9FEA9FE \<or> a = V6 0xFD000EC2000000000000000000000254 None"

definition ip_is_blocked :: "string \<Rightarrow> bool" where
  "ip_is_blocked raw =
     (case normalise raw of
        Inl e \<Rightarrow> True
      | Inr a \<Rightarrow> is_metadata a \<or> \<not> is_global a \<or>
          is_private a \<or> is_loopback a \<or> is_link_local a \<or> is_multicast a \<or> is_reserved a \<or> is_unspecified a)"

section \<open>Writing addresses\<close>

lemma of_char_dig: "k < 10 \<Longrightarrow> (of_char (dig k) :: nat) = 48 + k"
  by (simp add: dig_def)

lemma dig_props:
  assumes "k < 10"
  shows "is_dec (dig k)" "digit_val (dig k) = k" "dig k \<noteq> CHR ''.''" "dig k \<noteq> CHR '':''" "dig k \<noteq> CHR ''/''"
    "dig k \<noteq> CHR ''%''" "(dig k = CHR ''0'') = (k = 0)"
proof -
  note v = of_char_dig [OF assms]
  have e: "dig k = c \<longleftrightarrow> 48 + k = (of_char c :: nat)" for c
    using v by (metis char_of_char)
  show "is_dec (dig k)" "digit_val (dig k) = k" using v assms by (simp_all add: is_dec_def digit_val_def Let_def)
  show "dig k \<noteq> CHR ''.''" "dig k \<noteq> CHR '':''" "dig k \<noteq> CHR ''/''" "dig k \<noteq> CHR ''%''" "(dig k = CHR ''0'') = (k = 0)"
    using assms unfolding e by (simp_all add: of_char_def)
qed

definition dec :: "nat \<Rightarrow> string" where
  "dec n = (if n < 10 then [dig n]
     else if n < 100 then [dig (n div 10), dig (n mod 10)]
     else [dig (n div 100), dig (n div 10 mod 10), dig (n mod 10)])"

lemma dec_digits: "n < 256 \<Longrightarrow> c \<in> set (dec n) \<Longrightarrow> \<exists>k < 10. c = dig k"
proof -
  assume n: "n < 256" and c: "c \<in> set (dec n)"
  have m: "\<exists>k < 10. dig (x mod 10) = dig k" for x by (rule exI [of _ "x mod 10"]) simp
  have "n div 100 < 10" using n by simp
  moreover have "n < 100 \<Longrightarrow> n div 10 < 10" by simp
  ultimately show ?thesis using c m unfolding dec_def by (auto split: if_splits)
qed

lemma dec_octet:
  assumes "n < 256"
  shows "parse_octet (dec n) = Some n" "CHR ''.'' \<notin> set (dec n)" "CHR '':'' \<notin> set (dec n)"
    "CHR ''/'' \<notin> set (dec n)" "CHR ''%'' \<notin> set (dec n)"
proof -
  show "CHR ''.'' \<notin> set (dec n)" "CHR '':'' \<notin> set (dec n)" "CHR ''/'' \<notin> set (dec n)" "CHR ''%'' \<notin> set (dec n)"
    using dec_digits [OF assms] dig_props(3-6) by metis+
  consider "n < 10" | "10 \<le> n" "n < 100" | "100 \<le> n" by linarith
  then show "parse_octet (dec n) = Some n"
  proof cases
    case 1
    then show ?thesis using dig_props [OF 1] by (auto simp: dec_def parse_octet_def num_val_def)
  next
    case 2
    then have k: "n div 10 < 10" "n mod 10 < 10" "n div 10 \<noteq> 0" by auto
    show ?thesis using dig_props [OF k(1)] dig_props [OF k(2)] 2 k(3)
      by (simp add: dec_def parse_octet_def num_val_def)
  next
    case 3
    then have k: "n div 100 < 10" "n div 10 mod 10 < 10" "n mod 10 < 10" "n div 100 \<noteq> 0" using assms by auto
    have "n div 100 = n div 10 div 10" by (simp flip: div_mult2_eq)
    then have e: "(n div 100 * 10 + n div 10 mod 10) * 10 + n mod 10 = n" by (simp add: div_mult_mod_eq)
    show ?thesis using dig_props [OF k(1)] dig_props [OF k(2)] dig_props [OF k(3)] 3 k(4) e assms
      by (simp add: dec_def parse_octet_def num_val_def)
  qed
qed

definition dotted :: "32 word \<Rightarrow> string" where
  "dotted w = (let n = unat w in
     dec (n div 16777216) @ CHR ''.'' # dec (n div 65536 mod 256) @ CHR ''.'' # dec (n div 256 mod 256) @ CHR ''.'' #
     dec (n mod 256))"

lemma unat_w32: "unat (w :: 32 word) < 4294967296"
  using unsigned_less [of w, where 'a = nat] by simp

lemma quad: "((n div 16777216 * 256 + n div 65536 mod 256) * 256 + n div 256 mod 256) * 256 + n mod 256 = (n :: nat)"
proof -
  have "n div 65536 = n div 256 div 256" "n div 16777216 = n div 256 div 256 div 256"
    by (simp_all add: div_mult2_eq flip: div_mult2_eq)
  then show ?thesis by (simp add: div_mult_mod_eq)
qed

lemma parse_dotted: "parse_ipv4 (dotted w) = Some w"
proof -
  define n where "n = unat w"
  have n: "n < 4294967296" unfolding n_def by (rule unat_w32)
  have o: "n div 16777216 < 256" "n div 65536 mod 256 < 256" "n div 256 mod 256 < 256" "n mod 256 < 256"
    using n by (auto simp: less_mult_imp_div_less)
  note d = dec_octet [OF o(1)] dec_octet [OF o(2)] dec_octet [OF o(3)] dec_octet [OF o(4)]
  have s: "split_on CHR ''.'' (dotted w) = [dec (n div 16777216), dec (n div 65536 mod 256), dec (n div 256 mod 256), dec (n mod 256)]"
    unfolding dotted_def Let_def n_def [symmetric] using d by (simp add: split_on_append split_on_no)
  have "word_of_nat n = w" by (simp add: n_def)
  then show ?thesis unfolding parse_ipv4_def s using d by (simp only: list.map d all_some.simps option.map option.case list.case quad)
qed

lemma partition_on_no: "c \<notin> set s \<Longrightarrow> partition_on c s = (s, False, [])"
proof -
  assume "c \<notin> set s"
  then have "dropWhile (\<lambda>x. x \<noteq> c) s = []" by auto
  then show ?thesis unfolding partition_on_def by (simp only: list.case)
qed

text \<open>The IPv4-mapped form of an address.\<close>

definition mapped :: "32 word \<Rightarrow> string" where
  "mapped w = ''::ffff:'' @ dotted w"

lemma dotted_chars:
  "c \<in> set (dotted w) \<Longrightarrow> c = CHR ''.'' \<or> (\<exists>k < 10. c = dig k)"
proof -
  assume c: "c \<in> set (dotted w)"
  define n where "n = unat w"
  have "n < 4294967296" unfolding n_def by (rule unat_w32)
  then have o: "n div 16777216 < 256" "n div 65536 mod 256 < 256" "n div 256 mod 256 < 256" "n mod 256 < 256"
    by (auto simp: less_mult_imp_div_less)
  from c have "c = CHR ''.'' \<or> c \<in> set (dec (n div 16777216)) \<or> c \<in> set (dec (n div 65536 mod 256)) \<or>
      c \<in> set (dec (n div 256 mod 256)) \<or> c \<in> set (dec (n mod 256))"
    unfolding dotted_def Let_def n_def [symmetric] by auto
  then show ?thesis using dec_digits [OF o(1)] dec_digits [OF o(2)] dec_digits [OF o(3)] dec_digits [OF o(4)] by blast
qed

lemma dotted_free: "CHR '':'' \<notin> set (dotted w)" "CHR ''/'' \<notin> set (dotted w)" "CHR ''%'' \<notin> set (dotted w)"
  using dotted_chars [of _ w] dig_props(4-6) by fastforce+

lemma dotted_dot: "CHR ''.'' \<in> set (dotted w)"
  by (simp add: dotted_def Let_def)

lemma split_mapped: "split_on CHR '':'' (mapped w) = [[], [], ''ffff'', dotted w]"
  using dotted_free(1) by (simp add: mapped_def split_on_no)

lemma parse_mapped: "parse_ipv6 (mapped w) = Some (of_nat (65535 * 4294967296 + unat w), None)"
proof -
  have f: "parse_hextet ''ffff'' = Some 65535"
    by (simp add: parse_hextet_def is_hex_def num_val_def digit_val_def of_char_def)
  have i: "inner_empty [[], [], ''ffff'', dotted w, ''x''] = [1]"
    by (simp add: inner_empty_def upt_rec dotted_dot) (use dotted_dot [of w] in auto)
  have r: "replicate 5 (0::nat) = [0, 0, 0, 0, 0]" by (simp add: eval_nat_numeral)
  have "(65535 * 65536 + unat w div 65536) * 65536 + unat w mod 65536 = 65535 * 4294967296 + unat w"
    by (simp add: distrib_right div_mult_mod_eq)
  then have h: "hextets_val (replicate 5 0 @ [65535, unat w div 65536, unat w mod 65536]) = 65535 * 4294967296 + unat w"
    unfolding r by (simp add: hextets_val_def)
  have "parse_ipv6_int (mapped w) = Some (of_nat (hextets_val (replicate 5 0 @ [65535, unat w div 65536, unat w mod 65536])))"
    unfolding parse_ipv6_int_def Let_def split_mapped expand_tail_def
    by (simp add: parse_dotted dotted_dot f i)
  then have "parse_ipv6_int (mapped w) = Some (of_nat (65535 * 4294967296 + unat w))" unfolding h .
  moreover have "partition_on CHR ''%'' (mapped w) = (mapped w, False, [])"
    by (rule partition_on_no) (use dotted_free(3) [of w] in \<open>simp add: mapped_def\<close>)
  moreover have "CHR ''/'' \<notin> set (mapped w)" using dotted_free(2) by (simp add: mapped_def)
  ultimately show ?thesis by (simp add: parse_ipv6_def)
qed

lemma parse_mapped_v4: "parse_ipv4 (mapped w) = None"
proof -
  define n where "n = unat w"
  have "n < 4294967296" unfolding n_def by (rule unat_w32)
  then have o: "n div 16777216 < 256" by (auto simp: less_mult_imp_div_less)
  have "split_on CHR ''.'' (''::ffff:'' @ dec (n div 16777216) @ CHR ''.'' # rest) =
        (''::ffff:'' @ dec (n div 16777216)) # split_on CHR ''.'' rest" for rest
    using dec_octet(2) [OF o] split_on_append [of "CHR ''.''" "''::ffff:'' @ dec (n div 16777216)" rest] by simp
  moreover have "parse_octet (''::ffff:'' @ x) = None" for x by (simp add: parse_octet_def)
  ultimately show ?thesis unfolding parse_ipv4_def mapped_def dotted_def Let_def n_def [symmetric] by simp
qed

lemma unat_drop: "unat (drop_bit k (w :: 'a::len word)) = unat w div 2 ^ k"
  unfolding unat_drop_bit_eq by (rule drop_bit_eq_div)

lemma unat_mapped: "unat (of_nat (65535 * 4294967296 + unat w) :: 128 word) = 65535 * 4294967296 + unat (w :: 32 word)"
  using unat_w32 [of w] by (simp only: unat_of_nat) simp

lemma v4_mapped_word: "v4_mapped (of_nat (65535 * 4294967296 + unat w)) = Some w"
proof -
  let ?m = "of_nat (65535 * 4294967296 + unat w) :: 128 word"
  have u: "unat w < 4294967296" by (rule unat_w32)
  have "unat (drop_bit 32 ?m) = unat (65535 :: 128 word)"
    unfolding unat_drop unat_mapped using u by simp
  then have "drop_bit 32 ?m = 65535" by (simp only: word_unat_eq_iff)
  moreover have "(281470681743360 + unat w) mod 4294967296 = unat w"
    using mod_mult_self3 [of 65535 4294967296 "unat w"] u by simp
  then have "unat (ucast ?m :: 32 word) = unat w"
    unfolding unsigned_ucast_eq unat_mapped by (simp add: take_bit_eq_mod)
  then have "(ucast ?m :: 32 word) = w" by (simp only: word_unat_eq_iff)
  ultimately show ?thesis unfolding v4_mapped_def by (simp only: refl if_True)
qed

lemma normalise_dotted: "normalise (dotted w) = Inr (V4 w)"
  by (simp add: normalise_def ip_address_def parse_dotted)

lemma normalise_mapped: "normalise (mapped w) = Inr (V4 w)"
  unfolding normalise_def ip_address_def parse_mapped_v4 parse_mapped option.case prod.case ok_bind_simps ip.case
    v4_mapped_word ..

section \<open>Which IPv4 addresses pass\<close>

definition ranged :: "nat \<Rightarrow> nat \<times> nat \<Rightarrow> bool" where
  "ranged n r \<longleftrightarrow> fst r \<le> n \<and> n \<le> snd r"

definition V4_REFUSED :: "(nat \<times> nat) list" where
  "V4_REFUSED = [(0x00000000, 0x00FFFFFF), (0x0A000000, 0x0AFFFFFF), (0x64400000, 0x647FFFFF),
     (0x7F000000, 0x7FFFFFFF), (0xA9FE0000, 0xA9FEFFFF), (0xAC100000, 0xAC1FFFFF), (0xC0000000, 0xC0000008),
     (0xC000000B, 0xC00000FF), (0xC0000200, 0xC00002FF), (0xC0A80000, 0xC0A8FFFF), (0xC6120000, 0xC613FFFF),
     (0xC6336400, 0xC63364FF), (0xCB007100, 0xCB0071FF), (0xE0000000, 0xEFFFFFFF), (0xF0000000, 0xFFFFFFFF)]"

lemma len32: "LENGTH(32) = 32"
  by simp

lemma in_net_interval:
  fixes w p :: "32 word"
  assumes "m = 2 ^ (32 - n)"
  shows "in_net w (p, n) \<longleftrightarrow> unat p div m * m \<le> unat w \<and> unat w < unat p div m * m + m"
proof -
  have "0 < m" using assms by simp
  have "in_net w (p, n) \<longleftrightarrow> unat w div m = unat p div m"
    unfolding in_net_def word_unat_eq_iff unat_drop assms by (simp only: len_num1 fst_conv snd_conv len32)
  also have "\<dots> \<longleftrightarrow> unat p div m * m \<le> unat w \<and> unat w < unat p div m * m + m"
    using \<open>0 < m\<close> by (metis add.commute div_less_iff_less_mult div_nat_eqI le_refl less_Suc_eq_le mult.commute mult_Suc
      mult_Suc_right times_div_less_eq_dividend div_le_mono div_mult_self_is_m nat_less_le not_less)
  finally show ?thesis .
qed

lemmas v4_tables = V4_PRIVATE_def V4_PRIVATE_EXCEPTIONS_def V4_SHARED_def V4_LOOPBACK_def V4_LINK_LOCAL_def
  V4_MULTICAST_def V4_RESERVED_def

lemma in_net_within:
  fixes w p :: "32 word"
  assumes "m = 2 ^ (32 - n)" "unat p div m * m = lo" "lo + m = Suc hi"
  shows "in_net w (p, n) \<longleftrightarrow> ranged (unat w) (lo, hi)"
  using in_net_interval [OF assms(1), of w p] assms(2,3) by (auto simp: ranged_def)

lemma v4_nets:
  fixes w :: "32 word"
  shows "in_net w (0, 8) \<longleftrightarrow> ranged (unat w) (0x00000000, 0x00FFFFFF)"
    "in_net w (0x0A000000, 8) \<longleftrightarrow> ranged (unat w) (0x0A000000, 0x0AFFFFFF)"
    "in_net w (0x7F000000, 8) \<longleftrightarrow> ranged (unat w) (0x7F000000, 0x7FFFFFFF)"
    "in_net w (0xA9FE0000, 16) \<longleftrightarrow> ranged (unat w) (0xA9FE0000, 0xA9FEFFFF)"
    "in_net w (0xAC100000, 12) \<longleftrightarrow> ranged (unat w) (0xAC100000, 0xAC1FFFFF)"
    "in_net w (0xC0000000, 24) \<longleftrightarrow> ranged (unat w) (0xC0000000, 0xC00000FF)"
    "in_net w (0xC00000AA, 31) \<longleftrightarrow> ranged (unat w) (0xC00000AA, 0xC00000AB)"
    "in_net w (0xC0000200, 24) \<longleftrightarrow> ranged (unat w) (0xC0000200, 0xC00002FF)"
    "in_net w (0xC0A80000, 16) \<longleftrightarrow> ranged (unat w) (0xC0A80000, 0xC0A8FFFF)"
    "in_net w (0xC6120000, 15) \<longleftrightarrow> ranged (unat w) (0xC6120000, 0xC613FFFF)"
    "in_net w (0xC6336400, 24) \<longleftrightarrow> ranged (unat w) (0xC6336400, 0xC63364FF)"
    "in_net w (0xCB007100, 24) \<longleftrightarrow> ranged (unat w) (0xCB007100, 0xCB0071FF)"
    "in_net w (0xF0000000, 4) \<longleftrightarrow> ranged (unat w) (0xF0000000, 0xFFFFFFFF)"
    "in_net w (0xFFFFFFFF, 32) \<longleftrightarrow> ranged (unat w) (0xFFFFFFFF, 0xFFFFFFFF)"
    "in_net w (0xC0000009, 32) \<longleftrightarrow> ranged (unat w) (0xC0000009, 0xC0000009)"
    "in_net w (0xC000000A, 32) \<longleftrightarrow> ranged (unat w) (0xC000000A, 0xC000000A)"
    "in_net w (0x64400000, 10) \<longleftrightarrow> ranged (unat w) (0x64400000, 0x647FFFFF)"
    "in_net w (0xE0000000, 4) \<longleftrightarrow> ranged (unat w) (0xE0000000, 0xEFFFFFFF)"
  by (rule in_net_within [OF refl]; simp)+

text \<open>The addresses the two exceptions let through split their network; the other nested networks add
  nothing.\<close>

lemma ranged_split:
  "ranged n (0xC0000000, 0xC00000FF) \<and> \<not> ranged n (0xC0000009, 0xC0000009) \<and> \<not> ranged n (0xC000000A, 0xC000000A) \<longleftrightarrow>
   ranged n (0xC0000000, 0xC0000008) \<or> ranged n (0xC000000B, 0xC00000FF)"
  "ranged n (0xC00000AA, 0xC00000AB) \<Longrightarrow> ranged n (0xC000000B, 0xC00000FF)"
  "ranged n (0xFFFFFFFF, 0xFFFFFFFF) \<Longrightarrow> ranged n (0xF0000000, 0xFFFFFFFF)"
  by (auto simp: ranged_def)

lemma ranged_no_exception:
  "ranged n r \<Longrightarrow> snd r < 0xC0000000 \<or> 0xC00000FF < fst r \<Longrightarrow>
   \<not> ranged n (0xC0000009, 0xC0000009) \<and> \<not> ranged n (0xC000000A, 0xC000000A)"
  by (auto simp: ranged_def)

lemma v4_private_ranged:
  "v4_private w \<longleftrightarrow> (\<exists>r \<in> set V4_REFUSED. ranged (unat w) r \<and> r \<noteq> (0x64400000, 0x647FFFFF) \<and> r \<noteq> (0xE0000000, 0xEFFFFFFF))"
proof -
  have "v4_private w \<longleftrightarrow>
    (ranged (unat w) (0x00000000, 0x00FFFFFF) \<or> ranged (unat w) (0x0A000000, 0x0AFFFFFF) \<or>
     ranged (unat w) (0x7F000000, 0x7FFFFFFF) \<or> ranged (unat w) (0xA9FE0000, 0xA9FEFFFF) \<or>
     ranged (unat w) (0xAC100000, 0xAC1FFFFF) \<or> ranged (unat w) (0xC0000000, 0xC00000FF) \<or>
     ranged (unat w) (0xC00000AA, 0xC00000AB) \<or> ranged (unat w) (0xC0000200, 0xC00002FF) \<or>
     ranged (unat w) (0xC0A80000, 0xC0A8FFFF) \<or> ranged (unat w) (0xC6120000, 0xC613FFFF) \<or>
     ranged (unat w) (0xC6336400, 0xC63364FF) \<or> ranged (unat w) (0xCB007100, 0xCB0071FF) \<or>
     ranged (unat w) (0xF0000000, 0xFFFFFFFF) \<or> ranged (unat w) (0xFFFFFFFF, 0xFFFFFFFF)) \<and>
    \<not> (ranged (unat w) (0xC0000009, 0xC0000009) \<or> ranged (unat w) (0xC000000A, 0xC000000A))"
    unfolding v4_private_def in_nets_def v4_tables list_ex_iff list.set bex_simps v4_nets by blast
  also have "\<dots> \<longleftrightarrow>
    (ranged (unat w) (0x00000000, 0x00FFFFFF) \<or> ranged (unat w) (0x0A000000, 0x0AFFFFFF) \<or>
     ranged (unat w) (0x7F000000, 0x7FFFFFFF) \<or> ranged (unat w) (0xA9FE0000, 0xA9FEFFFF) \<or>
     ranged (unat w) (0xAC100000, 0xAC1FFFFF) \<or> ranged (unat w) (0xC0000000, 0xC0000008) \<or>
     ranged (unat w) (0xC000000B, 0xC00000FF) \<or> ranged (unat w) (0xC0000200, 0xC00002FF) \<or>
     ranged (unat w) (0xC0A80000, 0xC0A8FFFF) \<or> ranged (unat w) (0xC6120000, 0xC613FFFF) \<or>
     ranged (unat w) (0xC6336400, 0xC63364FF) \<or> ranged (unat w) (0xCB007100, 0xCB0071FF) \<or>
     ranged (unat w) (0xF0000000, 0xFFFFFFFF))"
    (is "?L \<longleftrightarrow> ?R")
  proof (cases "ranged (unat w) (0xC0000000, 0xC00000FF)")
    case True
    then have o: "\<not> ranged (unat w) r" if "snd r < 0xC0000000 \<or> 0xC00000FF < fst r" for r
      using that by (auto simp: ranged_def)
    show ?thesis using True ranged_split(1) [of "unat w"] ranged_split(2) [of "unat w"] o by auto
  next
    case False
    then have n: "\<not> ranged (unat w) (0xC0000009, 0xC0000009)" "\<not> ranged (unat w) (0xC000000A, 0xC000000A)"
      "\<not> ranged (unat w) (0xC00000AA, 0xC00000AB)" "\<not> ranged (unat w) (0xC0000000, 0xC0000008)"
      "\<not> ranged (unat w) (0xC000000B, 0xC00000FF)" by (auto simp: ranged_def)
    then show ?thesis using False ranged_split(3) [of "unat w"] by blast
  qed
  finally show ?thesis unfolding V4_REFUSED_def by simp
qed

text \<open>Every address is in at most one line of the table, and the table decides.\<close>

lemma v4_blocked:
  "ip_is_blocked (dotted w) \<longleftrightarrow> list_ex (ranged (unat w)) V4_REFUSED"
proof -
  have "v4_private w \<longleftrightarrow> v4_private w \<or> w = 0 \<or> w = 0xA9FEA9FE \<or> in_net w V4_LOOPBACK \<or> in_net w V4_LINK_LOCAL \<or> in_net w V4_RESERVED"
    unfolding v4_private_def in_nets_def v4_tables list_ex_iff list.set bex_simps
    by (auto simp: in_net_def)
  then have "ip_is_blocked (dotted w) \<longleftrightarrow> v4_private w \<or> in_net w V4_SHARED \<or> in_net w V4_MULTICAST"
    unfolding ip_is_blocked_def normalise_dotted by (auto simp: is_metadata_def)
  also have "\<dots> \<longleftrightarrow> list_ex (ranged (unat w)) V4_REFUSED"
    unfolding v4_private_ranged V4_SHARED_def V4_MULTICAST_def v4_nets V4_REFUSED_def by (simp add: list_ex_iff) blast
  finally show ?thesis .
qed

section \<open>Properties\<close>

text \<open>the dotted form of every 32-bit address is read back as that address, and its IPv4-mapped
  IPv6 form as that same IPv4 address, so the second spelling meets the rules of the first.\<close>

theorem ip_text_roundtrip:
  "ip_address (dotted w) = Inr (V4 w) \<and> normalise (dotted w) = Inr (V4 w) \<and> normalise (mapped w) = Inr (V4 w)"
  by (simp only: normalise_dotted normalise_mapped) (simp add: ip_address_def parse_dotted)

text \<open>C30: the guard refuses an IPv4 address, in either spelling, exactly when it lies in one of the
  ranges of \<open>V4_REFUSED\<close>: private, shared, loopback, link-local with the metadata address,
  documentation, benchmarking, multicast, reserved and broadcast.\<close>

theorem ipv4_guard_exact:
  "ip_is_blocked (dotted w) = list_ex (ranged (unat w)) V4_REFUSED \<and> ip_is_blocked (mapped w) = ip_is_blocked (dotted w)"
proof -
  have "ip_is_blocked (mapped w) = ip_is_blocked (dotted w)"
    unfolding ip_is_blocked_def normalise_dotted normalise_mapped ..
  with v4_blocked show ?thesis by blast
qed

text \<open>The deprecated site-local IPv6 addresses pass: none of the tables has them.\<close>

lemma site_local_passes: "\<not> ip_is_blocked ''fec0::1''"
proof -
  have h: "parse_hextet ''fec0'' = Some 0xFEC0" "parse_hextet ''1'' = Some 1"
    by (simp_all add: parse_hextet_def is_hex_def num_val_def digit_val_def of_char_def)
  have i: "inner_empty [''fec0'', [], ''1''] = [1]" by (simp add: inner_empty_def upt_rec)
  have "parse_ipv6_int ''fec0::1'' = Some (of_nat (hextets_val ([0xFEC0] @ replicate 6 0 @ [1])))"
    by (simp add: parse_ipv6_int_def expand_tail_def h i Let_def)
  also have "replicate 6 (0::nat) = [0, 0, 0, 0, 0, 0]" by (simp add: eval_nat_numeral)
  also have "hextets_val ([0xFEC0] @ [0, 0, 0, 0, 0, 0] @ [1]) = 0xFEC00000000000000000000000000001"
    by (simp add: hextets_val_def)
  also have "of_nat 0xFEC00000000000000000000000000001 = (0xFEC00000000000000000000000000001 :: 128 word)"
    by (rule of_nat_numeral)
  finally have "parse_ipv6 ''fec0::1'' = Some (0xFEC00000000000000000000000000001, None)"
    by (simp add: parse_ipv6_def partition_on_def)
  moreover have "parse_ipv4 ''fec0::1'' = None" by (simp add: parse_ipv4_def parse_octet_def)
  ultimately have "normalise ''fec0::1'' = Inr (V6 0xFEC00000000000000000000000000001 None)"
    by (simp add: normalise_def ip_address_def v4_mapped_def)
  then show ?thesis
    by (simp add: ip_is_blocked_def is_metadata_def v4_mapped_def in_nets_def in_net_def V6_PRIVATE_def
      V6_PRIVATE_EXCEPTIONS_def V6_RESERVED_def V6_LINK_LOCAL_def V6_MULTICAST_def)
qed

end
