(* ===== verification/SafeHttp.thy ===== *)
theory SafeHttp
  imports IpAddr Redaction
begin

text \<open>
  The SSRF-hardened fetcher of \<^verbatim>\<open>brain/effectors/safe_http.py\<close>: the parts of
  \<^verbatim>\<open>urllib.parse.urlsplit\<close> it reads (Python 3.12), the check of a target, the pinned request,
  the redirect loop and the capped read.

  The network is a record of functions on an opaque world: name resolution, sending a request,
  what httpx makes of a URL beside its host and port (\<open>ne_rest\<close>), and the resolution of a
  \<^verbatim>\<open>Location\<close> against the current URL (\<open>ne_join\<close>); the theorems hold for any of them.
\<close>

section \<open>Reading a URL\<close>

record split_url =
  us_scheme :: string
  us_netloc :: string

definition is_alpha :: "char \<Rightarrow> bool" where
  "is_alpha c \<longleftrightarrow> is_upper c \<or> is_lower c"

definition is_scheme_char :: "char \<Rightarrow> bool" where
  "is_scheme_char c \<longleftrightarrow> is_alnum c \<or> c \<in> {CHR ''+'', CHR ''-'', CHR ''.''}"

definition strip_url :: "string \<Rightarrow> string" where
  "strip_url u = filter (\<lambda>c. c \<notin> {CHR 0x09, CHR 0x0A, CHR 0x0D})
     (dropWhile (\<lambda>c. (of_char c :: nat) \<le> 32) u)"

definition split_scheme :: "string \<Rightarrow> string \<times> string" where
  "split_scheme u =
     (let (pre, found, rest) = partition_on CHR '':'' u
      in if found \<and> pre \<noteq> [] \<and> is_alpha (hd pre) \<and> list_all is_scheme_char pre then (lower pre, rest)
         else ([], u))"

text \<open>What may stand between brackets: an IPv6 address, or a future form.\<close>

definition is_ip_future :: "string \<Rightarrow> bool" where
  "is_ip_future h =
     (case h of
        [] \<Rightarrow> False
      | c # rest \<Rightarrow>
          c = CHR ''v'' \<and> takeWhile is_hex rest \<noteq> [] \<and>
          (case dropWhile is_hex rest of d # e # _ \<Rightarrow> d = CHR ''.'' | _ \<Rightarrow> False))"

definition bracketed_ok :: "string \<Rightarrow> bool" where
  "bracketed_ok h =
     (if h \<noteq> [] \<and> hd h = CHR ''v'' then is_ip_future h
      else (case ip_address h of Inr (V6 w z) \<Rightarrow> True | _ \<Rightarrow> False))"

definition urlsplit :: "string \<Rightarrow> split_url res" where
  "urlsplit url =
     (let (scheme, rest) = split_scheme (strip_url url);
          netloc = (if take 2 rest = ''//'' then takeWhile (\<lambda>c. c \<notin> {CHR ''/'', CHR ''?'', CHR ''#''}) (drop 2 rest)
                    else []);
          op = CHR ''['' \<in> set netloc; cl = CHR '']'' \<in> set netloc
      in if op \<noteq> cl then Inl ValueError
         else if op \<and> \<not> bracketed_ok (fst (partition_on CHR '']'' (snd (snd (partition_on CHR ''['' netloc)))))
         then Inl ValueError
         else Inr \<lparr>us_scheme = scheme, us_netloc = netloc\<rparr>)"

definition user_info :: "split_url \<Rightarrow> string \<times> string" where
  "user_info u =
     (let (info, found, _) = rpartition_on CHR ''@'' (us_netloc u)
      in if found then (let (name, _, pw) = partition_on CHR '':'' info in (name, pw)) else ([], []))"

definition host_info :: "split_url \<Rightarrow> string \<times> string" where
  "host_info u =
     (let (_, _, hostinfo) = rpartition_on CHR ''@'' (us_netloc u);
          (_, br, bracketed) = partition_on CHR ''['' hostinfo
      in if br then (let (h, _, rest) = partition_on CHR '']'' bracketed;
                         (_, _, port) = partition_on CHR '':'' rest in (h, port))
         else (let (h, _, port) = partition_on CHR '':'' hostinfo in (h, port)))"

text \<open>The host, empty when there is none; its zone keeps its case.\<close>

definition url_hostname :: "split_url \<Rightarrow> string" where
  "url_hostname u =
     (let (h, pct, zone) = partition_on CHR ''%'' (fst (host_info u))
      in lower h @ (if pct then CHR ''%'' # zone else []))"

definition url_port :: "split_url \<Rightarrow> nat option res" where
  "url_port u =
     (let p = snd (host_info u)
      in if p = [] then Inr None
         else if \<not> list_all is_dec p then Inl ValueError
         else if 65535 < num_val 10 p then Inl ValueError
         else Inr (Some (num_val 10 p)))"

section \<open>The network\<close>

record http_request =
  hq_host :: string
  hq_port :: nat
  hq_rest :: string
  hq_headers :: "(string \<times> string) list"
  hq_sni :: string

type_synonym bytes = "8 word list"

record response =
  hr_status :: int
  hr_location :: "string option"
  hr_content_type :: string
  hr_url :: string
  hr_chunks :: "bytes list"
  hr_fail :: "exn option"

record 'w net =
  ne_resolve :: "string \<Rightarrow> 'w \<Rightarrow> 'w \<times> string list res"
  ne_send :: "http_request \<Rightarrow> 'w \<Rightarrow> 'w \<times> response res"
  ne_rest :: "string \<Rightarrow> string res"
  ne_join :: "string \<Rightarrow> string \<Rightarrow> string res"

section \<open>Checking a target\<close>

record validated_target =
  vt_url :: string
  vt_scheme :: string
  vt_host :: string
  vt_port :: nat
  vt_connect_ip :: string
  vt_host_header :: string

definition check_target :: "string \<Rightarrow> (string \<times> string \<times> nat) res" where
  "check_target url =
     ok_bind (urlsplit url) (\<lambda>u.
       let scheme = lower (us_scheme u); (user, pw) = user_info u; host = url_hostname u
       in if scheme \<notin> {''http'', ''https''} then Inl SsrfError
          else if user \<noteq> [] \<or> pw \<noteq> [] then Inl SsrfError
          else if host = [] then Inl SsrfError
          else case url_port u of
                 Inl e \<Rightarrow> Inl SsrfError
               | Inr p \<Rightarrow> Inr (scheme, host,
                   (case p of Some n \<Rightarrow> if n = 0 then (if scheme = ''https'' then 443 else 80) else n
                    | None \<Rightarrow> if scheme = ''https'' then 443 else 80)))"

definition validate_target :: "'w net \<Rightarrow> string \<Rightarrow> 'w \<Rightarrow> 'w \<times> validated_target res" where
  "validate_target net url w =
     (case check_target url of
        Inl e \<Rightarrow> (w, Inl e)
      | Inr (scheme, host, port) \<Rightarrow>
          (case (case ip_address host of Inr a \<Rightarrow> (w, Inr [host]) | Inl e \<Rightarrow> ne_resolve net host w) of
             (w1, Inl e) \<Rightarrow> (w1, Inl e)
           | (w1, Inr candidates) \<Rightarrow>
               if candidates = [] then (w1, Inl SsrfError)
               else if list_ex ip_is_blocked candidates then (w1, Inl SsrfError)
               else let label = (if CHR '':'' \<in> set host then ''['' @ host @ '']'' else host);
                        default_port = (if scheme = ''https'' then 443 else 80)
                    in (w1, Inr \<lparr>vt_url = url, vt_scheme = scheme, vt_host = host, vt_port = port,
                                 vt_connect_ip = hd candidates,
                                 vt_host_header = (if port = default_port then label
                                                   else label @ '':'' @ show_nat port)\<rparr>)))"

section \<open>Fetching\<close>

record fetcher =
  fe_max_redirects :: int
  fe_max_bytes :: nat
  fe_user_agent :: string

record fetch_outcome =
  fo_final_url :: string
  fo_status_code :: int
  fo_content_type :: string
  fo_body :: bytes
  fo_truncated :: bool

definition ACCEPT :: string where
  "ACCEPT = ''text/html,application/xhtml+xml,text/plain;q=0.9,*/*;q=0.5''"

definition build_request :: "'w net \<Rightarrow> fetcher \<Rightarrow> validated_target \<Rightarrow> http_request res" where
  "build_request net f t =
     ok_bind (ne_rest net (vt_url t)) (\<lambda>rest.
       Inr \<lparr>hq_host = vt_connect_ip t, hq_port = vt_port t, hq_rest = rest,
            hq_headers = [(''Host'', vt_host_header t), (''User-Agent'', fe_user_agent f), (''Accept'', ACCEPT),
                          (''Accept-Encoding'', ''identity'')],
            hq_sni = vt_host t\<rparr>)"

fun read_loop :: "nat \<Rightarrow> bytes list \<Rightarrow> exn option \<Rightarrow> bytes \<Rightarrow> (bytes \<times> bool) res" where
  "read_loop cap [] fail acc = (case fail of Some e \<Rightarrow> Inl e | None \<Rightarrow> Inr (acc, False))"
| "read_loop cap (c # cs) fail acc =
     (if cap \<le> length (acc @ c) then Inr (acc @ c, True) else read_loop cap cs fail (acc @ c))"

definition read_capped :: "nat \<Rightarrow> response \<Rightarrow> (bytes \<times> bool) res" where
  "read_capped cap r =
     ok_bind (read_loop cap (hr_chunks r) (hr_fail r) []) (\<lambda>(body, truncated). Inr (take cap body, truncated))"

definition redirect_of :: "response \<Rightarrow> string option" where
  "redirect_of r =
     (case hr_location r of
        None \<Rightarrow> None
      | Some l \<Rightarrow> if hr_status r \<in> {301, 302, 303, 307, 308} \<and> l \<noteq> [] then Some l else None)"

fun fetch_loop :: "nat \<Rightarrow> 'w net \<Rightarrow> fetcher \<Rightarrow> string \<Rightarrow> 'w \<Rightarrow> 'w \<times> fetch_outcome res" where
  "fetch_loop 0 net f current w = (w, Inl SsrfError)"
| "fetch_loop (Suc k) net f current w =
     (case validate_target net current w of
        (w1, Inl e) \<Rightarrow> (w1, Inl e)
      | (w1, Inr t) \<Rightarrow>
          (case build_request net f t of
             Inl e \<Rightarrow> (w1, Inl e)
           | Inr q \<Rightarrow>
               (case ne_send net q w1 of
                  (w2, Inl e) \<Rightarrow> (w2, Inl e)
                | (w2, Inr r) \<Rightarrow>
                    (case redirect_of r of
                       Some l \<Rightarrow>
                         (case ok_bind (ne_join net current l) (\<lambda>nxt. ok_bind (urlsplit nxt) (\<lambda>_. Inr nxt)) of
                            Inl e \<Rightarrow> (w2, Inl e)
                          | Inr nxt \<Rightarrow> fetch_loop k net f nxt w2)
                     | None \<Rightarrow>
                         (w2, ok_bind (read_capped (fe_max_bytes f) r) (\<lambda>(body, truncated).
                                Inr \<lparr>fo_final_url = hr_url r, fo_status_code = hr_status r,
                                     fo_content_type = hr_content_type r, fo_body = body,
                                     fo_truncated = truncated\<rparr>))))))"

definition fetch :: "'w net \<Rightarrow> fetcher \<Rightarrow> string \<Rightarrow> 'w \<Rightarrow> 'w \<times> fetch_outcome res" where
  "fetch net f url w = fetch_loop (nat (fe_max_redirects f + 1)) net f url w"

section \<open>What goes out\<close>

text \<open>A world that keeps a trace of the name lookups and the requests.\<close>

datatype net_event = Resolved string "string list res" | Sent http_request

definition traces :: "'w net \<Rightarrow> ('w \<Rightarrow> net_event list) \<Rightarrow> bool" where
  "traces net ev \<longleftrightarrow>
     (\<forall>h w. ev (fst (ne_resolve net h w)) = ev w @ [Resolved h (snd (ne_resolve net h w))]) \<and>
     (\<forall>q w. ev (fst (ne_send net q w)) = ev w @ [Sent q])"

text \<open>One hop: the request goes to an address that is not refused; the address is the URL's own
  literal, or the first of those the name resolved to just before, of which none is refused.\<close>

definition hop_ok :: "net_event list \<Rightarrow> bool" where
  "hop_ok es \<longleftrightarrow> (\<exists>q. \<not> ip_is_blocked (hq_host q) \<and>
     (es = [Sent q] \<and> hq_sni q = hq_host q \<and> ip_address (hq_host q) \<noteq> Inl ValueError \<or>
      (\<exists>ips. es = [Resolved (hq_sni q) (Inr ips), Sent q] \<and> ips \<noteq> [] \<and> hq_host q = hd ips \<and>
         (\<forall>a \<in> set ips. \<not> ip_is_blocked a))))"

definition lookup_only :: "net_event list \<Rightarrow> bool" where
  "lookup_only es \<longleftrightarrow> es = [] \<or> (\<exists>h r. es = [Resolved h r])"

lemma validate_trace:
  assumes "traces net ev" "validate_target net url w = (w1, r)"
  shows "\<exists>es. ev w1 = ev w @ es \<and> lookup_only es \<and>
    (\<forall>t. r = Inr t \<longrightarrow> \<not> ip_is_blocked (vt_connect_ip t) \<and>
       (es = [] \<and> vt_host t = vt_connect_ip t \<and> ip_address (vt_connect_ip t) \<noteq> Inl ValueError \<or>
        (\<exists>ips. es = [Resolved (vt_host t) (Inr ips)] \<and> ips \<noteq> [] \<and> vt_connect_ip t = hd ips \<and>
           (\<forall>a \<in> set ips. \<not> ip_is_blocked a))))"
proof (cases "check_target url")
  case (Inl e)
  with assms(2) show ?thesis by (auto simp: validate_target_def lookup_only_def)
next
  case (Inr p)
  obtain scheme host port where p: "p = (scheme, host, port)" by (cases p)
  note v = assms(2)[unfolded validate_target_def Inr p sum.case prod.case]
  show ?thesis
  proof (cases "ip_address host")
    case (Inr a)
    with v show ?thesis by (auto simp: Let_def lookup_only_def split: if_splits)
  next
    case (Inl e)
    obtain w' rr where rs: "ne_resolve net host w = (w', rr)" by fastforce
    then have "ev w' = ev w @ [Resolved host rr]" using assms(1) unfolding traces_def by (metis fst_conv snd_conv)
    moreover have "w1 = w' \<and> (\<forall>t. r = Inr t \<longrightarrow> vt_host t = host \<and> (\<exists>ips. rr = Inr ips \<and> ips \<noteq> [] \<and>
        vt_connect_ip t = hd ips \<and> (\<forall>a \<in> set ips. \<not> ip_is_blocked a)))"
      using v Inl rs by (cases rr) (auto simp: Let_def list_ex_iff split: if_splits)
    ultimately show ?thesis
      by (intro exI [of _ "[Resolved host rr]"]) (auto simp: lookup_only_def)
  qed
qed

lemma fetch_trace:
  assumes "traces net ev"
  shows "fetch_loop k net f url w = (w', r) \<Longrightarrow>
    \<exists>hops rest. ev w' = ev w @ concat hops @ rest \<and> length hops \<le> k \<and> (\<forall>h \<in> set hops. hop_ok h) \<and> lookup_only rest"
proof (induction k arbitrary: url w)
  case 0
  then show ?case by (intro exI [of _ "[]"]) (auto simp: lookup_only_def)
next
  case (Suc k)
  obtain w1 v where v: "validate_target net url w = (w1, v)" by fastforce
  from validate_trace [OF assms v] obtain es where es: "ev w1 = ev w @ es" "lookup_only es"
    "\<forall>t. v = Inr t \<longrightarrow> \<not> ip_is_blocked (vt_connect_ip t) \<and>
       (es = [] \<and> vt_host t = vt_connect_ip t \<and> ip_address (vt_connect_ip t) \<noteq> Inl ValueError \<or>
        (\<exists>ips. es = [Resolved (vt_host t) (Inr ips)] \<and> ips \<noteq> [] \<and> vt_connect_ip t = hd ips \<and>
           (\<forall>a \<in> set ips. \<not> ip_is_blocked a)))" by blast
  show ?case
  proof (cases "\<exists>t q. v = Inr t \<and> build_request net f t = Inr q")
    case False
    then have "w' = w1" using Suc.prems v by (auto split: sum.splits)
    with es(1,2) show ?thesis by (intro exI [of _ "[]"] exI [of _ es]) simp
  next
    case True
    then obtain t q where t: "v = Inr t" "build_request net f t = Inr q" by blast
    then have q: "hq_host q = vt_connect_ip t" "hq_sni q = vt_host t"
      by (auto simp: build_request_def ok_bind_Inr_iff)
    obtain w2 rr where s: "ne_send net q w1 = (w2, rr)" by fastforce
    then have e2: "ev w2 = ev w @ es @ [Sent q]" using assms es(1) unfolding traces_def by (metis append.assoc fst_conv)
    have hop: "hop_ok (es @ [Sent q])" using es(3) t q unfolding hop_ok_def by (intro exI [of _ q]) auto
    have stop: ?thesis if "w' = w2"
      using that e2 hop by (intro exI [of _ "[es @ [Sent q]]"] exI [of _ "[]"]) (simp add: lookup_only_def)
    show ?thesis
    proof (cases "\<exists>nxt. fetch_loop k net f nxt w2 = (w', r)")
      case True
      then obtain nxt where "fetch_loop k net f nxt w2 = (w', r)" by blast
      from Suc.IH [OF this] obtain hops rest where "ev w' = ev w2 @ concat hops @ rest" "length hops \<le> k"
        "\<forall>h \<in> set hops. hop_ok h" "lookup_only rest" by blast
      with e2 hop show ?thesis by (intro exI [of _ "(es @ [Sent q]) # hops"] exI [of _ rest]) simp
    next
      case False
      have "w' = w2" using Suc.prems v t s False by (auto split: sum.splits option.splits)
      then show ?thesis by (rule stop)
    qed
  qed
qed

section \<open>The capped read\<close>

lemma read_loop_full:
  "cs \<noteq> [] \<Longrightarrow> cap \<le> length (acc @ concat cs) \<Longrightarrow>
   \<exists>d. read_loop cap cs fail acc = Inr (acc @ d, True) \<and> take cap (acc @ d) = take cap (acc @ concat cs)"
proof (induction cs arbitrary: acc)
  case (Cons c cs)
  show ?case
  proof (cases "cap \<le> length (acc @ c)")
    case True
    then show ?thesis by (intro exI [of _ c]) simp
  next
    case False
    with Cons.prems(2) have "cs \<noteq> []" "cap \<le> length ((acc @ c) @ concat cs)" by auto
    from Cons.IH [OF this] obtain d where "read_loop cap cs fail (acc @ c) = Inr ((acc @ c) @ d, True)"
      "take cap ((acc @ c) @ d) = take cap ((acc @ c) @ concat cs)" by blast
    with False show ?thesis by (intro exI [of _ "c @ d"]) simp
  qed
qed simp

lemma read_loop_short:
  "cs = [] \<or> length (acc @ concat cs) < cap \<Longrightarrow>
   read_loop cap cs fail acc = (case fail of Some e \<Rightarrow> Inl e | None \<Rightarrow> Inr (acc @ concat cs, False))"
  by (induction cs arbitrary: acc) (auto split: option.split)

section \<open>Properties\<close>

text \<open>C3: whatever URL is asked for and wherever redirects lead, every connection goes to an address
  the guard does not refuse: the literal of the URL, or the first address its name resolved to in the
  lookup just before, when that lookup gave no refused address at all; the TLS name is the host's.
  There are at most one more connections than the redirects allowed, and a refused hop is never
  connected to.\<close>

theorem fetch_guarded:
  assumes "traces net ev" "fetch net f url w = (w', r)"
  shows "\<exists>hops rest. ev w' = ev w @ concat hops @ rest \<and> length hops \<le> nat (fe_max_redirects f + 1) \<and>
    (\<forall>h \<in> set hops. hop_ok h) \<and> lookup_only rest"
  using fetch_trace [OF assms(1)] assms(2) unfolding fetch_def by blast

text \<open>A public page that redirects to the metadata address: one connection, then refused.\<close>

definition trap_net :: "net_event list net" where
  "trap_net = \<lparr>ne_resolve = \<lambda>h w. (w @ [Resolved h (Inr [dotted 0x5DB8D822])], Inr [dotted 0x5DB8D822]),
     ne_send = \<lambda>q w. (w @ [Sent q], Inr \<lparr>hr_status = 302, hr_location = Some ''x'', hr_content_type = [], hr_url = [],
       hr_chunks = [], hr_fail = None\<rparr>),
     ne_rest = \<lambda>u. Inr ''/'', ne_join = \<lambda>u l. Inr ''http://169.254.169.254/''\<rparr>"

definition fetcher_demo :: fetcher where
  "fetcher_demo = \<lparr>fe_max_redirects = 1, fe_max_bytes = 100, fe_user_agent = ''Johnny5/1.0''\<rparr>"

lemma metadata_text: "dotted 0xA9FEA9FE = ''169.254.169.254''"
  by (simp add: dotted_def dec_def dig_def char_of_def bit_Suc_0_iff)

lemma metadata_blocked: "ip_address ''169.254.169.254'' = Inr (V4 0xA9FEA9FE)" "ip_is_blocked ''169.254.169.254''"
proof -
  show "ip_address ''169.254.169.254'' = Inr (V4 0xA9FEA9FE)"
    using parse_dotted [of "0xA9FEA9FE"] unfolding metadata_text by (simp add: ip_address_def)
  show "ip_is_blocked ''169.254.169.254''"
    using v4_blocked [of "0xA9FEA9FE"] unfolding metadata_text by (simp add: V4_REFUSED_def ranged_def)
qed

lemma public_passes: "\<not> ip_is_blocked (dotted 0x5DB8D822)"
  unfolding v4_blocked by (simp add: V4_REFUSED_def ranged_def)

lemma check_demo: "check_target ''http://a.b/'' = Inr (''http'', ''a.b'', 80)"
  "check_target ''http://169.254.169.254/'' = Inr (''http'', ''169.254.169.254'', 80)"
  "urlsplit ''http://169.254.169.254/'' = Inr \<lparr>us_scheme = ''http'', us_netloc = ''169.254.169.254''\<rparr>"
  by (simp_all add: check_target_def urlsplit_def split_scheme_def strip_url_def partition_on_def rpartition_on_def
    user_info_def url_hostname_def host_info_def url_port_def is_alpha_def is_upper_def is_lower_def is_alnum_def is_digit_def
    is_scheme_char_def lower_def lower_char_def of_char_def Let_def)

theorem fetch_guarded_witness:
  "\<exists>hops rest q. fetch trap_net fetcher_demo ''http://a.b/'' [] =
       ([Resolved ''a.b'' (Inr [dotted 0x5DB8D822]), Sent q], Inl SsrfError) \<and>
     [Resolved ''a.b'' (Inr [dotted 0x5DB8D822]), Sent q] = concat hops @ rest \<and>
     (\<forall>h \<in> set hops. hop_ok h) \<and> lookup_only rest"
proof -
  let ?req = "\<lparr>hq_host = dotted 0x5DB8D822, hq_port = 80, hq_rest = ''/'',
    hq_headers = [(''Host'', ''a.b''), (''User-Agent'', ''Johnny5/1.0''), (''Accept'', ACCEPT), (''Accept-Encoding'', ''identity'')],
    hq_sni = ''a.b''\<rparr>"
  have a: "ip_address ''a.b'' = Inl ValueError"
    by (simp add: ip_address_def parse_ipv4_def parse_octet_def is_dec_def parse_ipv6_def parse_ipv6_int_def
      partition_on_def Let_def of_char_def)
  have f: "fetch trap_net fetcher_demo ''http://a.b/'' [] =
      ([Resolved ''a.b'' (Inr [dotted 0x5DB8D822]), Sent ?req], Inl SsrfError)"
    using public_passes metadata_blocked
    by (simp add: fetch_def fetcher_demo_def trap_net_def numeral_2_eq_2 Let_def validate_target_def check_demo a
      build_request_def redirect_of_def)
  have "traces trap_net id" by (simp add: traces_def trap_net_def)
  from fetch_guarded [OF this f] obtain hops rest where h:
    "[Resolved ''a.b'' (Inr [dotted 0x5DB8D822]), Sent ?req] = concat hops @ rest" "\<forall>h \<in> set hops. hop_ok h" "lookup_only rest"
    by auto
  with f show ?thesis by blast
qed

text \<open>The capped read is the first \<open>cap\<close> bytes of the whole body, flagged as truncated as soon as
  the cap is reached (also by a body of exactly that length); a failure of the stream counts only
  before that.\<close>

theorem read_capped_exact:
  "read_capped cap r =
     (if hr_chunks r \<noteq> [] \<and> cap \<le> length (concat (hr_chunks r)) then Inr (take cap (concat (hr_chunks r)), True)
      else case hr_fail r of Some e \<Rightarrow> Inl e | None \<Rightarrow> Inr (concat (hr_chunks r), False))"
proof (cases "hr_chunks r \<noteq> [] \<and> cap \<le> length (concat (hr_chunks r))")
  case True
  with read_loop_full [of "hr_chunks r" cap "[]" "hr_fail r"] show ?thesis
    by (auto simp: read_capped_def)
next
  case False
  then have "hr_chunks r = [] \<or> length (concat (hr_chunks r)) < cap" by auto
  with read_loop_short [of "hr_chunks r" "[]" cap "hr_fail r"] show ?thesis
    by (auto simp: read_capped_def split: option.splits)
qed

end
