(* ===== verification/Deliberation.thy ===== *)
theory Deliberation
  imports Goals MemScore
begin

text \<open>
  Closing the autonomy loop: \<^verbatim>\<open>brain/agents/deliberation.py\<close>.  A goal becomes a tool action or an
  internal one; acting writes an episode, resolves the goal and eases the drive behind it.

  The model (one free-text call), the clock and the embedder are functions on an opaque world; the
  goals and episode tables are those of Goals.thy and MemScore.thy.  The system prompt is fixed when
  the agent is built, so a call is its user message and its token limit.  The dash of the prompts (U+2014) is written as a hyphen: HOL characters
  are Latin-1.
\<close>

section \<open>Tables of the source\<close>

definition DRIVE_ACTION :: "(string \<times> string) list" where
  "DRIVE_ACTION = [(CURIOSITY, ''reflect''), (BOREDOM, ''recall''), (CONNECTION, ''formulate_question''),
     (MASTERY, ''consolidate''), (COHERENCE, ''reflect''), (CONTINUITY, ''reflect'')]"

definition DRIVE_SATISFACTION :: "(string \<times> string \<times> real) list" where
  "DRIVE_SATISFACTION = [(CURIOSITY, EVENT_LEARNING, 1), (BOREDOM, EVENT_LEARNING, 1),
     (CONNECTION, EVENT_INTERACTION, 3/10), (MASTERY, EVENT_SUCCESS, 8/10),
     (COHERENCE, EVENT_REFLECTION, 1), (CONTINUITY, EVENT_PERSISTENCE_CONFIRMED, 4/10)]"

definition TOOL_QUERY_ARG :: "(string \<times> string) list" where
  "TOOL_QUERY_ARG = [(''web_search'', ''query''), (''news'', ''topic''), (''memory_search'', ''query'')]"

type_synonym tool_actions = "(string \<times> string \<times> (string \<times> json) list) list"

definition DEFAULT_TOOL_ACTIONS :: tool_actions where
  "DEFAULT_TOOL_ACTIONS = [(CURIOSITY, ''news'', []), (BOREDOM, ''web_search'', []),
     (COHERENCE, ''memory_search'', []), (MASTERY, ''code_exec'', [])]"

section \<open>Actions\<close>

record action =
  an_kind :: string
  an_goal_id :: "nat option"
  an_goal_source :: string
  an_description :: string
  an_query :: string
  an_tool :: "string option"
  an_tool_args :: "(string \<times> json) list"

definition is_tool_action :: "action \<Rightarrow> bool" where
  "is_tool_action a \<longleftrightarrow> an_tool a \<noteq> None"

record action_outcome =
  ao_action_kind :: string
  ao_success :: bool
  ao_summary :: string
  ao_drive_events :: "drive_event list"

record deliberation =
  dl_arbiter :: arbiter
  dl_tool_actions :: tool_actions
  dl_recall_k :: int
  dl_max_tokens :: int
  dl_min_interval :: real
  dl_code_max_tokens :: int
  dl_code_max_chars :: nat

text \<open>What is outside: \<open>None\<close> for \<open>di_ask\<close> is no router.\<close>

record 'w delib_io =
  di_ask :: "(string \<Rightarrow> int \<Rightarrow> 'w \<Rightarrow> 'w \<times> string res) option"
  di_now :: "'w \<Rightarrow> real"
  di_emb :: "string \<Rightarrow> real list res"
  di_near :: nearest
  di_pool :: nat
  di_weights :: recall_weights
  di_newest :: goal_order

record 'w delib_state =
  ds_last_acted :: "real option"
  ds_goals :: goal_table
  ds_episodes :: "episode_row list"
  ds_world :: 'w

section \<open>Planning\<close>

definition query_from :: "goal \<Rightarrow> ws_item list \<Rightarrow> string" where
  "query_from g items =
     (let notable = map wi_content (filter (\<lambda>i. wi_kind i \<noteq> ''ambient'') items)
      in if notable \<noteq> [] then join '' '' (take 3 notable) else go_description g)"

definition internal_action :: "goal \<Rightarrow> ws_item list \<Rightarrow> action" where
  "internal_action g items =
     \<lparr>an_kind = (case map_of DRIVE_ACTION (go_source g) of Some k \<Rightarrow> k | None \<Rightarrow> ''reflect''),
      an_goal_id = go_id g, an_goal_source = go_source g, an_description = go_description g,
      an_query = query_from g items, an_tool = None, an_tool_args = []\<rparr>"

definition plan :: "deliberation \<Rightarrow> goal \<Rightarrow> ws_item list \<Rightarrow> action" where
  "plan dl g items =
     (case map_of (dl_tool_actions dl) (go_source g) of
        None \<Rightarrow> internal_action g items
      | Some (tool, targs) \<Rightarrow>
          \<lparr>an_kind = tool, an_goal_id = go_id g, an_goal_source = go_source g, an_description = go_description g,
           an_query = [], an_tool = Some tool,
           an_tool_args =
             (case map_of TOOL_QUERY_ARG tool of
                None \<Rightarrow> targs
              | Some q \<Rightarrow> if map_of targs q \<noteq> None then targs
                         else dict_put q (JStr (query_from g items)) targs)\<rparr>)"

definition FENCE :: string where "FENCE = [CHR 0x60, CHR 0x60, CHR 0x60]"

definition strip_code_fences :: "string \<Rightarrow> string" where
  "strip_code_fences txt =
     (let stripped = strip txt
      in if \<not> prefix FENCE stripped then stripped
         else let ls = splitlines stripped;
                  ls1 = (if ls \<noteq> [] \<and> prefix FENCE (hd ls) then tl ls else ls);
                  ls2 = (if ls1 \<noteq> [] \<and> prefix FENCE (strip (last ls1)) then butlast ls1 else ls1)
              in strip (join NEWLINE ls2))"

definition code_instruction :: "string \<Rightarrow> string \<Rightarrow> string" where
  "code_instruction description focus =
     ''You feel a pull to '' @ description @ ''. Write a SHORT, self-contained Python 3 snippet you could '' @
     ''run to explore or work on that '' @ [CHR 0x2D] @ '' it runs in an isolated sandbox with NO network and '' @
     ''only the standard library, and its stdout is what you'' @ [CHR 0x27] @ ''ll see. Keep it well under 40 lines. '' @
     ''What'' @ [CHR 0x27] @ ''s on your mind: '' @ focus @ ''. Output ONLY the code, no prose, no fences.''"

definition formulate_code :: "'w delib_io \<Rightarrow> deliberation \<Rightarrow> goal \<Rightarrow> ws_item list \<Rightarrow> 'w \<Rightarrow>
    'w \<times> string option res" where
  "formulate_code io dl g items w =
     (case di_ask io of
        None \<Rightarrow> (w, Inr None)
      | Some ask \<Rightarrow>
          (case ask (code_instruction (go_description g) (query_from g items)) (dl_code_max_tokens dl) w of
             (w1, Inl LLMUnavailableError) \<Rightarrow> (w1, Inr None)
           | (w1, Inl e) \<Rightarrow> (w1, Inl e)
           | (w1, Inr content) \<Rightarrow>
               let snippet = take (dl_code_max_chars dl) (strip_code_fences content)
               in (w1, Inr (if snippet = [] then None else Some snippet))))"

definition finalise_action :: "'w delib_io \<Rightarrow> deliberation \<Rightarrow> action \<Rightarrow> goal \<Rightarrow> ws_item list \<Rightarrow> 'w \<Rightarrow>
    'w \<times> action res" where
  "finalise_action io dl a g items w =
     (if an_tool a \<noteq> Some ''code_exec'' \<or>
         (case map_of (an_tool_args a) ''code'' of Some v \<Rightarrow> truthy v | None \<Rightarrow> False)
      then (w, Inr a)
      else case formulate_code io dl g items w of
             (w1, Inl e) \<Rightarrow> (w1, Inl e)
           | (w1, Inr None) \<Rightarrow> (w1, Inr (internal_action g items))
           | (w1, Inr (Some code)) \<Rightarrow>
               (w1, Inr (a\<lparr>an_tool_args := dict_put ''code'' (JStr code) (an_tool_args a)\<rparr>)))"

definition due :: "deliberation \<Rightarrow> real \<Rightarrow> 'w delib_state \<Rightarrow> bool" where
  "due dl now s = (case ds_last_acted s of None \<Rightarrow> True | Some t \<Rightarrow> dl_min_interval dl \<le> now - t)"

definition deliberate :: "'w delib_io \<Rightarrow> deliberation \<Rightarrow> urge list \<Rightarrow> mood option \<Rightarrow> ws_item list \<Rightarrow> real option \<Rightarrow>
    'w delib_state \<Rightarrow> 'w delib_state \<times> (goal option \<times> action option) res" where
  "deliberate io dl us m items now s =
     (let clk = di_now io (ds_world s);
          reference = (case now of Some t \<Rightarrow> t | None \<Rightarrow> clk);
          (goals, g) = arbitrate (di_newest io) (dl_arbiter dl) clk (Some reference) us m (ds_goals s);
          s1 = s\<lparr>ds_goals := goals\<rparr>
      in case g of
           None \<Rightarrow> (s1, Inr (None, None))
         | Some g \<Rightarrow>
             if \<not> due dl reference s1 then (s1, Inr (Some g, None))
             else case finalise_action io dl (plan dl g items) g items (ds_world s1) of
                    (w, Inl e) \<Rightarrow> (s1\<lparr>ds_world := w\<rparr>, Inl e)
                  | (w, Inr a) \<Rightarrow> (s1\<lparr>ds_world := w\<rparr>, Inr (Some g, Some a)))"

section \<open>Acting\<close>

definition satisfaction_events :: "goal \<Rightarrow> drive_event list" where
  "satisfaction_events g =
     (case map_of DRIVE_SATISFACTION (go_source g) of
        None \<Rightarrow> [] | Some (k, i) \<Rightarrow> [\<lparr>de_kind = k, de_intensity = i\<rparr>])"

definition resolve_goal :: "'w delib_io \<Rightarrow> goal \<Rightarrow> (string \<times> json) list \<Rightarrow> 'w delib_state \<Rightarrow> 'w delib_state" where
  "resolve_goal io g outc s =
     (case go_id g of
        None \<Rightarrow> s
      | Some i \<Rightarrow> s\<lparr>ds_goals := resolve (di_now io (ds_world s)) i outc (ds_goals s)\<rparr>)"

definition settle_tool_action :: "'w delib_io \<Rightarrow> goal \<Rightarrow> string \<Rightarrow> bool \<Rightarrow> 'w delib_state \<Rightarrow>
    'w delib_state \<times> drive_event list" where
  "settle_tool_action io g summary success s =
     (let s1 = s\<lparr>ds_last_acted := Some (di_now io (ds_world s))\<rparr>;
          events = (if success then satisfaction_events g else [])
      in (resolve_goal io g [(''action'', JStr ''tool''), (''summary'', JStr summary),
            (''events'', JList (map (\<lambda>e. JStr (de_kind e)) events)), (''success'', JBool success)] s1, events))"

definition think :: "'w delib_io \<Rightarrow> deliberation \<Rightarrow> string \<Rightarrow> string \<Rightarrow> 'w \<Rightarrow> 'w \<times> string res" where
  "think io dl instruction fallback w =
     (case di_ask io of
        None \<Rightarrow> (w, Inr fallback)
      | Some ask \<Rightarrow>
          (case ask instruction (dl_max_tokens dl) w of
             (w1, Inl LLMUnavailableError) \<Rightarrow> (w1, Inr fallback)
           | (w1, Inl e) \<Rightarrow> (w1, Inl e)
           | (w1, Inr content) \<Rightarrow> (w1, Inr (if strip content = [] then fallback else strip content))))"

definition delib_recall :: "'w delib_io \<Rightarrow> deliberation \<Rightarrow> string \<Rightarrow> 'w delib_state \<Rightarrow> episode list res" where
  "delib_recall io dl q s =
     episodic_recall (di_emb io) (di_near io) (di_pool io) (di_weights io) q (dl_recall_k dl)
       (di_now io (ds_world s)) None (ds_episodes s)"

definition do_recall :: "'w delib_io \<Rightarrow> deliberation \<Rightarrow> action \<Rightarrow> 'w delib_state \<Rightarrow> string res" where
  "do_recall io dl a s =
     ok_bind (delib_recall io dl (an_query a) s) (\<lambda>eps.
       if eps = [] then Inr (''I went looking through my memories about '' @ py_repr (an_query a) @ '' but found little.'')
       else Inr (''I revisited what I remember about '' @ py_repr (an_query a) @ '': '' @
                 join ''; '' (map ep_content (take 2 eps))))"

definition do_consolidate :: "'w delib_io \<Rightarrow> deliberation \<Rightarrow> action \<Rightarrow> 'w delib_state \<Rightarrow> 'w \<times> string res" where
  "do_consolidate io dl a s =
     (case delib_recall io dl (if an_query a \<noteq> [] then an_query a else an_description a) s of
        Inl e \<Rightarrow> (ds_world s, Inl e)
      | Inr eps \<Rightarrow>
          if eps = [] then
            (ds_world s, Inr (''I tried to take stock of what I'' @ [CHR 0x27] @ ''ve learned, but it'' @ [CHR 0x27] @ ''s still thin.''))
          else think io dl (''Review these fragments of your recent experience and note, in one or two '' @
                 ''first-person sentences, the single most useful takeaway:'' @ NEWLINE @
                 join NEWLINE (map (\<lambda>e. ''- '' @ ep_content e) eps))
                 (''I took stock of what I'' @ [CHR 0x27] @ ''ve been through lately.'') (ds_world s))"

definition focus_of :: "ws_item list \<Rightarrow> string" where
  "focus_of items =
     (let f = join ''; '' (map wi_content (filter (\<lambda>i. wi_kind i \<noteq> ''ambient'') items))
      in if f = [] then ''the quiet'' else f)"

definition do_reflect :: "'w delib_io \<Rightarrow> deliberation \<Rightarrow> action \<Rightarrow> ws_item list \<Rightarrow> 'w \<Rightarrow> 'w \<times> string res" where
  "do_reflect io dl a items w =
     (if an_kind a = ''formulate_question''
      then think io dl (''You feel a pull to '' @ an_description a @ ''. In one or two first-person sentences, '' @
             ''formulate the question you most want to put to Dan right now. What'' @ [CHR 0x27] @ ''s on your mind: '' @
             focus_of items @ ''.'')
             (''I find myself with a question I'' @ [CHR 0x27] @ ''d like to ask Dan when he'' @ [CHR 0x27] @ ''s next around.'') w
      else think io dl (''You feel a pull to '' @ an_description a @ ''. Reflect, in one or two first-person sentences, '' @
             ''on that '' @ [CHR 0x2D] @ '' given what'' @ [CHR 0x27] @ ''s on your mind: '' @ focus_of items @ ''.'')
             (''I sat with the urge to '' @ an_description a @ '' and turned it over in my mind.'') w)"

definition execute_action :: "'w delib_io \<Rightarrow> deliberation \<Rightarrow> action \<Rightarrow> ws_item list \<Rightarrow> 'w delib_state \<Rightarrow>
    'w \<times> string res" where
  "execute_action io dl a items s =
     (if an_kind a = ''recall'' then (ds_world s, do_recall io dl a s)
      else if an_kind a = ''consolidate'' then do_consolidate io dl a s
      else do_reflect io dl a items (ds_world s))"

definition remember_action :: "'w delib_io \<Rightarrow> string \<Rightarrow> 'w delib_state \<Rightarrow> 'w delib_state res" where
  "remember_action io summary s =
     ok_bind (episodic_write (di_emb io) (di_now io (ds_world s))
         \<lparr>ep_id = None, ep_ts = None, ep_kind = ''deliberation'', ep_content = summary, ep_actors = [''johnny''],
          ep_emotion_tags = [], ep_salience = 55/100, ep_score = None\<rparr> (ds_episodes s))
       (\<lambda>(tbl, e). Inr (s\<lparr>ds_episodes := tbl\<rparr>))"

definition act :: "'w delib_io \<Rightarrow> deliberation \<Rightarrow> action \<Rightarrow> goal \<Rightarrow> ws_item list \<Rightarrow> 'w delib_state \<Rightarrow>
    'w delib_state \<times> action_outcome res" where
  "act io dl a g items s =
     (let s1 = s\<lparr>ds_last_acted := Some (di_now io (ds_world s))\<rparr>
      in case execute_action io dl a items s1 of
           (w, Inl e) \<Rightarrow> (s1\<lparr>ds_world := w\<rparr>, Inl e)
         | (w, Inr summary) \<Rightarrow>
             let s2 = s1\<lparr>ds_world := w\<rparr>; events = satisfaction_events g
             in case remember_action io summary s2 of
                  Inl e \<Rightarrow> (s2, Inl e)
                | Inr s3 \<Rightarrow>
                    (resolve_goal io g [(''action'', JStr (an_kind a)), (''summary'', JStr summary),
                       (''events'', JList (map (\<lambda>e. JStr (de_kind e)) events))] s3,
                     Inr \<lparr>ao_action_kind = an_kind a, ao_success = True, ao_summary = summary,
                          ao_drive_events = events\<rparr>))"

section \<open>Acting in isolation\<close>

lemma resolve_goal_sel [simp]:
  "ds_last_acted (resolve_goal io g outc s) = ds_last_acted s"
  "ds_episodes (resolve_goal io g outc s) = ds_episodes s"
  "ds_world (resolve_goal io g outc s) = ds_world s"
  by (simp_all add: resolve_goal_def split: option.split)

lemma resolve_goal_current:
  assumes "goals_ok (ds_goals s)" "current_goal (ds_goals s) = Some g"
  shows "goals_ok (ds_goals (resolve_goal io g outc s)) \<and>
         current_goal (ds_goals (resolve_goal io g outc s)) = None"
proof -
  from assms obtain i where "go_id g = Some i"
    using goals_ok_ids by (fastforce simp: current_goal_def find_Some_iff)
  then show ?thesis using close_active [OF assms, of Resolved] by (simp add: resolve_goal_def resolve_def)
qed

lemma remember_action_Inr:
  "remember_action io summary s = Inr s' \<Longrightarrow>
     ds_last_acted s' = ds_last_acted s \<and> ds_goals s' = ds_goals s \<and> ds_world s' = ds_world s \<and>
     (\<exists>row. ds_episodes s' = ds_episodes s @ [row] \<and> er_content row = summary \<and> er_kind row = ''deliberation'')"
  by (auto simp: remember_action_def ok_bind_Inr_iff episodic_write_def Let_def)

lemma act_Inr:
  assumes "act io dl a g items s = (s', Inr out)"
  obtains s3 where "s' = resolve_goal io g [(''action'', JStr (an_kind a)), (''summary'', JStr (ao_summary out)),
      (''events'', JList (map (\<lambda>e. JStr (de_kind e)) (ao_drive_events out)))] s3"
    "ds_goals s3 = ds_goals s" "ds_last_acted s3 = Some (di_now io (ds_world s))"
    "\<exists>row. ds_episodes s3 = ds_episodes s @ [row] \<and> er_content row = ao_summary out \<and> er_kind row = ''deliberation''"
    "ao_drive_events out = satisfaction_events g" "ao_success out"
  using assms remember_action_Inr
  by (fastforce simp: act_def Let_def split: prod.splits sum.splits)

lemma act_last_acted:
  "act io dl a g items s = (s', r) \<Longrightarrow> ds_last_acted s' = Some (di_now io (ds_world s))"
  using remember_action_Inr
  by (fastforce simp: act_def Let_def split: prod.splits sum.splits)

text \<open>A call of \<open>deliberate\<close> before the cadence has elapsed: only the goals table may change.\<close>

lemma deliberate_not_due:
  assumes "ds_last_acted s = Some t" "now - t < dl_min_interval dl"
  shows "\<exists>tbl g. deliberate io dl us m items (Some now) s = (s\<lparr>ds_goals := tbl\<rparr>, Inr (g, None))"
  using assms by (auto simp: deliberate_def due_def Let_def split: prod.splits option.splits)

type_synonym tick_input = "real \<times> urge list \<times> mood option \<times> ws_item list"

fun run_deliberate :: "'w delib_io \<Rightarrow> deliberation \<Rightarrow> tick_input list \<Rightarrow> 'w delib_state \<Rightarrow>
    'w delib_state \<times> (goal option \<times> action option) res list" where
  "run_deliberate io dl [] s = (s, [])"
| "run_deliberate io dl ((now, us, m, items) # xs) s =
     (let (s1, r) = deliberate io dl us m items (Some now) s; (s2, rs) = run_deliberate io dl xs s1
      in (s2, r # rs))"

lemma run_not_due:
  assumes "ds_last_acted s = Some t" "\<forall>x \<in> set xs. fst x - t < dl_min_interval dl"
    "run_deliberate io dl xs s = (s', rs)"
  shows "(\<exists>tbl. s' = s\<lparr>ds_goals := tbl\<rparr>) \<and> length rs = length xs \<and> (\<forall>r \<in> set rs. \<exists>g. r = Inr (g, None))"
  using assms
proof (induction xs arbitrary: s rs)
  case (Cons x xs)
  obtain now us m items where x: "x = (now, us, m, items)" by (cases x)
  from Cons.prems(2) x have "now - t < dl_min_interval dl" by simp
  from deliberate_not_due [OF Cons.prems(1) this] obtain tbl g where
    d: "deliberate io dl us m items (Some now) s = (s\<lparr>ds_goals := tbl\<rparr>, Inr (g, None))"
    by blast
  obtain s2 rs2 where r: "run_deliberate io dl xs (s\<lparr>ds_goals := tbl\<rparr>) = (s2, rs2)"
    by (cases "run_deliberate io dl xs (s\<lparr>ds_goals := tbl\<rparr>)")
  have res: "s' = s2" "rs = Inr (g, None) # rs2"
    using Cons.prems(3) unfolding x by (simp_all add: d r)
  have "(\<exists>t. s' = s\<lparr>ds_goals := tbl\<rparr>\<lparr>ds_goals := t\<rparr>) \<and> length rs2 = length xs \<and>
      (\<forall>r \<in> set rs2. \<exists>g. r = Inr (g, None))"
    by (rule Cons.IH) (use Cons.prems(1,2) r res(1) in simp_all)
  then show ?case using res(2) by auto
next
  case Nil
  have "s = s\<lparr>ds_goals := ds_goals s\<rparr>" by simp
  then have "\<exists>tbl. s = s\<lparr>ds_goals := tbl\<rparr>" by blast
  then show ?case using Nil.prems(3) by simp
qed

lemma satisfaction_eases:
  assumes "go_source g \<in> set (map fst DRIVE_SATISFACTION)"
  shows "dict_get (aggregate_deltas default_config (satisfaction_events g) []) (go_source g) 0 \<le> - 165/1000 \<and>
    (\<forall>d. dict_get (aggregate_deltas default_config (satisfaction_events g) []) d 0 \<le> 0)"
proof -
  note evaluate = DRIVE_SATISFACTION_def satisfaction_events_def default_deltas aggregate_deltas_get event_delta_def
    satisfaction_toml_def drive_name_defs event_defs dict_get_def
  from assms consider "go_source g = CURIOSITY" | "go_source g = BOREDOM" | "go_source g = CONNECTION"
    | "go_source g = MASTERY" | "go_source g = COHERENCE" | "go_source g = CONTINUITY"
    by (auto simp: DRIVE_SATISFACTION_def)
  then show ?thesis by cases (simp_all add: evaluate)
qed

section \<open>Properties\<close>

definition delib_demo :: deliberation where
  "delib_demo = \<lparr>dl_arbiter = arbiter_demo, dl_tool_actions = [], dl_recall_k = 3, dl_max_tokens = 100,
     dl_min_interval = 60, dl_code_max_tokens = 100, dl_code_max_chars = 50\<rparr>"

definition delib_io_demo :: "real delib_io" where
  "delib_io_demo = \<lparr>di_ask = None, di_now = (\<lambda>w. w), di_emb = (\<lambda>_. Inr [1]), di_near = (\<lambda>_ _ _. []), di_pool = 5,
     di_weights = \<lparr>rw_similarity = 1, rw_recency = 0, rw_salience = 0, rw_halflife = 1\<rparr>,
     di_newest = by_created_at\<rparr>"

definition delib_state_demo :: "real delib_state" where
  "delib_state_demo = \<lparr>ds_last_acted = None, ds_goals = [goal_demo CURIOSITY 0], ds_episodes = [], ds_world = 100\<rparr>"

definition delib_action_demo :: action where
  "delib_action_demo = plan delib_demo (goal_demo CURIOSITY 0) []"

text \<open>acting is paced.  Once an action was executed or a tool action settled, at the time the
  clock then shows, whether the execution returned or raised, every later tick within the minimum
  interval plans nothing, calls no model and writes nothing but goals: the loop cannot spin however
  high a drive stays.\<close>

theorem acting_is_paced:
  assumes "act io dl a g items s = (s1, r) \<or> settle_tool_action io g summary success s = (s1, evs)"
    and "\<forall>x \<in> set xs. fst x - di_now io (ds_world s) < dl_min_interval dl"
    and "run_deliberate io dl xs s1 = (s2, rs)"
  shows "(\<forall>d \<in> set rs. \<exists>g. d = Inr (g, None)) \<and> ds_world s2 = ds_world s1 \<and>
         ds_episodes s2 = ds_episodes s1 \<and> ds_last_acted s2 = ds_last_acted s1"
proof -
  have "ds_last_acted s1 = Some (di_now io (ds_world s))"
    using assms(1) act_last_acted by (fastforce simp: settle_tool_action_def Let_def)
  from run_not_due [OF this assms(2,3)] show ?thesis by auto
qed

text \<open>An internal action that returns closes the loop.  The goal it pursued is resolved and
  none is active, one deliberation episode with its summary is on record, and with the committed
  configuration its drive events lower the goal's own drive by at least 0.165 and raise no drive.\<close>

theorem act_closes_loop:
  assumes "act io dl a g items s = (s', Inr out)"
    and "goals_ok (ds_goals s)" "current_goal (ds_goals s) = Some g"
    and "go_source g \<in> set (map fst DRIVE_SATISFACTION)"
  shows "goals_ok (ds_goals s') \<and> current_goal (ds_goals s') = None \<and>
    (\<exists>row. ds_episodes s' = ds_episodes s @ [row] \<and> er_content row = ao_summary out) \<and>
    dict_get (aggregate_deltas default_config (ao_drive_events out) []) (go_source g) 0 \<le> - 165/1000 \<and>
    (\<forall>d. dict_get (aggregate_deltas default_config (ao_drive_events out) []) d 0 \<le> 0)"
proof -
  obtain s3 where s3: "s' = resolve_goal io g [(''action'', JStr (an_kind a)), (''summary'', JStr (ao_summary out)),
      (''events'', JList (map (\<lambda>e. JStr (de_kind e)) (ao_drive_events out)))] s3"
    "ds_goals s3 = ds_goals s"
    and row: "\<exists>row. ds_episodes s3 = ds_episodes s @ [row] \<and> er_content row = ao_summary out \<and> er_kind row = ''deliberation''"
    and ev: "ao_drive_events out = satisfaction_events g"
    by (rule act_Inr [OF assms(1)])
  show ?thesis
    using resolve_goal_current [of s3 g] assms(2,3) row satisfaction_eases [OF assms(4)] by (auto simp: s3 ev)
qed

theorem acting_is_paced_witness:
  "\<exists>s1 r. act delib_io_demo delib_demo delib_action_demo (goal_demo CURIOSITY 0) [] delib_state_demo = (s1, r) \<and>
     (\<forall>d \<in> set (snd (run_deliberate delib_io_demo delib_demo [(130, [urge_demo BOREDOM 1], None, [])] s1)).
        \<exists>g. d = Inr (g, None)) \<and> ds_last_acted s1 = Some 100"
proof -
  obtain s1 r where a: "act delib_io_demo delib_demo delib_action_demo (goal_demo CURIOSITY 0) [] delib_state_demo = (s1, r)"
    by (cases "act delib_io_demo delib_demo delib_action_demo (goal_demo CURIOSITY 0) [] delib_state_demo")
  let ?xs = "[(130, [urge_demo BOREDOM 1], None, [])] :: tick_input list"
  obtain s2 rs where r: "run_deliberate delib_io_demo delib_demo ?xs s1 = (s2, rs)"
    by (cases "run_deliberate delib_io_demo delib_demo ?xs s1")
  have clk: "di_now delib_io_demo (ds_world delib_state_demo) = 100"
    by (simp add: delib_io_demo_def delib_state_demo_def)
  have "\<forall>x \<in> set ?xs. fst x - di_now delib_io_demo (ds_world delib_state_demo) < dl_min_interval delib_demo"
    unfolding clk by (simp add: delib_demo_def)
  from acting_is_paced [OF disjI1 [OF a] this r] have "\<forall>d \<in> set rs. \<exists>g. d = Inr (g, None)" by simp
  then show ?thesis using a r act_last_acted [OF a] clk by auto
qed

theorem act_closes_loop_witness:
  "\<exists>s' out. act delib_io_demo delib_demo delib_action_demo (goal_demo CURIOSITY 0) [] delib_state_demo = (s', Inr out) \<and>
     current_goal (ds_goals s') = None \<and>
     dict_get (aggregate_deltas default_config (ao_drive_events out) []) CURIOSITY 0 \<le> - 165/1000"
proof -
  obtain s' out where a: "act delib_io_demo delib_demo delib_action_demo (goal_demo CURIOSITY 0) [] delib_state_demo
      = (s', Inr out)"
    by (simp add: act_def execute_action_def delib_action_demo_def plan_def delib_demo_def internal_action_def
        goal_demo_def DRIVE_ACTION_def drive_name_defs do_reflect_def think_def delib_io_demo_def delib_state_demo_def
        remember_action_def episodic_write_def Let_def ok_bind_def)
  have "goals_ok (ds_goals delib_state_demo)" "current_goal (ds_goals delib_state_demo) = Some (goal_demo CURIOSITY 0)"
    "go_source (goal_demo CURIOSITY 0) = CURIOSITY"
    by (simp_all add: delib_state_demo_def goals_ok_def goal_demo_def current_goal_def)
  moreover have "CURIOSITY \<in> set (map fst DRIVE_SATISFACTION)" by (simp add: DRIVE_SATISFACTION_def)
  ultimately show ?thesis using act_closes_loop [OF a] a by auto
qed

end
