(* ===== verification/Sleep.thy ===== *)
theory Sleep
  imports Decay SelfModel DriveEngine Goals "HOL-Library.Sublist"
begin

text \<open>
  \<^verbatim>\<open>brain/sleep.py\<close>: the offline pipeline the run loop enters between ticks, its log, and the wake
  self-check; with it the prompt renderers of \<^verbatim>\<open>brain/self_model/agent.py\<close> and
  \<^verbatim>\<open>brain/metacognition/agent.py\<close>, whose inputs the pipeline gathers.

  The stages work on the stores of the other theories, the fields of \<open>mind_stores\<close>.  What is outside is the
  record \<open>sleep_io\<close>: the clock when a step runs, what the database raises when a step first reaches
  it, the embedder, the model calls (\<open>None\<close> for no router or no prompt), the JSON parsers and the
  snapshot writer.  Cancellation is not modelled.
\<close>

section \<open>What the stages work on\<close>

record sleep_row =
  sl_id :: nat
  sl_started_at :: real
  sl_ended_at :: "real option"
  sl_trigger :: string
  sl_facts_written :: nat
  sl_episodes_decayed :: nat
  sl_facts_merged :: nat
  sl_self_model_version :: "nat option"
  sl_snapshot_path :: "string option"
  sl_self_check_ok :: "bool option"
  sl_notes :: "(string \<times> json) list"

record mind_stores =
  mi_episodes :: "episode_row list"
  mi_facts :: fact_store
  mi_edges :: "edge_row list"
  mi_identity :: identity_table
  mi_review_notes :: "review_note list"
  mi_drives :: drive_engine
  mi_goals :: goal_table
  mi_moods :: "mood list"
  mi_sleep_log :: "sleep_row list"

record reflection_inputs =
  ri_recent_episodes :: "string list"
  ri_semantic_facts :: "string list"
  ri_mood :: string
  ri_drives :: string

record sleep_io =
  si_now :: "string \<Rightarrow> real"
  si_db :: "string \<Rightarrow> exn option"
  si_emb :: "string \<Rightarrow> real list res"
  si_recent :: "nat \<Rightarrow> episode_row list \<Rightarrow> episode_row list"
  si_oldest :: "nat \<Rightarrow> episode_row list \<Rightarrow> episode_row list"
  si_newest_goals :: goal_order
  si_latest_mood :: "mood list \<Rightarrow> mood option"
  si_summarise :: "(episode_row list \<Rightarrow> summary option res) option"
  si_ask_self :: "(string \<Rightarrow> string res) option"
  si_parse_delta :: "string \<Rightarrow> identity_delta res"
  si_ask_review :: "(string \<Rightarrow> string res) option"
  si_parse_review :: "string \<Rightarrow> review res"
  si_snapshot :: "mind_stores \<Rightarrow> string res"
  si_exn_text :: "exn \<Rightarrow> string"

record sleep_cycle =
  sc_every_ticks :: int
  sc_reflection_episodes :: nat
  sc_review_goals :: nat
  sc_anchor :: identity_anchor
  sc_threshold :: real
  sc_max_clusters :: nat
  sc_recent_limit :: nat
  sc_decay :: decay_config

record sleep_report =
  sp_trigger :: string
  sp_started_at :: real
  sp_ended_at :: real
  sp_facts_written :: nat
  sp_episodes_decayed :: nat
  sp_facts_merged :: nat
  sp_self_model_version :: "nat option"
  sp_snapshot_path :: "string option"
  sp_self_check_ok :: bool
  sp_reflection :: string
  sp_degraded :: "string list"
  sp_notes :: "(string \<times> json) list"

section \<open>The wake self-check\<close>

record check_finding =
  cf_check :: string
  cf_ok :: bool
  cf_detail :: string

record check_result =
  cr_ok :: bool
  cr_findings :: "check_finding list"

definition check_failures :: "check_result \<Rightarrow> check_finding list" where
  "check_failures r = filter (\<lambda>f. \<not> cf_ok f) (cr_findings r)"

definition check_self_model_present :: "string \<Rightarrow> check_finding" where
  "check_self_model_present doc =
     (let present = strip doc \<noteq> []
      in \<lparr>cf_check = ''self_model_present'', cf_ok = present,
          cf_detail = (if present then ''self-model doc present'' else ''self-model doc is empty'')\<rparr>)"

definition check_anchor_consistency :: "identity_anchor \<Rightarrow> string \<Rightarrow> check_finding" where
  "check_anchor_consistency a name =
     (let consistent = (name = an_name a)
      in \<lparr>cf_check = ''anchor_consistency'', cf_ok = consistent,
          cf_detail = (if consistent then ''self-model name '' @ py_repr name @ '' matches the anchor''
                       else ''self-model name '' @ py_repr name @ '' diverged from anchor '' @ py_repr (an_name a))\<rparr>)"

definition check_drive_ranges :: "reading list \<Rightarrow> check_finding" where
  "check_drive_ranges readings =
     (let out_of_range = map rd_drive (filter (\<lambda>r. \<not> (0 \<le> rd_value r \<and> rd_value r \<le> 1)) readings);
          ok = (out_of_range = [])
      in \<lparr>cf_check = ''drive_ranges'', cf_ok = ok,
          cf_detail = (if ok then ''all drives within [0,1]''
                       else ''drives out of range: '' @ repr_list out_of_range)\<rparr>)"

definition wake_findings :: "identity_anchor \<Rightarrow> identity_doc \<Rightarrow> reading list \<Rightarrow> check_finding list" where
  "wake_findings a d rs =
     [check_self_model_present (id_doc d), check_anchor_consistency a (id_name d), check_drive_ranges rs]"

definition wake_verify :: "identity_anchor \<Rightarrow> real \<Rightarrow> mind_stores \<Rightarrow> mind_stores \<times> check_result" where
  "wake_verify a now m =
     (let (tbl, d) = ensure_seeded a now (mi_identity m);
          findings = wake_findings a d (current_readings (mi_drives m))
      in (m\<lparr>mi_identity := tbl\<rparr>, \<lparr>cr_ok = list_all cf_ok findings, cr_findings = findings\<rparr>))"

section \<open>The log\<close>

definition log_open :: "string \<Rightarrow> real \<Rightarrow> mind_stores \<Rightarrow> mind_stores \<times> nat" where
  "log_open trigger started m =
     (let i = Suc (length (mi_sleep_log m))
      in (m\<lparr>mi_sleep_log := mi_sleep_log m @
             [\<lparr>sl_id = i, sl_started_at = started, sl_ended_at = None, sl_trigger = trigger, sl_facts_written = 0,
               sl_episodes_decayed = 0, sl_facts_merged = 0, sl_self_model_version = None,
               sl_snapshot_path = None, sl_self_check_ok = None, sl_notes = []\<rparr>]\<rparr>, i))"

definition close_row :: "real \<Rightarrow> sleep_report \<Rightarrow> sleep_row \<Rightarrow> sleep_row" where
  "close_row ended rep row =
     row\<lparr>sl_ended_at := Some ended, sl_facts_written := sp_facts_written rep,
         sl_episodes_decayed := sp_episodes_decayed rep, sl_facts_merged := sp_facts_merged rep,
         sl_self_model_version := sp_self_model_version rep, sl_snapshot_path := sp_snapshot_path rep,
         sl_self_check_ok := Some (sp_self_check_ok rep), sl_notes := sp_notes rep\<rparr>"

definition log_close :: "nat \<Rightarrow> real \<Rightarrow> sleep_report \<Rightarrow> mind_stores \<Rightarrow> mind_stores" where
  "log_close i ended rep m =
     m\<lparr>mi_sleep_log := map (\<lambda>row. if sl_id row = i then close_row ended rep row else row) (mi_sleep_log m)\<rparr>"

section \<open>Gathering the inputs of the model calls\<close>

definition mood_descriptor :: "mood option \<Rightarrow> string" where
  "mood_descriptor m =
     (case m of
        None \<Rightarrow> ''unremarkable''
      | Some r \<Rightarrow> ''valence '' @ signed2 (mo_valence r) @ '', arousal '' @ fixed2 (mo_arousal r))"

definition drive_summary :: "reading list \<Rightarrow> string" where
  "drive_summary ds =
     (let over = map (\<lambda>d. rd_drive d @ '' '' @ fixed2 (rd_value d)) (filter over_threshold ds)
      in if over \<noteq> [] then join '', '' over else ''at rest'')"

definition fact_line :: "fact_row \<Rightarrow> string" where
  "fact_line f = fr_subject f @ '' '' @ fr_predicate f @ '' '' @ fr_object f"

definition build_reflection_inputs :: "sleep_io \<Rightarrow> sleep_cycle \<Rightarrow> fact_row list \<Rightarrow> mind_stores \<Rightarrow> reflection_inputs" where
  "build_reflection_inputs io sc facts m =
     \<lparr>ri_recent_episodes = map er_content (si_recent io (sc_reflection_episodes sc) (mi_episodes m)),
      ri_semantic_facts = map fact_line facts,
      ri_mood = mood_descriptor (si_latest_mood io (mi_moods m)),
      ri_drives = drive_summary (current_readings (mi_drives m))\<rparr>"

definition count_goals :: "goal_status \<Rightarrow> goal_table \<Rightarrow> nat" where
  "count_goals st tbl = length (filter (\<lambda>g. go_status g = st) tbl)"

definition recent_goal_descriptions :: "goal_order \<Rightarrow> nat \<Rightarrow> goal_table \<Rightarrow> string list" where
  "recent_goal_descriptions newest limit tbl =
     map (\<lambda>g. go_source g @ '': '' @ go_description g) (take limit (newest tbl))"

definition build_review_window :: "sleep_io \<Rightarrow> sleep_cycle \<Rightarrow> nat \<Rightarrow> mind_stores \<Rightarrow> review_window" where
  "build_review_window io sc degraded_ticks m =
     \<lparr>wd_goals_resolved = count_goals Resolved (mi_goals m),
      wd_goals_abandoned = count_goals Abandoned (mi_goals m),
      wd_degraded_ticks = degraded_ticks,
      wd_recent_goals = recent_goal_descriptions (si_newest_goals io) (sc_review_goals sc) (mi_goals m),
      wd_mood = mood_descriptor (si_latest_mood io (mi_moods m)),
      wd_drives = drive_summary (current_readings (mi_drives m))\<rparr>"

definition bullets :: "string list \<Rightarrow> string" where
  "bullets items =
     (if items \<noteq> [] then join NEWLINE (map (\<lambda>i. ''- '' @ i) items) else ''- (nothing notable)'')"

definition or_else :: "string \<Rightarrow> string \<Rightarrow> string" where
  "or_else s fallback = (if s \<noteq> [] then s else fallback)"

definition render_reflection :: "identity_anchor \<Rightarrow> identity_doc \<Rightarrow> reflection_inputs \<Rightarrow> string" where
  "render_reflection a d inp = join NEWLINE
     [''Your anchor (fixed - stay consistent with it):'',
      ''- name: '' @ an_name a,
      ''- prime directive: '' @ an_prime_directive a, [],
      ''Your current self-model:'',
      id_doc d,
      ''- values: '' @ repr_list (id_values d),
      ''- concerns: '' @ repr_list (id_concerns d),
      ''- relationships: '' @ repr_str_dict (id_relationships d), [],
      ''Recent experiences:'', bullets (ri_recent_episodes inp), [],
      ''What you now know (consolidated facts):'', bullets (ri_semantic_facts inp), [],
      ''Your recent mood: '' @ or_else (ri_mood inp) ''unremarkable'',
      ''Your drives: '' @ or_else (ri_drives inp) ''at rest'', [],
      ''Reflect and produce the next version of your self-model as the required JSON.'']"

definition render_window :: "review_window \<Rightarrow> string" where
  "render_window w = join NEWLINE
     [''Here is a window of how you've been functioning lately:'',
      ''- goals resolved: '' @ show_nat (wd_goals_resolved w),
      ''- goals abandoned: '' @ show_nat (wd_goals_abandoned w),
      ''- ticks where your cognition degraded: '' @ show_nat (wd_degraded_ticks w),
      ''- recent goals:'',
      or_else (join NEWLINE (map (\<lambda>g. ''- '' @ g) (wd_recent_goals w))) ''- (none of note)'',
      ''- mood: '' @ or_else (wd_mood w) ''unremarkable'',
      ''- drives: '' @ or_else (wd_drives w) ''at rest'', [],
      ''Review how your mind has been working and respond with the required JSON.'']"

definition ask_model :: "(string \<Rightarrow> string res) option \<Rightarrow> (string \<Rightarrow> 'a res) \<Rightarrow> string \<Rightarrow> 'a option res" where
  "ask_model ask parse prompt =
     (case ask of
        None \<Rightarrow> Inr None
      | Some f \<Rightarrow>
          (case f prompt of
             Inl LLMUnavailableError \<Rightarrow> Inr None
           | Inl e \<Rightarrow> Inl e
           | Inr content \<Rightarrow> ok_bind (parse content) (\<lambda>x. Inr (Some x))))"

section \<open>The stages\<close>

text \<open>A stage raises what the database raises when it first reaches it, or runs.\<close>

definition reaching :: "sleep_io \<Rightarrow> string \<Rightarrow> (mind_stores \<Rightarrow> mind_stores \<times> 'a res) \<Rightarrow> mind_stores \<Rightarrow> mind_stores \<times> 'a res" where
  "reaching io name f m = (case si_db io name of Some e \<Rightarrow> (m, Inl e) | None \<Rightarrow> f m)"

definition run_consolidate :: "sleep_io \<Rightarrow> sleep_cycle \<Rightarrow> mind_stores \<Rightarrow> mind_stores \<times> fact_row list res" where
  "run_consolidate io sc m =
     (let (fs, r) = consolidate (si_emb io) (si_now io ''consolidate'') (si_summarise io) (si_recent io)
                      (sc_threshold sc) (sc_max_clusters sc) (sc_recent_limit sc) (mi_episodes m) (mi_facts m)
      in (m\<lparr>mi_facts := fs\<rparr>, r))"

definition run_decay :: "sleep_io \<Rightarrow> sleep_cycle \<Rightarrow> real \<Rightarrow> mind_stores \<Rightarrow> mind_stores \<times> decay_report res" where
  "run_decay io sc started m =
     (case decay_run (si_oldest io) (sc_decay sc) started (mi_episodes m) (fs_rows (mi_facts m)) (mi_edges m) of
        Inl e \<Rightarrow> (m, Inl e)
      | Inr (eps, facts, edges, rep) \<Rightarrow>
          (m\<lparr>mi_episodes := eps, mi_facts := (mi_facts m)\<lparr>fs_rows := facts\<rparr>, mi_edges := edges\<rparr>, Inr rep))"

definition refresh_self_model :: "sleep_io \<Rightarrow> sleep_cycle \<Rightarrow> fact_row list \<Rightarrow> mind_stores \<Rightarrow> mind_stores \<times> identity_doc res" where
  "refresh_self_model io sc facts m =
     (let inp = build_reflection_inputs io sc facts m;
          (tbl, r) = self_refresh (sc_anchor sc)
             (\<lambda>d. ask_model (si_ask_self io) (si_parse_delta io) (render_reflection (sc_anchor sc) d inp))
             (si_now io ''self_model'') (mi_identity m)
      in (m\<lparr>mi_identity := tbl\<rparr>, r))"

definition run_review :: "sleep_io \<Rightarrow> sleep_cycle \<Rightarrow> nat \<Rightarrow> mind_stores \<Rightarrow> mind_stores \<times> review res" where
  "run_review io sc degraded_ticks m =
     (let (tbl, r) = review_pass (\<lambda>w. ask_model (si_ask_review io) (si_parse_review io) (render_window w))
             (si_now io ''metacognition'') (build_review_window io sc degraded_ticks m) (mi_review_notes m)
      in (m\<lparr>mi_review_notes := tbl\<rparr>, r))"

definition run_backup :: "sleep_io \<Rightarrow> mind_stores \<Rightarrow> mind_stores \<times> string res" where
  "run_backup io m = (m, si_snapshot io m)"

definition restore_events :: "bool \<Rightarrow> drive_event list" where
  "restore_events snapshot_ok =
     \<lparr>de_kind = EVENT_REST, de_intensity = 1\<rparr> #
     (if snapshot_ok then [\<lparr>de_kind = EVENT_PERSISTENCE_CONFIRMED, de_intensity = 1\<rparr>] else [])"

definition restore_energy :: "bool \<Rightarrow> real \<Rightarrow> mind_stores \<Rightarrow> mind_stores \<times> unit res" where
  "restore_energy snapshot_ok now m =
     (case engine_step (restore_events snapshot_ok) now (mi_drives m) of
        Inl e \<Rightarrow> (m, Inl e)
      | Inr (en, _) \<Rightarrow> (m\<lparr>mi_drives := en\<rparr>, Inr ()))"

definition run_self_check :: "sleep_io \<Rightarrow> sleep_cycle \<Rightarrow> mind_stores \<Rightarrow> mind_stores \<times> check_result res" where
  "run_self_check io sc m =
     (let (m', r) = wake_verify (sc_anchor sc) (si_now io ''self_check'') m in (m', Inr r))"

section \<open>The pipeline\<close>

text \<open>The state of a running sleep: the stores, the degraded stages and the notes so far.\<close>

record sleep_run =
  sr_mind :: mind_stores
  sr_degraded :: "string list"
  sr_notes :: "(string \<times> json) list"

definition sleep_stage :: "sleep_io \<Rightarrow> string \<Rightarrow> (mind_stores \<Rightarrow> mind_stores \<times> 'a res) \<Rightarrow> sleep_run \<Rightarrow> sleep_run \<times> 'a option" where
  "sleep_stage io name f s =
     (case reaching io name f (sr_mind s) of
        (m, Inr x) \<Rightarrow> (s\<lparr>sr_mind := m\<rparr>, Some x)
      | (m, Inl e) \<Rightarrow>
          (s\<lparr>sr_mind := m, sr_degraded := sr_degraded s @ [name],
             sr_notes := dict_put (name @ ''_error'') (JStr (si_exn_text io e)) (sr_notes s)\<rparr>, None))"

definition note_facts :: "fact_row list \<Rightarrow> sleep_run \<Rightarrow> sleep_run" where
  "note_facts facts s =
     (if facts = [] then s
      else s\<lparr>sr_notes := dict_put ''consolidation_summary'' (JList (map (\<lambda>f. JStr (fact_line f)) facts)) (sr_notes s)\<rparr>)"

definition note_failures :: "check_result option \<Rightarrow> sleep_run \<Rightarrow> sleep_run" where
  "note_failures check s =
     (case check of
        Some c \<Rightarrow> if cr_ok c then s
                  else s\<lparr>sr_notes := dict_put ''self_check_failures''
                           (JList (map (\<lambda>f. JStr (cf_check f)) (check_failures c))) (sr_notes s)\<rparr>
      | None \<Rightarrow> s)"

definition pipeline :: "sleep_io \<Rightarrow> sleep_cycle \<Rightarrow> string \<Rightarrow> real \<Rightarrow> nat \<Rightarrow> mind_stores \<Rightarrow> sleep_run \<times> sleep_report" where
  "pipeline io sc trigger started degraded_ticks m =
     (let (s1, facts) = sleep_stage io ''consolidate'' (run_consolidate io sc)
                          \<lparr>sr_mind = m, sr_degraded = [], sr_notes = []\<rparr>;
          fl = (case facts of Some fs \<Rightarrow> fs | None \<Rightarrow> []);
          (s2, dec) = sleep_stage io ''decay'' (run_decay io sc started) (note_facts fl s1);
          (s3, doc) = sleep_stage io ''self_model'' (refresh_self_model io sc fl) s2;
          (s4, rev) = sleep_stage io ''metacognition'' (run_review io sc degraded_ticks) s3;
          (s5, path) = sleep_stage io ''backup'' (run_backup io) s4;
          (s6, _) = sleep_stage io ''restore_energy'' (restore_energy (path \<noteq> None) started) s5;
          (s7, check) = sleep_stage io ''self_check'' (run_self_check io sc) s6;
          s8 = note_failures check s7;
          notes = dict_put ''degraded'' (JList (map JStr (sr_degraded s8))) (sr_notes s8)
      in (s8, \<lparr>sp_trigger = trigger, sp_started_at = started, sp_ended_at = si_now io ''ended'',
               sp_facts_written = length fl,
               sp_episodes_decayed = (case dec of Some d \<Rightarrow> dr_decayed d | None \<Rightarrow> 0),
               sp_facts_merged = (case dec of Some d \<Rightarrow> dr_merged d | None \<Rightarrow> 0),
               sp_self_model_version = map_option id_version doc,
               sp_snapshot_path = path,
               sp_self_check_ok = (case check of Some c \<Rightarrow> cr_ok c | None \<Rightarrow> False),
               sp_reflection = (case rev of Some r \<Rightarrow> rv_reflection r | None \<Rightarrow> []),
               sp_degraded = sr_degraded s8, sp_notes = notes\<rparr>))"

section \<open>The state machine\<close>

record sleeper =
  sl_asleep :: bool
  sl_mind :: mind_stores

definition sleep_trigger :: "sleep_cycle \<Rightarrow> urge list \<Rightarrow> int \<Rightarrow> sleeper \<Rightarrow> string option" where
  "sleep_trigger sc us tick st =
     (if sl_asleep st then None
      else if list_ex is_sleep_signal us then Some ''energy''
      else if 0 < sc_every_ticks sc \<and> 0 < tick \<and> tick mod sc_every_ticks sc = 0 then Some ''scheduled''
      else None)"

text \<open>\<open>None\<close> inside the result: already asleep.  The \<^verbatim>\<open>finally\<close> block closes the log before it clears the
  flag, so a log that cannot be closed leaves the flag set.\<close>

definition sleep :: "sleep_io \<Rightarrow> sleep_cycle \<Rightarrow> string \<Rightarrow> real option \<Rightarrow> nat \<Rightarrow> sleeper \<Rightarrow>
    sleeper \<times> sleep_report option res" where
  "sleep io sc trigger now degraded_ticks st =
     (if sl_asleep st then (st, Inr None)
      else let started = (case now of Some t \<Rightarrow> t | None \<Rightarrow> si_now io ''started'')
           in case si_db io ''open'' of
                Some e \<Rightarrow> (st, Inl e)
              | None \<Rightarrow>
                  let (m, i) = log_open trigger started (sl_mind st);
                      (s, rep) = pipeline io sc trigger started degraded_ticks m
                  in case si_db io ''close'' of
                       Some e \<Rightarrow> (\<lparr>sl_asleep = True, sl_mind = sr_mind s\<rparr>, Inl e)
                     | None \<Rightarrow> (\<lparr>sl_asleep = False, sl_mind = log_close i (sp_ended_at rep) rep (sr_mind s)\<rparr>,
                                Inr (Some rep)))"

section \<open>What the stages leave alone\<close>

lemma sleep_stage_keeps:
  "(\<And>m. g (fst (f m)) = g m) \<Longrightarrow> g (sr_mind (fst (sleep_stage io name f s))) = g (sr_mind s)"
  by (auto simp: sleep_stage_def reaching_def split: option.split sum.split prod.split) (metis fst_conv)+

lemma sleep_stage_keeps_inv:
  "(\<And>m. P m \<Longrightarrow> P (fst (f m))) \<Longrightarrow> P (sr_mind s) \<Longrightarrow> P (sr_mind (fst (sleep_stage io name f s)))"
  by (auto simp: sleep_stage_def reaching_def split: option.split sum.split prod.split) (metis fst_conv)+

lemma sleep_stage_degraded:
  "sr_degraded (fst (sleep_stage io name f s)) =
     sr_degraded s @ (case snd (sleep_stage io name f s) of None \<Rightarrow> [name] | Some _ \<Rightarrow> [])"
  by (auto simp: sleep_stage_def split: sum.split prod.split)

lemma keeps_log [simp]:
  "mi_sleep_log (fst (run_consolidate io sc m)) = mi_sleep_log m"
  "mi_sleep_log (fst (run_decay io sc started m)) = mi_sleep_log m"
  "mi_sleep_log (fst (refresh_self_model io sc facts m)) = mi_sleep_log m"
  "mi_sleep_log (fst (run_review io sc k m)) = mi_sleep_log m"
  "mi_sleep_log (fst (run_backup io m)) = mi_sleep_log m"
  "mi_sleep_log (fst (restore_energy b now m)) = mi_sleep_log m"
  "mi_sleep_log (fst (run_self_check io sc m)) = mi_sleep_log m"
  by (simp_all add: run_consolidate_def run_decay_def refresh_self_model_def run_review_def run_backup_def
      restore_energy_def run_self_check_def wake_verify_def Let_def split: prod.split sum.split)

lemma keeps_drives [simp]:
  "mi_drives (fst (run_consolidate io sc m)) = mi_drives m"
  "mi_drives (fst (run_decay io sc started m)) = mi_drives m"
  "mi_drives (fst (refresh_self_model io sc facts m)) = mi_drives m"
  "mi_drives (fst (run_review io sc k m)) = mi_drives m"
  "mi_drives (fst (run_backup io m)) = mi_drives m"
  "mi_drives (fst (run_self_check io sc m)) = mi_drives m"
  by (simp_all add: run_consolidate_def run_decay_def refresh_self_model_def run_review_def run_backup_def
      run_self_check_def wake_verify_def Let_def split: prod.split sum.split)

lemma keeps_identity [simp]:
  "mi_identity (fst (run_consolidate io sc m)) = mi_identity m"
  "mi_identity (fst (run_decay io sc started m)) = mi_identity m"
  "mi_identity (fst (run_review io sc k m)) = mi_identity m"
  "mi_identity (fst (run_backup io m)) = mi_identity m"
  "mi_identity (fst (restore_energy b now m)) = mi_identity m"
  by (simp_all add: run_consolidate_def run_decay_def run_review_def run_backup_def restore_energy_def
      Let_def split: prod.split sum.split)

lemma note_sel [simp]:
  "sr_mind (note_facts fl s) = sr_mind s" "sr_degraded (note_facts fl s) = sr_degraded s"
  "sr_mind (note_failures c s) = sr_mind s" "sr_degraded (note_failures c s) = sr_degraded s"
  by (simp_all add: note_facts_def note_failures_def split: option.split)

text \<open>The pipeline as a chain of stages.\<close>

lemma pipeline_stages:
  obtains s1 fl s2 dec s3 doc s4 rev s5 path s6 u s7 check facts where
    "sleep_stage io ''consolidate'' (run_consolidate io sc) \<lparr>sr_mind = m, sr_degraded = [], sr_notes = []\<rparr> = (s1, facts)"
    "sleep_stage io ''decay'' (run_decay io sc started) (note_facts fl s1) = (s2, dec)"
    "sleep_stage io ''self_model'' (refresh_self_model io sc fl) s2 = (s3, doc)"
    "sleep_stage io ''metacognition'' (run_review io sc k) s3 = (s4, rev)"
    "sleep_stage io ''backup'' (run_backup io) s4 = (s5, path)"
    "sleep_stage io ''restore_energy'' (restore_energy (path \<noteq> None) started) s5 = (s6, u)"
    "sleep_stage io ''self_check'' (run_self_check io sc) s6 = (s7, check)"
    "sr_mind (fst (pipeline io sc trigger started k m)) = sr_mind s7"
    "sp_degraded (snd (pipeline io sc trigger started k m)) = sr_degraded s7"
    "sp_snapshot_path (snd (pipeline io sc trigger started k m)) = path"
    "sp_self_check_ok (snd (pipeline io sc trigger started k m)) = (case check of Some c \<Rightarrow> cr_ok c | None \<Rightarrow> False)"
proof -
  obtain s1 facts where 1: "sleep_stage io ''consolidate'' (run_consolidate io sc)
      \<lparr>sr_mind = m, sr_degraded = [], sr_notes = []\<rparr> = (s1, facts)" by fastforce
  define fl where "fl = (case facts of Some fs \<Rightarrow> fs | None \<Rightarrow> [])"
  obtain s2 dec where 2: "sleep_stage io ''decay'' (run_decay io sc started) (note_facts fl s1) = (s2, dec)" by fastforce
  obtain s3 doc where 3: "sleep_stage io ''self_model'' (refresh_self_model io sc fl) s2 = (s3, doc)" by fastforce
  obtain s4 rev where 4: "sleep_stage io ''metacognition'' (run_review io sc k) s3 = (s4, rev)" by fastforce
  obtain s5 path where 5: "sleep_stage io ''backup'' (run_backup io) s4 = (s5, path)" by fastforce
  obtain s6 u where 6: "sleep_stage io ''restore_energy'' (restore_energy (path \<noteq> None) started) s5 = (s6, u)" by fastforce
  obtain s7 check where 7: "sleep_stage io ''self_check'' (run_self_check io sc) s6 = (s7, check)" by fastforce
  show thesis
    by (rule that [OF 1 2 3 4 5 6 7])
       (simp_all add: pipeline_def 1 2 3 4 5 6 7 fl_def [symmetric] Let_def del: not_None_eq)
qed

definition SLEEP_STAGES :: "string list" where
  "SLEEP_STAGES = [''consolidate'', ''decay'', ''self_model'', ''metacognition'', ''backup'', ''restore_energy'', ''self_check'']"

text \<open>What a chain of stages leaves as it was.\<close>

lemma sleep_stage_log [simp]:
  "mi_sleep_log (sr_mind (fst (sleep_stage io nm (run_consolidate io sc) s))) = mi_sleep_log (sr_mind s)"
  "mi_sleep_log (sr_mind (fst (sleep_stage io nm (run_decay io sc started) s))) = mi_sleep_log (sr_mind s)"
  "mi_sleep_log (sr_mind (fst (sleep_stage io nm (refresh_self_model io sc facts) s))) = mi_sleep_log (sr_mind s)"
  "mi_sleep_log (sr_mind (fst (sleep_stage io nm (run_review io sc k) s))) = mi_sleep_log (sr_mind s)"
  "mi_sleep_log (sr_mind (fst (sleep_stage io nm (run_backup io) s))) = mi_sleep_log (sr_mind s)"
  "mi_sleep_log (sr_mind (fst (sleep_stage io nm (restore_energy b now) s))) = mi_sleep_log (sr_mind s)"
  "mi_sleep_log (sr_mind (fst (sleep_stage io nm (run_self_check io sc) s))) = mi_sleep_log (sr_mind s)"
  by (rule sleep_stage_keeps, simp)+

lemma sleep_stage_drives [simp]:
  "mi_drives (sr_mind (fst (sleep_stage io nm (run_consolidate io sc) s))) = mi_drives (sr_mind s)"
  "mi_drives (sr_mind (fst (sleep_stage io nm (run_decay io sc started) s))) = mi_drives (sr_mind s)"
  "mi_drives (sr_mind (fst (sleep_stage io nm (refresh_self_model io sc facts) s))) = mi_drives (sr_mind s)"
  "mi_drives (sr_mind (fst (sleep_stage io nm (run_review io sc k) s))) = mi_drives (sr_mind s)"
  "mi_drives (sr_mind (fst (sleep_stage io nm (run_backup io) s))) = mi_drives (sr_mind s)"
  "mi_drives (sr_mind (fst (sleep_stage io nm (run_self_check io sc) s))) = mi_drives (sr_mind s)"
  by (rule sleep_stage_keeps, simp)+

lemma sleep_stage_identity [simp]:
  "mi_identity (sr_mind (fst (sleep_stage io nm (run_consolidate io sc) s))) = mi_identity (sr_mind s)"
  "mi_identity (sr_mind (fst (sleep_stage io nm (run_decay io sc started) s))) = mi_identity (sr_mind s)"
  "mi_identity (sr_mind (fst (sleep_stage io nm (run_review io sc k) s))) = mi_identity (sr_mind s)"
  "mi_identity (sr_mind (fst (sleep_stage io nm (run_backup io) s))) = mi_identity (sr_mind s)"
  "mi_identity (sr_mind (fst (sleep_stage io nm (restore_energy b now) s))) = mi_identity (sr_mind s)"
  by (rule sleep_stage_keeps, simp)+

lemma pipeline_log [simp]:
  "mi_sleep_log (sr_mind (fst (pipeline io sc trigger started k m))) = mi_sleep_log m"
  by (simp add: pipeline_def Let_def split_def)

lemma pipeline_drives:
  "mi_drives (sr_mind (fst (pipeline io sc trigger started k m))) =
     (case si_db io ''restore_energy'' of
        Some _ \<Rightarrow> mi_drives m
      | None \<Rightarrow> (case engine_step (restore_events (sp_snapshot_path (snd (pipeline io sc trigger started k m)) \<noteq> None))
                        started (mi_drives m) of
                   Inl _ \<Rightarrow> mi_drives m | Inr (en, _) \<Rightarrow> en))"
proof -
  have one: "mi_drives (sr_mind (fst (sleep_stage io ''restore_energy'' (restore_energy b started) s))) =
     (case si_db io ''restore_energy'' of Some _ \<Rightarrow> mi_drives (sr_mind s)
      | None \<Rightarrow> (case engine_step (restore_events b) started (mi_drives (sr_mind s)) of
                   Inl _ \<Rightarrow> mi_drives (sr_mind s) | Inr (en, _) \<Rightarrow> en))" for b s
    by (simp add: sleep_stage_def reaching_def restore_energy_def split: option.split sum.split prod.split)
  show ?thesis
    by (simp add: pipeline_def Let_def split_def one del: not_None_eq cong: option.case_cong sum.case_cong)
qed

lemma sleep_stage_degraded_subseq:
  "subseq (sr_degraded s) xs \<Longrightarrow> subseq (sr_degraded (fst (sleep_stage io nm f s))) (xs @ [nm])"
  by (auto simp: sleep_stage_degraded split: option.split intro: list_emb_append_mono)

lemma pipeline_degraded: "subseq (sp_degraded (snd (pipeline io sc trigger started k m))) SLEEP_STAGES"
proof -
  have e: "SLEEP_STAGES = ((((((([] @ [''consolidate'']) @ [''decay'']) @ [''self_model'']) @ [''metacognition'']) @
      [''backup'']) @ [''restore_energy'']) @ [''self_check''])" by (simp add: SLEEP_STAGES_def)
  show ?thesis
    unfolding e pipeline_def Let_def split_def fst_conv snd_conv sleep_report.simps note_sel
    by (intro sleep_stage_degraded_subseq, subst note_sel, intro sleep_stage_degraded_subseq) simp
qed

section \<open>Identity and drives through the pipeline\<close>

lemma refresh_identity_ok:
  "identity_ok (sc_anchor sc) (mi_identity m) \<Longrightarrow>
   identity_ok (sc_anchor sc) (mi_identity (fst (refresh_self_model io sc facts m)))"
  using refresh_identity by (simp add: refresh_self_model_def Let_def split_def)

lemma verify_identity_ok:
  assumes "identity_ok a (mi_identity m)"
  shows "identity_ok a (mi_identity (fst (wake_verify a now m))) \<and>
    (\<exists>d. identity_latest (mi_identity (fst (wake_verify a now m))) = Some d \<and>
       cr_ok (snd (wake_verify a now m)) = (strip (id_doc d) \<noteq> [] \<and>
         (\<forall>r \<in> set (current_readings (mi_drives m)). in01 (rd_value r))))"
proof -
  obtain tbl d where e: "ensure_seeded a now (mi_identity m) = (tbl, d)" by fastforce
  from ensure_seeded_ok [OF assms e] show ?thesis
    by (auto simp: wake_verify_def e wake_findings_def check_self_model_present_def check_anchor_consistency_def
        check_drive_ranges_def Let_def filter_empty_conv in01_def)
qed

lemma restore_engine_inv:
  "engine_inv (mi_drives m) \<Longrightarrow> engine_inv (mi_drives (fst (restore_energy b now m)))"
  using engine.step_sound [of "mi_drives m"] by (auto simp: restore_energy_def split: sum.split prod.split)

lemma pipeline_check:
  assumes "identity_ok (sc_anchor sc) (mi_identity m)" "engine_inv (mi_drives m)"
    and "si_db io ''self_check'' = None" "pipeline io sc trigger started k m = (s, rep)"
  shows "identity_ok (sc_anchor sc) (mi_identity (sr_mind s)) \<and> engine_inv (mi_drives (sr_mind s)) \<and>
    (\<exists>d. identity_latest (mi_identity (sr_mind s)) = Some d \<and> sp_self_check_ok rep = (strip (id_doc d) \<noteq> []))"
proof -
  obtain s1 fl s2 dec s3 doc s4 rev s5 path s6 u s7 check facts where st:
    "sleep_stage io ''consolidate'' (run_consolidate io sc) \<lparr>sr_mind = m, sr_degraded = [], sr_notes = []\<rparr> = (s1, facts)"
    "sleep_stage io ''decay'' (run_decay io sc started) (note_facts fl s1) = (s2, dec)"
    "sleep_stage io ''self_model'' (refresh_self_model io sc fl) s2 = (s3, doc)"
    "sleep_stage io ''metacognition'' (run_review io sc k) s3 = (s4, rev)"
    "sleep_stage io ''backup'' (run_backup io) s4 = (s5, path)"
    "sleep_stage io ''restore_energy'' (restore_energy (path \<noteq> None) started) s5 = (s6, u)"
    "sleep_stage io ''self_check'' (run_self_check io sc) s6 = (s7, check)"
    "sr_mind (fst (pipeline io sc trigger started k m)) = sr_mind s7"
    "sp_self_check_ok (snd (pipeline io sc trigger started k m)) = (case check of Some c \<Rightarrow> cr_ok c | None \<Rightarrow> False)"
    by (rule pipeline_stages) blast
  note fsts = st(1-7) [THEN arg_cong, of fst, unfolded fst_conv]
  have "mi_identity (sr_mind s2) = mi_identity m" "mi_drives (sr_mind s5) = mi_drives m"
    by (simp_all flip: fsts)
  have i3: "identity_ok (sc_anchor sc) (mi_identity (sr_mind s3))"
    unfolding fsts(3) [symmetric]
    by (rule sleep_stage_keeps_inv [of "\<lambda>m. identity_ok (sc_anchor sc) (mi_identity m)", OF refresh_identity_ok])
       (use assms(1) \<open>mi_identity (sr_mind s2) = mi_identity m\<close> in simp_all)
  have "mi_identity (sr_mind s6) = mi_identity (sr_mind s3)" by (simp flip: fsts(4-6))
  with i3 have i6: "identity_ok (sc_anchor sc) (mi_identity (sr_mind s6))" by simp
  have e6: "engine_inv (mi_drives (sr_mind s6))"
    unfolding fsts(6) [symmetric]
    by (rule sleep_stage_keeps_inv [of "\<lambda>m. engine_inv (mi_drives m)", OF restore_engine_inv])
       (use assms(2) \<open>mi_drives (sr_mind s5) = mi_drives m\<close> in simp_all)
  have c: "check = Some (snd (wake_verify (sc_anchor sc) (si_now io ''self_check'') (sr_mind s6)))"
    "sr_mind s7 = fst (wake_verify (sc_anchor sc) (si_now io ''self_check'') (sr_mind s6))"
    using st(7) assms(3) by (auto simp: sleep_stage_def reaching_def run_self_check_def Let_def split: prod.splits)
  have "\<forall>r \<in> set (current_readings (mi_drives (sr_mind s6))). in01 (rd_value r)"
    using engine.current_range [OF e6] by blast
  moreover have "mi_drives (sr_mind s7) = mi_drives (sr_mind s6)"
    unfolding c(2) by (simp add: wake_verify_def Let_def split_def)
  moreover have "sr_mind s = sr_mind s7" "sp_self_check_ok rep = cr_ok (the check)" using st(8,9) assms(4) c(1) by auto
  ultimately show ?thesis using verify_identity_ok [OF i6, of "si_now io ''self_check''"] e6 c by auto
qed

lemma pipeline_notes:
  "sp_trigger (snd (pipeline io sc trigger started k m)) = trigger \<and>
   map_of (sp_notes (snd (pipeline io sc trigger started k m))) ''degraded'' =
     Some (JList (map JStr (sp_degraded (snd (pipeline io sc trigger started k m)))))"
  by (simp add: pipeline_def Let_def split_def)

section \<open>Properties\<close>

definition log_ok :: "sleep_row list \<Rightarrow> bool" where
  "log_ok rows \<longleftrightarrow> map sl_id rows = [1..<Suc (length rows)]"

lemma log_ok_fresh: "log_ok rows \<Longrightarrow> row \<in> set rows \<Longrightarrow> sl_id row \<noteq> Suc (length rows)"
proof -
  assume "log_ok rows" "row \<in> set rows"
  then have "sl_id row \<in> set [1..<Suc (length rows)]" unfolding log_ok_def by (metis image_eqI set_map)
  then show ?thesis by auto
qed

lemma sleep_done:
  assumes "\<not> sl_asleep st" "si_db io ''open'' = None" "si_db io ''close'' = None"
    and "sleep io sc trigger now k st = (st', r)"
  obtains started s rep where "pipeline io sc trigger started k (fst (log_open trigger started (sl_mind st))) = (s, rep)"
    "r = Inr (Some rep)" "st' = \<lparr>sl_asleep = False,
       sl_mind = log_close (Suc (length (mi_sleep_log (sl_mind st)))) (sp_ended_at rep) rep (sr_mind s)\<rparr>"
    "started = (case now of Some t \<Rightarrow> t | None \<Rightarrow> si_now io ''started'')"
proof -
  define started where "started = (case now of Some t \<Rightarrow> t | None \<Rightarrow> si_now io ''started'')"
  obtain s rep where p: "pipeline io sc trigger started k (fst (log_open trigger started (sl_mind st))) = (s, rep)"
    by fastforce
  have i: "snd (log_open trigger started (sl_mind st)) = Suc (length (mi_sleep_log (sl_mind st)))"
    by (simp add: log_open_def Let_def)
  obtain m i where mi: "log_open trigger started (sl_mind st) = (m, i)" by fastforce
  show thesis
    by (rule that [OF p _ _ started_def])
       (use assms p i in \<open>simp_all add: sleep_def started_def [symmetric] mi Let_def\<close>)
qed

definition sleep_config_demo :: sleep_cycle where
  "sleep_config_demo = \<lparr>sc_every_ticks = 0, sc_reflection_episodes = 5, sc_review_goals = 5, sc_anchor = anchor_demo,
     sc_threshold = 6/10, sc_max_clusters = 8, sc_recent_limit = 80, sc_decay = decay_demo\<rparr>"

text \<open>A database that fails in the consolidation, with nothing else wired.\<close>

definition sleep_io_demo :: sleep_io where
  "sleep_io_demo = \<lparr>si_now = (\<lambda>_. 100),
     si_db = (\<lambda>step. if step = ''consolidate'' then Some (OtherError ''OperationalError'') else None),
     si_emb = (\<lambda>_. Inr [1]), si_recent = (\<lambda>n tbl. take n (sort_desc er_ts tbl)), si_oldest = take,
     si_newest_goals = by_created_at, si_latest_mood = (\<lambda>_. None), si_summarise = None, si_ask_self = None,
     si_parse_delta = (\<lambda>_. Inl ValidationError), si_ask_review = None, si_parse_review = (\<lambda>_. Inl ValidationError),
     si_snapshot = (\<lambda>_. Inr ''snapshots/1''), si_exn_text = (\<lambda>_. ''OperationalError'')\<rparr>"

definition sleeper_demo :: sleeper where
  "sleeper_demo = \<lparr>sl_asleep = False, sl_mind = \<lparr>mi_episodes = [], mi_facts = empty_facts, mi_edges = [], mi_identity = [],
     mi_review_notes = [], mi_drives = demo_booted, mi_goals = [], mi_moods = [], mi_sleep_log = []\<rparr>\<rparr>"

lemma sleep_log_row:
  assumes "\<not> sl_asleep st" "si_db io ''open'' = None" "si_db io ''close'' = None" "log_ok (mi_sleep_log (sl_mind st))"
    and "sleep io sc trigger now k st = (st', r)"
  shows "\<exists>rep row. r = Inr (Some rep) \<and> \<not> sl_asleep st' \<and> subseq (sp_degraded rep) SLEEP_STAGES \<and>
    mi_sleep_log (sl_mind st') = mi_sleep_log (sl_mind st) @ [close_row (sp_ended_at rep) rep row] \<and>
    log_ok (mi_sleep_log (sl_mind st')) \<and> sl_trigger row = trigger \<and> sp_trigger rep = trigger \<and>
    map_of (sp_notes rep) ''degraded'' = Some (JList (map JStr (sp_degraded rep)))"
proof -
  obtain started s rep where p: "pipeline io sc trigger started k (fst (log_open trigger started (sl_mind st))) = (s, rep)"
    "r = Inr (Some rep)" "st' = \<lparr>sl_asleep = False,
       sl_mind = log_close (Suc (length (mi_sleep_log (sl_mind st)))) (sp_ended_at rep) rep (sr_mind s)\<rparr>"
    by (rule sleep_done [OF assms(1,2,3,5)])
  let ?l = "mi_sleep_log (sl_mind st)"
  have "mi_sleep_log (sr_mind s) = mi_sleep_log (fst (log_open trigger started (sl_mind st)))"
    using pipeline_log [of io sc trigger started k "fst (log_open trigger started (sl_mind st))"] p(1) by simp
  then obtain row0 where l: "mi_sleep_log (sr_mind s) = ?l @ [row0]" "sl_id row0 = Suc (length ?l)" "sl_trigger row0 = trigger"
    by (auto simp: log_open_def Let_def)
  have "map (\<lambda>row. if sl_id row = Suc (length ?l) then close_row (sp_ended_at rep) rep row else row) ?l = ?l"
    using log_ok_fresh [OF assms(4)] by (simp cong: map_cong)
  with l have "mi_sleep_log (sl_mind st') = ?l @ [close_row (sp_ended_at rep) rep row0]"
    by (simp add: p(3) log_close_def)
  moreover have "subseq (sp_degraded rep) SLEEP_STAGES"
    using pipeline_degraded p(1) by (metis snd_conv)
  moreover have "sp_trigger rep = trigger \<and> map_of (sp_notes rep) ''degraded'' = Some (JList (map JStr (sp_degraded rep)))"
    using pipeline_notes p(1) by (metis snd_conv)
  ultimately show ?thesis using p(2,3) l assms(4) by (auto simp: close_row_def log_ok_def)
qed

lemma sleep_check:
  assumes "\<not> sl_asleep st" "si_db io ''open'' = None" "si_db io ''close'' = None" "si_db io ''self_check'' = None"
    and "identity_ok (sc_anchor sc) (mi_identity (sl_mind st))" "engine_inv (mi_drives (sl_mind st))"
    and "sleep io sc trigger now k st = (st', Inr (Some rep))"
  shows "identity_ok (sc_anchor sc) (mi_identity (sl_mind st')) \<and> engine_inv (mi_drives (sl_mind st')) \<and>
    (\<exists>d. identity_latest (mi_identity (sl_mind st')) = Some d \<and> sp_self_check_ok rep = (strip (id_doc d) \<noteq> []))"
proof -
  obtain started s rep' where p: "pipeline io sc trigger started k (fst (log_open trigger started (sl_mind st))) = (s, rep')"
    "rep = rep'" "st' = \<lparr>sl_asleep = False,
       sl_mind = log_close (Suc (length (mi_sleep_log (sl_mind st)))) (sp_ended_at rep') rep' (sr_mind s)\<rparr>"
    by (rule sleep_done [OF assms(1,2,3,7)]) auto
  have "mi_identity (fst (log_open trigger started (sl_mind st))) = mi_identity (sl_mind st)"
    "mi_drives (fst (log_open trigger started (sl_mind st))) = mi_drives (sl_mind st)"
    by (simp_all add: log_open_def Let_def)
  with pipeline_check [OF _ _ assms(4) p(1)] assms(5,6) p(2,3) show ?thesis
    by (simp add: log_close_def)
qed

text \<open>C7: a sleep that could open and close its log row always wakes.  Whichever of its stages raise,
  it returns a report, the flag is cleared, the stages reported degraded are stages of the pipeline
  in their order, and the log gains exactly one row, closed, that says what the report says.\<close>

theorem sleep_always_wakes:
  assumes "\<not> sl_asleep st" "si_db io ''open'' = None" "si_db io ''close'' = None" "log_ok (mi_sleep_log (sl_mind st))"
    and "sleep io sc trigger now k st = (st', r)"
  shows "\<exists>rep row. r = Inr (Some rep) \<and> \<not> sl_asleep st' \<and> subseq (sp_degraded rep) SLEEP_STAGES \<and>
    mi_sleep_log (sl_mind st') = mi_sleep_log (sl_mind st) @ [row] \<and> log_ok (mi_sleep_log (sl_mind st')) \<and>
    sl_trigger row = trigger \<and> sl_ended_at row = Some (sp_ended_at rep) \<and> sl_notes row = sp_notes rep \<and>
    sl_self_check_ok row = Some (sp_self_check_ok rep) \<and> sl_facts_written row = sp_facts_written rep \<and>
    sl_self_model_version row = sp_self_model_version rep \<and> sl_snapshot_path row = sp_snapshot_path rep"
  using sleep_log_row [OF assms] by (elim exE conjE) (simp add: close_row_def)

theorem sleep_always_wakes_witness:
  "\<exists>st' rep row. sleep sleep_io_demo sleep_config_demo ''energy'' None 2 sleeper_demo = (st', Inr (Some rep)) \<and>
     \<not> sl_asleep st' \<and> mi_sleep_log (sl_mind st') = [row] \<and> sl_ended_at row = Some (sp_ended_at rep)"
proof -
  obtain st' r where s: "sleep sleep_io_demo sleep_config_demo ''energy'' None 2 sleeper_demo = (st', r)" by fastforce
  have "\<not> sl_asleep sleeper_demo" "si_db sleep_io_demo ''open'' = None" "si_db sleep_io_demo ''close'' = None"
    "mi_sleep_log (sl_mind sleeper_demo) = []" "log_ok []"
    by (simp_all add: sleeper_demo_def sleep_io_demo_def log_ok_def)
  with sleep_always_wakes [OF _ _ _ _ s] s show ?thesis by fastforce
qed

text \<open>The wake self-check is exact.  When the identity table bears the anchor's name and the
  drives are in range before, a sleep keeps both so, and reports the self-check passed exactly when
  the self-model it wakes with is not blank: a refresh cannot fail the check by renaming him.\<close>

theorem sleep_self_check_exact:
  assumes "\<not> sl_asleep st" "si_db io ''open'' = None" "si_db io ''close'' = None" "si_db io ''self_check'' = None"
    and "identity_ok (sc_anchor sc) (mi_identity (sl_mind st))" "engine_inv (mi_drives (sl_mind st))"
    and "sleep io sc trigger now k st = (st', Inr (Some rep))"
  shows "identity_ok (sc_anchor sc) (mi_identity (sl_mind st')) \<and> engine_inv (mi_drives (sl_mind st')) \<and>
    (\<exists>d. identity_latest (mi_identity (sl_mind st')) = Some d \<and> sp_self_check_ok rep = (strip (id_doc d) \<noteq> []))"
  using sleep_check [OF assms] .

theorem sleep_self_check_exact_witness:
  "\<exists>st' rep d. sleep sleep_io_demo sleep_config_demo ''energy'' None 2 sleeper_demo = (st', Inr (Some rep)) \<and>
     identity_latest (mi_identity (sl_mind st')) = Some d \<and> sp_self_check_ok rep = (strip (id_doc d) \<noteq> [])"
proof -
  have st: "\<not> sl_asleep sleeper_demo" "si_db sleep_io_demo ''open'' = None" "si_db sleep_io_demo ''close'' = None"
    "si_db sleep_io_demo ''self_check'' = None"
    "identity_ok (sc_anchor sleep_config_demo) (mi_identity (sl_mind sleeper_demo))"
    "engine_inv (mi_drives (sl_mind sleeper_demo))"
    using demo_booted by (auto simp: sleeper_demo_def sleep_io_demo_def identity_ok_def booted_def engine_inv_def
        split: option.splits)
  obtain st' r where s: "sleep sleep_io_demo sleep_config_demo ''energy'' None 2 sleeper_demo = (st', r)" by fastforce
  then obtain rep where "r = Inr (Some rep)" using sleep_done [OF st(1-3) s] by blast
  with sleep_self_check_exact [OF st] s show ?thesis by blast
qed

lemma rest_delta: "dict_get (aggregate_deltas default_config (restore_events b) []) ENERGY 0 = - 60/100"
  by (simp add: restore_events_def aggregate_deltas_get event_delta_def default_deltas satisfaction_toml_def
      event_defs drive_name_defs dict_get_def)

text \<open>Whatever ENERGY was, one step with REST leaves it at 0.4 at most.\<close>

lemma rest_eases_energy:
  assumes "engine_inv e" "en_config e = default_config" "engine_step (restore_events b) now e = Inr (e', rs)"
  shows "engine_inv e' \<and> en_config e' = default_config \<and>
    (\<forall>r \<in> set (current_readings e'). rd_drive r = ENERGY \<longrightarrow> rd_value r \<le> 4/10 \<and> \<not> over_threshold r)"
proof -
  note rows = engine_step_rows [OF assms(3)]
  have "ENERGY \<in> set DRIVE_NAMES" by (simp add: DRIVE_NAMES_def)
  with rows obtain p where p: "config_params default_config ENERGY = Inr p"
    and row: "en_table e' ENERGY = Some (step_row p (aggregate_deltas default_config (restore_events b) []) now ENERGY
                (en_table e ENERGY))" using assms(2) by auto
  have th: "dp_threshold p = 80/100"
    using p by (auto simp: config_params_def default_params DRIVE_NAMES_def drive_name_defs)
  have "row_value (the (en_table e' ENERGY)) \<le> 4/10"
    using in01_advance [of p "row_value (row_or_new p now (en_table e ENERGY))"
        "max 0 (now - row_updated_at (row_or_new p now (en_table e ENERGY)))"]
      clamp01_le [of "4/10" "advance p (row_value (row_or_new p now (en_table e ENERGY)))
        (max 0 (now - row_updated_at (row_or_new p now (en_table e ENERGY)))) - 3/5"]
    by (simp add: row step_row_def Let_def rest_delta in01_def)
  moreover have "row_threshold (the (en_table e' ENERGY)) = 80/100" by (simp add: row step_row_def Let_def th)
  ultimately have "rd_value r \<le> 4/10 \<and> \<not> over_threshold r"
    if "r \<in> set (current_readings e')" "rd_drive r = ENERGY" for r
    using that by (auto simp: current_readings_iff over_threshold_def)
  then show ?thesis using engine.step_sound [OF assms(1,3)] rows assms(2) by auto
qed

text \<open>C31: sleep rests.  With the committed configuration a sleep whose energy stage reached the
  database leaves Energy at 0.4 or less whatever the other stages did, so it is not over its
  threshold and Energy does not send him straight back to sleep: the next trigger on these drives
  can only be the cadence.\<close>

theorem sleep_rests:
  assumes "\<not> sl_asleep st" "si_db io ''open'' = None" "si_db io ''close'' = None" "si_db io ''restore_energy'' = None"
    and "engine_inv (mi_drives (sl_mind st))" "en_config (mi_drives (sl_mind st)) = default_config"
    and "sleep io sc trigger now k st = (st', Inr (Some rep))"
  shows "(\<forall>r \<in> set (current_readings (mi_drives (sl_mind st'))). rd_drive r = ENERGY \<longrightarrow> rd_value r \<le> 4/10) \<and>
    sleep_trigger sc (urges (current_readings (mi_drives (sl_mind st')))) tick st' \<noteq> Some ''energy''"
proof -
  obtain started s rep' where p: "pipeline io sc trigger started k (fst (log_open trigger started (sl_mind st))) = (s, rep')"
    "rep = rep'" "st' = \<lparr>sl_asleep = False,
       sl_mind = log_close (Suc (length (mi_sleep_log (sl_mind st)))) (sp_ended_at rep') rep' (sr_mind s)\<rparr>"
    by (rule sleep_done [OF assms(1,2,3,7)]) auto
  let ?e = "mi_drives (sl_mind st)" and ?b = "sp_snapshot_path rep \<noteq> None"
  obtain en rs where en: "engine_step (restore_events ?b) started ?e = Inr (en, rs)"
    using engine.step_total [OF assms(5)] by blast
  have "mi_drives (fst (log_open trigger started (sl_mind st))) = ?e" by (simp add: log_open_def Let_def)
  then have "mi_drives (sr_mind s) = en"
    using pipeline_drives [of io sc trigger started k "fst (log_open trigger started (sl_mind st))"] p(1,2) en assms(4)
    by simp
  then have d: "mi_drives (sl_mind st') = en" "\<not> sl_asleep st'" by (simp_all add: p(3) log_close_def)
  note rest = rest_eases_energy [OF assms(5,6) en]
  have "\<not> is_sleep_signal u" if "u \<in> set (urges (current_readings en))" for u
    using that rest by (auto simp: urges_set is_sleep_signal_def SLEEP_DRIVE_def)
  then show ?thesis using rest by (auto simp: d sleep_trigger_def list_ex_iff)
qed

theorem sleep_rests_witness:
  "\<exists>st' rep. sleep sleep_io_demo sleep_config_demo ''energy'' None 2 sleeper_demo = (st', Inr (Some rep)) \<and>
     sleep_trigger sleep_config_demo (urges (current_readings (mi_drives (sl_mind st')))) 5 st' \<noteq> Some ''energy''"
proof -
  have st: "\<not> sl_asleep sleeper_demo" "si_db sleep_io_demo ''open'' = None" "si_db sleep_io_demo ''close'' = None"
    "si_db sleep_io_demo ''restore_energy'' = None"
    "engine_inv (mi_drives (sl_mind sleeper_demo))" "en_config (mi_drives (sl_mind sleeper_demo)) = default_config"
    by (simp_all add: sleeper_demo_def sleep_io_demo_def demo_booted_def engine_inv_def in01_def)
  obtain st' r where s: "sleep sleep_io_demo sleep_config_demo ''energy'' None 2 sleeper_demo = (st', r)" by fastforce
  then obtain rep where "r = Inr (Some rep)" using sleep_done [OF st(1-3) s] by blast
  with sleep_rests [OF st, of sleep_config_demo "''energy''" None 2 st' rep 5] s show ?thesis by blast
qed

text \<open>The flag is cleared only after the log is closed: when the log cannot be closed, he stays asleep
  and no trigger fires again.\<close>

lemma unclosed_log_wedges:
  assumes "\<not> sl_asleep st" "si_db io ''open'' = None" "si_db io ''close'' = Some e"
  shows "\<exists>st'. sleep io sc trigger now k st = (st', Inl e) \<and> sl_asleep st' \<and> sleep_trigger sc us tick st' = None \<and>
    sleep io' sc trigger' now' k' st' = (st', Inr None)"
  using assms by (simp add: sleep_def sleep_trigger_def Let_def split_def)

end
