(* ===== verification/Cycle.thy ===== *)
theory Cycle
  imports Sleep Deliberation Effectors Attention
begin

text \<open>
  \<^verbatim>\<open>brain/cycle.py\<close>: the heartbeat.  One tick runs the fixed pipeline of stages, each isolated; between
  ticks the loop fires due wakeups and may sleep; the gate pauses and steps it.

  The collaborators are what the source declares as protocols (or injects as optional objects):
  the record \<open>cycle_io\<close> holds them as functions on an opaque world, which they may change before they
  return or raise; \<open>None\<close> is a collaborator that is not wired, or a setter that is not supported.
  A stage is a function on the tick's context and the cycle's own state that returns or raises.
  Cancellation and logging are not modelled.  (The dash of the degraded alert is written as a hyphen.)
\<close>

section \<open>State\<close>

record cycle_gate =
  ga_paused :: bool
  ga_step_once :: bool
  ga_open :: bool

definition new_gate :: cycle_gate where
  "new_gate = \<lparr>ga_paused = False, ga_step_once = False, ga_open = True\<rparr>"

definition gate_pause :: "cycle_gate \<Rightarrow> cycle_gate" where
  "gate_pause g = g\<lparr>ga_paused := True, ga_step_once := False, ga_open := False\<rparr>"

definition gate_resume :: "cycle_gate \<Rightarrow> cycle_gate" where
  "gate_resume g = g\<lparr>ga_paused := False, ga_step_once := False, ga_open := True\<rparr>"

definition gate_step :: "cycle_gate \<Rightarrow> cycle_gate" where
  "gate_step g = g\<lparr>ga_paused := True, ga_step_once := True, ga_open := True\<rparr>"

text \<open>\<open>None\<close>: the loop is blocked at the gate.\<close>

definition wait_turn :: "cycle_gate \<Rightarrow> cycle_gate option" where
  "wait_turn g =
     (if \<not> ga_open g then None
      else Some (if ga_paused g \<and> ga_step_once g then g\<lparr>ga_step_once := False, ga_open := False\<rparr> else g))"

record cycle_config =
  cc_interval :: real
  cc_min_interval :: real
  cc_max_interval :: real
  cc_arousal_speedup :: real
  cc_tired_slowdown :: real
  cc_drive_weight :: real
  cc_capacity :: nat

record 'w cycle_state =
  cs_world :: 'w
  cs_tick :: int
  cs_running :: bool
  cs_gate :: cycle_gate
  cs_next_interval :: real
  cs_pending :: "drive_event list"
  cs_last_urges :: "urge list"
  cs_degraded_ticks :: nat
  cs_last_sleep :: "sleep_report option"
  cs_full_agency :: bool

definition new_cycle :: "cycle_config \<Rightarrow> 'w \<Rightarrow> 'w cycle_state" where
  "new_cycle cc w =
     \<lparr>cs_world = w, cs_tick = 0, cs_running = False, cs_gate = new_gate, cs_next_interval = cc_interval cc,
      cs_pending = [], cs_last_urges = [], cs_degraded_ticks = 0, cs_last_sleep = None, cs_full_agency = True\<rparr>"

record 'v tick_context =
  cx_tick :: int
  cx_percepts :: "ws_item list"
  cx_contents :: "ws_item list"
  cx_thought :: "string option"
  cx_drives :: "reading list"
  cx_mood :: "mood option"
  cx_urges :: "urge list"
  cx_events :: "drive_event list"
  cx_goal :: "goal option"
  cx_action :: "action option"
  cx_vetted :: "'v option"
  cx_errors :: "(string \<times> string) list"

definition new_context :: "int \<Rightarrow> 'v tick_context" where
  "new_context t =
     \<lparr>cx_tick = t, cx_percepts = [], cx_contents = [], cx_thought = None, cx_drives = [], cx_mood = None,
      cx_urges = [], cx_events = [], cx_goal = None, cx_action = None, cx_vetted = None, cx_errors = []\<rparr>"

record tick_report =
  tp_tick :: int
  tp_percept_count :: nat
  tp_content_count :: nat
  tp_thought :: "string option"
  tp_stage_errors :: "(string \<times> string) list"

definition tick_ok :: "tick_report \<Rightarrow> bool" where
  "tick_ok r \<longleftrightarrow> tp_stage_errors r = []"

section \<open>Collaborators\<close>

type_synonym ('w, 'a) world_op = "'w \<Rightarrow> 'w \<times> 'a res"

text \<open>Working memory as the cycle uses it: put, decay, contents.\<close>

record 'w wm_ops =
  wo_put :: "ws_item \<Rightarrow> ('w, unit) world_op"
  wo_decay :: "('w, unit) world_op"
  wo_contents :: "('w, ws_item list) world_op"

record 'w drive_ops =
  do_step :: "drive_event list \<Rightarrow> ('w, reading list) world_op"
  do_urges :: "reading list \<Rightarrow> urge list"

record 'w delib_ops =
  eo_deliberate :: "urge list \<Rightarrow> mood option \<Rightarrow> ws_item list \<Rightarrow> ('w, goal option \<times> action option) world_op"
  eo_act :: "action \<Rightarrow> goal \<Rightarrow> ws_item list \<Rightarrow> ('w, action_outcome) world_op"
  eo_settle :: "(goal \<Rightarrow> string \<Rightarrow> bool \<Rightarrow> ('w, drive_event list) world_op) option"

record ('w, 'v) dispatch_ops =
  po_vet :: "proposed_action \<Rightarrow> ws_item list \<Rightarrow> ('w, 'v) world_op"
  po_commit :: "'v \<Rightarrow> ('w, dispatch_outcome) world_op"

record 'w sleep_ops =
  lo_trigger :: "urge list \<Rightarrow> int \<Rightarrow> 'w \<Rightarrow> string option"
  lo_sleep :: "string \<Rightarrow> nat \<Rightarrow> ('w, sleep_report option) world_op"

record ('w, 'v) cycle_io =
  ci_broadcast :: "ws_event \<Rightarrow> ('w, unit) world_op"
  ci_set_contents :: "ws_item list \<Rightarrow> ('w, unit) world_op"
  ci_perceive :: "('w, ws_item list) world_op option"
  ci_select :: "(ws_item list \<Rightarrow> ws_item list \<Rightarrow> ('w, ws_item list) world_op) option"
  ci_set_bias :: "(attention_bias \<Rightarrow> ('w, unit) world_op) option"
  ci_recall :: "(ws_item list \<Rightarrow> ('w, ws_item list) world_op) option"
  ci_recall_mood :: "(mood option \<Rightarrow> ('w, unit) world_op) option"
  ci_narrate :: "(ws_item list \<Rightarrow> ('w, string option) world_op) option"
  ci_narrate_mood :: "(mood option \<Rightarrow> ('w, unit) world_op) option"
  ci_learn :: "(ws_item list \<Rightarrow> string option \<Rightarrow> ('w, unit) world_op) option"
  ci_drives :: "'w drive_ops option"
  ci_affect :: "(ws_item list \<Rightarrow> reading list \<Rightarrow> drive_event list \<Rightarrow> ('w, mood) world_op) option"
  ci_delib :: "'w delib_ops option"
  ci_dispatch :: "('w, 'v) dispatch_ops option"
  ci_sleep :: "'w sleep_ops option"
  ci_fire_due :: "('w, nat) world_op option"
  ci_consolidate :: "(string \<Rightarrow> (string \<times> json) list \<Rightarrow> ('w, bool) world_op) option"
  ci_wm :: "'w wm_ops option"
  ci_exn_type :: "exn \<Rightarrow> string"
  ci_exn_text :: "exn \<Rightarrow> string"

section \<open>Stages as state transformers that may raise\<close>

type_synonym ('w, 'v) tick_state = "'v tick_context \<times> 'w cycle_state"

type_synonym ('w, 'v, 'a) body = "('w, 'v) tick_state \<Rightarrow> ('w, 'v) tick_state \<times> 'a res"

definition andthen :: "('w, 'v, 'a) body \<Rightarrow> ('a \<Rightarrow> ('w, 'v, 'b) body) \<Rightarrow> ('w, 'v, 'b) body" where
  "andthen m f s = (case m s of (s1, Inl e) \<Rightarrow> (s1, Inl e) | (s1, Inr x) \<Rightarrow> f x s1)"

definition ret :: "'a \<Rightarrow> ('w, 'v, 'a) body" where
  "ret x s = (s, Inr x)"

definition on_world :: "('w, 'a) world_op \<Rightarrow> ('w, 'v, 'a) body" where
  "on_world f s = (case f (cs_world (snd s)) of (w, r) \<Rightarrow> ((fst s, (snd s)\<lparr>cs_world := w\<rparr>), r))"

definition on_ctx :: "('v tick_context \<Rightarrow> 'v tick_context) \<Rightarrow> ('w, 'v, unit) body" where
  "on_ctx f s = ((f (fst s), snd s), Inr ())"

definition on_state :: "('w cycle_state \<Rightarrow> 'w cycle_state) \<Rightarrow> ('w, 'v, unit) body" where
  "on_state f s = ((fst s, f (snd s)), Inr ())"

text \<open>Do nothing, or act on what is there, with the context and the state in hand.\<close>

definition with_state :: "('v tick_context \<Rightarrow> 'w cycle_state \<Rightarrow> ('w, 'v, 'a) body) \<Rightarrow> ('w, 'v, 'a) body" where
  "with_state f s = f (fst s) (snd s) s"

fun for_each :: "('x \<Rightarrow> ('w, 'v, unit) body) \<Rightarrow> 'x list \<Rightarrow> ('w, 'v, unit) body" where
  "for_each f [] = ret ()"
| "for_each f (x # xs) = andthen (f x) (\<lambda>_. for_each f xs)"

definition optionally :: "'x option \<Rightarrow> ('x \<Rightarrow> ('w, 'v, unit) body) \<Rightarrow> ('w, 'v, unit) body" where
  "optionally c f = (case c of None \<Rightarrow> ret () | Some x \<Rightarrow> f x)"

definition event_of :: "string \<Rightarrow> string \<Rightarrow> (string \<times> json) list \<Rightarrow> ws_event" where
  "event_of src ty payload =
     \<lparr>ev_id = None, ev_ts = None, ev_module = src, ev_type = ty, ev_payload = payload, ev_hops = 0\<rparr>"

text \<open>A failed broadcast is recorded on the stage that owns it and goes no further.\<close>

definition emit :: "('w, 'v) cycle_io \<Rightarrow> string \<Rightarrow> string \<Rightarrow> (string \<times> json) list \<Rightarrow> string option \<Rightarrow>
    ('w, 'v, unit) body" where
  "emit io src ty payload owner s =
     (case on_world (ci_broadcast io (event_of src ty payload)) s of
        (s1, Inr _) \<Rightarrow> (s1, Inr ())
      | (s1, Inl e) \<Rightarrow>
          ((case owner of
              None \<Rightarrow> s1
            | Some st \<Rightarrow> ((fst s1)\<lparr>cx_errors := dict_put st (''broadcast failed: '' @ ci_exn_text io e)
                                                 (cx_errors (fst s1))\<rparr>, snd s1)), Inr ()))"

definition run_stage :: "('w, 'v) cycle_io \<Rightarrow> string \<Rightarrow> ('w, 'v, unit) body \<Rightarrow> ('w, 'v) tick_state \<Rightarrow>
    ('w, 'v) tick_state" where
  "run_stage io name f s =
     (case f s of
        (s1, Inr _) \<Rightarrow> s1
      | (s1, Inl e) \<Rightarrow> ((fst s1)\<lparr>cx_errors := dict_put name (ci_exn_type io e @ '': '' @ ci_exn_text io e)
                                             (cx_errors (fst s1))\<rparr>, snd s1))"

section \<open>Serialisation of the state surface\<close>

definition serialize_drive :: "reading \<Rightarrow> json" where
  "serialize_drive d = JDict
     [(''drive'', JStr (rd_drive d)), (''value'', JFloat (py_round 4 (rd_value d))),
      (''setpoint'', JFloat (py_round 4 (rd_setpoint d))), (''threshold'', JFloat (py_round 4 (rd_threshold d))),
      (''over_threshold'', JBool (over_threshold d))]"

definition serialize_mood :: "mood \<Rightarrow> (string \<times> json) list" where
  "serialize_mood m =
     [(''valence'', JFloat (py_round 4 (mo_valence m))), (''arousal'', JFloat (py_round 4 (mo_arousal m))),
      (''emotions'', JDict (map (\<lambda>(e, v). (e, JFloat (py_round 4 v))) (mo_emotions m))),
      (''descriptor'', JStr (descriptor m)),
      (''mood_id'', (case mo_id m of Some i \<Rightarrow> JInt (int i) | None \<Rightarrow> JNull))]"

fun status_name :: "goal_status \<Rightarrow> string" where
  "status_name Active = ''active''"
| "status_name Resolved = ''resolved''"
| "status_name Abandoned = ''abandoned''"

definition json_id :: "nat option \<Rightarrow> json" where
  "json_id i = (case i of Some n \<Rightarrow> JInt (int n) | None \<Rightarrow> JNull)"

definition goals_to_payload :: "goal list \<Rightarrow> json" where
  "goals_to_payload gs = JList (map (\<lambda>g. JDict
     [(''id'', json_id (go_id g)), (''source'', JStr (go_source g)), (''description'', JStr (go_description g)),
      (''priority'', JFloat (py_round 4 (go_priority g))), (''status'', JStr (status_name (go_status g))),
      (''plan'', JDict (go_plan g))]) gs)"

text \<open>The time stamp format is the standard library's; \<open>isof\<close> stands for \<^verbatim>\<open>isoformat\<close>.\<close>

definition sleep_summary_fields :: "(real \<Rightarrow> string) \<Rightarrow> string \<Rightarrow> real option \<Rightarrow> nat \<Rightarrow> nat \<Rightarrow> nat \<Rightarrow> nat option \<Rightarrow>
    bool option \<Rightarrow> json list \<Rightarrow> (string \<times> json) list" where
  "sleep_summary_fields isof trigger ended facts decayed merged version ok degraded =
     [(''trigger'', JStr trigger),
      (''ended_at'', (case ended of Some t \<Rightarrow> JStr (isof t) | None \<Rightarrow> JNull)),
      (''facts_written'', JInt (int facts)), (''episodes_decayed'', JInt (int decayed)),
      (''facts_merged'', JInt (int merged)), (''self_model_version'', json_id version),
      (''self_check_ok'', (case ok of Some b \<Rightarrow> JBool b | None \<Rightarrow> JNull)),
      (''degraded_stages'', JList degraded)]"

definition sleep_summary_from_report :: "(real \<Rightarrow> string) \<Rightarrow> sleep_report option \<Rightarrow> (string \<times> json) list option" where
  "sleep_summary_from_report isof r = map_option (\<lambda>r.
     sleep_summary_fields isof (sp_trigger r) (Some (sp_ended_at r)) (sp_facts_written r) (sp_episodes_decayed r)
       (sp_facts_merged r) (sp_self_model_version r) (Some (sp_self_check_ok r)) (map JStr (sp_degraded r))) r"

definition sleep_summary_from_log :: "(real \<Rightarrow> string) \<Rightarrow> sleep_row option \<Rightarrow> (string \<times> json) list option" where
  "sleep_summary_from_log isof l = map_option (\<lambda>r.
     sleep_summary_fields isof (sl_trigger r) (sl_ended_at r) (sl_facts_written r) (sl_episodes_decayed r)
       (sl_facts_merged r) (sl_self_model_version r) (sl_self_check_ok r)
       (case map_of (sl_notes r) ''degraded'' of Some (JList d) \<Rightarrow> d | _ \<Rightarrow> [])) l"

definition serialize_sleep_block :: "bool \<Rightarrow> bool \<Rightarrow> (string \<times> json) list option \<Rightarrow> json" where
  "serialize_sleep_block asleep full_agency last_block = JDict
     [(''asleep'', JBool asleep), (''full_agency'', JBool full_agency),
      (''last'', (case last_block of Some d \<Rightarrow> JDict d | None \<Rightarrow> JNull))]"

definition serialize_state :: "int \<Rightarrow> reading list \<Rightarrow> mood option \<Rightarrow> goal list \<Rightarrow> real \<Rightarrow> json \<Rightarrow>
    (string \<times> json) list" where
  "serialize_state tick drives m goals interval sleep_block =
     [(''tick'', JInt tick), (''drives'', JList (map serialize_drive drives)),
      (''mood'', (case m of Some m \<Rightarrow> JDict (serialize_mood m) | None \<Rightarrow> JNull)),
      (''goals'', goals_to_payload goals), (''interval'', JFloat (py_round 3 interval)), (''sleep'', sleep_block)]"

definition sleep_block :: "(real \<Rightarrow> string) \<Rightarrow> bool \<Rightarrow> 'w cycle_state \<Rightarrow> json" where
  "sleep_block isof asleep cs =
     serialize_sleep_block asleep (cs_full_agency cs) (sleep_summary_from_report isof (cs_last_sleep cs))"

section \<open>Perceive\<close>

definition st_perceive :: "('w, 'v) cycle_io \<Rightarrow> ('w, 'v, unit) body" where
  "st_perceive io =
     optionally (ci_perceive io) (\<lambda>f.
       andthen (on_world f) (\<lambda>percepts.
       andthen (on_ctx (\<lambda>c. c\<lparr>cx_percepts := percepts\<rparr>)) (\<lambda>_.
       for_each (\<lambda>p. emit io ''sensorium'' ''percept''
         [(''kind'', JStr (wi_kind p)), (''content'', JStr (wi_content p)), (''source'', JStr (wi_source p))]
         (Some ''perceive'')) percepts)))"

section \<open>Appraise\<close>

definition collect_events :: "('w, 'v, unit) body" where
  "collect_events s =
     (let events = cs_pending (snd s);
          inputs = length (filter (\<lambda>p. wi_kind p = INPUT_KIND) (cx_percepts (fst s)))
      in (((fst s)\<lparr>cx_events := events @ replicate inputs \<lparr>de_kind = EVENT_INTERACTION, de_intensity = 1\<rparr>\<rparr>,
           (snd s)\<lparr>cs_pending := []\<rparr>), Inr ()))"

definition broadcast_drives :: "('w, 'v) cycle_io \<Rightarrow> ('w, 'v, unit) body" where
  "broadcast_drives io = with_state (\<lambda>c _.
     andthen (emit io ''drives'' ''drive.state''
       [(''drives'', JDict (map (\<lambda>d. (rd_drive d, JFloat (py_round 4 (rd_value d)))) (cx_drives c))),
        (''over_threshold'', JList (map (\<lambda>u. JStr (ur_drive u)) (cx_urges c)))] (Some ''appraise'')) (\<lambda>_.
     for_each (\<lambda>u. emit io ''drives'' (if is_sleep_signal u then ''drive.sleep_signal'' else ''drive.urge'')
       [(''drive'', JStr (ur_drive u)), (''urgency'', JFloat (py_round 4 (ur_urgency u))),
        (''value'', JFloat (py_round 4 (ur_value u)))] (Some ''appraise'')) (cx_urges c)))"

definition DRIVE_KIND_RELEVANCE :: "(string \<times> string list) list" where
  "DRIVE_KIND_RELEVANCE = [(CONNECTION, [''input'']), (CURIOSITY, [''memory'', ''fact'']), (BOREDOM, [''input'', ''memory''])]"

definition build_attention_bias :: "cycle_config \<Rightarrow> mood option \<Rightarrow> reading list \<Rightarrow> attention_bias" where
  "build_attention_bias cc m drives =
     \<lparr>ab_arousal = (case m of Some m \<Rightarrow> mo_arousal m | None \<Rightarrow> AROUSAL_NEUTRAL),
      ab_kind_boosts = fold (\<lambda>r boosts. fold (\<lambda>k b. dict_put k (dict_get b k 0 + cc_drive_weight cc * urgency r) b)
           (dict_get DRIVE_KIND_RELEVANCE (rd_drive r) []) boosts)
         (filter (\<lambda>r. over_threshold r \<and> rd_drive r \<noteq> SLEEP_DRIVE) drives) []\<rparr>"

definition apply_affective_context :: "('w, 'v) cycle_io \<Rightarrow> cycle_config \<Rightarrow> ('w, 'v, unit) body" where
  "apply_affective_context io cc = with_state (\<lambda>c _.
     andthen (optionally (ci_set_bias io) (\<lambda>f. on_world (f (build_attention_bias cc (cx_mood c) (cx_drives c))))) (\<lambda>_.
     andthen (optionally (ci_recall_mood io) (\<lambda>f. on_world (f (cx_mood c)))) (\<lambda>_.
     optionally (ci_narrate_mood io) (\<lambda>f. on_world (f (cx_mood c))))))"

definition modulate_interval :: "cycle_config \<Rightarrow> mood option \<Rightarrow> reading list \<Rightarrow> real res" where
  "modulate_interval cc m drives =
     (let arousal = (case m of Some m \<Rightarrow> mo_arousal m | None \<Rightarrow> AROUSAL_NEUTRAL);
          energy_excess = fold (\<lambda>r x. if rd_drive r = SLEEP_DRIVE \<and> over_threshold r then urgency r else x) drives 0;
          speed = 1 + cc_arousal_speedup cc * arousal;
          interval = cc_interval cc * (1 + cc_tired_slowdown cc * energy_excess) / speed
      in if speed = 0 then Inl (OtherError ''ZeroDivisionError'')
         else Inr (min (cc_max_interval cc) (max (cc_min_interval cc) interval)))"

definition st_appraise :: "('w, 'v) cycle_io \<Rightarrow> cycle_config \<Rightarrow> ('w, 'v, unit) body" where
  "st_appraise io cc =
     andthen collect_events (\<lambda>_.
     andthen (optionally (ci_drives io) (\<lambda>d. with_state (\<lambda>c _.
       andthen (on_world (do_step d (cx_events c))) (\<lambda>readings.
       andthen (on_ctx (\<lambda>c. c\<lparr>cx_drives := readings, cx_urges := do_urges d readings\<rparr>)) (\<lambda>_.
       andthen (on_state (\<lambda>s. s\<lparr>cs_last_urges := do_urges d readings\<rparr>)) (\<lambda>_.
       broadcast_drives io)))))) (\<lambda>_.
     andthen (optionally (ci_affect io) (\<lambda>f. with_state (\<lambda>c _.
       andthen (on_world (f (cx_percepts c) (cx_drives c) (cx_events c))) (\<lambda>m.
       andthen (on_ctx (\<lambda>c. c\<lparr>cx_mood := Some m\<rparr>)) (\<lambda>_.
       emit io ''affect'' ''mood'' (serialize_mood m) (Some ''appraise'')))))) (\<lambda>_.
     andthen (apply_affective_context io cc) (\<lambda>_.
     with_state (\<lambda>c _.
       andthen (\<lambda>s. (s, modulate_interval cc (cx_mood c) (cx_drives c))) (\<lambda>t.
       on_state (\<lambda>s. s\<lparr>cs_next_interval := t\<rparr>)))))))"

section \<open>Attend, recall, narrate, learn\<close>

definition plain_item :: "string \<Rightarrow> string \<Rightarrow> real \<Rightarrow> ws_item" where
  "plain_item kind content sal =
     \<lparr>wi_id = [], wi_kind = kind, wi_content = content, wi_salience = sal, wi_source = [], wi_metadata = []\<rparr>"

text \<open>Working memory is given and gives back kind, content and salience only (the random id of a new item,
  which nothing reads, is left empty).\<close>

definition plain :: "ws_item \<Rightarrow> ws_item" where
  "plain i = plain_item (wi_kind i) (wi_content i) (wi_salience i)"

definition refresh_working_memory :: "('w, 'v) cycle_io \<Rightarrow> ws_item list \<Rightarrow> ('w, 'v, ws_item list) body" where
  "refresh_working_memory io percepts =
     (case ci_wm io of
        None \<Rightarrow> ret percepts
      | Some wm \<Rightarrow>
          andthen (for_each (\<lambda>p. on_world (wo_put wm (plain p))) percepts) (\<lambda>_.
          andthen (on_world (wo_decay wm)) (\<lambda>_.
          andthen (on_world (wo_contents wm)) (\<lambda>items. ret (map plain items)))))"

definition st_attend :: "('w, 'v) cycle_io \<Rightarrow> cycle_config \<Rightarrow> ('w, 'v, unit) body" where
  "st_attend io cc = with_state (\<lambda>c _.
     andthen (refresh_working_memory io (cx_percepts c)) (\<lambda>working.
     andthen (case ci_select io of None \<Rightarrow> ret (cx_percepts c) | Some f \<Rightarrow> on_world (f working (cx_percepts c)))
       (\<lambda>selected.
     let bounded = take (cc_capacity cc) selected
     in andthen (on_ctx (\<lambda>c. c\<lparr>cx_contents := bounded\<rparr>)) (\<lambda>_.
        andthen (on_world (ci_set_contents io bounded)) (\<lambda>_.
        emit io ''attention'' ''attention.selected''
          [(''count'', JInt (int (length bounded))), (''items'', JList (map (\<lambda>i. JStr (wi_content i)) bounded))]
          (Some ''attend''))))))"

definition st_recall :: "('w, 'v) cycle_io \<Rightarrow> cycle_config \<Rightarrow> ('w, 'v, unit) body" where
  "st_recall io cc = optionally (ci_recall io) (\<lambda>f. with_state (\<lambda>c _.
     andthen (on_world (f (cx_contents c))) (\<lambda>recalled.
     if recalled = [] then ret ()
     else let merged = take (cc_capacity cc) (sort_desc wi_salience (cx_contents c @ recalled))
          in andthen (on_ctx (\<lambda>c. c\<lparr>cx_contents := merged\<rparr>)) (\<lambda>_.
             andthen (on_world (ci_set_contents io merged)) (\<lambda>_.
             emit io ''memory'' ''recall'' [(''recalled'', JInt (int (length recalled)))] (Some ''recall''))))))"

definition st_narrate :: "('w, 'v) cycle_io \<Rightarrow> ('w, 'v, unit) body" where
  "st_narrate io = optionally (ci_narrate io) (\<lambda>f. with_state (\<lambda>c _.
     andthen (on_world (f (cx_contents c))) (\<lambda>thought.
     andthen (on_ctx (\<lambda>c. c\<lparr>cx_thought := thought\<rparr>)) (\<lambda>_.
     (case thought of
        Some t \<Rightarrow> if t = [] then ret () else emit io ''narrator'' ''thought'' [(''text'', JStr t)] (Some ''narrate'')
      | None \<Rightarrow> ret ())))))"

definition st_learn :: "('w, 'v) cycle_io \<Rightarrow> ('w, 'v, unit) body" where
  "st_learn io = optionally (ci_learn io) (\<lambda>f. with_state (\<lambda>c _. on_world (f (cx_contents c) (cx_thought c))))"

section \<open>Deliberate, check, act\<close>

definition st_deliberate :: "('w, 'v) cycle_io \<Rightarrow> ('w, 'v, unit) body" where
  "st_deliberate io = optionally (ci_delib io) (\<lambda>d. with_state (\<lambda>c s.
     if \<not> cs_full_agency s then ret ()
     else andthen (on_world (eo_deliberate d (cx_urges c) (cx_mood c) (cx_contents c))) (\<lambda>(g, a).
          andthen (on_ctx (\<lambda>c. c\<lparr>cx_goal := g, cx_action := a\<rparr>)) (\<lambda>_.
          optionally g (\<lambda>g. emit io ''deliberation'' ''goal.active''
            [(''id'', json_id (go_id g)), (''source'', JStr (go_source g)), (''description'', JStr (go_description g)),
             (''priority'', JFloat (py_round 4 (go_priority g)))] (Some ''deliberate''))))))"

definition proposal_of :: "action \<Rightarrow> string \<Rightarrow> proposed_action" where
  "proposal_of a tool =
     \<lparr>pa_tool = tool, pa_args = an_tool_args a, pa_danger = ''safe'', pa_goal_id = map_option int (an_goal_id a),
      pa_goal_description = an_description a\<rparr>"

definition st_check :: "('w, 'v) cycle_io \<Rightarrow> ('w, 'v, unit) body" where
  "st_check io = with_state (\<lambda>c s.
     if \<not> cs_full_agency s then ret ()
     else optionally (ci_dispatch io) (\<lambda>p. optionally (cx_action c) (\<lambda>a. optionally (an_tool a) (\<lambda>tool.
            andthen (on_world (po_vet p (proposal_of a tool) (cx_contents c))) (\<lambda>v.
            on_ctx (\<lambda>c. c\<lparr>cx_vetted := Some v\<rparr>))))))"

definition enqueue :: "drive_event list \<Rightarrow> ('w, 'v, unit) body" where
  "enqueue es = on_state (\<lambda>s. s\<lparr>cs_pending := cs_pending s @ es\<rparr>)"

definition WEB_READ_TOOLS :: "string list" where
  "WEB_READ_TOOLS = [''web_fetch'', ''web_search'', ''news'']"

text \<open>Consolidating a web read: an absent consolidator or an exception is \<open>False\<close>.\<close>

definition consolidate_web_read :: "('w, 'v) cycle_io \<Rightarrow> string \<Rightarrow> (string \<times> json) list \<Rightarrow> ('w, 'v, bool) body" where
  "consolidate_web_read io tool out =
     (case ci_consolidate io of
        None \<Rightarrow> ret False
      | Some f \<Rightarrow> (\<lambda>s. case on_world (f tool out) s of (s1, Inr b) \<Rightarrow> (s1, Inr b) | (s1, Inl _) \<Rightarrow> (s1, Inr False)))"

definition settled_success :: "('w, 'v) cycle_io \<Rightarrow> string option \<Rightarrow> dispatch_outcome \<Rightarrow> ('w, 'v, bool) body" where
  "settled_success io tool oc =
     (case oc_result oc of
        Some r \<Rightarrow>
          if oc_ran oc \<and> tr_success r
          then (case tool of
                  Some t \<Rightarrow> if t \<in> set WEB_READ_TOOLS then consolidate_web_read io t (tr_output r) else ret True
                | None \<Rightarrow> ret True)
          else ret False
      | None \<Rightarrow> ret False)"

definition dispatch_tool_action :: "('w, 'v) cycle_io \<Rightarrow> ('w, 'v, unit) body" where
  "dispatch_tool_action io = with_state (\<lambda>c _.
     optionally (ci_dispatch io) (\<lambda>p. optionally (cx_vetted c) (\<lambda>v. optionally (cx_goal c) (\<lambda>g.
       andthen (on_world (po_commit p v)) (\<lambda>oc.
       andthen (settled_success io (Option.bind (cx_action c) an_tool) oc) (\<lambda>success.
       optionally (Option.bind (ci_delib io) eo_settle) (\<lambda>settle.
         andthen (on_world (settle g (oc_summary oc) success)) enqueue)))))))"

definition dispatch_action :: "('w, 'v) cycle_io \<Rightarrow> (string \<times> json) list \<Rightarrow> ('w, 'v, unit) body" where
  "dispatch_action io payload = on_world (ci_broadcast io (event_of ''effectors'' ''action.dispatched'' payload))"

definition st_act :: "('w, 'v) cycle_io \<Rightarrow> ('w, 'v, unit) body" where
  "st_act io = with_state (\<lambda>c s.
     if \<not> cs_full_agency s then ret ()
     else optionally (cx_action c) (\<lambda>a. optionally (cx_goal c) (\<lambda>g.
       if is_tool_action a then dispatch_tool_action io
       else optionally (ci_delib io) (\<lambda>d.
         andthen (on_world (eo_act d a g (cx_contents c))) (\<lambda>oc.
         andthen (dispatch_action io
           [(''action'', JStr (an_kind a)), (''goal_id'', json_id (go_id g)), (''goal_source'', JStr (go_source g)),
            (''summary'', JStr (ao_summary oc)), (''success'', JBool (ao_success oc))]) (\<lambda>_.
         enqueue (ao_drive_events oc)))))))"

definition broadcast_state :: "('w, 'v) cycle_io \<Rightarrow> (real \<Rightarrow> string) \<Rightarrow> ('w, 'v, unit) body" where
  "broadcast_state io isof = with_state (\<lambda>c s.
     emit io ''cycle'' ''state''
       (serialize_state (cx_tick c) (cx_drives c) (cx_mood c) (case cx_goal c of Some g \<Rightarrow> [g] | None \<Rightarrow> [])
          (cs_next_interval s) (sleep_block isof False s)) (Some ''state''))"

section \<open>One tick\<close>

definition tick_stages :: "('w, 'v) cycle_io \<Rightarrow> cycle_config \<Rightarrow> (real \<Rightarrow> string) \<Rightarrow>
    (string \<times> ('w, 'v, unit) body) list" where
  "tick_stages io cc isof =
     [(''perceive'', st_perceive io), (''appraise'', st_appraise io cc), (''attend'', st_attend io cc),
      (''recall'', st_recall io cc), (''narrate'', st_narrate io), (''deliberate'', st_deliberate io),
      (''check'', st_check io), (''act'', st_act io), (''learn'', st_learn io), (''state'', broadcast_state io isof)]"

definition tick_pass :: "('w, 'v) cycle_io \<Rightarrow> cycle_config \<Rightarrow> (real \<Rightarrow> string) \<Rightarrow> 'w cycle_state \<Rightarrow>
    ('w, 'v) tick_state" where
  "tick_pass io cc isof s =
     (let s1 = s\<lparr>cs_tick := cs_tick s + 1\<rparr>;
          (st, _) = emit io ''cycle'' ''cycle.tick'' [(''tick'', JInt (cs_tick s1))] None (new_context (cs_tick s1), s1)
      in fold (\<lambda>(name, f). run_stage io name f) (tick_stages io cc isof) st)"

definition tick :: "('w, 'v) cycle_io \<Rightarrow> cycle_config \<Rightarrow> (real \<Rightarrow> string) \<Rightarrow> 'w cycle_state \<Rightarrow>
    'w cycle_state \<times> tick_report" where
  "tick io cc isof s =
     (let (c, s1) = tick_pass io cc isof s;
          s2 = (if cx_errors c = [] then s1 else s1\<lparr>cs_degraded_ticks := cs_degraded_ticks s1 + 1\<rparr>)
      in (s2, \<lparr>tp_tick = cx_tick c, tp_percept_count = length (cx_percepts c), tp_content_count = length (cx_contents c),
               tp_thought = cx_thought c, tp_stage_errors = cx_errors c\<rparr>))"

section \<open>Between ticks\<close>

definition world_do :: "('w, 'a) world_op \<Rightarrow> 'w cycle_state \<Rightarrow> 'w cycle_state \<times> 'a res" where
  "world_do f s = (case f (cs_world s) of (w, r) \<Rightarrow> (s\<lparr>cs_world := w\<rparr>, r))"

text \<open>A failed check of the wakeups degrades that phase only.\<close>

definition fire_due_wakeups :: "('w, 'v) cycle_io \<Rightarrow> 'w cycle_state \<Rightarrow> 'w cycle_state" where
  "fire_due_wakeups io s = (case ci_fire_due io of None \<Rightarrow> s | Some f \<Rightarrow> fst (world_do f s))"

definition emit_sleep_transition :: "('w, 'v) cycle_io \<Rightarrow> (real \<Rightarrow> string) \<Rightarrow> bool \<Rightarrow> 'w cycle_state \<Rightarrow>
    'w cycle_state \<times> unit res" where
  "emit_sleep_transition io isof asleep s =
     world_do (ci_broadcast io (event_of ''sleep'' ''state''
       (serialize_state (cs_tick s) [] None [] (cs_next_interval s) (sleep_block isof asleep s)))) s"

definition emit_degraded_alert :: "('w, 'v) cycle_io \<Rightarrow> json list \<Rightarrow> string \<Rightarrow> 'w cycle_state \<Rightarrow>
    'w cycle_state \<times> unit res" where
  "emit_degraded_alert io failures source s =
     world_do (ci_broadcast io (event_of ''sleep'' ''sleep.degraded''
       [(''reason'', JStr (''wake self-check failed ('' @ source @ '') - autonomous action suspended'')),
        (''self_check_failures'', JList failures), (''full_agency'', JBool False)])) s"

definition alert_degraded :: "('w, 'v) cycle_io \<Rightarrow> sleep_report \<Rightarrow> 'w cycle_state \<Rightarrow> 'w cycle_state \<times> unit res" where
  "alert_degraded io rep s =
     emit_degraded_alert io
       (case map_of (sp_notes rep) ''self_check_failures'' of Some (JList fs) \<Rightarrow> fs | _ \<Rightarrow> []) ''sleep'' s"

definition apply_wake_check :: "('w, 'v) cycle_io \<Rightarrow> check_result \<Rightarrow> 'w cycle_state \<Rightarrow> 'w cycle_state \<times> unit res" where
  "apply_wake_check io r s =
     (let s1 = s\<lparr>cs_full_agency := cr_ok r\<rparr>
      in if cr_ok r then (s1, Inr ())
         else emit_degraded_alert io (map (\<lambda>f. JStr (cf_check f)) (check_failures r)) ''startup'' s1)"

definition after_sleep :: "('w, 'v) cycle_io \<Rightarrow> sleep_report option \<Rightarrow> 'w cycle_state \<Rightarrow> 'w cycle_state \<times> unit res" where
  "after_sleep io report s =
     (case report of
        None \<Rightarrow> (s, Inr ())
      | Some rep \<Rightarrow>
          let s1 = s\<lparr>cs_last_sleep := Some rep, cs_degraded_ticks := 0, cs_full_agency := sp_self_check_ok rep\<rparr>
          in if sp_self_check_ok rep then (s1, Inr ()) else alert_degraded io rep s1)"

definition maybe_sleep :: "('w, 'v) cycle_io \<Rightarrow> (real \<Rightarrow> string) \<Rightarrow> 'w cycle_state \<Rightarrow> 'w cycle_state \<times> unit res" where
  "maybe_sleep io isof s =
     (case ci_sleep io of
        None \<Rightarrow> (s, Inr ())
      | Some sl \<Rightarrow>
          (case lo_trigger sl (cs_last_urges s) (cs_tick s) (cs_world s) of
             None \<Rightarrow> (s, Inr ())
           | Some trigger \<Rightarrow>
               (case emit_sleep_transition io isof True s of
                  (s1, Inl e) \<Rightarrow> (s1, Inl e)
                | (s1, Inr _) \<Rightarrow>
                    (case world_do (lo_sleep sl trigger (cs_degraded_ticks s1)) s1 of
                       (s2, Inl e) \<Rightarrow> (s2, Inl e)
                     | (s2, Inr report) \<Rightarrow>
                         (case after_sleep io report s2 of
                            (s3, Inl e) \<Rightarrow> (s3, Inl e)
                          | (s3, Inr _) \<Rightarrow> emit_sleep_transition io isof False s3)))))"

text \<open>One turn of the loop behind the gate: the state after it and the time slept.\<close>

definition ERROR_BACKOFF_SECONDS :: real where "ERROR_BACKOFF_SECONDS = 1"

definition turn :: "('w, 'v) cycle_io \<Rightarrow> cycle_config \<Rightarrow> (real \<Rightarrow> string) \<Rightarrow> 'w cycle_state \<Rightarrow> 'w cycle_state \<times> real" where
  "turn io cc isof s =
     (let (s1, _) = tick io cc isof s; s2 = fire_due_wakeups io s1
      in case maybe_sleep io isof s2 of
           (s3, Inr _) \<Rightarrow> (s3, cs_next_interval s3)
         | (s3, Inl _) \<Rightarrow> (s3, max (cs_next_interval s3) ERROR_BACKOFF_SECONDS))"

section \<open>The loop and its cockpit controls\<close>

datatype control = Pause | Resume | Step | Stop

fun apply_control :: "control \<Rightarrow> 'w cycle_state \<Rightarrow> 'w cycle_state" where
  "apply_control Pause s = s\<lparr>cs_gate := gate_pause (cs_gate s)\<rparr>"
| "apply_control Resume s = s\<lparr>cs_gate := gate_resume (cs_gate s)\<rparr>"
| "apply_control Step s = s\<lparr>cs_gate := gate_step (cs_gate s)\<rparr>"
| "apply_control Stop s = s\<lparr>cs_running := False, cs_gate := gate_resume (cs_gate s)\<rparr>"

text \<open>
  The loop over a sequence of moments at which it is about to wait for its turn: at each, the controls
  given since the last are applied; then it ends, stays blocked, or takes a turn.  The result is the
  state and, for each turn taken, the time slept.
\<close>

fun run_loop :: "('w, 'v) cycle_io \<Rightarrow> cycle_config \<Rightarrow> (real \<Rightarrow> string) \<Rightarrow> control list list \<Rightarrow> 'w cycle_state \<Rightarrow>
    'w cycle_state \<times> real list" where
  "run_loop io cc isof [] s = (s, [])"
| "run_loop io cc isof (cs # css) s =
     (let s1 = fold apply_control cs s
      in if \<not> cs_running s1 then (s1, [])
         else case wait_turn (cs_gate s1) of
                None \<Rightarrow> run_loop io cc isof css s1
              | Some g \<Rightarrow>
                  let (s2, slept) = turn io cc isof (s1\<lparr>cs_gate := g\<rparr>);
                      (s3, rest) = run_loop io cc isof css s2
                  in (s3, slept # rest))"

definition run :: "('w, 'v) cycle_io \<Rightarrow> cycle_config \<Rightarrow> (real \<Rightarrow> string) \<Rightarrow> control list list \<Rightarrow> 'w cycle_state \<Rightarrow>
    'w cycle_state \<times> real list" where
  "run io cc isof css s = run_loop io cc isof css (s\<lparr>cs_running := True\<rparr>)"

section \<open>What a stage keeps\<close>

text \<open>An assertion on context and state that a body keeps, whether it returns or raises.\<close>

definition holds :: "(('w, 'v) tick_state \<Rightarrow> bool) \<Rightarrow> ('w, 'v, 'a) body \<Rightarrow> bool" where
  "holds P f \<longleftrightarrow> (\<forall>s. P s \<longrightarrow> P (fst (f s)))"

named_theorems holds_intros "a composed body keeps what its parts keep"

lemma holdsD: "holds P f \<Longrightarrow> P s \<Longrightarrow> P (fst (f s))"
  unfolding holds_def by blast

lemma holds_ret [holds_intros]: "holds P (ret x)"
  by (simp add: holds_def ret_def)

lemma holds_andthen [holds_intros]: "holds P m \<Longrightarrow> (\<And>x. holds P (f x)) \<Longrightarrow> holds P (andthen m f)"
  unfolding holds_def andthen_def by (force split: prod.split sum.split)

lemma holds_with_state [holds_intros]: "(\<And>c s. holds P (f c s)) \<Longrightarrow> holds P (with_state f)"
  by (simp add: holds_def with_state_def)

lemma holds_optionally [holds_intros]: "(\<And>x. holds P (f x)) \<Longrightarrow> holds P (optionally c f)"
  by (simp add: optionally_def holds_ret split: option.split)

lemma holds_for_each [holds_intros]: "(\<And>x. holds P (f x)) \<Longrightarrow> holds P (for_each f xs)"
  by (induction xs) (simp_all add: holds_ret holds_andthen)

lemma holds_if [holds_intros]: "holds P f \<Longrightarrow> holds P g \<Longrightarrow> holds P (if b then f else g)"
  by simp

lemma holds_case_option [holds_intros]:
  "holds P f \<Longrightarrow> (\<And>x. holds P (g x)) \<Longrightarrow> holds P (case c of None \<Rightarrow> f | Some x \<Rightarrow> g x)"
  by (simp split: option.split)

lemma holds_case_prod [holds_intros]: "(\<And>x y. holds P (f x y)) \<Longrightarrow> holds P (case p of (x, y) \<Rightarrow> f x y)"
  by (simp split: prod.split)

lemma holds_pure [holds_intros]: "holds P (\<lambda>s. (s, r))"
  by (simp add: holds_def)

text \<open>What the primitive steps must keep: the world may become anything.\<close>

definition world_free :: "(('w, 'v) tick_state \<Rightarrow> bool) \<Rightarrow> bool" where
  "world_free P \<longleftrightarrow> (\<forall>c s w. P (c, s) \<longrightarrow> P (c, s\<lparr>cs_world := w\<rparr>))"

lemma holds_on_world: "world_free P \<Longrightarrow> holds P (on_world f)"
  by (auto simp: holds_def on_world_def world_free_def split: prod.split)

lemma holds_emit:
  assumes "world_free P" "\<And>st c s m. owner = Some st \<Longrightarrow> P (c, s) \<Longrightarrow> P (c\<lparr>cx_errors := dict_put st m (cx_errors c)\<rparr>, s)"
  shows "holds P (emit io src ty payload owner)"
proof -
  have "P (fst (on_world (ci_broadcast io (event_of src ty payload)) s))" if "P s" for s
    using holds_on_world [OF assms(1)] that by (rule holdsD)
  then show ?thesis using assms(2)
    by (fastforce simp: holds_def emit_def split: prod.split sum.split option.split)
qed

lemma holds_consolidate: "world_free P \<Longrightarrow> holds P (consolidate_web_read io t out)"
proof (cases "ci_consolidate io")
  case None
  then show ?thesis by (simp add: consolidate_web_read_def holds_ret)
next
  case (Some f)
  assume w: "world_free P"
  have "P (fst (consolidate_web_read io t out s))" if "P s" for s
  proof -
    obtain s1 r where o: "on_world (f t out) s = (s1, r)" by fastforce
    then have "P s1" using holdsD [OF holds_on_world [OF w, of "f t out"] that] by simp
    then show ?thesis by (cases r) (simp_all add: consolidate_web_read_def Some o)
  qed
  then show ?thesis by (simp add: holds_def)
qed

lemma run_stage_holds:
  assumes "holds P f" "\<And>c s m. P (c, s) \<Longrightarrow> P (c\<lparr>cx_errors := dict_put nm m (cx_errors c)\<rparr>, s)" "P s"
  shows "P (run_stage io nm f s)"
  using holdsD [OF assms(1,3)] assms(2) by (fastforce simp: run_stage_def split: prod.split sum.split)

definition STAGE_NAMES :: "string list" where
  "STAGE_NAMES = [''perceive'', ''appraise'', ''attend'', ''recall'', ''narrate'', ''deliberate'', ''check'', ''act'',
     ''learn'', ''state'']"

text \<open>The rules for the steps of a tick: an assertion that is free of the world and of the queues, closed
  under recorded errors of the tick's stages, and that the writes of the stages keep.\<close>

definition tick_assertion :: "cycle_config \<Rightarrow> (('w, 'v) tick_state \<Rightarrow> bool) \<Rightarrow> bool" where
  "tick_assertion cc P \<longleftrightarrow> world_free P \<and>
     (\<forall>c s st m. st \<in> set STAGE_NAMES \<longrightarrow> P (c, s) \<longrightarrow> P (c\<lparr>cx_errors := dict_put st m (cx_errors c)\<rparr>, s)) \<and>
     (\<forall>c s x. P (c, s) \<longrightarrow> P (c\<lparr>cx_percepts := x\<rparr>, s)) \<and>
     (\<forall>c s x. P (c, s) \<longrightarrow> P (c\<lparr>cx_events := x\<rparr>, s)) \<and>
     (\<forall>c s x y. P (c, s) \<longrightarrow> P (c\<lparr>cx_drives := x, cx_urges := y\<rparr>, s)) \<and>
     (\<forall>c s x. P (c, s) \<longrightarrow> P (c\<lparr>cx_mood := x\<rparr>, s)) \<and>
     (\<forall>c s x. P (c, s) \<longrightarrow> P (c\<lparr>cx_thought := x\<rparr>, s)) \<and>
     (\<forall>c s x y. P (c, s) \<longrightarrow> P (c\<lparr>cx_goal := x, cx_action := y\<rparr>, s)) \<and>
     (\<forall>c s x. P (c, s) \<longrightarrow> P (c\<lparr>cx_vetted := x\<rparr>, s)) \<and>
     (\<forall>c s x. length x \<le> cc_capacity cc \<longrightarrow> P (c, s) \<longrightarrow> P (c\<lparr>cx_contents := x\<rparr>, s)) \<and>
     (\<forall>c s x. P (c, s) \<longrightarrow> P (c, s\<lparr>cs_pending := x\<rparr>)) \<and>
     (\<forall>c s x. P (c, s) \<longrightarrow> P (c, s\<lparr>cs_last_urges := x\<rparr>)) \<and>
     (\<forall>c s m rs t. modulate_interval cc m rs = Inr t \<longrightarrow> P (c, s) \<longrightarrow> P (c, s\<lparr>cs_next_interval := t\<rparr>))"

lemma tick_assertionD:
  assumes "tick_assertion cc P"
  shows "world_free P" "holds P (on_world f)"
    "owner = None \<or> (\<exists>st \<in> set STAGE_NAMES. owner = Some st) \<Longrightarrow> holds P (emit io src ty payload owner)"
    "holds P (on_ctx (\<lambda>c. c\<lparr>cx_percepts := ps\<rparr>))" "holds P collect_events"
    "holds P (on_ctx (\<lambda>c. c\<lparr>cx_drives := rs, cx_urges := us\<rparr>))" "holds P (on_ctx (\<lambda>c. c\<lparr>cx_mood := m\<rparr>))"
    "holds P (on_ctx (\<lambda>c. c\<lparr>cx_thought := th\<rparr>))" "holds P (on_ctx (\<lambda>c. c\<lparr>cx_goal := g, cx_action := a\<rparr>))"
    "holds P (on_ctx (\<lambda>c. c\<lparr>cx_vetted := v\<rparr>))"
    "length items \<le> cc_capacity cc \<Longrightarrow> holds P (on_ctx (\<lambda>c. c\<lparr>cx_contents := items\<rparr>))"
    "holds P (enqueue es)" "holds P (on_state (\<lambda>s. s\<lparr>cs_last_urges := us\<rparr>))"
    "holds P (consolidate_web_read io t out)"
proof -
  note P = assms [unfolded tick_assertion_def]
  show w: "world_free P" using P by blast
  show "holds P (on_world f)" using w by (rule holds_on_world)
  show "holds P (consolidate_web_read io t out)" using w by (rule holds_consolidate)
  show "holds P (emit io src ty payload owner)" if "owner = None \<or> (\<exists>st \<in> set STAGE_NAMES. owner = Some st)"
  proof (rule holds_emit [OF w])
    fix st c s m assume "owner = Some st" "P (c, s)"
    with that have "st \<in> set STAGE_NAMES" by simp
    moreover have "\<forall>c s st m. st \<in> set STAGE_NAMES \<longrightarrow> P (c, s) \<longrightarrow> P (c\<lparr>cx_errors := dict_put st m (cx_errors c)\<rparr>, s)"
      using P by (elim conjE)
    ultimately show "P (c\<lparr>cx_errors := dict_put st m (cx_errors c)\<rparr>, s)" using \<open>P (c, s)\<close> by blast
  qed
qed (use assms in \<open>simp_all add: tick_assertion_def holds_def on_ctx_def on_state_def enqueue_def collect_events_def\<close>)

lemma holds_modulate:
  assumes "tick_assertion cc P"
  shows "holds P (andthen (\<lambda>s. (s, modulate_interval cc m rs)) (\<lambda>t. on_state (\<lambda>s. s\<lparr>cs_next_interval := t\<rparr>)))"
proof -
  have "\<forall>c s m rs t. modulate_interval cc m rs = Inr t \<longrightarrow> P (c, s) \<longrightarrow> P (c, s\<lparr>cs_next_interval := t\<rparr>)"
    using assms unfolding tick_assertion_def by (elim conjE)
  then show ?thesis by (auto simp: holds_def andthen_def on_state_def split: sum.split)
qed

lemma stages_hold:
  assumes P: "tick_assertion cc P"
  shows "holds P (st_perceive io)" "holds P (st_appraise io cc)" "holds P (st_attend io cc)"
    "holds P (st_recall io cc)" "holds P (st_narrate io)" "holds P (st_deliberate io)" "holds P (st_check io)"
    "holds P (st_act io)" "holds P (st_learn io)" "holds P (broadcast_state io isof)"
proof -
  note D = tick_assertionD [OF P]
  note rules = holds_intros D(2) D(4-10) D(12-14) holds_modulate [OF P]
  have e: "holds P (emit io src ty payload (Some st))" if "st \<in> set STAGE_NAMES" for src ty payload st
    by (rule D(3)) (use that in simp)
  have se: "''perceive'' \<in> set STAGE_NAMES" "''appraise'' \<in> set STAGE_NAMES" "''attend'' \<in> set STAGE_NAMES"
    "''recall'' \<in> set STAGE_NAMES" "''narrate'' \<in> set STAGE_NAMES" "''deliberate'' \<in> set STAGE_NAMES"
    "''state'' \<in> set STAGE_NAMES" by (simp_all add: STAGE_NAMES_def)
  show "holds P (st_perceive io)" unfolding st_perceive_def by (intro rules e se)
  show "holds P (st_appraise io cc)"
    unfolding st_appraise_def apply_affective_context_def broadcast_drives_def by (intro rules e se)
  show "holds P (st_attend io cc)"
    unfolding st_attend_def refresh_working_memory_def Let_def by (intro rules e se D(11)) simp
  show "holds P (st_recall io cc)" unfolding st_recall_def Let_def by (intro rules e se D(11)) simp
  show "holds P (st_narrate io)" unfolding st_narrate_def by (intro rules e se)
  show "holds P (st_deliberate io)" unfolding st_deliberate_def by (intro rules e se)
  show "holds P (st_check io)" unfolding st_check_def by (intro rules)
  show "holds P (st_act io)"
    unfolding st_act_def dispatch_tool_action_def dispatch_action_def settled_success_def by (intro rules)
  show "holds P (st_learn io)" unfolding st_learn_def by (intro rules)
  show "holds P (broadcast_state io isof)" unfolding broadcast_state_def by (intro rules e se)
qed

lemma tick_stages_hold:
  assumes "tick_assertion cc P" "(nm, f) \<in> set (tick_stages io cc isof)"
  shows "holds P f" "nm \<in> set STAGE_NAMES"
  using assms(2) stages_hold [OF assms(1)] by (auto simp: tick_stages_def STAGE_NAMES_def)

text \<open>What a tick's assertion says of the fresh context, it says of the tick's end.\<close>

lemma tick_pass_holds:
  assumes P: "tick_assertion cc P" and start: "P (new_context (cs_tick s + 1), s\<lparr>cs_tick := cs_tick s + 1\<rparr>)"
  shows "P (tick_pass io cc isof s)"
proof -
  have errs: "\<forall>c s st m. st \<in> set STAGE_NAMES \<longrightarrow> P (c, s) \<longrightarrow> P (c\<lparr>cx_errors := dict_put st m (cx_errors c)\<rparr>, s)"
    using P unfolding tick_assertion_def by (elim conjE)
  have run: "P st \<Longrightarrow> set fs \<subseteq> set (tick_stages io cc isof) \<Longrightarrow> P (fold (\<lambda>(name, f). run_stage io name f) fs st)" for st fs
  proof (induction fs arbitrary: st)
    case (Cons x fs)
    obtain nm f where x: "x = (nm, f)" by (cases x)
    with Cons.prems(2) have "(nm, f) \<in> set (tick_stages io cc isof)" by simp
    note h = tick_stages_hold [OF P this]
    have "P (run_stage io nm f st)"
      by (rule run_stage_holds [OF h(1) _ Cons.prems(1)]) (use errs h(2) in blast)
    from Cons.IH [OF this] Cons.prems(2) show ?case by (simp add: x)
  qed simp
  have "holds P (emit io ''cycle'' ''cycle.tick'' [(''tick'', JInt (cs_tick s + 1))] None)"
    by (rule tick_assertionD(3) [OF P]) simp
  from run [OF holdsD [OF this start]] show ?thesis by (simp add: tick_pass_def Let_def split_def)
qed

text \<open>The fields a tick does not touch.\<close>

definition fixed_part :: "'w cycle_state \<Rightarrow> int \<times> bool \<times> cycle_gate \<times> nat \<times> sleep_report option \<times> bool" where
  "fixed_part s = (cs_tick s, cs_running s, cs_gate s, cs_degraded_ticks s, cs_last_sleep s, cs_full_agency s)"

lemma tick_pass_fixed: "fixed_part (snd (tick_pass io cc isof s)) = fixed_part (s\<lparr>cs_tick := cs_tick s + 1\<rparr>)"
proof (rule tick_pass_holds)
  show "tick_assertion cc (\<lambda>p. fixed_part (snd p) = fixed_part (s\<lparr>cs_tick := cs_tick s + 1\<rparr>))"
    by (simp add: tick_assertion_def world_free_def fixed_part_def)
qed simp

lemma tick_pass_context:
  "cx_tick (fst (tick_pass io cc isof s)) = cs_tick s + 1 \<and>
   length (cx_contents (fst (tick_pass io cc isof s))) \<le> cc_capacity cc \<and>
   fst ` set (cx_errors (fst (tick_pass io cc isof s))) \<subseteq> set STAGE_NAMES \<and>
   distinct (map fst (cx_errors (fst (tick_pass io cc isof s))))"
proof (rule tick_pass_holds)
  show "tick_assertion cc (\<lambda>p. cx_tick (fst p) = cs_tick s + 1 \<and> length (cx_contents (fst p)) \<le> cc_capacity cc \<and>
      fst ` set (cx_errors (fst p)) \<subseteq> set STAGE_NAMES \<and> distinct (map fst (cx_errors (fst p))))"
    by (simp add: tick_assertion_def world_free_def distinct_dict_put)
qed (simp add: new_context_def)

lemma tick_pass_interval:
  assumes "cc_min_interval cc \<le> cc_max_interval cc" "lo \<le> cc_min_interval cc" "cc_max_interval cc \<le> hi"
    "lo \<le> cs_next_interval s" "cs_next_interval s \<le> hi"
  shows "lo \<le> cs_next_interval (snd (tick_pass io cc isof s)) \<and> cs_next_interval (snd (tick_pass io cc isof s)) \<le> hi"
proof (rule tick_pass_holds)
  have "lo \<le> t \<and> t \<le> hi" if "modulate_interval cc m rs = Inr t" for m rs t
    using that assms(1-3) by (auto simp: modulate_interval_def Let_def split: if_splits)
  then show "tick_assertion cc (\<lambda>p. lo \<le> cs_next_interval (snd p) \<and> cs_next_interval (snd p) \<le> hi)"
    by (auto simp: tick_assertion_def world_free_def)
qed (use assms in simp)

section \<open>Turns of the loop\<close>

definition loop_part :: "'w cycle_state \<Rightarrow> int \<times> bool \<times> cycle_gate \<times> real \<times> drive_event list" where
  "loop_part s = (cs_tick s, cs_running s, cs_gate s, cs_next_interval s, cs_pending s)"

lemma world_do_loop_part [simp]: "loop_part (fst (world_do f s)) = loop_part s"
  by (simp add: world_do_def loop_part_def split: prod.split)

lemma world_do_sel:
  "world_do f s = (s1, r) \<Longrightarrow> loop_part s1 = loop_part s \<and> cs_full_agency s1 = cs_full_agency s \<and>
     cs_last_urges s1 = cs_last_urges s \<and> cs_degraded_ticks s1 = cs_degraded_ticks s"
  by (auto simp: world_do_def loop_part_def split: prod.splits)

lemma after_sleep_loop_part: "loop_part (fst (after_sleep io report s)) = loop_part s"
proof -
  have "loop_part (s\<lparr>cs_last_sleep := x, cs_degraded_ticks := y, cs_full_agency := z\<rparr>) = loop_part s" for x y z
    by (simp add: loop_part_def)
  then show ?thesis
    by (simp add: after_sleep_def alert_degraded_def emit_degraded_alert_def Let_def split: option.split)
qed

lemma maybe_sleep_loop_part: "loop_part (fst (maybe_sleep io isof s)) = loop_part s"
proof (cases "ci_sleep io")
  case None
  then show ?thesis by (simp add: maybe_sleep_def)
next
  case (Some sl)
  have tr: "loop_part (fst (emit_sleep_transition io isof b t)) = loop_part t" for b and t :: "'a cycle_state"
    by (simp add: emit_sleep_transition_def)
  have "loop_part s1 = loop_part s" if "emit_sleep_transition io isof True s = (s1, r)" for s1 r
    using tr [of True s] that by simp
  moreover have "loop_part s2 = loop_part s1" if "world_do (lo_sleep sl t k) s1 = (s2, r)" for t k s1 s2 r
    using world_do_sel [OF that] by simp
  moreover have "loop_part s3 = loop_part s2" if "after_sleep io rep s2 = (s3, r)" for rep s2 s3 r
    using after_sleep_loop_part [of io rep s2] that by simp
  ultimately show ?thesis
    unfolding maybe_sleep_def Some
    by (auto simp: tr split: option.split prod.split sum.split)
qed

lemma tick_parts:
  "tick io cc isof s = (s', r) \<Longrightarrow>
     fixed_part s' = fixed_part (s\<lparr>cs_tick := cs_tick s + 1,
       cs_degraded_ticks := cs_degraded_ticks s + (if tick_ok r then 0 else 1)\<rparr>) \<and>
     cs_next_interval s' = cs_next_interval (snd (tick_pass io cc isof s)) \<and>
     cs_pending s' = cs_pending (snd (tick_pass io cc isof s))"
  using tick_pass_fixed [of io cc isof s]
  by (auto simp: tick_def fixed_part_def tick_ok_def Let_def split: prod.splits if_splits)

lemma turn_parts:
  assumes "turn io cc isof s = (s', slept)"
  shows "cs_tick s' = cs_tick s + 1 \<and> cs_running s' = cs_running s \<and> cs_gate s' = cs_gate s \<and>
    cs_next_interval s' = cs_next_interval (snd (tick_pass io cc isof s)) \<and>
    (slept = cs_next_interval s' \<or> slept = max (cs_next_interval s') 1)"
proof -
  obtain s1 r where t: "tick io cc isof s = (s1, r)" by fastforce
  have "loop_part (fire_due_wakeups io s1) = loop_part s1"
    by (simp add: fire_due_wakeups_def split: option.split)
  with maybe_sleep_loop_part [of io isof "fire_due_wakeups io s1"]
  have l: "loop_part (fst (maybe_sleep io isof (fire_due_wakeups io s1))) = loop_part s1" by simp
  have "s' = fst (maybe_sleep io isof (fire_due_wakeups io s1))" "slept = cs_next_interval s' \<or> slept = max (cs_next_interval s') 1"
    using assms by (auto simp: turn_def t ERROR_BACKOFF_SECONDS_def split: prod.splits sum.splits)
  with l tick_parts [OF t] show ?thesis by (simp add: loop_part_def fixed_part_def)
qed

lemma control_interval [simp]: "cs_next_interval (fold apply_control cs s) = cs_next_interval s"
proof (induction cs arbitrary: s)
  case (Cons c cs)
  then show ?case by (cases c) simp_all
qed simp

lemma run_loop_paced:
  assumes "cc_min_interval cc \<le> cc_max_interval cc" "lo \<le> cc_min_interval cc" "cc_max_interval cc \<le> hi"
  shows "lo \<le> cs_next_interval s \<Longrightarrow> cs_next_interval s \<le> hi \<Longrightarrow> run_loop io cc isof css s = (s', slept) \<Longrightarrow>
    \<forall>t \<in> set slept. lo \<le> t \<and> t \<le> max hi 1"
proof (induction css arbitrary: s s' slept)
  case (Cons cs css)
  let ?s1 = "fold apply_control cs s"
  consider "\<not> cs_running ?s1" | "cs_running ?s1" "wait_turn (cs_gate ?s1) = None"
    | g where "cs_running ?s1" "wait_turn (cs_gate ?s1) = Some g" by fastforce
  then show ?case
  proof cases
    case 1
    with Cons.prems show ?thesis by (simp add: Let_def)
  next
    case 2
    with Cons.prems Cons.IH [of ?s1 s' slept] show ?thesis by (simp add: Let_def)
  next
    case 3
    obtain s2 t where t: "turn io cc isof (?s1\<lparr>cs_gate := g\<rparr>) = (s2, t)" by fastforce
    obtain s3 rest where r: "run_loop io cc isof css s2 = (s3, rest)" by fastforce
    have "lo \<le> cs_next_interval s2 \<and> cs_next_interval s2 \<le> hi"
      using turn_parts [OF t] tick_pass_interval [OF assms, of "?s1\<lparr>cs_gate := g\<rparr>" io isof] Cons.prems by simp
    with Cons.IH [OF _ _ r] turn_parts [OF t]
    have "\<forall>t \<in> set rest. lo \<le> t \<and> t \<le> max hi 1" "lo \<le> t \<and> t \<le> max hi 1" by auto
    moreover have "slept = t # rest" using Cons.prems(3) 3 t r by (simp add: Let_def)
    ultimately show ?thesis by simp
  qed
qed simp

lemma run_loop_blocked:
  "cs_running s \<Longrightarrow> wait_turn (cs_gate s) = None \<Longrightarrow> run_loop io cc isof (replicate n []) s = (s, [])"
  by (induction n) simp_all

section \<open>Degraded mode takes no part in deliberation\<close>

text \<open>The cycle with another deliberation, another dispatch and another consolidator.\<close>

definition rewire :: "'w delib_ops option \<Rightarrow> ('w, 'v) dispatch_ops option \<Rightarrow>
    (string \<Rightarrow> (string \<times> json) list \<Rightarrow> ('w, bool) world_op) option \<Rightarrow> ('w, 'v) cycle_io \<Rightarrow> ('w, 'v) cycle_io" where
  "rewire d p k io = io\<lparr>ci_delib := d, ci_dispatch := p, ci_consolidate := k\<rparr>"

lemma rewire_sel [simp]:
  "ci_broadcast (rewire d p k io) = ci_broadcast io" "ci_set_contents (rewire d p k io) = ci_set_contents io"
  "ci_perceive (rewire d p k io) = ci_perceive io" "ci_select (rewire d p k io) = ci_select io"
  "ci_set_bias (rewire d p k io) = ci_set_bias io" "ci_recall (rewire d p k io) = ci_recall io"
  "ci_recall_mood (rewire d p k io) = ci_recall_mood io" "ci_narrate (rewire d p k io) = ci_narrate io"
  "ci_narrate_mood (rewire d p k io) = ci_narrate_mood io" "ci_learn (rewire d p k io) = ci_learn io"
  "ci_drives (rewire d p k io) = ci_drives io" "ci_affect (rewire d p k io) = ci_affect io"
  "ci_wm (rewire d p k io) = ci_wm io" "ci_exn_type (rewire d p k io) = ci_exn_type io"
  "ci_exn_text (rewire d p k io) = ci_exn_text io"
  by (simp_all add: rewire_def)

lemma emit_rewire [simp]: "emit (rewire d p k io) = emit io"
  by (intro ext) (simp only: emit_def rewire_sel)

lemma run_stage_rewire [simp]: "run_stage (rewire d p k io) = run_stage io"
  by (intro ext) (simp only: run_stage_def rewire_sel)

lemma stages_rewire [simp]:
  "st_perceive (rewire d p k io) = st_perceive io" "st_appraise (rewire d p k io) cc = st_appraise io cc"
  "st_attend (rewire d p k io) cc = st_attend io cc" "st_recall (rewire d p k io) cc = st_recall io cc"
  "st_narrate (rewire d p k io) = st_narrate io" "st_learn (rewire d p k io) = st_learn io"
  "broadcast_state (rewire d p k io) isof = broadcast_state io isof"
  by (simp_all only: st_perceive_def st_appraise_def st_attend_def st_recall_def st_narrate_def st_learn_def
      broadcast_state_def broadcast_drives_def apply_affective_context_def refresh_working_memory_def
      rewire_sel emit_rewire)

lemma degraded_skips:
  assumes "\<not> cs_full_agency (snd s)"
  shows "run_stage io nm (st_deliberate io') s = s" "run_stage io nm (st_check io') s = s"
    "run_stage io nm (st_act io') s = s"
  using assms
  by (auto simp: run_stage_def st_deliberate_def st_check_def st_act_def optionally_def with_state_def ret_def
      split: option.split)

lemma tick_pass_degraded:
  assumes "\<not> cs_full_agency s"
  shows "tick_pass (rewire d p k io) cc isof s = tick_pass io cc isof s"
proof -
  let ?P = "\<lambda>q :: ('a, 'b) tick_state. \<not> cs_full_agency (snd q)"
  have P: "tick_assertion cc ?P" by (simp add: tick_assertion_def world_free_def)
  have keep: "?P (run_stage io nm f q)" if "holds ?P f" "?P q" for nm f q
    by (rule run_stage_holds [OF that(1) _ that(2)]) simp
  note h = stages_hold [OF P, of io]
  let ?e = "fst (emit io ''cycle'' ''cycle.tick'' [(''tick'', JInt (cs_tick s + 1))] None
    (new_context (cs_tick s + 1), s\<lparr>cs_tick := cs_tick s + 1\<rparr>))"
  have "holds ?P (emit io ''cycle'' ''cycle.tick'' [(''tick'', JInt (cs_tick s + 1))] None)"
    by (rule tick_assertionD(3) [OF P]) simp
  then have e: "?P ?e" using assms by (intro holdsD [of ?P]) simp_all
  define n where "n = run_stage io ''narrate'' (st_narrate io) (run_stage io ''recall'' (st_recall io cc)
    (run_stage io ''attend'' (st_attend io cc) (run_stage io ''appraise'' (st_appraise io cc)
      (run_stage io ''perceive'' (st_perceive io) ?e))))"
  have "?P n" unfolding n_def by (intro keep h e)
  then show ?thesis
    by (simp add: tick_pass_def tick_stages_def Let_def split_def degraded_skips flip: n_def)
qed

section \<open>Properties\<close>


text \<open>C2: while the wake self-check has failed, a tick takes no autonomous action.  It is the same tick,
  state, world and report alike, whatever deliberation, effector dispatch and consolidator are
  wired: none of them is called.\<close>

theorem degraded_takes_no_action:
  assumes "\<not> cs_full_agency s"
  shows "tick (io\<lparr>ci_delib := d, ci_dispatch := p, ci_consolidate := k\<rparr>) cc isof s = tick io cc isof s"
  using tick_pass_degraded [OF assms, of d p k io cc isof] by (simp add: tick_def rewire_def)

text \<open>C32: the heartbeat neither spins nor freezes.  Whatever the collaborators do and whatever controls
  are given, every turn of the loop is followed by a sleep of at least the smaller of the configured
  minimum and base interval, and at most the larger of the configured maximum, the base interval and
  the error backoff.\<close>

theorem heartbeat_paced:
  assumes "cc_min_interval cc \<le> cc_max_interval cc" "run io cc isof css (new_cycle cc w) = (s', slept)" "t \<in> set slept"
  shows "min (cc_min_interval cc) (cc_interval cc) \<le> t \<and> t \<le> max (max (cc_max_interval cc) (cc_interval cc)) 1"
proof -
  have "\<forall>t \<in> set slept. min (cc_min_interval cc) (cc_interval cc) \<le> t \<and>
      t \<le> max (max (cc_max_interval cc) (cc_interval cc)) 1"
    by (rule run_loop_paced [OF assms(1), of _ _ "(new_cycle cc w)\<lparr>cs_running := True\<rparr>" io isof css s'])
       (use assms(2) in \<open>simp_all add: run_def new_cycle_def\<close>)
  with assms(3) show ?thesis by blast
qed

text \<open>One step is one tick.  Given to a running loop, stepping lets exactly one turn through, with
  the tick counter one higher, and leaves the loop blocked however long it then waits.\<close>

theorem step_is_one_tick:
  assumes "cs_running s" "run_loop io cc isof ([Step] # replicate n []) s = (s', slept)"
  shows "length slept = 1 \<and> cs_tick s' = cs_tick s + 1 \<and> wait_turn (cs_gate s') = None"
proof -
  let ?g = "\<lparr>ga_paused = True, ga_step_once = False, ga_open = False\<rparr>"
  let ?s = "s\<lparr>cs_gate := ?g\<rparr>"
  obtain s2 t where t: "turn io cc isof ?s = (s2, t)" by fastforce
  note parts = turn_parts [OF t]
  have "wait_turn (gate_step (cs_gate s)) = Some ?g" by (simp add: wait_turn_def gate_step_def)
  then have "(s', slept) = (let (s3, rest) = run_loop io cc isof (replicate n []) s2 in (s3, t # rest))"
    using assms t by (simp add: Let_def)
  moreover have "wait_turn (cs_gate s2) = None" using parts by (simp add: wait_turn_def)
  ultimately show ?thesis using run_loop_blocked [of s2 io cc isof n] parts assms(1) by simp
qed

definition idle_io :: "('w, unit) cycle_io" where
  "idle_io = \<lparr>ci_broadcast = (\<lambda>_ w. (w, Inl (OtherError ''ConnectionError''))), ci_set_contents = (\<lambda>_ w. (w, Inr ())),
     ci_perceive = None, ci_select = None, ci_set_bias = None, ci_recall = None, ci_recall_mood = None,
     ci_narrate = None, ci_narrate_mood = None, ci_learn = None, ci_drives = None, ci_affect = None, ci_delib = None,
     ci_dispatch = None, ci_sleep = None, ci_fire_due = None, ci_consolidate = None, ci_wm = None,
     ci_exn_type = (\<lambda>_. ''ConnectionError''), ci_exn_text = (\<lambda>_. [])\<rparr>"

definition cycle_demo :: cycle_config where
  "cycle_demo = \<lparr>cc_interval = 4, cc_min_interval = 15/10, cc_max_interval = 12, cc_arousal_speedup = 1,
     cc_tired_slowdown = 15/10, cc_drive_weight = 1/2, cc_capacity = 7\<rparr>"

text \<open>A deliberation that would always act.\<close>

definition eager_delib :: "nat delib_ops" where
  "eager_delib = \<lparr>eo_deliberate = (\<lambda>_ _ _ w. (Suc w, Inr (Some (goal_demo CURIOSITY 0), Some delib_action_demo))),
     eo_act = (\<lambda>a g _ w. (Suc w, Inr \<lparr>ao_action_kind = [], ao_success = True, ao_summary = [], ao_drive_events = []\<rparr>)),
     eo_settle = None\<rparr>"

theorem degraded_takes_no_action_witness:
  "let s = (new_cycle cycle_demo (0::nat))\<lparr>cs_full_agency := False\<rparr>
   in tick (idle_io\<lparr>ci_delib := Some eager_delib, ci_dispatch := None, ci_consolidate := None\<rparr>) cycle_demo (\<lambda>_. []) s =
      tick idle_io cycle_demo (\<lambda>_. []) s"
  unfolding Let_def by (rule degraded_takes_no_action) simp

lemma loop_runs_turn:
  "cs_running s \<Longrightarrow> wait_turn (cs_gate s) = Some g \<Longrightarrow> turn io cc isof (s\<lparr>cs_gate := g\<rparr>) = (s2, t) \<Longrightarrow>
   run_loop io cc isof [[]] s = (s2, [t])"
  by simp

theorem heartbeat_paced_witness:
  "\<exists>s' t. run idle_io cycle_demo (\<lambda>_. []) [[]] (new_cycle cycle_demo (0::nat)) = (s', [t]) \<and> 15/10 \<le> t \<and> t \<le> 12"
proof -
  let ?s = "(new_cycle cycle_demo (0::nat))\<lparr>cs_running := True\<rparr>"
  obtain s2 t where t: "turn idle_io cycle_demo (\<lambda>_. []) (?s\<lparr>cs_gate := new_gate\<rparr>) = (s2, t)" by fastforce
  have "wait_turn (cs_gate ?s) = Some new_gate" by (simp add: new_cycle_def new_gate_def wait_turn_def)
  from loop_runs_turn [OF _ this t]
  have r: "run idle_io cycle_demo (\<lambda>_. []) [[]] (new_cycle cycle_demo (0::nat)) = (s2, [t])"
    unfolding run_def by simp
  have "cc_min_interval cycle_demo \<le> cc_max_interval cycle_demo" by (simp add: cycle_demo_def)
  from heartbeat_paced [OF this r, of t] r show ?thesis by (simp add: cycle_demo_def)
qed

theorem step_is_one_tick_witness:
  "\<exists>s' t. run_loop idle_io cycle_demo (\<lambda>_. []) [[Step], [], []] ((new_cycle cycle_demo (0::nat))\<lparr>cs_running := True\<rparr>) = (s', [t]) \<and>
     cs_tick s' = 1 \<and> wait_turn (cs_gate s') = None"
proof -
  let ?s = "(new_cycle cycle_demo (0::nat))\<lparr>cs_running := True\<rparr>"
  obtain s' slept where r: "run_loop idle_io cycle_demo (\<lambda>_. []) [[Step], [], []] ?s = (s', slept)" by fastforce
  then have "run_loop idle_io cycle_demo (\<lambda>_. []) ([Step] # replicate 2 []) ?s = (s', slept)"
    by (simp add: numeral_2_eq_2 del: run_loop.simps)
  from step_is_one_tick [OF _ this] r show ?thesis
    by (auto simp: new_cycle_def length_Suc_conv simp del: run_loop.simps)
qed

section \<open>The agency gate and sleep\<close>

text \<open>The sleep of Sleep.thy wired into the cycle; the world is the sleeper and the rest.\<close>

definition wire_sleep :: "sleep_io \<Rightarrow> sleep_cycle \<Rightarrow> (sleeper \<times> 'x) sleep_ops" where
  "wire_sleep sio sc =
     \<lparr>lo_trigger = (\<lambda>us tick w. sleep_trigger sc us tick (fst w)),
      lo_sleep = (\<lambda>trigger k w. case sleep sio sc trigger None k (fst w) of (sl, r) \<Rightarrow> ((sl, snd w), r))\<rparr>"

lemma after_sleep_agency:
  assumes "after_sleep io (Some rep) s = (s', r)" "\<And>ev w. fst (fst (ci_broadcast io ev w)) = fst w"
  shows "cs_full_agency s' = sp_self_check_ok rep \<and> cs_degraded_ticks s' = 0 \<and> fst (cs_world s') = fst (cs_world s)"
proof -
  have "fst (cs_world (fst (world_do (ci_broadcast io ev) t))) = fst (cs_world t)" for ev t
    using assms(2) [of ev "cs_world t"] by (simp add: world_do_def split_def)
  moreover have "cs_full_agency (fst (world_do f t)) = cs_full_agency t \<and>
      cs_degraded_ticks (fst (world_do f t)) = cs_degraded_ticks t" for f :: "('a \<times> 'b, unit) world_op" and t
    by (simp add: world_do_def split_def)
  moreover have "s' = fst (after_sleep io (Some rep) s)" using assms(1) by simp
  ultimately show ?thesis
    by (simp add: after_sleep_def alert_degraded_def emit_degraded_alert_def Let_def)
qed


definition quiet_io :: "(sleeper \<times> nat, unit) cycle_io" where
  "quiet_io = idle_io\<lparr>ci_broadcast := (\<lambda>_ w. (w, Inr ())), ci_sleep := Some (wire_sleep sleep_io_demo sleep_config_demo)\<rparr>"

definition tired_demo :: "(sleeper \<times> nat) cycle_state" where
  "tired_demo = (new_cycle cycle_demo (sleeper_demo, 0))\<lparr>cs_last_urges := [urge_demo ENERGY 1], cs_degraded_ticks := 3\<rparr>"

lemma quiet_bus: "world_do (ci_broadcast quiet_io ev) s = (s, Inr ())"
  by (simp add: quiet_io_def world_do_def)

lemma quiet_transition: "emit_sleep_transition quiet_io isof b s = (s, Inr ())"
  by (simp add: emit_sleep_transition_def quiet_bus)


text \<open>The two renderings of the last sleep agree.  For a sleep that could open and close its row, what
  the REST snapshot shows of the row it left in the log is exactly what the live frame shows of the
  report it returned.\<close>

theorem sleep_summaries_agree:
  assumes "\<not> sl_asleep st" "si_db sio ''open'' = None" "si_db sio ''close'' = None" "log_ok (mi_sleep_log (sl_mind st))"
    and "sleep sio sc trigger now k st = (st', r)"
  shows "\<exists>rep row. r = Inr (Some rep) \<and> mi_sleep_log (sl_mind st') = mi_sleep_log (sl_mind st) @ [row] \<and>
    sleep_summary_from_log isof (Some row) = sleep_summary_from_report isof (Some rep)"
  using sleep_log_row [OF assms]
  by (elim exE conjE) (simp add: sleep_summary_from_log_def sleep_summary_from_report_def close_row_def)

theorem sleep_summaries_agree_witness:
  "\<exists>st' rep row. sleep sleep_io_demo sleep_config_demo ''energy'' None 2 sleeper_demo = (st', Inr (Some rep)) \<and>
     mi_sleep_log (sl_mind st') = [row] \<and>
     sleep_summary_from_log (\<lambda>_. []) (Some row) = sleep_summary_from_report (\<lambda>_. []) (Some rep)"
proof -
  obtain st' r where s: "sleep sleep_io_demo sleep_config_demo ''energy'' None 2 sleeper_demo = (st', r)" by fastforce
  have "\<not> sl_asleep sleeper_demo" "si_db sleep_io_demo ''open'' = None" "si_db sleep_io_demo ''close'' = None"
    "mi_sleep_log (sl_mind sleeper_demo) = []" "log_ok []"
    by (simp_all add: sleeper_demo_def sleep_io_demo_def log_ok_def)
  with sleep_summaries_agree [OF _ _ _ _ s, of "\<lambda>_. []"] s show ?thesis by fastforce
qed

end
