(* ===== verification/Perception.thy ===== *)
theory Perception
  imports Effectors "HOL-Library.Sublist"
begin

text \<open>
  What reaches Johnny: the input queue and the Sensorium (\<^verbatim>\<open>brain/agents/sensorium.py\<close>), and the
  self-prompts he schedules for later (\<^verbatim>\<open>brain/effectors/scheduler.py\<close>), which come back
  through the same queue.

  The Redis list is the list of the raw inputs in it (their JSON is written and read by the same
  model).  Everything outside is consulted in calls; the record \<open>feeds\<close> says what the \<open>n\<close>-th
  call finds: the clock, the load of the host, whether Redis and the database answer.  The two
  tables are lists of rows, a row's id its place plus one.  Postgres refuses a text longer than
  its column, and NUL characters in text and JSON alike.  (The dash of the ambient line is written
  as a hyphen.)
\<close>

section \<open>Data\<close>

record raw_input =
  ri_raw :: string
  ri_source :: string
  ri_modality :: string

record percept =
  pc_id :: "nat option"
  pc_ts :: "real option"
  pc_modality :: string
  pc_raw :: string
  pc_normalised :: "(string \<times> json) list"
  pc_source :: string

datatype wakeup_status = PENDING | FIRED

record wakeup =
  wu_id :: nat
  wu_fire_at :: real
  wu_reason :: string
  wu_status :: wakeup_status
  wu_created_at :: real

record feeds =
  fe_now :: "nat \<Rightarrow> real"
  fe_load :: "nat \<Rightarrow> (real \<times> real \<times> real) option"
  fe_redis :: "nat \<Rightarrow> bool"
  fe_db :: "nat \<Rightarrow> bool"
  fe_iso :: "real \<Rightarrow> string"

record senses =
  se_calls :: nat
  se_queue :: "raw_input list"
  se_percepts :: "percept list"
  se_ticks :: nat
  se_wakeups :: "wakeup list"

record sensorium =
  sm_input_salience :: real
  sm_ambient_salience :: real
  sm_persist_every :: int

definition new_sensorium :: "real \<Rightarrow> real \<Rightarrow> int \<Rightarrow> sensorium" where
  "new_sensorium input ambient every =
     \<lparr>sm_input_salience = input, sm_ambient_salience = ambient, sm_persist_every = max 1 every\<rparr>"

definition MODALITY_TEXT :: string where "MODALITY_TEXT = ''text''"
definition MODALITY_SYSTEM :: string where "MODALITY_SYSTEM = ''system''"
definition SOURCE_SYSTEM_METRICS :: string where "SOURCE_SYSTEM_METRICS = ''system_metrics''"
definition WAKEUP_SOURCE :: string where "WAKEUP_SOURCE = ''scheduled_wakeup''"
definition MAX_DRAIN_PER_TICK :: nat where "MAX_DRAIN_PER_TICK = 16"

definition called :: "senses \<Rightarrow> senses" where
  "called s = s\<lparr>se_calls := se_calls s + 1\<rparr>"

lemma called_simps [simp]:
  "se_queue (called s) = se_queue s" "se_percepts (called s) = se_percepts s" "se_ticks (called s) = se_ticks s"
  "se_wakeups (called s) = se_wakeups s"
  by (simp_all add: called_def)

section \<open>The input queue\<close>

definition queue_push :: "feeds \<Rightarrow> raw_input \<Rightarrow> senses \<Rightarrow> senses \<times> unit res" where
  "queue_push fe x s =
     (if fe_redis fe (se_calls s) then (called s\<lparr>se_queue := se_queue s @ [x]\<rparr>, Inr ())
      else (called s, Inl (OtherError ''ConnectionError'')))"

definition queue_drain :: "feeds \<Rightarrow> nat \<Rightarrow> senses \<Rightarrow> senses \<times> raw_input list res" where
  "queue_drain fe n s =
     (if fe_redis fe (se_calls s)
      then (called s\<lparr>se_queue := drop n (se_queue s)\<rparr>, Inr (take n (se_queue s)))
      else (called s, Inl (OtherError ''ConnectionError'')))"

definition queue_depth :: "senses \<Rightarrow> nat" where
  "queue_depth s = length (se_queue s)"

text \<open>The contract of a queue whose calls may fail, and what its clients use.\<close>

locale fallible_fifo =
  fixes waiting :: "'q \<Rightarrow> 'a list"
    and push :: "'a \<Rightarrow> 'q \<Rightarrow> 'q \<times> unit res"
    and drain :: "nat \<Rightarrow> 'q \<Rightarrow> 'q \<times> 'a list res"
  assumes push_ok: "push x q = (q', Inr u) \<Longrightarrow> waiting q' = waiting q @ [x]"
    and push_err: "push x q = (q', Inl e) \<Longrightarrow> waiting q' = waiting q"
    and drain_ok: "drain n q = (q', Inr xs) \<Longrightarrow> xs = take n (waiting q) \<and> waiting q' = drop n (waiting q)"
    and drain_err: "drain n q = (q', Inl e) \<Longrightarrow> waiting q' = waiting q"
begin

lemma drain_split: "drain n q = (q', Inr xs) \<Longrightarrow> waiting q = xs @ waiting q' \<and> length xs \<le> n"
  using drain_ok [of n q q' xs] by simp

lemma drain_suffix: "drain n q = (q', r) \<Longrightarrow> suffix (waiting q') (waiting q)"
  using drain_ok [of n q q'] drain_err [of n q q'] by (cases r) (auto simp: suffix_drop)

lemma push_prefix: "push x q = (q', r) \<Longrightarrow> \<exists>ys. waiting q' = waiting q @ ys \<and> ys \<in> {[], [x]}"
  using push_ok [of x q q'] push_err [of x q q'] by (cases r) auto

lemma push_then_drain:
  assumes "push x q = (q1, Inr u)" "drain (Suc (length (waiting q))) q1 = (q2, Inr xs)"
  shows "xs = waiting q @ [x] \<and> waiting q2 = []"
  using push_ok [OF assms(1)] drain_ok [OF assms(2)] by simp

end

interpretation inq: fallible_fifo se_queue "queue_push fe" "queue_drain fe" for fe
  by unfold_locales (auto simp: queue_push_def queue_drain_def split: if_splits)

section \<open>Percepts\<close>

fun has_nul :: "json \<Rightarrow> bool" where
  "has_nul (JStr s) = (CHR 0x00 \<in> set s)"
| "has_nul (JList xs) = list_ex has_nul xs"
| "has_nul (JDict d) = list_ex (\<lambda>(k, v). CHR 0x00 \<in> set k \<or> has_nul v) d"
| "has_nul _ = False"

definition percept_refused :: "percept \<Rightarrow> bool" where
  "percept_refused p \<longleftrightarrow>
     32 < length (pc_modality p) \<or> 128 < length (pc_source p) \<or>
     CHR 0x00 \<in> set (pc_raw p) \<union> set (pc_modality p) \<union> set (pc_source p) \<or> has_nul (JDict (pc_normalised p))"

definition persist_percept :: "feeds \<Rightarrow> percept \<Rightarrow> senses \<Rightarrow> senses \<times> percept res" where
  "persist_percept fe p s =
     (if \<not> fe_db fe (se_calls s) then (called s, Inl (OtherError ''database''))
      else if percept_refused p then (called s, Inl (OtherError ''DataError''))
      else let row = p\<lparr>pc_id := Some (Suc (length (se_percepts s))),
                       pc_ts := Some (case pc_ts p of Some t \<Rightarrow> t | None \<Rightarrow> fe_now fe (se_calls s))\<rparr>
           in (called s\<lparr>se_percepts := se_percepts s @ [row]\<rparr>, Inr row))"

text \<open>The identity of a workspace item is a fresh UUID; the items of a perception are told apart
  by the place given here.\<close>

definition input_percept :: "raw_input \<Rightarrow> real \<Rightarrow> percept" where
  "input_percept x t =
     \<lparr>pc_id = None, pc_ts = Some t, pc_modality = ri_modality x, pc_raw = ri_raw x,
      pc_normalised = [(''text'', JStr (strip (ri_raw x))), (''source'', JStr (ri_source x))],
      pc_source = ri_source x\<rparr>"

definition json_nat_id :: "nat option \<Rightarrow> json" where
  "json_nat_id i = (case i of None \<Rightarrow> JNull | Some n \<Rightarrow> JInt (int n))"

definition perceive_input :: "feeds \<Rightarrow> sensorium \<Rightarrow> raw_input \<Rightarrow> senses \<Rightarrow> senses \<times> ws_item res" where
  "perceive_input fe sm x s =
     (case persist_percept fe (input_percept x (fe_now fe (se_calls s))) (called s) of
        (s1, Inl e) \<Rightarrow> (s1, Inl e)
      | (s1, Inr p) \<Rightarrow>
          (s1, Inr \<lparr>wi_id = [], wi_kind = ''input'', wi_content = strip (ri_raw x),
                    wi_salience = sm_input_salience sm, wi_source = ri_source x,
                    wi_metadata = [(''percept_id'', json_nat_id (pc_id p)), (''modality'', JStr (ri_modality x))]\<rparr>))"

subsection \<open>The ambient percept\<close>

text \<open>\<^verbatim>\<open>repr\<close> of a float that \<^verbatim>\<open>round(x, 2)\<close> returned.\<close>

definition repr_cents :: "real \<Rightarrow> string" where
  "repr_cents x =
     (let n = nat (round_even (\<bar>x\<bar> * 100)); cents = n mod 100
      in (if x < 0 then [CHR 0x2D] else []) @ show_nat (n div 100) @ ''.'' @
         (if cents mod 10 = 0 then [dig (cents div 10)] else [dig (cents div 10), dig (cents mod 10)]))"

definition system_metrics :: "string \<Rightarrow> (real \<times> real \<times> real) option \<Rightarrow> (string \<times> json) list" where
  "system_metrics stamp load =
     (''time'', JStr stamp) #
     (case load of
        None \<Rightarrow> []
      | Some (l1, l5, l15) \<Rightarrow> [(''load_1m'', JFloat (py_round 2 l1)), (''load_5m'', JFloat (py_round 2 l5)),
                              (''load_15m'', JFloat (py_round 2 l15))])"

text \<open>\<^verbatim>\<open>json.dumps(metrics, sort_keys=True)\<close>; a timestamp needs no escapes.\<close>

definition quoted :: "string \<Rightarrow> string" where "quoted s = CHR 0x22 # s @ [CHR 0x22]"

definition metrics_json :: "string \<Rightarrow> (real \<times> real \<times> real) option \<Rightarrow> string" where
  "metrics_json stamp load =
     [CHR 0x7B] @ join '', ''
       ((case load of
           None \<Rightarrow> []
         | Some (l1, l5, l15) \<Rightarrow>
             [quoted ''load_15m'' @ '': '' @ repr_cents (py_round 2 l15),
              quoted ''load_1m'' @ '': '' @ repr_cents (py_round 2 l1),
              quoted ''load_5m'' @ '': '' @ repr_cents (py_round 2 l5)]) @
        [quoted ''time'' @ '': '' @ quoted stamp]) @ [CHR 0x7D]"

definition describe_system :: "(string \<times> json) list \<Rightarrow> string" where
  "describe_system m =
     (let w = (case map_of m ''time'' of Some (JStr t) \<Rightarrow> t | _ \<Rightarrow> []);
          clock = (if 16 \<le> length w then take 5 (drop 11 w) else w)
      in case map_of m ''load_1m'' of
           Some (JFloat l) \<Rightarrow> ''All quiet - it'' @ [CHR 0x27] @ ''s '' @ clock @
             '' UTC, the host is idling (load '' @ repr_cents l @ '').''
         | _ \<Rightarrow> ''All quiet - it'' @ [CHR 0x27] @ ''s '' @ clock @ '' UTC, nothing new has come in.'')"

definition ambient_due :: "sensorium \<Rightarrow> nat \<Rightarrow> bool" where
  "ambient_due sm n \<longleftrightarrow> int n mod sm_persist_every sm = 1 \<or> sm_persist_every sm = 1"

definition ambient_item :: "sensorium \<Rightarrow> (string \<times> json) list \<Rightarrow> nat option \<Rightarrow> ws_item" where
  "ambient_item sm m i =
     \<lparr>wi_id = [], wi_kind = ''ambient'', wi_content = describe_system m, wi_salience = sm_ambient_salience sm,
      wi_source = SOURCE_SYSTEM_METRICS, wi_metadata = (''percept_id'', json_nat_id i) # m\<rparr>"

definition perceive_system :: "feeds \<Rightarrow> sensorium \<Rightarrow> senses \<Rightarrow> senses \<times> ws_item res" where
  "perceive_system fe sm s =
     (let now = fe_now fe (se_calls s); load = fe_load fe (se_calls s); s1 = called s;
          m = system_metrics (fe_iso fe now) load
      in if ambient_due sm (se_ticks s1) then
           (case persist_percept fe \<lparr>pc_id = None, pc_ts = Some now, pc_modality = MODALITY_SYSTEM,
                     pc_raw = metrics_json (fe_iso fe now) load, pc_normalised = m,
                     pc_source = SOURCE_SYSTEM_METRICS\<rparr> s1 of
              (s2, Inl e) \<Rightarrow> (s2, Inl e)
            | (s2, Inr p) \<Rightarrow> (s2, Inr (ambient_item sm m (pc_id p))))
         else (s1, Inr (ambient_item sm m None)))"

fun perceive_inputs :: "feeds \<Rightarrow> sensorium \<Rightarrow> raw_input list \<Rightarrow> senses \<Rightarrow> senses \<times> ws_item list res" where
  "perceive_inputs fe sm [] s = (s, Inr [])"
| "perceive_inputs fe sm (x # xs) s =
     (case perceive_input fe sm x s of
        (s1, Inl e) \<Rightarrow> (s1, Inl e)
      | (s1, Inr i) \<Rightarrow>
          (case perceive_inputs fe sm xs s1 of
             (s2, Inl e) \<Rightarrow> (s2, Inl e)
           | (s2, Inr is) \<Rightarrow> (s2, Inr (i # is))))"

definition perceive :: "feeds \<Rightarrow> sensorium \<Rightarrow> senses \<Rightarrow> senses \<times> ws_item list res" where
  "perceive fe sm s =
     (case queue_drain fe MAX_DRAIN_PER_TICK (s\<lparr>se_ticks := se_ticks s + 1\<rparr>) of
        (s1, Inl e) \<Rightarrow> (s1, Inl e)
      | (s1, Inr raws) \<Rightarrow>
          (case perceive_inputs fe sm raws s1 of
             (s2, Inl e) \<Rightarrow> (s2, Inl e)
           | (s2, Inr items) \<Rightarrow>
               (case perceive_system fe sm s2 of
                  (s3, Inl e) \<Rightarrow> (s3, Inl e)
                | (s3, Inr a) \<Rightarrow> (s3, Inr (items @ [a])))))"

section \<open>Scheduled wakeups\<close>

definition MAX_DELAY_SECONDS :: real where "MAX_DELAY_SECONDS = 30 * 24 * 60 * 60"

definition due_pending :: "real \<Rightarrow> wakeup list \<Rightarrow> wakeup list" where
  "due_pending now ws = sort_key wu_fire_at (filter (\<lambda>w. wu_status w = PENDING \<and> wu_fire_at w \<le> now) ws)"

definition mark_fired :: "nat list \<Rightarrow> wakeup list \<Rightarrow> wakeup list" where
  "mark_fired ids ws = map (\<lambda>w. if wu_id w \<in> set ids then w\<lparr>wu_status := FIRED\<rparr> else w) ws"

definition schedule :: "feeds \<Rightarrow> real \<Rightarrow> string \<Rightarrow> senses \<Rightarrow> senses \<times> wakeup res" where
  "schedule fe delay reason s =
     (let now = fe_now fe (se_calls s); s1 = called s
      in if \<not> fe_db fe (se_calls s1) then (called s1, Inl (OtherError ''database''))
         else if CHR 0x00 \<in> set reason then (called s1, Inl (OtherError ''DataError''))
         else let row = \<lparr>wu_id = Suc (length (se_wakeups s)), wu_fire_at = now + delay, wu_reason = reason,
                         wu_status = PENDING, wu_created_at = fe_now fe (se_calls s1)\<rparr>
              in (called s1\<lparr>se_wakeups := se_wakeups s @ [row]\<rparr>, Inr row))"

fun inject_all :: "feeds \<Rightarrow> wakeup list \<Rightarrow> senses \<Rightarrow> senses \<times> unit res" where
  "inject_all fe [] s = (s, Inr ())"
| "inject_all fe (w # ws) s =
     (case queue_push fe \<lparr>ri_raw = wu_reason w, ri_source = WAKEUP_SOURCE, ri_modality = MODALITY_TEXT\<rparr> s of
        (s1, Inl e) \<Rightarrow> (s1, Inl e)
      | (s1, Inr u) \<Rightarrow> inject_all fe ws s1)"

definition fire_due :: "feeds \<Rightarrow> real option \<Rightarrow> senses \<Rightarrow> senses \<times> wakeup list res" where
  "fire_due fe now s =
     (let (moment, s0) = (case now of Some t \<Rightarrow> (t, s) | None \<Rightarrow> (fe_now fe (se_calls s), called s))
      in if \<not> fe_db fe (se_calls s0) then (called s0, Inl (OtherError ''database''))
         else let rows = due_pending moment (se_wakeups s0)
              in if rows = [] then (called s0, Inr [])
                 else let s1 = called s0\<lparr>se_wakeups := mark_fired (map wu_id rows) (se_wakeups s0)\<rparr>;
                          fired = map (\<lambda>w. w\<lparr>wu_status := FIRED\<rparr>) rows
                      in (case inject_all fe fired s1 of
                            (s2, Inl e) \<Rightarrow> (s2, Inl e)
                          | (s2, Inr u) \<Rightarrow> (s2, Inr fired)))"

definition pending_wakeups :: "nat \<Rightarrow> senses \<Rightarrow> wakeup list" where
  "pending_wakeups limit s = take limit (sort_key wu_fire_at (filter (\<lambda>w. wu_status w = PENDING) (se_wakeups s)))"

subsection \<open>The tool\<close>

text \<open>\<open>to_float\<close> is the coercion of pydantic's lax mode: numbers, and text that reads as one.\<close>

definition wakeup_validate :: "(json \<Rightarrow> real option) \<Rightarrow> (string \<times> json) list \<Rightarrow> json res" where
  "wakeup_validate to_float raw =
     (if \<not> set (map fst raw) \<subseteq> {''delay_seconds'', ''reason''} then Inl ValidationError
      else case (Option.bind (map_of raw ''delay_seconds'') to_float, map_of raw ''reason'') of
             (Some d, Some (JStr r)) \<Rightarrow>
               if 0 < d \<and> d \<le> MAX_DELAY_SECONDS \<and> 1 \<le> length r \<and> length r \<le> 2000
               then Inr (JDict [(''delay_seconds'', JFloat d), (''reason'', JStr r)])
               else Inl ValidationError
           | _ \<Rightarrow> Inl ValidationError)"

definition wakeup_run :: "feeds \<Rightarrow> json \<Rightarrow> senses \<Rightarrow> senses \<times> tool_result res" where
  "wakeup_run fe args s =
     (case args of
        JDict [(_, JFloat d), (_, JStr r)] \<Rightarrow>
          (case schedule fe d r s of
             (s1, Inl e) \<Rightarrow> (s1, Inl e)
           | (s1, Inr w) \<Rightarrow>
               (s1, Inr \<lparr>tr_success = True,
                 tr_output = [(''id'', JInt (int (wu_id w))), (''fire_at'', JStr (fe_iso fe (wu_fire_at w))),
                              (''reason'', JStr (wu_reason w))],
                 tr_summary = ''scheduled a wakeup in '' @ show_int (round_even d) @ ''s: '' @ py_repr r\<rparr>))
      | _ \<Rightarrow> (s, Inl TypeError))"

definition schedule_wakeup_tool :: "(json \<Rightarrow> real option) \<Rightarrow> feeds \<Rightarrow> senses tool" where
  "schedule_wakeup_tool to_float fe =
     \<lparr>to_name = ''schedule_wakeup'', to_danger = SAFE, to_validate = wakeup_validate to_float, to_run = wakeup_run fe\<rparr>"

section \<open>Runs\<close>

text \<open>What happens to the senses, in any order: an interface says something, a tick perceives, a
  wakeup is scheduled, the run loop looks for due ones.\<close>

datatype sense_op = Say raw_input | Perceive | Schedule real string | FireDue "real option"

datatype sense_out = Done | Items "ws_item list" | Fired "wakeup list" | Failed exn

definition sense_end :: "('a \<Rightarrow> sense_out) \<Rightarrow> senses \<times> 'a res \<Rightarrow> senses \<times> sense_out" where
  "sense_end f r = (fst r, case snd r of Inl e \<Rightarrow> Failed e | Inr x \<Rightarrow> f x)"

fun sense_step :: "feeds \<Rightarrow> sensorium \<Rightarrow> sense_op \<Rightarrow> senses \<Rightarrow> senses \<times> sense_out" where
  "sense_step fe sm (Say x) s = sense_end (\<lambda>_. Done) (queue_push fe x s)"
| "sense_step fe sm Perceive s = sense_end Items (perceive fe sm s)"
| "sense_step fe sm (Schedule d r) s = sense_end (\<lambda>_. Done) (schedule fe d r s)"
| "sense_step fe sm (FireDue t) s = sense_end Fired (fire_due fe t s)"

fun sense_run :: "feeds \<Rightarrow> sensorium \<Rightarrow> sense_op list \<Rightarrow> senses \<Rightarrow> senses \<times> sense_out list" where
  "sense_run fe sm [] s = (s, [])"
| "sense_run fe sm (c # cs) s =
     (let (s1, out) = sense_step fe sm c s; (s2, outs) = sense_run fe sm cs s1 in (s2, out # outs))"

text \<open>What a step appended to the queue, and what the fire phases of a run did.\<close>

definition arrived :: "sense_op \<Rightarrow> senses \<Rightarrow> senses \<Rightarrow> raw_input list" where
  "arrived c s s' = (case c of Perceive \<Rightarrow> [] | _ \<Rightarrow> drop (length (se_queue s)) (se_queue s'))"

definition self_arrived :: "sense_op \<Rightarrow> senses \<Rightarrow> senses \<Rightarrow> raw_input list" where
  "self_arrived c s s' = (case c of FireDue t \<Rightarrow> arrived c s s' | _ \<Rightarrow> [])"

fun along :: "(sense_op \<Rightarrow> senses \<Rightarrow> senses \<Rightarrow> 'a list) \<Rightarrow> feeds \<Rightarrow> sensorium \<Rightarrow> sense_op list \<Rightarrow> senses \<Rightarrow> 'a list" where
  "along f fe sm [] s = []"
| "along f fe sm (c # cs) s = (let s1 = fst (sense_step fe sm c s) in f c s s1 @ along f fe sm cs s1)"

definition raw_of :: "percept \<Rightarrow> raw_input" where
  "raw_of p = \<lparr>ri_raw = pc_raw p, ri_source = pc_source p, ri_modality = pc_modality p\<rparr>"

definition heard :: "percept list \<Rightarrow> raw_input list" where
  "heard ps = map raw_of (filter (\<lambda>p. pc_source p \<noteq> SOURCE_SYSTEM_METRICS) ps)"

definition wake_input :: "string \<Rightarrow> raw_input" where
  "wake_input r = \<lparr>ri_raw = r, ri_source = WAKEUP_SOURCE, ri_modality = MODALITY_TEXT\<rparr>"

definition wake_ok :: "senses \<Rightarrow> bool" where
  "wake_ok s \<longleftrightarrow> map wu_id (se_wakeups s) = [1..<Suc (length (se_wakeups s))]"

definition fired_ids :: "senses \<Rightarrow> nat set" where
  "fired_ids s = set (map wu_id (filter (\<lambda>w. wu_status w = FIRED) (se_wakeups s)))"

definition reason_of :: "senses \<Rightarrow> nat \<Rightarrow> string" where
  "reason_of s i = wu_reason (se_wakeups s ! (i - 1))"

fun fired_of :: "sense_out \<Rightarrow> nat list" where
  "fired_of (Fired ws) = map wu_id ws"
| "fired_of _ = []"

fun failed :: "sense_out \<Rightarrow> bool" where
  "failed (Failed e) = True"
| "failed _ = False"

section \<open>Perceiving\<close>

definition from_outside :: "raw_input list \<Rightarrow> bool" where
  "from_outside xs \<longleftrightarrow> (\<forall>x\<in>set xs. ri_source x \<noteq> SOURCE_SYSTEM_METRICS)"

lemma from_outside_simps [simp]:
  "from_outside []" "from_outside (x # xs) \<longleftrightarrow> ri_source x \<noteq> SOURCE_SYSTEM_METRICS \<and> from_outside xs"
  "from_outside (xs @ ys) \<longleftrightarrow> from_outside xs \<and> from_outside ys"
  by (auto simp: from_outside_def)

lemma heard_simps [simp]:
  "heard [] = []" "heard (ps @ qs) = heard ps @ heard qs"
  "heard [p] = (if pc_source p = SOURCE_SYSTEM_METRICS then [] else [raw_of p])"
  by (simp_all add: heard_def)

lemma persist_percept_effect:
  assumes "persist_percept fe p s = (s', r)"
  shows "se_queue s' = se_queue s \<and> se_wakeups s' = se_wakeups s \<and> se_ticks s' = se_ticks s \<and>
    (case r of
       Inl e \<Rightarrow> se_percepts s' = se_percepts s
     | Inr row \<Rightarrow> se_percepts s' = se_percepts s @ [row] \<and> pc_id row = Some (Suc (length (se_percepts s))) \<and>
         raw_of row = raw_of p \<and> pc_source row = pc_source p)"
  using assms by (auto simp: persist_percept_def Let_def raw_of_def split: if_splits)

lemma perceive_input_effect:
  assumes "perceive_input fe sm x s = (s', r)"
  shows "se_queue s' = se_queue s \<and> se_wakeups s' = se_wakeups s \<and> se_ticks s' = se_ticks s \<and>
    (case r of
       Inl e \<Rightarrow> se_percepts s' = se_percepts s
     | Inr i \<Rightarrow> \<exists>row. se_percepts s' = se_percepts s @ [row] \<and> raw_of row = x \<and> pc_source row = ri_source x \<and>
         wi_content i = strip (ri_raw x) \<and> wi_kind i = ''input'' \<and> wi_source i = ri_source x \<and>
         wi_salience i = sm_input_salience sm)"
proof -
  obtain s1 q where q: "persist_percept fe (input_percept x (fe_now fe (se_calls s))) (called s) = (s1, q)"
    by fastforce
  have x: "raw_of (input_percept x t) = x" "pc_source (input_percept x t) = ri_source x" for t
    by (simp_all add: raw_of_def input_percept_def)
  from persist_percept_effect [OF q] q assms x show ?thesis
    by (cases q) (auto simp: perceive_input_def)
qed

lemma perceive_inputs_effect:
  assumes "perceive_inputs fe sm xs s = (s', r)" "from_outside xs"
  shows "se_queue s' = se_queue s \<and> se_wakeups s' = se_wakeups s \<and> se_ticks s' = se_ticks s \<and>
    (\<exists>new. heard (se_percepts s') = heard (se_percepts s) @ new \<and> prefix new xs \<and>
      (case r of
         Inl e \<Rightarrow> True
       | Inr is \<Rightarrow> new = xs \<and> map wi_content is = map (strip \<circ> ri_raw) xs \<and> (\<forall>i\<in>set is. wi_kind i = ''input'')))"
  using assms
proof (induction xs arbitrary: s s' r)
  case (Cons x xs)
  obtain s1 q where q: "perceive_input fe sm x s = (s1, q)" by fastforce
  note e = perceive_input_effect [OF q]
  show ?case
  proof (cases q)
    case (Inl err)
    with q e Cons.prems show ?thesis by (auto intro!: exI [of _ "[]"])
  next
    case (Inr i)
    then obtain row where row: "se_percepts s1 = se_percepts s @ [row]" "raw_of row = x" "pc_source row = ri_source x"
      "wi_content i = strip (ri_raw x)" "wi_kind i = ''input''"
      and q1: "se_queue s1 = se_queue s" "se_wakeups s1 = se_wakeups s" "se_ticks s1 = se_ticks s"
      using e by auto
    obtain s2 t where t: "perceive_inputs fe sm xs s1 = (s2, t)" by fastforce
    from Cons.IH [OF t] Cons.prems(2) obtain new where new:
      "se_queue s2 = se_queue s1" "se_wakeups s2 = se_wakeups s1" "se_ticks s2 = se_ticks s1"
      "heard (se_percepts s2) = heard (se_percepts s1) @ new" "prefix new xs"
      "case t of Inl e \<Rightarrow> True
        | Inr is \<Rightarrow> new = xs \<and> map wi_content is = map (strip \<circ> ri_raw) xs \<and> (\<forall>i\<in>set is. wi_kind i = ''input'')"
      by auto
    have h: "heard (se_percepts s2) = heard (se_percepts s) @ (x # new)"
      using new(4) row Cons.prems(2) by simp
    have r: "(s', r) = (s2, map_sum id (\<lambda>is. i # is) t)"
      using Cons.prems(1) q t Inr by (cases t) auto
    show ?thesis
    proof (cases t)
      case (Inl err)
      with r new q1 h show ?thesis by (auto intro!: exI [of _ "x # new"])
    next
      case (Inr its)
      with r new q1 h row show ?thesis by (auto intro!: exI [of _ "x # xs"])
    qed
  qed
qed simp

lemma perceive_inputs_wakeups: "perceive_inputs fe sm xs s = (s', r) \<Longrightarrow> se_wakeups s' = se_wakeups s"
proof (induction xs arbitrary: s r)
  case (Cons x xs)
  obtain s1 q where "perceive_input fe sm x s = (s1, q)" by fastforce
  with Cons perceive_input_effect [OF this] show ?case by (auto split: sum.splits prod.splits)
qed simp

lemma perceive_system_effect:
  assumes "perceive_system fe sm s = (s', r)"
  shows "se_queue s' = se_queue s \<and> se_wakeups s' = se_wakeups s \<and> se_ticks s' = se_ticks s \<and>
    heard (se_percepts s') = heard (se_percepts s) \<and>
    (case r of
       Inl e \<Rightarrow> se_percepts s' = se_percepts s
     | Inr i \<Rightarrow> wi_kind i = ''ambient'' \<and>
         (if ambient_due sm (se_ticks s)
          then \<exists>row. se_percepts s' = se_percepts s @ [row] \<and> pc_source row = SOURCE_SYSTEM_METRICS
          else se_percepts s' = se_percepts s))"
proof (cases "ambient_due sm (se_ticks s)")
  case True
  define p where "p = \<lparr>pc_id = None, pc_ts = Some (fe_now fe (se_calls s)), pc_modality = MODALITY_SYSTEM,
    pc_raw = metrics_json (fe_iso fe (fe_now fe (se_calls s))) (fe_load fe (se_calls s)),
    pc_normalised = system_metrics (fe_iso fe (fe_now fe (se_calls s))) (fe_load fe (se_calls s)),
    pc_source = SOURCE_SYSTEM_METRICS\<rparr>"
  obtain s2 q where q: "persist_percept fe p (called s) = (s2, q)" by fastforce
  have src: "pc_source p = SOURCE_SYSTEM_METRICS" by (simp add: p_def)
  from persist_percept_effect [OF q] q True assms src show ?thesis
    by (cases q) (auto simp: perceive_system_def Let_def p_def [symmetric] ambient_item_def)
next
  case False
  with assms show ?thesis by (auto simp: perceive_system_def Let_def ambient_item_def)
qed

lemma perceive_effect:
  assumes "perceive fe sm s = (s', r)" "from_outside (se_queue s)"
  shows "se_wakeups s' = se_wakeups s \<and> se_ticks s' = se_ticks s + 1 \<and> suffix (se_queue s') (se_queue s) \<and>
    (\<exists>new. heard (se_percepts s') = heard (se_percepts s) @ new \<and> subseq (new @ se_queue s') (se_queue s) \<and>
      (case r of
         Inl e \<Rightarrow> True
       | Inr is \<Rightarrow> new = take MAX_DRAIN_PER_TICK (se_queue s) \<and> se_queue s = new @ se_queue s' \<and>
           (\<exists>front amb. is = front @ [amb] \<and> wi_kind amb = ''ambient'' \<and>
              map wi_content front = map (strip \<circ> ri_raw) new)))"
proof -
  define s0 where "s0 = s\<lparr>se_ticks := Suc (se_ticks s)\<rparr>"
  have s0: "se_queue s0 = se_queue s" "se_wakeups s0 = se_wakeups s" "se_percepts s0 = se_percepts s"
    "se_ticks s0 = se_ticks s + 1" by (simp_all add: s0_def)
  obtain s1 d where d: "queue_drain fe MAX_DRAIN_PER_TICK s0 = (s1, d)" by fastforce
  have d1: "se_wakeups s1 = se_wakeups s" "se_percepts s1 = se_percepts s" "se_ticks s1 = se_ticks s + 1"
    using d by (auto simp: queue_drain_def s0 split: if_splits)
  show ?thesis
  proof (cases d)
    case (Inl e)
    with d have "se_queue s1 = se_queue s" using inq.drain_err [of fe MAX_DRAIN_PER_TICK s0 s1 e] s0 by simp
    with Inl d d1 assms show ?thesis
      by (auto simp: perceive_def s0_def [symmetric] intro!: exI [of _ "[]"])
  next
    case (Inr raws)
    with d have raws: "raws = take MAX_DRAIN_PER_TICK (se_queue s)" "se_queue s = raws @ se_queue s1"
      using inq.drain_ok [of fe MAX_DRAIN_PER_TICK s0 s1 raws] s0 by simp_all
    with assms(2) have ro: "from_outside raws" by (metis from_outside_simps(3))
    have sx: "suffix (se_queue s1) (se_queue s)" using raws(2) by (metis suffix_def)
    obtain s2 t where t: "perceive_inputs fe sm raws s1 = (s2, t)" by fastforce
    from perceive_inputs_effect [OF t ro] obtain new where new:
      "se_queue s2 = se_queue s1" "se_wakeups s2 = se_wakeups s1" "se_ticks s2 = se_ticks s1"
      "heard (se_percepts s2) = heard (se_percepts s1) @ new" "prefix new raws"
      "case t of Inl e \<Rightarrow> True
        | Inr is \<Rightarrow> new = raws \<and> map wi_content is = map (strip \<circ> ri_raw) raws \<and> (\<forall>i\<in>set is. wi_kind i = ''input'')"
      by auto
    have sub: "subseq (new @ se_queue s1) (se_queue s)"
      unfolding raws(2) using new(5) by (auto intro: list_emb_append_mono)
    show ?thesis
    proof (cases t)
      case (Inl e)
      with d Inr t new d1 sx sub assms show ?thesis
        by (auto simp: perceive_def s0_def [symmetric] intro!: exI [of _ new])
    next
      case t2: (Inr front)
      obtain s3 u where u: "perceive_system fe sm s2 = (s3, u)" by fastforce
      note pe = perceive_system_effect [OF u]
      show ?thesis
      proof (cases u)
        case (Inl e)
        with d Inr t t2 u pe new d1 sx sub assms show ?thesis
          by (auto simp: perceive_def s0_def [symmetric] intro!: exI [of _ new])
      next
        case u2: (Inr amb)
        have "perceive fe sm s = (s3, Inr (front @ [amb]))"
          using d Inr t t2 u u2 by (simp add: perceive_def s0_def [symmetric])
        with assms(1) have r: "s' = s3" "r = Inr (front @ [amb])" by simp_all
        have p: "se_queue s3 = se_queue s2" "se_wakeups s3 = se_wakeups s2" "se_ticks s3 = se_ticks s2"
          "heard (se_percepts s3) = heard (se_percepts s2)" "wi_kind amb = ''ambient''"
          using pe u2 by simp_all
        have n: "new = raws" "map wi_content front = map (strip \<circ> ri_raw) raws" using new(6) t2 by simp_all
        have f: "se_queue s3 = se_queue s1" "se_wakeups s3 = se_wakeups s" "se_ticks s3 = se_ticks s + 1"
          "heard (se_percepts s3) = heard (se_percepts s) @ raws"
          using p new(1-4) d1 n(1) by simp_all
        have "\<exists>fr am. front @ [amb] = fr @ [am] \<and> wi_kind am = ''ambient'' \<and> map wi_content fr = map (strip \<circ> ri_raw) raws"
          using p(5) n(2) by blast
        then show ?thesis
          unfolding r sum.case f using sx sub [unfolded n(1)] raws by blast
      qed
    qed
  qed
qed

section \<open>Waking up\<close>

lemma wake_ids: "wake_ok s \<Longrightarrow> w \<in> set (se_wakeups s) \<Longrightarrow> se_wakeups s ! (wu_id w - 1) = w \<and> 1 \<le> wu_id w"
proof -
  assume a: "wake_ok s" "w \<in> set (se_wakeups s)"
  then obtain i where i: "i < length (se_wakeups s)" "w = se_wakeups s ! i" by (auto simp: in_set_conv_nth)
  then have "wu_id w = map wu_id (se_wakeups s) ! i" by simp
  also have "\<dots> = Suc i" using a(1) i(1) by (simp add: wake_ok_def del: upt_Suc)
  finally show ?thesis using i by simp
qed

lemma wake_distinct: "wake_ok s \<Longrightarrow> distinct (map wu_id (se_wakeups s))"
  by (simp add: wake_ok_def del: upt_Suc)

lemma wake_ok_cong: "se_wakeups s' = se_wakeups s \<Longrightarrow> wake_ok s' = wake_ok s"
  by (simp add: wake_ok_def)

lemma inject_all_effect:
  assumes "inject_all fe ws s = (s', r)"
  shows "se_wakeups s' = se_wakeups s \<and> se_percepts s' = se_percepts s \<and> se_ticks s' = se_ticks s \<and>
    (\<exists>k. se_queue s' = se_queue s @ map (wake_input \<circ> wu_reason) (take k ws) \<and>
         (case r of Inl e \<Rightarrow> k < length ws | Inr u \<Rightarrow> k = length ws))"
  using assms
proof (induction ws arbitrary: s)
  case (Cons w ws)
  obtain s1 q where q: "queue_push fe (wake_input (wu_reason w)) s = (s1, q)" by fastforce
  have s1: "se_wakeups s1 = se_wakeups s" "se_percepts s1 = se_percepts s" "se_ticks s1 = se_ticks s"
    using q by (auto simp: queue_push_def split: if_splits)
  show ?case
  proof (cases q)
    case (Inl e)
    with q have "se_queue s1 = se_queue s" using inq.push_err [of fe _ s s1 e] by simp
    with Cons.prems q Inl s1 show ?thesis by (auto simp: wake_input_def intro!: exI [of _ 0])
  next
    case (Inr u)
    with q have pushed: "se_queue s1 = se_queue s @ [wake_input (wu_reason w)]" using inq.push_ok [of fe _ s s1 u] by simp
    from Cons.prems q Inr have "inject_all fe ws s1 = (s', r)" by (simp add: wake_input_def)
    from Cons.IH [OF this] obtain k where
      "se_queue s' = se_queue s1 @ map (wake_input \<circ> wu_reason) (take k ws)"
      "case r of Inl e \<Rightarrow> k < length ws | Inr u \<Rightarrow> k = length ws"
      "se_wakeups s' = se_wakeups s1" "se_percepts s' = se_percepts s1" "se_ticks s' = se_ticks s1" by blast
    with pushed s1 show ?thesis by (intro conjI exI [of _ "Suc k"]) (simp_all split: sum.splits)
  qed
qed auto

lemma mark_fired_ids [simp]: "map wu_id (mark_fired ids ws) = map wu_id ws"
  by (simp add: mark_fired_def comp_def if_distrib cong: if_cong)

lemma length_mark_fired [simp]: "length (mark_fired ids ws) = length ws"
  by (simp add: mark_fired_def)

lemma mark_fired_reason [simp]: "i < length ws \<Longrightarrow> wu_reason (mark_fired ids ws ! i) = wu_reason (ws ! i)"
  by (simp add: mark_fired_def)

lemma distinct_due: "distinct (map wu_id ws) \<Longrightarrow> distinct (map wu_id (due_pending t ws))"
proof -
  assume "distinct (map wu_id ws)"
  then have "inj_on wu_id (set (filter P ws)) \<and> distinct (filter P ws)" for P
    by (auto simp: distinct_map intro: inj_on_subset)
  then show ?thesis by (simp add: due_pending_def distinct_map)
qed

lemma set_due: "set (due_pending t ws) = {w \<in> set ws. wu_status w = PENDING \<and> wu_fire_at w \<le> t}"
  by (auto simp: due_pending_def)

text \<open>What a look for due wakeups does, whatever fails: the due ones are claimed, or none.  Those
  claimed are injected in the order they are due, all of them unless a push fails.\<close>

definition fire_moment :: "feeds \<Rightarrow> real option \<Rightarrow> senses \<Rightarrow> real" where
  "fire_moment fe t s = (case t of Some m \<Rightarrow> m | None \<Rightarrow> fe_now fe (se_calls s))"

lemma fire_due_effect:
  assumes "fire_due fe t s = (s', r)"
  shows "se_percepts s' = se_percepts s \<and> se_ticks s' = se_ticks s \<and>
    (\<exists>ws k. (ws = [] \<or> ws = due_pending (fire_moment fe t s) (se_wakeups s)) \<and>
       se_wakeups s' = mark_fired (map wu_id ws) (se_wakeups s) \<and>
       se_queue s' = se_queue s @ map (wake_input \<circ> wu_reason) (take k ws) \<and>
       (case r of
          Inl e \<Rightarrow> ws = [] \<or> k < length ws
        | Inr fs \<Rightarrow> ws = due_pending (fire_moment fe t s) (se_wakeups s) \<and> k = length ws \<and>
                   fs = map (\<lambda>w. w\<lparr>wu_status := FIRED\<rparr>) ws))"
proof -
  define s0 where "s0 = (case t of Some m \<Rightarrow> s | None \<Rightarrow> called s)"
  define rows where "rows = due_pending (fire_moment fe t s) (se_wakeups s)"
  have s0: "se_percepts s0 = se_percepts s" "se_ticks s0 = se_ticks s" "se_queue s0 = se_queue s" "se_wakeups s0 = se_wakeups s"
    by (simp_all add: s0_def split: option.split)
  have c: "(case t of Some m \<Rightarrow> (m, s) | None \<Rightarrow> (fe_now fe (se_calls s), called s)) = (fire_moment fe t s, s0)"
    by (simp add: fire_moment_def s0_def split: option.split)
  have none: "mark_fired [] ws = ws" for ws by (simp add: mark_fired_def)
  note d = assms [unfolded fire_due_def Let_def c prod.case s0 rows_def [symmetric]]
  show ?thesis
  proof (cases "fe_db fe (se_calls s0) \<and> rows \<noteq> []")
    case False
    then show ?thesis
      using d s0 none unfolding rows_def [symmetric]
      by (intro conjI exI [of _ "[]"] exI [of _ 0]) (auto split: if_splits)
  next
    case True
    define fired where "fired = map (\<lambda>w. w\<lparr>wu_status := FIRED\<rparr>) rows"
    define s1 where "s1 = called s0\<lparr>se_wakeups := mark_fired (map wu_id rows) (se_wakeups s)\<rparr>"
    have s1: "se_percepts s1 = se_percepts s" "se_ticks s1 = se_ticks s" "se_queue s1 = se_queue s"
      "se_wakeups s1 = mark_fired (map wu_id rows) (se_wakeups s)"
      using s0 by (simp_all add: s1_def)
    obtain s2 q where q: "inject_all fe fired s1 = (s2, q)" by fastforce
    have f: "map (wake_input \<circ> wu_reason) (take k fired) = map (wake_input \<circ> wu_reason) (take k rows)" for k
      by (simp add: fired_def take_map)
    have l: "length fired = length rows" by (simp add: fired_def)
    have r: "(s', r) = (s2, map_sum id (\<lambda>u. fired) q)"
      using d True q unfolding s1_def [symmetric] fired_def [symmetric] by (cases q) auto
    from inject_all_effect [OF q, unfolded f l] obtain k where k:
      "se_wakeups s2 = se_wakeups s1" "se_percepts s2 = se_percepts s1" "se_ticks s2 = se_ticks s1"
      "se_queue s2 = se_queue s1 @ map (wake_input \<circ> wu_reason) (take k rows)"
      "case q of Inl e \<Rightarrow> k < length rows | Inr u \<Rightarrow> k = length rows"
      by blast
    show ?thesis
      unfolding rows_def [symmetric]
      using k s1 r fired_def by (cases q) (simp_all, blast+)
  qed
qed

lemma mark_fired_fired:
  "set (map wu_id (filter (\<lambda>w. wu_status w = FIRED) (mark_fired ids ws))) =
   set (map wu_id (filter (\<lambda>w. wu_status w = FIRED) ws)) \<union> (set ids \<inter> set (map wu_id ws))"
  by (induction ws) (auto simp: mark_fired_def)

text \<open>So a step claims wakeups that were never claimed before, and what it injects are claims.\<close>

lemma fire_due_claims:
  assumes "fire_due fe t s = (s', r)" "wake_ok s"
  shows "wake_ok s' \<and> fired_ids s \<subseteq> fired_ids s' \<and>
    (\<exists>ids ks. distinct ids \<and> set ids \<subseteq> fired_ids s' - fired_ids s \<and> prefix ks ids \<and>
       se_queue s' = se_queue s @ map (wake_input \<circ> reason_of s) ks \<and>
       (case r of Inl e \<Rightarrow> True | Inr fs \<Rightarrow> map wu_id fs = ids \<and> ks = ids)) \<and>
    length (se_wakeups s') = length (se_wakeups s) \<and> (\<forall>i<length (se_wakeups s). reason_of s' (Suc i) = reason_of s (Suc i))"
proof -
  from fire_due_effect [OF assms(1)] obtain ws k where
    ws: "ws = [] \<or> ws = due_pending (fire_moment fe t s) (se_wakeups s)"
    and w: "se_wakeups s' = mark_fired (map wu_id ws) (se_wakeups s)"
    and q: "se_queue s' = se_queue s @ map (wake_input \<circ> wu_reason) (take k ws)"
    and r: "case r of
          Inl e \<Rightarrow> ws = [] \<or> k < length ws
        | Inr fs \<Rightarrow> ws = due_pending (fire_moment fe t s) (se_wakeups s) \<and> k = length ws \<and>
                   fs = map (\<lambda>w. w\<lparr>wu_status := FIRED\<rparr>) ws" by auto
  have sub: "x \<in> set ws \<Longrightarrow> x \<in> set (se_wakeups s) \<and> wu_status x = PENDING" for x
    using ws set_due by auto
  have d: "distinct (map wu_id ws)" using ws distinct_due [OF wake_distinct [OF assms(2)]] by auto
  have inj: "inj_on wu_id (set (se_wakeups s))" using wake_distinct [OF assms(2)] by (simp add: distinct_map)
  have f': "fired_ids s' = fired_ids s \<union> wu_id ` set ws"
  proof -
    have "set (map wu_id ws) \<inter> set (map wu_id (se_wakeups s)) = wu_id ` set ws" using sub by auto
    then show ?thesis unfolding fired_ids_def w mark_fired_fired by simp
  qed
  have new: "wu_id ` set ws \<inter> fired_ids s = {}"
  proof -
    have "wu_status y = PENDING" if "x \<in> set ws" "y \<in> set (se_wakeups s)" "wu_id y = wu_id x" for x y
      using inj_onD [OF inj, of y x] sub that by auto
    then show ?thesis unfolding fired_ids_def by fastforce
  qed
  have re: "map (wake_input \<circ> wu_reason) (take k ws) = map (wake_input \<circ> reason_of s) (take k (map wu_id ws))"
  proof -
    have "reason_of s (wu_id x) = wu_reason x" if "x \<in> set (take k ws)" for x
      using wake_ids [OF assms(2), of x] sub [OF in_set_takeD [OF that]] by (simp add: reason_of_def)
    then show ?thesis by (simp add: take_map)
  qed
  have ok: "wake_ok s'" using assms(2) w by (simp add: wake_ok_def)
  have rr: "case r of Inl e \<Rightarrow> True | Inr fs \<Rightarrow> map wu_id fs = map wu_id ws \<and> take k (map wu_id ws) = map wu_id ws"
    using r by (auto split: sum.split)
  have len: "length (se_wakeups s') = length (se_wakeups s)"
    "\<forall>i<length (se_wakeups s). reason_of s' (Suc i) = reason_of s (Suc i)"
    by (simp_all add: w reason_of_def)
  have ex: "\<exists>ids ks. distinct ids \<and> set ids \<subseteq> fired_ids s' - fired_ids s \<and> prefix ks ids \<and>
       se_queue s' = se_queue s @ map (wake_input \<circ> reason_of s) ks \<and>
       (case r of Inl e \<Rightarrow> True | Inr fs \<Rightarrow> map wu_id fs = ids \<and> ks = ids)"
    using d new f' q re rr by (intro exI [of _ "map wu_id ws"] exI [of _ "take k (map wu_id ws)"]) (auto simp: take_is_prefix)
  show ?thesis using ok f' ex len by blast
qed

lemma schedule_effect:
  assumes "schedule fe d r s = (s', q)" "wake_ok s"
  shows "wake_ok s' \<and> se_queue s' = se_queue s \<and> se_percepts s' = se_percepts s \<and> fired_ids s' = fired_ids s \<and>
    length (se_wakeups s) \<le> length (se_wakeups s') \<and> (\<forall>i<length (se_wakeups s). reason_of s' (Suc i) = reason_of s (Suc i))"
  using assms by (auto simp: schedule_def Let_def wake_ok_def fired_ids_def reason_of_def nth_append split: if_splits)

lemma fired_range: "wake_ok s \<Longrightarrow> i \<in> fired_ids s \<Longrightarrow> 1 \<le> i \<and> i \<le> length (se_wakeups s)"
proof -
  assume "wake_ok s" "i \<in> fired_ids s"
  then have "i \<in> set (map wu_id (se_wakeups s))" by (auto simp: fired_ids_def)
  with \<open>wake_ok s\<close> show ?thesis by (simp add: wake_ok_def del: upt_Suc)
qed

text \<open>The part of a step the wakeups need, and its composition.\<close>

definition wakes :: "senses \<Rightarrow> senses \<Rightarrow> raw_input list \<Rightarrow> nat list \<Rightarrow> bool" where
  "wakes s s' selfs outs \<longleftrightarrow>
     wake_ok s' \<and> fired_ids s \<subseteq> fired_ids s' \<and> length (se_wakeups s) \<le> length (se_wakeups s') \<and>
     (\<forall>i<length (se_wakeups s). reason_of s' (Suc i) = reason_of s (Suc i)) \<and>
     (\<exists>ks. distinct ks \<and> set ks \<subseteq> fired_ids s' - fired_ids s \<and> subseq outs ks \<and>
        selfs = map (\<lambda>i. wake_input (reason_of s' i)) ks)"

lemma wakes_trans:
  assumes "wakes s s1 as os" "wakes s1 s2 bs ps"
  shows "wakes s s2 (as @ bs) (os @ ps)"
proof -
  from assms obtain ks ls where
    k: "distinct ks" "set ks \<subseteq> fired_ids s1 - fired_ids s" "subseq os ks" "as = map (\<lambda>i. wake_input (reason_of s1 i)) ks"
    and l: "distinct ls" "set ls \<subseteq> fired_ids s2 - fired_ids s1" "subseq ps ls" "bs = map (\<lambda>i. wake_input (reason_of s2 i)) ls"
    unfolding wakes_def by auto
  have ok: "wake_ok s1" "wake_ok s2" "fired_ids s \<subseteq> fired_ids s1" "fired_ids s1 \<subseteq> fired_ids s2"
    and le: "length (se_wakeups s) \<le> length (se_wakeups s1)" "length (se_wakeups s1) \<le> length (se_wakeups s2)"
    and re: "\<And>i. i < length (se_wakeups s) \<Longrightarrow> reason_of s1 (Suc i) = reason_of s (Suc i)"
      "\<And>i. i < length (se_wakeups s1) \<Longrightarrow> reason_of s2 (Suc i) = reason_of s1 (Suc i)"
    using assms unfolding wakes_def by simp_all
  have "reason_of s2 i = reason_of s1 i" if "i \<in> set ks" for i
  proof -
    have "1 \<le> i" "i \<le> length (se_wakeups s1)" using fired_range [OF ok(1), of i] k(2) that by auto
    then show ?thesis using re(2) [of "i - 1"] by simp
  qed
  then have as: "as = map (\<lambda>i. wake_input (reason_of s2 i)) ks" unfolding k(4) by simp
  have "distinct (ks @ ls)" "set (ks @ ls) \<subseteq> fired_ids s2 - fired_ids s" "subseq (os @ ps) (ks @ ls)"
    using k l ok by (auto intro: list_emb_append_mono)
  then show ?thesis
    unfolding wakes_def using ok le re as l(4) by (intro conjI exI [of _ "ks @ ls"]) simp_all
qed

lemma wakes_idle: "wake_ok s \<Longrightarrow> se_wakeups s' = se_wakeups s \<Longrightarrow> wakes s s' [] []"
  unfolding wakes_def by (simp add: fired_ids_def reason_of_def wake_ok_def)

lemma sense_step_wakes:
  assumes "wake_ok s" "sense_step fe sm c s = (s', out)"
  shows "wakes s s' (self_arrived c s s') (fired_of out)"
proof (cases c)
  case (Say x)
  then show ?thesis
    using assms wakes_idle [OF assms(1), of s']
    by (auto simp: self_arrived_def sense_end_def queue_push_def split: if_splits)
next
  case Perceive
  obtain r where r: "perceive fe sm s = (s', r)" using assms Perceive by (cases "perceive fe sm s") (auto simp: sense_end_def)
  have "se_wakeups s' = se_wakeups s" using r
    by (auto simp: perceive_def split: prod.splits sum.splits dest!: perceive_system_effect perceive_inputs_wakeups
        simp: queue_drain_def split: if_splits)
  then show ?thesis using assms r Perceive wakes_idle [OF assms(1), of s']
    by (auto simp: self_arrived_def sense_end_def split: sum.splits)
next
  case (Schedule d r)
  obtain q where q: "schedule fe d r s = (s', q)" using assms Schedule by (cases "schedule fe d r s") (auto simp: sense_end_def)
  have "fired_of out = []" using assms Schedule q by (auto simp: sense_end_def split: sum.splits)
  then show ?thesis
    using schedule_effect [OF q assms(1)] Schedule unfolding wakes_def by (simp add: self_arrived_def)
next
  case (FireDue t)
  obtain r where r: "fire_due fe t s = (s', r)" using assms FireDue by (cases "fire_due fe t s") (auto simp: sense_end_def)
  from fire_due_claims [OF r assms(1)] obtain ids ks where
    c: "wake_ok s'" "fired_ids s \<subseteq> fired_ids s'" "distinct ids" "set ids \<subseteq> fired_ids s' - fired_ids s" "prefix ks ids"
      "se_queue s' = se_queue s @ map (wake_input \<circ> reason_of s) ks"
      "case r of Inl e \<Rightarrow> True | Inr fs \<Rightarrow> map wu_id fs = ids \<and> ks = ids"
      "length (se_wakeups s') = length (se_wakeups s)"
      "\<forall>i<length (se_wakeups s). reason_of s' (Suc i) = reason_of s (Suc i)" by blast
  have ks: "set ks \<subseteq> fired_ids s' - fired_ids s" "distinct ks"
    using c(3,4,5) by (auto simp: prefix_def)
  have "reason_of s' i = reason_of s i" if "i \<in> set ks" for i
    using fired_range [OF c(1), of i] ks that c(8,9) by (cases i) auto
  then have "self_arrived c s s' = map (\<lambda>i. wake_input (reason_of s' i)) ks"
    using FireDue c(6) by (simp add: self_arrived_def arrived_def)
  moreover have "subseq (fired_of out) ks"
    using assms FireDue r c(7) by (cases r) (auto simp: sense_end_def)
  ultimately show ?thesis unfolding wakes_def using c ks by auto
qed

lemma sense_run_wakes:
  assumes "wake_ok s" "sense_run fe sm cs s = (s', outs)"
  shows "wakes s s' (along self_arrived fe sm cs s) (concat (map fired_of outs))"
  using assms
proof (induction cs arbitrary: s outs)
  case Nil
  then show ?case using wakes_idle by simp
next
  case (Cons c cs)
  obtain s1 out where s1: "sense_step fe sm c s = (s1, out)" by fastforce
  obtain outs' where o: "sense_run fe sm cs s1 = (s', outs')" "outs = out # outs'"
    using Cons.prems s1 by (auto split: prod.splits)
  note w = sense_step_wakes [OF Cons.prems(1) s1]
  then have "wake_ok s1" by (simp add: wakes_def)
  from wakes_trans [OF w Cons.IH [OF this o(1)]] show ?case by (simp add: s1 o(2) Let_def)
qed

section \<open>What reaches him\<close>

lemma push_queue: "queue_push fe x s = (s', r) \<Longrightarrow> se_percepts s' = se_percepts s"
  by (auto simp: queue_push_def split: if_splits)

lemma sense_step_heard:
  assumes "sense_step fe sm c s = (s', out)" "from_outside (se_queue s)" "wake_ok s" "\<And>x. c = Say x \<Longrightarrow> from_outside [x]"
  shows "from_outside (se_queue s') \<and>
    (\<exists>new. heard (se_percepts s') = heard (se_percepts s) @ new \<and>
      subseq (new @ se_queue s') (se_queue s @ arrived c s s') \<and>
      (\<not> failed out \<longrightarrow> new @ se_queue s' = se_queue s @ arrived c s s'))"
proof -
  have self: "from_outside (map (wake_input \<circ> f) ks)" for f :: "wakeup \<Rightarrow> string" and ks
    by (auto simp: from_outside_def wake_input_def WAKEUP_SOURCE_def SOURCE_SYSTEM_METRICS_def)
  show ?thesis
  proof (cases c)
    case (Say x)
    obtain r where r: "queue_push fe x s = (s', r)" using assms(1) Say by (cases "queue_push fe x s") (auto simp: sense_end_def)
    from inq.push_prefix [OF r] obtain ys where "se_queue s' = se_queue s @ ys" "ys \<in> {[], [x]}" by auto
    with push_queue [OF r] assms(2) assms(4) [OF Say] Say show ?thesis
      by (auto simp: arrived_def intro!: exI [of _ "[]"])
  next
    case Perceive
    obtain r where r: "perceive fe sm s = (s', r)" using assms(1) Perceive by (cases "perceive fe sm s") (auto simp: sense_end_def)
    from perceive_effect [OF r assms(2)] obtain new where n:
      "heard (se_percepts s') = heard (se_percepts s) @ new" "subseq (new @ se_queue s') (se_queue s)"
      "case r of
         Inl e \<Rightarrow> True
       | Inr is \<Rightarrow> new = take MAX_DRAIN_PER_TICK (se_queue s) \<and> se_queue s = new @ se_queue s' \<and>
           (\<exists>front amb. is = front @ [amb] \<and> wi_kind amb = ''ambient'' \<and>
              map wi_content front = map (strip \<circ> ri_raw) new)"
      "suffix (se_queue s') (se_queue s)"
      by blast
    have "from_outside (se_queue s')" using n(4) assms(2) by (auto simp: suffix_def)
    moreover have "se_queue s = new @ se_queue s'" if nf: "\<not> failed out"
    proof -
      obtain its where "r = Inr its" using assms(1) Perceive r nf by (cases r) (auto simp: sense_end_def)
      from n(3) [unfolded this sum.case] show ?thesis by blast
    qed
    ultimately show ?thesis using n Perceive by (auto simp: arrived_def intro!: exI [of _ new])
  next
    case (Schedule d rs)
    obtain q where q: "schedule fe d rs s = (s', q)" using assms(1) Schedule by (cases "schedule fe d rs s") (auto simp: sense_end_def)
    with schedule_effect [OF q assms(3)] assms(2) Schedule show ?thesis
      by (auto simp: arrived_def intro!: exI [of _ "[]"])
  next
    case (FireDue t)
    obtain r where r: "fire_due fe t s = (s', r)" using assms(1) FireDue by (cases "fire_due fe t s") (auto simp: sense_end_def)
    from fire_due_effect [OF r] obtain ws :: "wakeup list" and k where
      "se_percepts s' = se_percepts s" "se_queue s' = se_queue s @ map (wake_input \<circ> wu_reason) (take k ws)"
      by (elim conjE exE) (rule that)
    with assms(2) self FireDue show ?thesis by (auto simp: arrived_def intro!: exI [of _ "[]"])
  qed
qed

lemma sense_run_heard:
  assumes "sense_run fe sm cs s = (s', outs)" "from_outside (se_queue s)" "wake_ok s" "\<And>x. Say x \<in> set cs \<Longrightarrow> from_outside [x]"
  shows "\<exists>new. heard (se_percepts s') = heard (se_percepts s) @ new \<and>
      subseq (new @ se_queue s') (se_queue s @ along arrived fe sm cs s) \<and>
      (\<not> list_ex failed outs \<longrightarrow> new @ se_queue s' = se_queue s @ along arrived fe sm cs s)"
  using assms
proof (induction cs arbitrary: s outs)
  case (Cons c cs)
  obtain s1 out where s1: "sense_step fe sm c s = (s1, out)" by fastforce
  obtain outs' where o: "sense_run fe sm cs s1 = (s', outs')" "outs = out # outs'"
    using Cons.prems s1 by (auto split: prod.splits)
  have "from_outside [x]" if "c = Say x" for x using Cons.prems(4) that by simp
  from sense_step_heard [OF s1 Cons.prems(2,3) this] obtain new where n:
    "from_outside (se_queue s1)" "heard (se_percepts s1) = heard (se_percepts s) @ new"
    "subseq (new @ se_queue s1) (se_queue s @ arrived c s s1)"
    "\<not> failed out \<longrightarrow> new @ se_queue s1 = se_queue s @ arrived c s s1" by blast
  have "wake_ok s1" using sense_step_wakes [OF Cons.prems(3) s1] by (simp add: wakes_def)
  from Cons.IH [OF o(1) n(1) this] Cons.prems(4) obtain more where m:
    "heard (se_percepts s') = heard (se_percepts s1) @ more"
    "subseq (more @ se_queue s') (se_queue s1 @ along arrived fe sm cs s1)"
    "\<not> list_ex failed outs' \<longrightarrow> more @ se_queue s' = se_queue s1 @ along arrived fe sm cs s1" by auto
  let ?a = "arrived c s s1" let ?b = "along arrived fe sm cs s1"
  have "subseq (new @ more @ se_queue s') (new @ se_queue s1 @ ?b)" by (rule list_emb_append_mono [OF subseq_order.order_refl m(2)])
  also have "subseq (new @ se_queue s1 @ ?b) (se_queue s @ ?a @ ?b)"
    using list_emb_append_mono [OF n(3) subseq_order.order_refl, of ?b] by simp
  finally have "subseq ((new @ more) @ se_queue s') (se_queue s @ along arrived fe sm (c # cs) s)"
    by (simp add: s1 Let_def)
  moreover have "(new @ more) @ se_queue s' = se_queue s @ along arrived fe sm (c # cs) s" if "\<not> list_ex failed outs"
  proof -
    have "(new @ more) @ se_queue s' = new @ se_queue s1 @ ?b" using m(3) that o(2) by simp
    also have "\<dots> = (new @ se_queue s1) @ ?b" by simp
    also have "\<dots> = (se_queue s @ ?a) @ ?b" using n(4) that o(2) by simp
    finally show ?thesis by (simp add: s1 Let_def)
  qed
  ultimately show ?case using n(2) m(1) by (intro exI [of _ "new @ more"]) simp
qed (auto intro!: exI [of _ "[]"])

section \<open>The properties\<close>

text \<open>C15: a scheduled wakeup comes back at most once.  Whatever is said, perceived, scheduled and
  fired, in whatever order and with whatever failures of Redis and the database, the self-prompts
  that fire phases put on the queue are the reasons of distinct wakeups, none of which had fired
  before and all of which count as fired afterwards; those reported as fired are among them, in
  that order.\<close>

theorem wakeup_fires_once:
  assumes "wake_ok s" "sense_run fe sm cs s = (s', outs)"
  shows "\<exists>ks. distinct ks \<and> set ks \<subseteq> fired_ids s' - fired_ids s \<and>
    along self_arrived fe sm cs s = map (\<lambda>i. wake_input (reason_of s' i)) ks \<and>
    subseq (concat (map fired_of outs)) ks"
  using sense_run_wakes [OF assms] unfolding wakes_def by blast

text \<open>C16: inputs are perceived in the order they arrived, none twice.  In any run the percepts of
  inputs written, followed by the inputs still waiting, are a subsequence of the inputs that were
  waiting followed by those that arrived; when no step fails they are all of them.\<close>

theorem heard_in_order:
  assumes "wake_ok s" "from_outside (se_queue s)" "\<forall>x. Say x \<in> set cs \<longrightarrow> from_outside [x]"
    and "sense_run fe sm cs s = (s', outs)"
  shows "\<exists>new. heard (se_percepts s') = heard (se_percepts s) @ new \<and>
      subseq (new @ se_queue s') (se_queue s @ along arrived fe sm cs s) \<and>
      (\<not> list_ex failed outs \<longrightarrow> new @ se_queue s' = se_queue s @ along arrived fe sm cs s)"
  using sense_run_heard [OF assms(4,2,1)] assms(3) by blast

lemma perceives_hear:
  assumes "sense_run fe sm (replicate k Perceive) s = (s', outs)" "from_outside (se_queue s)" "wake_ok s"
    "\<not> list_ex failed outs" "length (se_queue s) \<le> MAX_DRAIN_PER_TICK * k" "x \<in> set (se_queue s)"
  shows "se_queue s' = [] \<and> (\<exists>its. Items its \<in> set outs \<and> strip (ri_raw x) \<in> wi_content ` set its)"
  using assms
proof (induction k arbitrary: s outs x)
  case (Suc k)
  obtain s1 r where r: "perceive fe sm s = (s1, r)" by fastforce
  obtain outs' where o: "sense_run fe sm (replicate k Perceive) s1 = (s', outs')"
    "outs = snd (sense_end Items (s1, r)) # outs'"
    using Suc.prems(1) r by (auto simp: sense_end_def split: prod.splits)
  obtain its where its: "r = Inr its" "outs = Items its # outs'"
    using o(2) Suc.prems(4) by (cases r) (auto simp: sense_end_def)
  from perceive_effect [OF r Suc.prems(2), unfolded its(1) sum.case] obtain new front amb where
    n: "new = take MAX_DRAIN_PER_TICK (se_queue s)" "se_queue s = new @ se_queue s1" "its = front @ [amb]"
      "map wi_content front = map (strip \<circ> ri_raw) new" "se_wakeups s1 = se_wakeups s"
    by blast
  have q1: "se_queue s1 = drop MAX_DRAIN_PER_TICK (se_queue s)"
    using n(1,2) by (metis append_eq_conv_conj append_take_drop_id same_append_eq)
  have w1: "wake_ok s1" using Suc.prems(3) n(5) wake_ok_cong by blast
  have o1: "from_outside (se_queue s1)" using Suc.prems(2) n(2) by (metis from_outside_simps(3))
  have l1: "length (se_queue s1) \<le> MAX_DRAIN_PER_TICK * k" using Suc.prems(5) q1 by simp
  have f1: "\<not> list_ex failed outs'" using Suc.prems(4) its by simp
  have in_new: "\<exists>its. Items its \<in> set outs \<and> strip (ri_raw x) \<in> wi_content ` set its" if "x \<in> set new"
  proof -
    have "(strip \<circ> ri_raw) x \<in> set (map wi_content front)" using n(4) that by simp
    then show ?thesis using its n(3) by auto
  qed
  show ?case
  proof (cases "se_queue s1 = []")
    case True
    have "se_queue s' = []"
    proof -
      from sense_run_heard [OF o(1) o1 w1] obtain new' where
        "new' @ se_queue s' = se_queue s1 @ along arrived fe sm (replicate k Perceive) s1" using f1 by auto
      moreover have "along arrived fe sm (replicate k Perceive) z = []" for z
        by (induction k arbitrary: z) (simp_all add: Let_def arrived_def)
      ultimately show ?thesis using True by simp
    qed
    then show ?thesis using in_new Suc.prems(6) n(2) True by simp
  next
    case False
    then obtain y where y: "y \<in> set (se_queue s1)" by (cases "se_queue s1") auto
    show ?thesis
    proof (cases "x \<in> set new")
      case True
      with in_new [OF True] its(2) Suc.IH [OF o(1) o1 w1 f1 l1 y] show ?thesis by auto
    next
      case F: False
      then have "x \<in> set (se_queue s1)" using Suc.prems(6) n(2) by (metis Un_iff set_append)
      from Suc.IH [OF o(1) o1 w1 f1 l1 this] its(2) show ?thesis by auto
    qed
  qed
qed simp

text \<open>he remembers to follow up.  Once a pending wakeup is due, a fire phase that returns and
  enough ticks that perceive (sixteen inputs each) bring its reason back as the content of an item.\<close>

theorem due_wakeup_comes_back:
  assumes "wake_ok s" "from_outside (se_queue s)" "w \<in> set (se_wakeups s)" "wu_status w = PENDING" "wu_fire_at w \<le> t"
    and "fire_due fe (Some t) s = (s1, Inr fs)"
    and "sense_run fe sm (replicate k Perceive) s1 = (s2, outs)" "\<not> list_ex failed outs"
    and "length (se_queue s1) \<le> MAX_DRAIN_PER_TICK * k"
  shows "\<exists>its. Items its \<in> set outs \<and> strip (wu_reason w) \<in> wi_content ` set its"
proof -
  have m: "fire_moment fe (Some t) s = t" by (simp add: fire_moment_def)
  from fire_due_effect [OF assms(6), unfolded m sum.case] obtain ws where
    ws: "ws = due_pending t (se_wakeups s)" "se_queue s1 = se_queue s @ map (wake_input \<circ> wu_reason) ws"
    by auto
  have "w \<in> set ws" using assms(3-5) set_due ws(1) by auto
  then have q: "wake_input (wu_reason w) \<in> set (se_queue s1)" using ws(2) by auto
  have o1: "from_outside (se_queue s1)"
    using assms(2) unfolding ws(2) by (auto simp: from_outside_def wake_input_def WAKEUP_SOURCE_def SOURCE_SYSTEM_METRICS_def)
  have w1: "wake_ok s1" using fire_due_claims [OF assms(6,1)] by blast
  from perceives_hear [OF assms(7) o1 w1 assms(8,9) q] show ?thesis by (simp add: wake_input_def)
qed

text \<open>The contract is at most once: when Redis goes away between the claim and the injection of the
  wakeups, all those not injected yet are lost, however many they are.\<close>

definition wake_demo :: senses where
  "wake_demo = \<lparr>se_calls = 0, se_queue = [], se_percepts = [], se_ticks = 0,
     se_wakeups = [\<lparr>wu_id = 1, wu_fire_at = 5, wu_reason = ''water'', wu_status = PENDING, wu_created_at = 0\<rparr>,
                   \<lparr>wu_id = 2, wu_fire_at = 3, wu_reason = ''read'', wu_status = PENDING, wu_created_at = 0\<rparr>]\<rparr>"

definition feeds_demo :: "(nat \<Rightarrow> bool) \<Rightarrow> feeds" where
  "feeds_demo redis = \<lparr>fe_now = (\<lambda>_. 10), fe_load = (\<lambda>_. None), fe_redis = redis, fe_db = (\<lambda>_. True),
     fe_iso = (\<lambda>_. ''2026-01-01T10:20:00+00:00'')\<rparr>"

lemma due_demo: "due_pending 10 (se_wakeups wake_demo) =
  [\<lparr>wu_id = 2, wu_fire_at = 3, wu_reason = ''read'', wu_status = PENDING, wu_created_at = 0\<rparr>,
   \<lparr>wu_id = 1, wu_fire_at = 5, wu_reason = ''water'', wu_status = PENDING, wu_created_at = 0\<rparr>]"
  by (simp add: due_pending_def wake_demo_def)

lemma lost_wakeups:
  "\<exists>s' e. fire_due (feeds_demo (\<lambda>n. n = 0)) (Some 10) wake_demo = (s', Inl e) \<and> se_queue s' = [] \<and>
     pending_wakeups 9 s' = []"
  unfolding fire_due_def Let_def option.case prod.case due_demo
  by (simp add: feeds_demo_def wake_demo_def mark_fired_def queue_push_def called_def pending_wakeups_def)

definition demo_sensorium :: sensorium where "demo_sensorium = new_sensorium 1 (1/10) 5"

text \<open>A demonstration: both wakeups fire, a tick perceives them.\<close>

definition wake_fired :: senses where
  "wake_fired = fst (fire_due (feeds_demo (\<lambda>_. True)) (Some 10) wake_demo)"

lemma fire_demo: "fire_due (feeds_demo (\<lambda>_. True)) (Some 10) wake_demo =
  (wake_fired, Inr (map (\<lambda>w. w\<lparr>wu_status := FIRED\<rparr>) (due_pending 10 (se_wakeups wake_demo))))"
  "se_queue wake_fired = [wake_input ''read'', wake_input ''water'']"
  unfolding wake_fired_def fire_due_def Let_def option.case prod.case due_demo
  by (simp_all add: feeds_demo_def wake_demo_def mark_fired_def queue_push_def called_def wake_input_def)

lemma perceive_demo: "\<exists>s' its. perceive (feeds_demo (\<lambda>_. True)) demo_sensorium wake_fired = (s', Inr its)"
proof -
  have f: "wake_fired = \<lparr>se_calls = 3, se_queue = [wake_input ''read'', wake_input ''water''], se_percepts = [], se_ticks = 0,
     se_wakeups = mark_fired [2, 1] (se_wakeups wake_demo)\<rparr>"
    unfolding wake_fired_def fire_due_def Let_def option.case prod.case due_demo
    by (simp add: feeds_demo_def wake_demo_def mark_fired_def queue_push_def called_def wake_input_def)
  show ?thesis
    unfolding f
    by (simp add: Let_def ambient_item_def perceive_def queue_drain_def feeds_demo_def called_def MAX_DRAIN_PER_TICK_def perceive_input_def
        persist_percept_def percept_refused_def input_percept_def wake_input_def WAKEUP_SOURCE_def MODALITY_TEXT_def
        perceive_system_def ambient_due_def demo_sensorium_def new_sensorium_def MODALITY_SYSTEM_def
        SOURCE_SYSTEM_METRICS_def metrics_json_def quoted_def system_metrics_def strip_def is_space_def)
qed

lemma wake_ok_demo: "wake_ok wake_demo"
  by (simp add: wake_ok_def wake_demo_def upt_rec)

theorem wakeup_fires_once_witness:
  "\<exists>s' outs ks. sense_run (feeds_demo (\<lambda>_. True)) demo_sensorium [FireDue (Some 10), FireDue (Some 10)] wake_demo = (s', outs) \<and>
     distinct ks \<and> subseq (concat (map fired_of outs)) ks"
proof -
  obtain s' outs where r: "sense_run (feeds_demo (\<lambda>_. True)) demo_sensorium [FireDue (Some 10), FireDue (Some 10)] wake_demo = (s', outs)"
    by fastforce
  from wakeup_fires_once [OF wake_ok_demo r] r show ?thesis by blast
qed

theorem heard_in_order_witness:
  "\<exists>s' outs new. sense_run (feeds_demo (\<lambda>_. True)) demo_sensorium [Say (wake_input ''hello''), Perceive] wake_demo = (s', outs) \<and>
     heard (se_percepts s') = heard (se_percepts wake_demo) @ new"
proof -
  obtain s' outs where r: "sense_run (feeds_demo (\<lambda>_. True)) demo_sensorium [Say (wake_input ''hello''), Perceive] wake_demo = (s', outs)"
    by fastforce
  have q: "from_outside (se_queue wake_demo)" by (simp add: wake_demo_def)
  have c: "\<forall>x. Say x \<in> set [Say (wake_input ''hello''), Perceive] \<longrightarrow> from_outside [x]"
    by (simp add: wake_input_def WAKEUP_SOURCE_def SOURCE_SYSTEM_METRICS_def)
  from heard_in_order [OF wake_ok_demo q c r] r show ?thesis by blast
qed

theorem due_wakeup_comes_back_witness:
  "\<exists>s' its. perceive (feeds_demo (\<lambda>_. True)) demo_sensorium wake_fired = (s', Inr its) \<and> strip ''water'' \<in> wi_content ` set its"
proof -
  obtain s' its where p: "perceive (feeds_demo (\<lambda>_. True)) demo_sensorium wake_fired = (s', Inr its)"
    using perceive_demo by blast
  have r: "sense_run (feeds_demo (\<lambda>_. True)) demo_sensorium (replicate 1 Perceive) wake_fired = (s', [Items its])"
    by (simp add: p sense_end_def)
  have w: "\<lparr>wu_id = 1, wu_fire_at = 5, wu_reason = ''water'', wu_status = PENDING, wu_created_at = 0\<rparr> \<in> set (se_wakeups wake_demo)"
    by (simp add: wake_demo_def)
  from due_wakeup_comes_back [OF wake_ok_demo _ w _ _ fire_demo(1) r] p show ?thesis
    by (auto simp: fire_demo(2) MAX_DRAIN_PER_TICK_def wake_demo_def)
qed

end
