(* ===== verification/Procedural.thy ===== *)
theory Procedural
  imports MemScore
begin

text \<open>
  \<^verbatim>\<open>brain/memory/procedural.py\<close>: skills, stored by name, found by intent and reinforced by how
  they worked.  The embedder and the index query are parameters.  The sequence of the id column
  (\<open>sk_next\<close>) moves on with every insert, the ones that turn into updates included.
\<close>

section \<open>The table and its operations\<close>

record skill_row =
  sk_id :: nat
  sk_name :: string
  sk_recipe :: "(string \<times> json) list"
  sk_success_rate :: real
  sk_uses :: int
  sk_successes :: int
  sk_embedding :: "real list"
  sk_created_at :: real
  sk_updated_at :: real

record skill =
  ks_id :: "nat option"
  ks_name :: string
  ks_description :: string
  ks_recipe :: "(string \<times> json) list"
  ks_success_rate :: real
  ks_uses :: int
  ks_successes :: int
  ks_score :: "real option"

record skill_table =
  st_rows :: "skill_row list"
  st_next :: nat

definition SKILL_NAME_COLUMN :: nat where "SKILL_NAME_COLUMN = 255"

definition skill_text :: "skill \<Rightarrow> string" where
  "skill_text k = strip (ks_name k @ '' '' @ ks_description k)"

definition row_to_skill :: "real option \<Rightarrow> skill_row \<Rightarrow> skill" where
  "row_to_skill score r =
     \<lparr>ks_id = Some (sk_id r), ks_name = sk_name r, ks_description = [], ks_recipe = sk_recipe r,
      ks_success_rate = sk_success_rate r, ks_uses = sk_uses r, ks_successes = sk_successes r, ks_score = score\<rparr>"

definition store_skill :: "(string \<Rightarrow> real list res) \<Rightarrow> real \<Rightarrow> skill \<Rightarrow> skill_table \<Rightarrow> (skill_table \<times> skill) res" where
  "store_skill emb now k t =
     ok_bind (emb (skill_text k)) (\<lambda>v.
       let uses = max 0 (ks_uses k); successes = min (max 0 (ks_successes k)) uses
       in if SKILL_NAME_COLUMN < length (ks_name k) then Inl (OtherError ''DataError'')
          else case find (\<lambda>r. sk_name r = ks_name k) (st_rows t) of
                 None \<Rightarrow>
                   let row = \<lparr>sk_id = st_next t, sk_name = ks_name k, sk_recipe = ks_recipe k,
                              sk_success_rate = (if uses \<noteq> 0 then of_int successes / of_int uses
                                                 else clamp01 (ks_success_rate k)),
                              sk_uses = uses, sk_successes = successes, sk_embedding = v,
                              sk_created_at = now, sk_updated_at = now\<rparr>
                   in Inr (\<lparr>st_rows = st_rows t @ [row], st_next = Suc (st_next t)\<rparr>, row_to_skill None row)
               | Some old \<Rightarrow>
                   let row = old\<lparr>sk_recipe := ks_recipe k, sk_embedding := v, sk_updated_at := now\<rparr>
                   in Inr (\<lparr>st_rows = map (\<lambda>r. if sk_name r = ks_name k then row else r) (st_rows t),
                            st_next = Suc (st_next t)\<rparr>, row_to_skill None row))"

definition find_skills :: "(string \<Rightarrow> real list res) \<Rightarrow>
    (real list \<Rightarrow> nat \<Rightarrow> skill_row list \<Rightarrow> (skill_row \<times> real) list) \<Rightarrow> string \<Rightarrow> int \<Rightarrow> skill_table \<Rightarrow> skill list res" where
  "find_skills emb near query k t =
     (if k \<le> 0 then Inr []
      else ok_bind (emb query) (\<lambda>v. Inr (map (\<lambda>(r, d). row_to_skill (Some (similarity_from_distance d)) r)
             (near v (nat k) (st_rows t)))))"

text \<open>\<^verbatim>\<open>UPDATE ... RETURNING\<close>; every expression reads the old row.\<close>

definition reinforced :: "real \<Rightarrow> bool \<Rightarrow> skill_row \<Rightarrow> skill_row" where
  "reinforced now success r =
     (let u = sk_uses r + 1; c = sk_successes r + (if success then 1 else 0)
      in r\<lparr>sk_uses := u, sk_successes := c, sk_success_rate := of_int c / of_int u, sk_updated_at := now\<rparr>)"

definition reinforce :: "real \<Rightarrow> nat \<Rightarrow> bool \<Rightarrow> skill_table \<Rightarrow> (skill_table \<times> skill) res" where
  "reinforce now i success t =
     (case find (\<lambda>r. sk_id r = i) (st_rows t) of
        None \<Rightarrow> Inl ValueError
      | Some old \<Rightarrow>
          Inr (t\<lparr>st_rows := map (\<lambda>r. if sk_id r = i then reinforced now success r else r) (st_rows t)\<rparr>,
               row_to_skill None (reinforced now success old)))"

section \<open>The invariant\<close>

definition skill_ok :: "skill_row \<Rightarrow> bool" where
  "skill_ok r \<longleftrightarrow> 0 \<le> sk_successes r \<and> sk_successes r \<le> sk_uses r \<and> in01 (sk_success_rate r) \<and>
     (0 < sk_uses r \<longrightarrow> sk_success_rate r = of_int (sk_successes r) / of_int (sk_uses r)) \<and>
     length (sk_name r) \<le> SKILL_NAME_COLUMN"

definition skills_ok :: "skill_table \<Rightarrow> bool" where
  "skills_ok t \<longleftrightarrow> (\<forall>r\<in>set (st_rows t). skill_ok r \<and> sk_id r < st_next t) \<and>
     distinct (map sk_id (st_rows t)) \<and> distinct (map sk_name (st_rows t))"

lemma ratio_in01: "0 \<le> c \<Longrightarrow> c \<le> u \<Longrightarrow> 0 < u \<Longrightarrow> in01 (of_int c / of_int u :: real)"
  by (intro in01I) (simp_all add: divide_le_eq)

lemma reinforced_ok: "skill_ok r \<Longrightarrow> skill_ok (reinforced now success r)"
  by (auto simp: skill_ok_def reinforced_def Let_def intro!: ratio_in01)

lemma map_if_keeps: "(\<And>r. g (f r) = g r) \<Longrightarrow> map g (map (\<lambda>r. if P r then f r else r) rs) = map g rs"
  by simp

lemma find_row: "find P rs = Some r \<Longrightarrow> r \<in> set rs \<and> P r"
  by (auto simp: find_Some_iff)

lemma reinforce_ok:
  assumes "skills_ok t" "reinforce now i success t = Inr (t', k)"
  shows "skills_ok t'"
proof -
  let ?f = "\<lambda>r. if sk_id r = i then reinforced now success r else r"
  have t': "st_rows t' = map ?f (st_rows t)" "st_next t' = st_next t"
    using assms(2) by (auto simp: reinforce_def split: option.splits)
  have ids: "map sk_id (map ?f (st_rows t)) = map sk_id (st_rows t)" "map sk_name (map ?f (st_rows t)) = map sk_name (st_rows t)"
    by (rule map_if_keeps, simp add: reinforced_def Let_def)+
  have "skill_ok (?f r) \<and> sk_id (?f r) < st_next t" if "r \<in> set (st_rows t)" for r
  proof -
    have "skill_ok r" "sk_id r < st_next t" using assms(1) that by (simp_all add: skills_ok_def)
    moreover have "sk_id (reinforced now success r) = sk_id r" by (simp add: reinforced_def Let_def)
    ultimately show ?thesis using reinforced_ok [of r now success] by simp
  qed
  then show ?thesis unfolding skills_ok_def t' ids set_map using assms(1) by (auto simp only: skills_ok_def)
qed

lemma store_skill_ok:
  assumes "skills_ok t" "store_skill emb now k t = Inr (t', k')"
  shows "skills_ok t'"
proof -
  obtain v where v: "emb (skill_text k) = Inr v" and len: "length (ks_name k) \<le> SKILL_NAME_COLUMN"
    using assms(2) by (auto simp: store_skill_def ok_bind_Inr_iff Let_def split: if_splits)
  show ?thesis
  proof (cases "find (\<lambda>r. sk_name r = ks_name k) (st_rows t)")
    case None
    define u where "u = max 0 (ks_uses k)"
    define c where "c = min (max 0 (ks_successes k)) u"
    have cu: "0 \<le> c" "c \<le> u" by (simp_all add: c_def u_def)
    obtain row where row: "st_rows t' = st_rows t @ [row]" "st_next t' = Suc (st_next t)" "sk_id row = st_next t"
      "sk_name row = ks_name k" "sk_uses row = u" "sk_successes row = c"
      "sk_success_rate row = (if u \<noteq> 0 then of_int c / of_int u else clamp01 (ks_success_rate k))"
      using assms(2) v len None by (auto simp: store_skill_def Let_def u_def c_def)
    have "skill_ok row"
      using row(4-7) cu len by (auto simp: skill_ok_def intro!: ratio_in01)
    moreover have "ks_name k \<notin> set (map sk_name (st_rows t))" using None by (auto simp: find_None_iff)
    ultimately show ?thesis using assms(1) row by (auto simp: skills_ok_def less_Suc_eq)
  next
    case (Some old)
    let ?row = "old\<lparr>sk_recipe := ks_recipe k, sk_embedding := v, sk_updated_at := now\<rparr>"
    let ?f = "\<lambda>r. if sk_name r = ks_name k then ?row else r"
    have t': "st_rows t' = map ?f (st_rows t)" "st_next t' = Suc (st_next t)"
      using assms(2) v len Some by (auto simp: store_skill_def Let_def)
    have o: "old \<in> set (st_rows t)" "sk_name old = ks_name k" using find_row [OF Some] by auto
    have eq: "r = old" if "r \<in> set (st_rows t)" "sk_name r = ks_name k" for r
      using assms(1) that o by (intro inj_onD [of sk_name "set (st_rows t)"]) (simp_all add: skills_ok_def distinct_map)
    have ids: "map sk_id (map ?f (st_rows t)) = map sk_id (st_rows t)"
      "map sk_name (map ?f (st_rows t)) = map sk_name (st_rows t)"
      unfolding map_map by (intro map_cong refl; use eq o in auto)+
    have "skill_ok ?row" using assms(1) o by (auto simp: skills_ok_def skill_ok_def)
    moreover have "sk_id ?row < Suc (st_next t)" using assms(1) o by (auto simp: skills_ok_def)
    ultimately have "skill_ok (?f r) \<and> sk_id (?f r) < Suc (st_next t)" if "r \<in> set (st_rows t)" for r
      using assms(1) that by (simp add: skills_ok_def less_Suc_eq)
    then show ?thesis unfolding skills_ok_def t' ids set_map using assms(1) by (auto simp only: skills_ok_def)
  qed
qed

section \<open>Reinforcement\<close>

fun reinforce_all :: "nat \<Rightarrow> (real \<times> bool) list \<Rightarrow> skill_table \<Rightarrow> skill_table res" where
  "reinforce_all i [] t = Inr t"
| "reinforce_all i ((now, success) # os) t = ok_bind (reinforce now i success t) (\<lambda>(t', _). reinforce_all i os t')"

definition skill_at :: "nat \<Rightarrow> skill_table \<Rightarrow> skill_row option" where
  "skill_at i t = find (\<lambda>r. sk_id r = i) (st_rows t)"

lemma find_map_if:
  "find P rs = Some r \<Longrightarrow> (\<And>x. P (f x) = P x) \<Longrightarrow> find P (map (\<lambda>x. if P x then f x else x) rs) = Some (f r)"
  by (induction rs) (auto split: if_splits)

lemma reinforce_at:
  "skill_at i t = Some r \<Longrightarrow> \<exists>t'. reinforce now i success t = Inr (t', row_to_skill None (reinforced now success r)) \<and>
     skill_at i t' = Some (reinforced now success r) \<and>
     (\<forall>j. j \<noteq> i \<longrightarrow> skill_at j t' = skill_at j t)"
proof -
  assume r: "skill_at i t = Some r"
  have "find (\<lambda>r. sk_id r = j) (map (\<lambda>r. if sk_id r = i then reinforced now success r else r) rs) =
      find (\<lambda>r. sk_id r = j) rs" if "j \<noteq> i" for j rs
    using that by (induction rs) (auto simp: reinforced_def Let_def)
  moreover have "find (\<lambda>r. sk_id r = i) (map (\<lambda>r. if sk_id r = i then reinforced now success r else r) (st_rows t)) =
      Some (reinforced now success r)"
    using r by (intro find_map_if) (simp_all add: skill_at_def reinforced_def Let_def)
  ultimately show ?thesis using r by (simp add: reinforce_def skill_at_def)
qed

text \<open>after any series of outcomes the counters are exact and the persisted rate is their
  quotient; the skill's name, recipe and embedding and the other skills are as they were.\<close>

theorem reinforce_exact:
  assumes "skill_at i t = Some r" "os \<noteq> []"
  shows "\<exists>t' r'. reinforce_all i os t = Inr t' \<and> skill_at i t' = Some r' \<and>
    sk_uses r' = sk_uses r + int (length os) \<and> sk_successes r' = sk_successes r + int (length (filter snd os)) \<and>
    sk_success_rate r' = of_int (sk_successes r') / of_int (sk_uses r') \<and>
    sk_name r' = sk_name r \<and> sk_recipe r' = sk_recipe r \<and> sk_embedding r' = sk_embedding r \<and>
    (\<forall>j. j \<noteq> i \<longrightarrow> skill_at j t' = skill_at j t)"
  using assms
proof (induction os arbitrary: t r)
  case (Cons e os)
  obtain now ok where e: "e = (now, ok)" by fastforce
  from reinforce_at [OF Cons.prems(1), of now ok] obtain t1 k where
    t1: "reinforce now i ok t = Inr (t1, k)" "skill_at i t1 = Some (reinforced now ok r)"
      "\<forall>j. j \<noteq> i \<longrightarrow> skill_at j t1 = skill_at j t" by blast
  have f: "sk_uses (reinforced now ok r) = sk_uses r + 1"
    "sk_successes (reinforced now ok r) = sk_successes r + (if ok then 1 else 0)"
    "sk_success_rate (reinforced now ok r) =
       of_int (sk_successes (reinforced now ok r)) / of_int (sk_uses (reinforced now ok r))"
    "sk_name (reinforced now ok r) = sk_name r" "sk_recipe (reinforced now ok r) = sk_recipe r"
    "sk_embedding (reinforced now ok r) = sk_embedding r"
    by (simp_all add: reinforced_def Let_def)
  show ?case
  proof (cases "os = []")
    case True
    then show ?thesis using t1 f by (intro exI [of _ t1] exI [of _ "reinforced now ok r"]) (simp add: e)
  next
    case False
    from Cons.IH [OF t1(2) False] obtain t' r' where
      i: "reinforce_all i os t1 = Inr t'" "skill_at i t' = Some r'"
        "sk_uses r' = sk_uses (reinforced now ok r) + int (length os)"
        "sk_successes r' = sk_successes (reinforced now ok r) + int (length (filter snd os))"
        "sk_success_rate r' = of_int (sk_successes r') / of_int (sk_uses r')"
        "sk_name r' = sk_name (reinforced now ok r)" "sk_recipe r' = sk_recipe (reinforced now ok r)"
        "sk_embedding r' = sk_embedding (reinforced now ok r)" "\<forall>j. j \<noteq> i \<longrightarrow> skill_at j t' = skill_at j t1" by blast
    show ?thesis
      using i t1 unfolding f by (intro exI [of _ t'] exI [of _ r']) (simp add: e)
  qed
qed simp

definition skill_demo :: skill_table where
  "skill_demo = \<lparr>st_rows = [\<lparr>sk_id = 1, sk_name = ''tea'', sk_recipe = [], sk_success_rate = 0, sk_uses = 0,
     sk_successes = 0, sk_embedding = [1], sk_created_at = 0, sk_updated_at = 0\<rparr>], st_next = 2\<rparr>"

theorem reinforce_exact_witness:
  "\<exists>t' r'. reinforce_all 1 [(5, True), (6, False)] skill_demo = Inr t' \<and> skill_at 1 t' = Some r' \<and> sk_success_rate r' = 1/2"
  using reinforce_exact [of 1 skill_demo "hd (st_rows skill_demo)" "[(5, True), (6, False)]"]
  by (auto simp: skill_demo_def skill_at_def)

text \<open>Relearning a known skill refreshes its recipe and keeps how well it has worked.\<close>

lemma relearn_keeps_history:
  assumes "skills_ok t" "find (\<lambda>r. sk_name r = ks_name k) (st_rows t) = Some old" "store_skill emb now k t = Inr (t', k')"
  shows "\<exists>new\<in>set (st_rows t'). sk_id new = sk_id old \<and> sk_name new = ks_name k \<and> sk_recipe new = ks_recipe k \<and>
    sk_uses new = sk_uses old \<and> sk_successes new = sk_successes old \<and> sk_success_rate new = sk_success_rate old \<and>
    sk_created_at new = sk_created_at old"
proof -
  let ?new = "\<lambda>v. old\<lparr>sk_recipe := ks_recipe k, sk_embedding := v, sk_updated_at := now\<rparr>"
  obtain v where t': "st_rows t' = map (\<lambda>r. if sk_name r = ks_name k then ?new v else r) (st_rows t)"
    using assms(2,3) by (fastforce simp: store_skill_def ok_bind_Inr_iff Let_def split: if_splits)
  have "?new v \<in> set (st_rows t')" unfolding t' set_map using find_row [OF assms(2)] by (intro image_eqI [of _ _ old]) auto
  then show ?thesis using find_row [OF assms(2)] by (intro bexI [of _ "?new v"]) simp_all
qed

end
