(* ===== verification/Snapshot.thy ===== *)
theory Snapshot
  imports Procedural Decay WorkingMem
begin

text \<open>
  \<^verbatim>\<open>brain/memory/snapshot.py\<close>: every persistent store written to a directory, and read back.

  The database is a record of its tables, each the list of its rows in the order a query returns
  them, with the next value of each id sequence; the constraints the migrations declare are
  \<open>db_ok\<close>, and a transaction that would break one is rolled back.  A directory is a map from paths
  to texts.  The printers and parsers of the standard library (\<^verbatim>\<open>isoformat\<close>,
  \<^verbatim>\<open>json\<close>) and the outcome of each write are the record \<open>snap_io\<close>: a write that fails leaves
  some text behind.  A row read back has to have the columns a snapshot writes (the defaults
  the database gives to missing ones are left out).
\<close>

section \<open>Rows\<close>

text \<open>The columns the other components do not use are added to their rows.\<close>

record fact_full = fact_row +
  fr_created_at :: real

record drive_full = drive_row +
  row_drive :: string

record identity_row =
  iw_id :: nat
  iw_name :: string
  iw_doc :: string
  iw_values :: "string list"
  iw_concerns :: "string list"
  iw_relationships :: "(string \<times> json) list"
  iw_version :: nat
  iw_created_at :: real

record mood_row =
  mw_id :: nat
  mw_ts :: real
  mw_valence :: real
  mw_arousal :: real
  mw_emotions :: "(string \<times> json) list"

record goal_row =
  gw_id :: nat
  gw_source :: string
  gw_description :: string
  gw_priority :: real
  gw_status :: string
  gw_plan :: "(string \<times> json) list"
  gw_outcome :: "(string \<times> json) list"
  gw_created_at :: real
  gw_resolved_at :: "real option"

text \<open>Of the thought log only the reference to a mood matters here.\<close>

record thought_ref =
  th_id :: nat
  th_mood :: "nat option"

datatype table = EPISODE | SEMANTIC_FACT | SEMANTIC_EDGE | SKILL | IDENTITY | DRIVE_STATE | MOOD | GOAL

record snap_db =
  db_episodes :: "episode_row list"
  db_facts :: "fact_full list"
  db_edges :: "edge_row list"
  db_skills :: "skill_row list"
  db_identities :: "identity_row list"
  db_drives :: "drive_full list"
  db_moods :: "mood_row list"
  db_goals :: "goal_row list"
  db_thoughts :: "thought_ref list"
  db_next :: "table \<Rightarrow> nat"

definition db_ok :: "snap_db \<Rightarrow> bool" where
  "db_ok d \<longleftrightarrow>
     distinct (map er_id (db_episodes d)) \<and>
     distinct (map fr_id (db_facts d)) \<and> distinct (map (\<lambda>r. (fr_subject r, fr_predicate r)) (db_facts d)) \<and>
     distinct (map ed_id (db_edges d)) \<and> distinct (map edge_key (db_edges d)) \<and>
     (\<forall>e\<in>set (db_edges d). ed_from e \<in> set (map fr_id (db_facts d)) \<and> ed_to e \<in> set (map fr_id (db_facts d))) \<and>
     distinct (map sk_id (db_skills d)) \<and> distinct (map sk_name (db_skills d)) \<and>
     distinct (map iw_id (db_identities d)) \<and> distinct (map iw_version (db_identities d)) \<and>
     distinct (map row_drive (db_drives d)) \<and> distinct (map mw_id (db_moods d)) \<and> distinct (map gw_id (db_goals d)) \<and>
     (\<forall>t\<in>set (db_thoughts d). \<forall>m. th_mood t = Some m \<longrightarrow> m \<in> set (map mw_id (db_moods d)))"

section \<open>Rows as JSON\<close>

record snap_io =
  so_iso :: "real \<Rightarrow> string"
  so_from_iso :: "string \<Rightarrow> real res"
  so_dumps :: "json \<Rightarrow> string"
  so_dumps_indent :: "json \<Rightarrow> string"
  so_loads :: "string \<Rightarrow> json res"
  so_write :: "string \<Rightarrow> string option"
  so_db :: bool
  so_now :: real

definition strs :: "string list \<Rightarrow> json" where "strs xs = JList (map JStr xs)"
definition floats :: "real list \<Rightarrow> json" where "floats xs = JList (map JFloat xs)"
definition nats :: "nat list \<Rightarrow> json" where "nats xs = JList (map (\<lambda>n. JInt (int n)) xs)"

definition episode_dict :: "snap_io \<Rightarrow> episode_row \<Rightarrow> json" where
  "episode_dict io r = JDict
     [(''id'', JInt (int (er_id r))), (''ts'', JStr (so_iso io (er_ts r))), (''kind'', JStr (er_kind r)),
      (''content'', JStr (er_content r)), (''actors'', strs (er_actors r)),
      (''emotion_tags'', strs (er_emotion_tags r)), (''salience'', JFloat (er_salience r)),
      (''embedding'', floats (er_embedding r))]"

definition fact_dict :: "snap_io \<Rightarrow> fact_full \<Rightarrow> json" where
  "fact_dict io r = JDict
     [(''id'', JInt (int (fr_id r))), (''subject'', JStr (fr_subject r)), (''predicate'', JStr (fr_predicate r)),
      (''object'', JStr (fr_object r)), (''confidence'', JFloat (fr_confidence r)),
      (''source_episode_ids'', nats (fr_sources r)), (''embedding'', floats (fr_embedding r)),
      (''created_at'', JStr (so_iso io (fr_created_at r))), (''updated_at'', JStr (so_iso io (fr_updated_at r)))]"

definition edge_dict :: "edge_row \<Rightarrow> json" where
  "edge_dict r = JDict
     [(''id'', JInt (int (ed_id r))), (''from_fact'', JInt (int (ed_from r))), (''to_fact'', JInt (int (ed_to r))),
      (''relation'', JStr (ed_relation r))]"

definition skill_dict :: "snap_io \<Rightarrow> skill_row \<Rightarrow> json" where
  "skill_dict io r = JDict
     [(''id'', JInt (int (sk_id r))), (''name'', JStr (sk_name r)), (''recipe'', JDict (sk_recipe r)),
      (''success_rate'', JFloat (sk_success_rate r)), (''uses'', JInt (sk_uses r)),
      (''successes'', JInt (sk_successes r)), (''embedding'', floats (sk_embedding r)),
      (''created_at'', JStr (so_iso io (sk_created_at r))), (''updated_at'', JStr (so_iso io (sk_updated_at r)))]"

definition identity_dict :: "snap_io \<Rightarrow> identity_row \<Rightarrow> json" where
  "identity_dict io r = JDict
     [(''id'', JInt (int (iw_id r))), (''name'', JStr (iw_name r)), (''self_model_doc'', JStr (iw_doc r)),
      (''values'', strs (iw_values r)), (''concerns'', strs (iw_concerns r)),
      (''relationships'', JDict (iw_relationships r)), (''version'', JInt (int (iw_version r))),
      (''created_at'', JStr (so_iso io (iw_created_at r)))]"

definition drive_dict :: "snap_io \<Rightarrow> drive_full \<Rightarrow> json" where
  "drive_dict io r = JDict
     [(''drive'', JStr (row_drive r)), (''value'', JFloat (row_value r)), (''setpoint'', JFloat (row_setpoint r)),
      (''accrual_rate'', JFloat (row_accrual_rate r)), (''decay_rate'', JFloat (row_decay_rate r)),
      (''threshold'', JFloat (row_threshold r)), (''updated_at'', JStr (so_iso io (row_updated_at r)))]"

definition mood_dict :: "snap_io \<Rightarrow> mood_row \<Rightarrow> json" where
  "mood_dict io r = JDict
     [(''id'', JInt (int (mw_id r))), (''ts'', JStr (so_iso io (mw_ts r))), (''valence'', JFloat (mw_valence r)),
      (''arousal'', JFloat (mw_arousal r)), (''emotions'', JDict (mw_emotions r))]"

definition goal_dict :: "snap_io \<Rightarrow> goal_row \<Rightarrow> json" where
  "goal_dict io r = JDict
     [(''id'', JInt (int (gw_id r))), (''source'', JStr (gw_source r)), (''description'', JStr (gw_description r)),
      (''priority'', JFloat (gw_priority r)), (''status'', JStr (gw_status r)), (''plan'', JDict (gw_plan r)),
      (''outcome'', JDict (gw_outcome r)), (''created_at'', JStr (so_iso io (gw_created_at r))),
      (''resolved_at'', (case gw_resolved_at r of None \<Rightarrow> JNull | Some t \<Rightarrow> JStr (so_iso io t)))]"

definition working_dict :: "wm_item \<Rightarrow> json" where
  "working_dict i = JDict
     [(''id'', JStr (wm_id i)), (''content'', JStr (wm_content i)), (''kind'', JStr (wm_kind i)),
      (''salience'', JFloat (wm_salience i)), (''created_at'', JFloat (wm_created_at i)),
      (''expires_at'', (case wm_expires_at i of None \<Rightarrow> JNull | Some t \<Rightarrow> JFloat t))]"

subsection \<open>And back\<close>

fun map_res :: "('a \<Rightarrow> 'b res) \<Rightarrow> 'a list \<Rightarrow> 'b list res" where
  "map_res f [] = Inr []"
| "map_res f (x # xs) = ok_bind (f x) (\<lambda>y. ok_bind (map_res f xs) (\<lambda>ys. Inr (y # ys)))"

lemma map_res_map: "(\<And>x. x \<in> set xs \<Longrightarrow> f (g x) = Inr (h x)) \<Longrightarrow> map_res f (map g xs) = Inr (map h xs)"
  by (induction xs) simp_all

fun as_str :: "json \<Rightarrow> string res" where
  "as_str (JStr s) = Inr s" | "as_str _ = Inl (OtherError ''DataError'')"
fun as_int :: "json \<Rightarrow> int res" where
  "as_int (JInt i) = Inr i" | "as_int _ = Inl (OtherError ''DataError'')"
fun as_nat :: "json \<Rightarrow> nat res" where
  "as_nat (JInt i) = (if 0 \<le> i then Inr (nat i) else Inl (OtherError ''DataError''))"
| "as_nat _ = Inl (OtherError ''DataError'')"
fun as_float :: "json \<Rightarrow> real res" where
  "as_float (JFloat x) = Inr x" | "as_float (JInt i) = Inr (of_int i)" | "as_float _ = Inl (OtherError ''DataError'')"
fun as_dict :: "json \<Rightarrow> (string \<times> json) list res" where
  "as_dict (JDict d) = Inr d" | "as_dict _ = Inl (OtherError ''DataError'')"
fun as_list :: "(json \<Rightarrow> 'a res) \<Rightarrow> json \<Rightarrow> 'a list res" where
  "as_list f (JList xs) = map_res f xs" | "as_list f _ = Inl (OtherError ''DataError'')"
fun as_opt :: "(json \<Rightarrow> 'a res) \<Rightarrow> json \<Rightarrow> 'a option res" where
  "as_opt f JNull = Inr None" | "as_opt f j = ok_bind (f j) (\<lambda>x. Inr (Some x))"

definition need :: "(string \<times> json) list \<Rightarrow> string \<Rightarrow> (json \<Rightarrow> 'a res) \<Rightarrow> ('a \<Rightarrow> 'b res) \<Rightarrow> 'b res" where
  "need d k f g = (case map_of d k of None \<Rightarrow> Inl KeyError | Some j \<Rightarrow> ok_bind (f j) g)"

lemma need_simp [simp]: "map_of d k = Some j \<Longrightarrow> need d k f g = ok_bind (f j) g"
  by (simp add: need_def)

definition only :: "string list \<Rightarrow> (string \<times> json) list \<Rightarrow> 'b res \<Rightarrow> 'b res" where
  "only ks d r = (if set (map fst d) \<subseteq> set ks then r else Inl TypeError)"

fun with_dict :: "((string \<times> json) list \<Rightarrow> 'a res) \<Rightarrow> json \<Rightarrow> 'a res" where
  "with_dict f (JDict d) = f d" | "with_dict f _ = Inl TypeError"

definition stamp :: "snap_io \<Rightarrow> json \<Rightarrow> real res" where
  "stamp io j = (case j of JStr s \<Rightarrow> so_from_iso io s | _ \<Rightarrow> Inl TypeError)"

definition read_episode_row :: "snap_io \<Rightarrow> json \<Rightarrow> episode_row res" where
  "read_episode_row io = with_dict (\<lambda>d. need d ''ts'' (stamp io) (\<lambda>ts.
     only [''id'', ''ts'', ''kind'', ''content'', ''actors'', ''emotion_tags'', ''salience'', ''embedding''] d (
     need d ''id'' as_nat (\<lambda>i. need d ''kind'' as_str (\<lambda>kind. need d ''content'' as_str (\<lambda>content.
     need d ''actors'' (as_list as_str) (\<lambda>actors. need d ''emotion_tags'' (as_list as_str) (\<lambda>tags.
     need d ''salience'' as_float (\<lambda>salience. need d ''embedding'' (as_list as_float) (\<lambda>v.
       Inr \<lparr>er_id = i, er_ts = ts, er_kind = kind, er_content = content, er_actors = actors,
            er_emotion_tags = tags, er_salience = salience, er_embedding = v\<rparr>))))))))))"

definition read_fact_row :: "snap_io \<Rightarrow> json \<Rightarrow> fact_full res" where
  "read_fact_row io = with_dict (\<lambda>d. need d ''created_at'' (stamp io) (\<lambda>c. need d ''updated_at'' (stamp io) (\<lambda>u.
     only [''id'', ''subject'', ''predicate'', ''object'', ''confidence'', ''source_episode_ids'', ''embedding'',
           ''created_at'', ''updated_at''] d (
     need d ''id'' as_nat (\<lambda>i. need d ''subject'' as_str (\<lambda>s. need d ''predicate'' as_str (\<lambda>p.
     need d ''object'' as_str (\<lambda>ob. need d ''confidence'' as_float (\<lambda>conf.
     need d ''source_episode_ids'' (as_list as_nat) (\<lambda>src. need d ''embedding'' (as_list as_float) (\<lambda>v.
       Inr \<lparr>fr_id = i, fr_subject = s, fr_predicate = p, fr_object = ob, fr_confidence = conf, fr_sources = src,
            fr_embedding = v, fr_updated_at = u, fr_created_at = c\<rparr>)))))))))))"

definition read_edge_row :: "json \<Rightarrow> edge_row res" where
  "read_edge_row = with_dict (\<lambda>d. only [''id'', ''from_fact'', ''to_fact'', ''relation''] d (
     need d ''id'' as_nat (\<lambda>i. need d ''from_fact'' as_nat (\<lambda>a. need d ''to_fact'' as_nat (\<lambda>b.
     need d ''relation'' as_str (\<lambda>r. Inr \<lparr>ed_id = i, ed_from = a, ed_to = b, ed_relation = r\<rparr>))))))"

definition read_skill_row :: "snap_io \<Rightarrow> json \<Rightarrow> skill_row res" where
  "read_skill_row io = with_dict (\<lambda>d. need d ''created_at'' (stamp io) (\<lambda>c. need d ''updated_at'' (stamp io) (\<lambda>u.
     only [''id'', ''name'', ''recipe'', ''success_rate'', ''uses'', ''successes'', ''embedding'',
           ''created_at'', ''updated_at''] d (
     need d ''id'' as_nat (\<lambda>i. need d ''name'' as_str (\<lambda>n. need d ''recipe'' as_dict (\<lambda>rec.
     need d ''success_rate'' as_float (\<lambda>rate. need d ''uses'' as_int (\<lambda>uses. need d ''successes'' as_int (\<lambda>succ.
     need d ''embedding'' (as_list as_float) (\<lambda>v.
       Inr \<lparr>sk_id = i, sk_name = n, sk_recipe = rec, sk_success_rate = rate, sk_uses = uses, sk_successes = succ,
            sk_embedding = v, sk_created_at = c, sk_updated_at = u\<rparr>)))))))))))"

definition read_identity_row :: "snap_io \<Rightarrow> json \<Rightarrow> identity_row res" where
  "read_identity_row io = with_dict (\<lambda>d. need d ''created_at'' (stamp io) (\<lambda>c.
     only [''id'', ''name'', ''self_model_doc'', ''values'', ''concerns'', ''relationships'', ''version'', ''created_at''] d (
     need d ''id'' as_nat (\<lambda>i. need d ''name'' as_str (\<lambda>n. need d ''self_model_doc'' as_str (\<lambda>doc.
     need d ''values'' (as_list as_str) (\<lambda>vals. need d ''concerns'' (as_list as_str) (\<lambda>cons.
     need d ''relationships'' as_dict (\<lambda>rel. need d ''version'' as_nat (\<lambda>ver.
       Inr \<lparr>iw_id = i, iw_name = n, iw_doc = doc, iw_values = vals, iw_concerns = cons, iw_relationships = rel,
            iw_version = ver, iw_created_at = c\<rparr>))))))))))"

definition read_drive_row :: "snap_io \<Rightarrow> json \<Rightarrow> drive_full res" where
  "read_drive_row io = with_dict (\<lambda>d. need d ''updated_at'' (stamp io) (\<lambda>u.
     only [''drive'', ''value'', ''setpoint'', ''accrual_rate'', ''decay_rate'', ''threshold'', ''updated_at''] d (
     need d ''drive'' as_str (\<lambda>n. need d ''value'' as_float (\<lambda>v. need d ''setpoint'' as_float (\<lambda>sp.
     need d ''accrual_rate'' as_float (\<lambda>ac. need d ''decay_rate'' as_float (\<lambda>de. need d ''threshold'' as_float (\<lambda>th.
       Inr \<lparr>row_value = v, row_setpoint = sp, row_accrual_rate = ac, row_decay_rate = de, row_threshold = th,
            row_updated_at = u, row_drive = n\<rparr>)))))))))"

definition read_mood_row :: "snap_io \<Rightarrow> json \<Rightarrow> mood_row res" where
  "read_mood_row io = with_dict (\<lambda>d. need d ''ts'' (stamp io) (\<lambda>ts.
     only [''id'', ''ts'', ''valence'', ''arousal'', ''emotions''] d (
     need d ''id'' as_nat (\<lambda>i. need d ''valence'' as_float (\<lambda>v. need d ''arousal'' as_float (\<lambda>a.
     need d ''emotions'' as_dict (\<lambda>e.
       Inr \<lparr>mw_id = i, mw_ts = ts, mw_valence = v, mw_arousal = a, mw_emotions = e\<rparr>)))))))"

text \<open>\<^verbatim>\<open>d.get("resolved_at")\<close>: missing and null alike.\<close>

definition read_goal_row :: "snap_io \<Rightarrow> json \<Rightarrow> goal_row res" where
  "read_goal_row io = with_dict (\<lambda>d. need d ''created_at'' (stamp io) (\<lambda>c.
     ok_bind (as_opt (stamp io) (dict_get d ''resolved_at'' JNull)) (\<lambda>rs.
     only [''id'', ''source'', ''description'', ''priority'', ''status'', ''plan'', ''outcome'', ''created_at'', ''resolved_at''] d (
     need d ''id'' as_nat (\<lambda>i. need d ''source'' as_str (\<lambda>s. need d ''description'' as_str (\<lambda>de.
     need d ''priority'' as_float (\<lambda>p. need d ''status'' as_str (\<lambda>st. need d ''plan'' as_dict (\<lambda>pl.
     need d ''outcome'' as_dict (\<lambda>oc.
       Inr \<lparr>gw_id = i, gw_source = s, gw_description = de, gw_priority = p, gw_status = st, gw_plan = pl,
            gw_outcome = oc, gw_created_at = c, gw_resolved_at = rs\<rparr>)))))))))))"

definition working_item :: "json \<Rightarrow> wm_item res" where
  "working_item = with_dict (\<lambda>d.
     need d ''id'' as_str (\<lambda>i. need d ''content'' as_str (\<lambda>c. need d ''kind'' as_str (\<lambda>k.
     need d ''salience'' as_float (\<lambda>s. need d ''created_at'' as_float (\<lambda>t. need d ''expires_at'' (as_opt as_float) (\<lambda>e.
       Inr \<lparr>wm_id = i, wm_content = c, wm_kind = k, wm_salience = s, wm_created_at = t, wm_expires_at = e\<rparr>)))))))"

section \<open>Files\<close>

type_synonym disk = "string \<Rightarrow> string option"

definition write_file :: "snap_io \<Rightarrow> string \<Rightarrow> string \<Rightarrow> disk \<Rightarrow> disk \<times> unit res" where
  "write_file io path txt fs =
     (case so_write io path of
        None \<Rightarrow> (fs(path \<mapsto> txt), Inr ())
      | Some torn \<Rightarrow> (fs(path \<mapsto> torn), Inl (OtherError ''OSError'')))"

fun write_files :: "snap_io \<Rightarrow> (string \<times> string) list \<Rightarrow> disk \<Rightarrow> disk \<times> unit res" where
  "write_files io [] fs = (fs, Inr ())"
| "write_files io ((path, txt) # ps) fs =
     (case write_file io path txt fs of
        (fs1, Inl e) \<Rightarrow> (fs1, Inl e)
      | (fs1, Inr u) \<Rightarrow> write_files io ps fs1)"

definition jsonl :: "snap_io \<Rightarrow> json list \<Rightarrow> string" where
  "jsonl io rows = concat (map (\<lambda>r. so_dumps io r @ NEWLINE) rows)"

text \<open>Iteration over a text file: lines end at a line feed, a carriage return or both (what is
  between the two of a pair is an empty line, which is skipped).\<close>

fun file_lines :: "string \<Rightarrow> string \<Rightarrow> string list" where
  "file_lines l [] = [l]"
| "file_lines l (c # cs) =
     (if c = CHR 0x0A \<or> c = CHR 0x0D then l # file_lines [] cs else file_lines (l @ [c]) cs)"

definition read_jsonl :: "snap_io \<Rightarrow> disk \<Rightarrow> string \<Rightarrow> json list res" where
  "read_jsonl io fs path =
     (case fs path of
        None \<Rightarrow> Inr []
      | Some txt \<Rightarrow> map_res (so_loads io) (filter (\<lambda>l. l \<noteq> []) (map strip (file_lines [] txt))))"

definition EPISODES_FILE :: string where "EPISODES_FILE = ''episodes.jsonl''"
definition FACTS_FILE :: string where "FACTS_FILE = ''semantic_facts.jsonl''"
definition EDGES_FILE :: string where "EDGES_FILE = ''semantic_edges.jsonl''"
definition SKILLS_FILE :: string where "SKILLS_FILE = ''skills.jsonl''"
definition WORKING_FILE :: string where "WORKING_FILE = ''working_memory.jsonl''"
definition MANIFEST_FILE :: string where "MANIFEST_FILE = ''manifest.json''"
definition IDENTITY_FILE :: string where "IDENTITY_FILE = ''identity.jsonl''"
definition DRIVES_FILE :: string where "DRIVES_FILE = ''drive_state.jsonl''"
definition MOOD_FILE :: string where "MOOD_FILE = ''mood.jsonl''"
definition GOALS_FILE :: string where "GOALS_FILE = ''goal.jsonl''"

lemmas file_names = EPISODES_FILE_def FACTS_FILE_def EDGES_FILE_def SKILLS_FILE_def WORKING_FILE_def
  MANIFEST_FILE_def IDENTITY_FILE_def DRIVES_FILE_def MOOD_FILE_def GOALS_FILE_def

definition in_dir :: "string \<Rightarrow> string \<Rightarrow> string" where "in_dir dir f = dir @ ''/'' @ f"

section \<open>Snapshot\<close>

definition SNAPSHOT_VERSION :: int where "SNAPSHOT_VERSION = 2"

definition count_of :: "'a list \<Rightarrow> json" where "count_of xs = JInt (int (length xs))"

definition manifest :: "snap_io \<Rightarrow> snap_db \<Rightarrow> wm_item list \<Rightarrow> json" where
  "manifest io d items = JDict
     [(''version'', JInt SNAPSHOT_VERSION), (''created_at'', JStr (so_iso io (so_now io))),
      (''counts'', JDict
        [(''episodes'', count_of (db_episodes d)), (''semantic_facts'', count_of (db_facts d)),
         (''semantic_edges'', count_of (db_edges d)), (''skills'', count_of (db_skills d)),
         (''working_memory'', count_of items), (''identity'', count_of (db_identities d)),
         (''drive_state'', count_of (db_drives d)), (''mood'', count_of (db_moods d)), (''goal'', count_of (db_goals d))])]"

definition store_files :: "snap_io \<Rightarrow> string \<Rightarrow> snap_db \<Rightarrow> (string \<times> string) list" where
  "store_files io dir d =
     [(in_dir dir EPISODES_FILE, jsonl io (map (episode_dict io) (db_episodes d))),
      (in_dir dir FACTS_FILE, jsonl io (map (fact_dict io) (db_facts d))),
      (in_dir dir EDGES_FILE, jsonl io (map edge_dict (db_edges d))),
      (in_dir dir SKILLS_FILE, jsonl io (map (skill_dict io) (db_skills d))),
      (in_dir dir IDENTITY_FILE, jsonl io (map (identity_dict io) (db_identities d))),
      (in_dir dir DRIVES_FILE, jsonl io (map (drive_dict io) (db_drives d))),
      (in_dir dir MOOD_FILE, jsonl io (map (mood_dict io) (db_moods d))),
      (in_dir dir GOALS_FILE, jsonl io (map (goal_dict io) (db_goals d)))]"

text \<open>\<open>dir\<close> is the root joined with the label (by default the time stamp); it is made first.\<close>

definition snapshot :: "snap_io \<Rightarrow> hvals \<Rightarrow> real \<Rightarrow> string \<Rightarrow> snap_db \<Rightarrow> working_memory \<Rightarrow> disk \<Rightarrow>
    disk \<times> working_memory \<times> string res" where
  "snapshot io hv clock dir d wm fs =
     (if \<not> so_db io then (fs, wm, Inl (OtherError ''database''))
      else case write_files io (store_files io dir d) fs of
             (fs1, Inl e) \<Rightarrow> (fs1, wm, Inl e)
           | (fs1, Inr u) \<Rightarrow>
               let (wm1, items) = export_items hv clock wm
               in (case write_files io [(in_dir dir WORKING_FILE, jsonl io (map working_dict items)),
                                       (in_dir dir MANIFEST_FILE, so_dumps_indent io (manifest io d items))] fs1 of
                     (fs2, Inl e) \<Rightarrow> (fs2, wm1, Inl e)
                   | (fs2, Inr u) \<Rightarrow> (fs2, wm1, Inr dir)))"

section \<open>Restore\<close>

text \<open>\<^verbatim>\<open>version in (1, 2)\<close>, by Python's equality of numbers.\<close>

fun equals_int :: "json \<Rightarrow> int \<Rightarrow> bool" where
  "equals_int (JInt i) n = (i = n)"
| "equals_int (JFloat x) n = (x = of_int n)"
| "equals_int (JBool b) n = (n = (if b then 1 else 0))"
| "equals_int _ n = False"

definition read_version :: "snap_io \<Rightarrow> disk \<Rightarrow> string \<Rightarrow> json res" where
  "read_version io fs dir =
     (case fs (in_dir dir MANIFEST_FILE) of
        None \<Rightarrow> Inl (OtherError ''FileNotFoundError'')
      | Some txt \<Rightarrow> ok_bind (so_loads io txt) (\<lambda>m.
          case m of JDict d \<Rightarrow> Inr (dict_get d ''version'' JNull) | _ \<Rightarrow> Inl (OtherError ''AttributeError'')))"

definition clear_tables :: "bool \<Rightarrow> snap_db \<Rightarrow> snap_db" where
  "clear_tables v2 d =
     (let d1 = d\<lparr>db_episodes := [], db_facts := [], db_edges := [], db_skills := [],
                db_next := (db_next d)(EPISODE := 1, SEMANTIC_FACT := 1, SEMANTIC_EDGE := 1, SKILL := 1)\<rparr>
      in if v2 then d1\<lparr>db_identities := [], db_goals := [], db_drives := [], db_moods := [],
                      db_thoughts := map (\<lambda>t. t\<lparr>th_mood := None\<rparr>) (db_thoughts d1),
                      db_next := (db_next d1)(IDENTITY := 1, GOAL := 1)\<rparr>
         else d1)"

definition next_after :: "nat list \<Rightarrow> nat" where
  "next_after ids = (if ids = [] then 1 else Suc (max 1 (Max (set ids))))"

definition resync_sequences :: "bool \<Rightarrow> snap_db \<Rightarrow> snap_db" where
  "resync_sequences v2 d =
     (let m = (db_next d)(EPISODE := next_after (map er_id (db_episodes d)), SEMANTIC_FACT := next_after (map fr_id (db_facts d)),
                          SEMANTIC_EDGE := next_after (map ed_id (db_edges d)), SKILL := next_after (map sk_id (db_skills d)))
      in d\<lparr>db_next := if v2 then m(IDENTITY := next_after (map iw_id (db_identities d)),
                                  MOOD := next_after (map mw_id (db_moods d)), GOAL := next_after (map gw_id (db_goals d)))
                      else m\<rparr>)"

text \<open>The transaction; \<open>Inl\<close> rolls back.\<close>

definition load_tables :: "snap_io \<Rightarrow> bool \<Rightarrow> bool \<Rightarrow> json list \<Rightarrow> json list \<Rightarrow> json list \<Rightarrow> json list \<Rightarrow> json list \<Rightarrow>
    json list \<Rightarrow> json list \<Rightarrow> json list \<Rightarrow> snap_db \<Rightarrow> snap_db res" where
  "load_tables io replace v2 eps fas eds sks ids drs mos gos d =
     (let d0 = (if replace then clear_tables v2 d else d)
      in if \<not> so_db io then Inl (OtherError ''database'')
         else ok_bind (map_res (read_episode_row io) eps) (\<lambda>er. ok_bind (map_res (read_fact_row io) fas) (\<lambda>fr.
              ok_bind (map_res read_edge_row eds) (\<lambda>ed. ok_bind (map_res (read_skill_row io) sks) (\<lambda>sk.
              ok_bind (if v2 then map_res (read_identity_row io) ids else Inr []) (\<lambda>iw.
              ok_bind (if v2 then map_res (read_drive_row io) drs else Inr []) (\<lambda>dr.
              ok_bind (if v2 then map_res (read_mood_row io) mos else Inr []) (\<lambda>mw.
              ok_bind (if v2 then map_res (read_goal_row io) gos else Inr []) (\<lambda>gw.
                let d1 = d0\<lparr>db_episodes := db_episodes d0 @ er, db_facts := db_facts d0 @ fr, db_edges := db_edges d0 @ ed,
                            db_skills := db_skills d0 @ sk, db_identities := db_identities d0 @ iw,
                            db_drives := db_drives d0 @ dr, db_moods := db_moods d0 @ mw, db_goals := db_goals d0 @ gw\<rparr>
                in if db_ok d1 then Inr (resync_sequences v2 d1) else Inl (OtherError ''IntegrityError''))))))))))"

definition restore_counts :: "bool \<Rightarrow> (string \<times> json list) list \<Rightarrow> (string \<times> json list) list \<Rightarrow> (string \<times> nat) list" where
  "restore_counts v2 base extra = map (\<lambda>(k, xs). (k, length xs)) (if v2 then base @ extra else base)"

text \<open>The items are imported as they are parsed.\<close>

fun import_dicts :: "json list \<Rightarrow> working_memory \<Rightarrow> working_memory \<times> unit res" where
  "import_dicts [] w = (w, Inr ())"
| "import_dicts (j # js) w =
     (case working_item j of Inl e \<Rightarrow> (w, Inl e) | Inr i \<Rightarrow> import_dicts js (import_items [i] w))"

definition restore :: "snap_io \<Rightarrow> string \<Rightarrow> bool \<Rightarrow> disk \<Rightarrow> snap_db \<Rightarrow> working_memory \<Rightarrow>
    snap_db \<times> working_memory \<times> (string \<times> nat) list res" where
  "restore io dir replace fs d wm =
     (case ok_bind (read_version io fs dir) (\<lambda>ver.
        if \<not> (equals_int ver 1 \<or> equals_int ver SNAPSHOT_VERSION) then Inl ValueError
        else ok_bind (read_jsonl io fs (in_dir dir EPISODES_FILE)) (\<lambda>eps.
             ok_bind (read_jsonl io fs (in_dir dir FACTS_FILE)) (\<lambda>fas.
             ok_bind (read_jsonl io fs (in_dir dir EDGES_FILE)) (\<lambda>eds.
             ok_bind (read_jsonl io fs (in_dir dir SKILLS_FILE)) (\<lambda>sks.
             ok_bind (read_jsonl io fs (in_dir dir WORKING_FILE)) (\<lambda>wks.
             ok_bind (read_jsonl io fs (in_dir dir IDENTITY_FILE)) (\<lambda>ids.
             ok_bind (read_jsonl io fs (in_dir dir DRIVES_FILE)) (\<lambda>drs.
             ok_bind (read_jsonl io fs (in_dir dir MOOD_FILE)) (\<lambda>mos.
             ok_bind (read_jsonl io fs (in_dir dir GOALS_FILE)) (\<lambda>gos.
             let v2 = equals_int ver SNAPSHOT_VERSION
             in ok_bind (load_tables io replace v2 eps fas eds sks ids drs mos gos d) (\<lambda>d1.
                Inr (d1, wks, restore_counts v2
                  [(''episodes'', eps), (''semantic_facts'', fas), (''semantic_edges'', eds), (''skills'', sks),
                   (''working_memory'', wks)]
                  [(''identity'', ids), (''drive_state'', drs), (''mood'', mos), (''goal'', gos)])))))))))))) of
        Inl e \<Rightarrow> (d, wm, Inl e)
      | Inr (d1, wks, counts) \<Rightarrow>
          let wm1 = (if replace then wm_clear wm else wm)
          in (case import_dicts wks wm1 of
                (wm2, Inl e) \<Rightarrow> (d1, wm2, Inl e)
              | (wm2, Inr u) \<Rightarrow> (d1, wm2, Inr counts)))"

section \<open>Rows survive the trip\<close>

definition keeps :: "snap_io \<Rightarrow> real \<Rightarrow> bool" where
  "keeps io t \<longleftrightarrow> so_from_iso io (so_iso io t) = Inr t"

lemma as_list_simps [simp]:
  "as_list as_str (strs xs) = Inr xs" "as_list as_float (floats fl) = Inr fl" "as_list as_nat (nats ns) = Inr ns"
  by (simp_all add: strs_def floats_def nats_def map_res_map [where h = "\<lambda>x. x"])

lemma stamp_iso [simp]: "keeps io t \<Longrightarrow> stamp io (JStr (so_iso io t)) = Inr t"
  by (simp add: stamp_def keeps_def)

lemma read_episode: "keeps io (er_ts r) \<Longrightarrow> read_episode_row io (episode_dict io r) = Inr r"
  by (simp add: read_episode_row_def episode_dict_def only_def)

lemma read_fact: "keeps io (fr_created_at r) \<Longrightarrow> keeps io (fr_updated_at r) \<Longrightarrow> read_fact_row io (fact_dict io r) = Inr r"
  by (simp add: read_fact_row_def fact_dict_def only_def)

lemma read_edge: "read_edge_row (edge_dict r) = Inr r"
  by (simp add: read_edge_row_def edge_dict_def only_def)

lemma read_skill: "keeps io (sk_created_at r) \<Longrightarrow> keeps io (sk_updated_at r) \<Longrightarrow> read_skill_row io (skill_dict io r) = Inr r"
  by (simp add: read_skill_row_def skill_dict_def only_def)

lemma read_identity: "keeps io (iw_created_at r) \<Longrightarrow> read_identity_row io (identity_dict io r) = Inr r"
  by (simp add: read_identity_row_def identity_dict_def only_def)

lemma read_drive: "keeps io (row_updated_at r) \<Longrightarrow> read_drive_row io (drive_dict io r) = Inr r"
  by (simp add: read_drive_row_def drive_dict_def only_def)

lemma read_mood: "keeps io (mw_ts r) \<Longrightarrow> read_mood_row io (mood_dict io r) = Inr r"
  by (simp add: read_mood_row_def mood_dict_def only_def)

lemma read_goal:
  "keeps io (gw_created_at r) \<Longrightarrow> (\<And>t. gw_resolved_at r = Some t \<Longrightarrow> keeps io t) \<Longrightarrow> read_goal_row io (goal_dict io r) = Inr r"
  by (cases "gw_resolved_at r") (simp_all add: read_goal_row_def goal_dict_def only_def dict_get_def)

lemma read_working: "working_item (working_dict i) = Inr i"
  by (cases "wm_expires_at i") (simp_all add: working_item_def working_dict_def)

section \<open>Files survive the trip\<close>

definition prints :: "snap_io \<Rightarrow> json \<Rightarrow> bool" where
  "prints io j \<longleftrightarrow> so_loads io (so_dumps io j) = Inr j \<and> so_dumps io j \<noteq> [] \<and> strip (so_dumps io j) = so_dumps io j \<and>
     CHR 0x0A \<notin> set (so_dumps io j) \<and> CHR 0x0D \<notin> set (so_dumps io j)"

lemma file_lines_line:
  "CHR 0x0A \<notin> set t \<Longrightarrow> CHR 0x0D \<notin> set t \<Longrightarrow> file_lines l (t @ CHR 0x0A # cs) = (l @ t) # file_lines [] cs"
  by (induction t arbitrary: l) auto

lemma file_lines_jsonl:
  "(\<And>j. j \<in> set js \<Longrightarrow> prints io j) \<Longrightarrow> file_lines [] (jsonl io js) = map (so_dumps io) js @ [[]]"
  by (induction js) (simp_all add: jsonl_def NEWLINE_def prints_def file_lines_line)

lemma read_jsonl_back:
  assumes "fs path = Some (jsonl io js)" "\<And>j. j \<in> set js \<Longrightarrow> prints io j"
  shows "read_jsonl io fs path = Inr js"
proof -
  have "map strip (map (so_dumps io) js) = map (so_dumps io) js"
    using assms(2) by (simp add: prints_def)
  moreover have "filter (\<lambda>l. l \<noteq> []) (map (so_dumps io) js) = map (so_dumps io) js"
    using assms(2) by (intro filter_True) (auto simp: prints_def)
  ultimately have "filter (\<lambda>l. l \<noteq> []) (map strip (file_lines [] (jsonl io js))) = map (so_dumps io) js"
    using file_lines_jsonl [of js io] assms(2) by (simp del: map_map)
  moreover have "map_res (so_loads io) (map (so_dumps io) js) = Inr (map (\<lambda>j. j) js)"
    using assms(2) by (intro map_res_map) (simp add: prints_def)
  ultimately show ?thesis by (simp add: read_jsonl_def assms(1))
qed

lemma write_files_effect:
  assumes "write_files io ps fs = (fs', Inr u)" "distinct (map fst ps)"
  shows "(\<forall>(p, t)\<in>set ps. fs' p = Some t) \<and> (\<forall>p. p \<notin> fst ` set ps \<longrightarrow> fs' p = fs p)"
  using assms
proof (induction ps arbitrary: fs)
  case (Cons e ps)
  obtain p t where e: "e = (p, t)" by fastforce
  have w: "so_write io p = None" "write_files io ps (fs(p \<mapsto> t)) = (fs', Inr u)"
    using Cons.prems(1) by (simp_all add: e write_file_def split: option.splits)
  from Cons.IH [OF w(2)] Cons.prems(2) show ?case by (auto simp: e)
qed simp

text \<open>A write that fails stops the others.\<close>

lemma write_files_fail:
  assumes "write_files io ps fs = (fs', Inl e)"
  shows "\<exists>ps1 p t ps2 torn. ps = ps1 @ (p, t) # ps2 \<and> so_write io p = Some torn \<and>
    (\<forall>q. q \<notin> fst ` set (ps1 @ [(p, t)]) \<longrightarrow> fs' q = fs q) \<and> fs' p = Some torn"
  using assms
proof (induction ps arbitrary: fs)
  case (Cons x ps)
  obtain p t where x: "x = (p, t)" by fastforce
  show ?case
  proof (cases "so_write io p")
    case None
    with Cons.prems have "write_files io ps (fs(p \<mapsto> t)) = (fs', Inl e)" by (simp add: x write_file_def)
    from Cons.IH [OF this] obtain ps1 p' t' ps2 torn where
      "ps = ps1 @ (p', t') # ps2" "so_write io p' = Some torn" "fs' p' = Some torn"
      "\<forall>q. q \<notin> fst ` set (ps1 @ [(p', t')]) \<longrightarrow> fs' q = (fs(p \<mapsto> t)) q" by blast
    then show ?thesis
      by (intro exI [of _ "x # ps1"] exI [of _ p'] exI [of _ t'] exI [of _ ps2] exI [of _ torn]) (auto simp: x)
  next
    case (Some torn)
    with Cons.prems have "fs' = fs(p \<mapsto> torn)" by (simp add: x write_file_def)
    with Some show ?thesis
      by (intro exI [of _ "[]"] exI [of _ p] exI [of _ t] exI [of _ ps] exI [of _ torn]) (simp add: x)
  qed
qed simp

section \<open>The working set survives the trip\<close>

lemma import_items_view:
  "distinct (map wm_id is) \<Longrightarrow> wm_view (import_items is w) k =
     (case find (\<lambda>i. wm_id i = k) is of None \<Rightarrow> wm_view w k | Some i \<Rightarrow> Some i)"
proof (induction "is" arbitrary: w)
  case (Cons i "is")
  have "find (\<lambda>j. wm_id j = wm_id i) is = None" using Cons.prems by (simp add: find_None_iff) (metis imageI)
  with Cons show ?case by (auto simp: import_items_def split: option.split)
qed (simp add: import_items_def)

lemma import_dicts_back: "import_dicts (map working_dict is) w = (import_items is w, Inr ())"
  by (induction "is" arbitrary: w) (simp_all add: read_working import_items_def)

lemma export_import_view:
  assumes "wm_ok w" "hvals_ok hv"
  shows "wm_view (import_items (read_all hv w) (wm_clear w2)) = wm_view w"
proof
  fix k
  have d: "distinct (map wm_id (read_all hv w))" and r: "set (read_all hv w) = ran (wm_view w)"
    using wm_ok_ids [OF assms] by auto
  have c: "wm_view (wm_clear w2) k = None" by (simp add: wm_view_def wm_clear_def)
  have "find (\<lambda>i. wm_id i = k) (read_all hv w) = wm_view w k"
  proof (cases "find (\<lambda>i. wm_id i = k) (read_all hv w)")
    case None
    then have "\<And>i. i \<in> ran (wm_view w) \<Longrightarrow> wm_id i \<noteq> k" using r by (auto simp: find_None_iff)
    then have "wm_view w k = None"
      using assms(1) by (cases "wm_view w k") (auto simp: wm_ok_def ran_def)
    with None show ?thesis by simp
  next
    case (Some i)
    then have "i \<in> ran (wm_view w)" "wm_id i = k" using r find_row [OF Some] by auto
    with Some show ?thesis using ran_view [OF assms(1), of i] by simp
  qed
  then show "wm_view (import_items (read_all hv w) (wm_clear w2)) k = wm_view w k"
    using import_items_view [OF d, of "wm_clear w2" k] c by (simp split: option.split)
qed

section \<open>A snapshot restores identically\<close>

definition row_times :: "snap_db \<Rightarrow> real list" where
  "row_times d = map er_ts (db_episodes d) @ map fr_created_at (db_facts d) @ map fr_updated_at (db_facts d) @
     map sk_created_at (db_skills d) @ map sk_updated_at (db_skills d) @ map iw_created_at (db_identities d) @
     map row_updated_at (db_drives d) @ map mw_ts (db_moods d) @ map gw_created_at (db_goals d) @
     List.map_filter gw_resolved_at (db_goals d)"

definition row_values :: "snap_io \<Rightarrow> snap_db \<Rightarrow> wm_item list \<Rightarrow> json list" where
  "row_values io d items = map (episode_dict io) (db_episodes d) @ map (fact_dict io) (db_facts d) @
     map edge_dict (db_edges d) @ map (skill_dict io) (db_skills d) @ map (identity_dict io) (db_identities d) @
     map (drive_dict io) (db_drives d) @ map (mood_dict io) (db_moods d) @ map (goal_dict io) (db_goals d) @
     map working_dict items"

text \<open>The printers are inverted by the parsers on what is printed: each row prints as one line, not
  blank and without outer space.\<close>

definition faithful :: "snap_io \<Rightarrow> snap_db \<Rightarrow> wm_item list \<Rightarrow> bool" where
  "faithful io d items \<longleftrightarrow> list_all (keeps io) (row_times d) \<and> list_all (prints io) (row_values io d items) \<and>
     so_loads io (so_dumps_indent io (manifest io d items)) = Inr (manifest io d items)"

definition same_stores :: "snap_db \<Rightarrow> snap_db \<Rightarrow> bool" where
  "same_stores d d' \<longleftrightarrow> db_episodes d' = db_episodes d \<and> db_facts d' = db_facts d \<and> db_edges d' = db_edges d \<and>
     db_skills d' = db_skills d \<and> db_identities d' = db_identities d \<and> db_drives d' = db_drives d \<and>
     db_moods d' = db_moods d \<and> db_goals d' = db_goals d"

definition ids_fresh :: "snap_db \<Rightarrow> bool" where
  "ids_fresh d \<longleftrightarrow>
     list_all (\<lambda>r. er_id r < db_next d EPISODE) (db_episodes d) \<and> list_all (\<lambda>r. fr_id r < db_next d SEMANTIC_FACT) (db_facts d) \<and>
     list_all (\<lambda>r. ed_id r < db_next d SEMANTIC_EDGE) (db_edges d) \<and> list_all (\<lambda>r. sk_id r < db_next d SKILL) (db_skills d) \<and>
     list_all (\<lambda>r. iw_id r < db_next d IDENTITY) (db_identities d) \<and> list_all (\<lambda>r. mw_id r < db_next d MOOD) (db_moods d) \<and>
     list_all (\<lambda>r. gw_id r < db_next d GOAL) (db_goals d)"

lemma next_after_fresh: "list_all (\<lambda>r. f r < next_after (map f rs)) rs"
proof -
  have "f r \<le> Max (set (map f rs))" if "r \<in> set rs" for r using that by simp
  then show ?thesis by (auto simp: list_all_iff next_after_def less_Suc_eq_le intro: le_max_iff_disj [THEN iffD2])
qed

lemma resync_stores [simp]:
  "db_episodes (resync_sequences v d) = db_episodes d" "db_facts (resync_sequences v d) = db_facts d"
  "db_edges (resync_sequences v d) = db_edges d" "db_skills (resync_sequences v d) = db_skills d"
  "db_identities (resync_sequences v d) = db_identities d" "db_drives (resync_sequences v d) = db_drives d"
  "db_moods (resync_sequences v d) = db_moods d" "db_goals (resync_sequences v d) = db_goals d"
  "db_thoughts (resync_sequences v d) = db_thoughts d"
  by (simp_all add: resync_sequences_def Let_def)

lemma resync_fresh: "ids_fresh (resync_sequences True d)"
  unfolding ids_fresh_def resync_stores by (simp add: resync_sequences_def Let_def next_after_fresh)

lemma faithful_parts:
  assumes "faithful io d items"
  shows "\<And>j. j \<in> set (map (episode_dict io) (db_episodes d)) \<Longrightarrow> prints io j"
    "\<And>j. j \<in> set (map (fact_dict io) (db_facts d)) \<Longrightarrow> prints io j"
    "\<And>j. j \<in> set (map edge_dict (db_edges d)) \<Longrightarrow> prints io j"
    "\<And>j. j \<in> set (map (skill_dict io) (db_skills d)) \<Longrightarrow> prints io j"
    "\<And>j. j \<in> set (map (identity_dict io) (db_identities d)) \<Longrightarrow> prints io j"
    "\<And>j. j \<in> set (map (drive_dict io) (db_drives d)) \<Longrightarrow> prints io j"
    "\<And>j. j \<in> set (map (mood_dict io) (db_moods d)) \<Longrightarrow> prints io j"
    "\<And>j. j \<in> set (map (goal_dict io) (db_goals d)) \<Longrightarrow> prints io j"
    "\<And>j. j \<in> set (map working_dict items) \<Longrightarrow> prints io j"
proof -
  have all: "\<And>j. j \<in> set (row_values io d items) \<Longrightarrow> prints io j"
    using assms by (simp add: faithful_def list_all_iff)
  show "\<And>j. j \<in> set (map (episode_dict io) (db_episodes d)) \<Longrightarrow> prints io j"
    "\<And>j. j \<in> set (map (fact_dict io) (db_facts d)) \<Longrightarrow> prints io j"
    "\<And>j. j \<in> set (map edge_dict (db_edges d)) \<Longrightarrow> prints io j"
    "\<And>j. j \<in> set (map (skill_dict io) (db_skills d)) \<Longrightarrow> prints io j"
    "\<And>j. j \<in> set (map (identity_dict io) (db_identities d)) \<Longrightarrow> prints io j"
    "\<And>j. j \<in> set (map (drive_dict io) (db_drives d)) \<Longrightarrow> prints io j"
    "\<And>j. j \<in> set (map (mood_dict io) (db_moods d)) \<Longrightarrow> prints io j"
    "\<And>j. j \<in> set (map (goal_dict io) (db_goals d)) \<Longrightarrow> prints io j"
    "\<And>j. j \<in> set (map working_dict items) \<Longrightarrow> prints io j"
    by (rule all; simp add: row_values_def)+
qed

lemma resolved_kept: "list_all P (List.map_filter f xs) \<Longrightarrow> x \<in> set xs \<Longrightarrow> f x = Some y \<Longrightarrow> P y"
  by (induction xs) (auto simp: map_filter_simps split: option.splits)

lemma rows_back:
  assumes "faithful io d items"
  shows "map_res (read_episode_row io) (map (episode_dict io) (db_episodes d)) = Inr (db_episodes d)"
    "map_res (read_fact_row io) (map (fact_dict io) (db_facts d)) = Inr (db_facts d)"
    "map_res read_edge_row (map edge_dict (db_edges d)) = Inr (db_edges d)"
    "map_res (read_skill_row io) (map (skill_dict io) (db_skills d)) = Inr (db_skills d)"
    "map_res (read_identity_row io) (map (identity_dict io) (db_identities d)) = Inr (db_identities d)"
    "map_res (read_drive_row io) (map (drive_dict io) (db_drives d)) = Inr (db_drives d)"
    "map_res (read_mood_row io) (map (mood_dict io) (db_moods d)) = Inr (db_moods d)"
    "map_res (read_goal_row io) (map (goal_dict io) (db_goals d)) = Inr (db_goals d)"
proof -
  have t: "list_all (keeps io) (row_times d)" using assms by (simp add: faithful_def)
  have k: "\<And>t. t \<in> set (row_times d) \<Longrightarrow> keeps io t" using t by (simp add: list_all_iff)
  note m = map_res_map [where h = "\<lambda>x. x", unfolded list.map_ident]
  show "map_res (read_episode_row io) (map (episode_dict io) (db_episodes d)) = Inr (db_episodes d)"
    by (intro m read_episode k) (simp add: row_times_def)
  show "map_res (read_fact_row io) (map (fact_dict io) (db_facts d)) = Inr (db_facts d)"
    by (intro m read_fact k) (simp_all add: row_times_def)
  show "map_res read_edge_row (map edge_dict (db_edges d)) = Inr (db_edges d)"
    by (intro m read_edge)
  show "map_res (read_skill_row io) (map (skill_dict io) (db_skills d)) = Inr (db_skills d)"
    by (intro m read_skill k) (simp_all add: row_times_def)
  show "map_res (read_identity_row io) (map (identity_dict io) (db_identities d)) = Inr (db_identities d)"
    by (intro m read_identity k) (simp add: row_times_def)
  show "map_res (read_drive_row io) (map (drive_dict io) (db_drives d)) = Inr (db_drives d)"
    by (intro m read_drive k) (simp add: row_times_def)
  show "map_res (read_mood_row io) (map (mood_dict io) (db_moods d)) = Inr (db_moods d)"
    by (intro m read_mood k) (simp add: row_times_def)
  have r: "list_all (keeps io) (List.map_filter gw_resolved_at (db_goals d))" using t by (simp add: row_times_def)
  show "map_res (read_goal_row io) (map (goal_dict io) (db_goals d)) = Inr (db_goals d)"
  proof (intro m read_goal)
    fix g assume g: "g \<in> set (db_goals d)"
    then show "keeps io (gw_created_at g)" by (intro k) (simp add: row_times_def)
    show "keeps io t" if "gw_resolved_at g = Some t" for t using resolved_kept [OF r g that] .
  qed
qed

lemma load_back:
  assumes "faithful io d items" "so_db io" "db_ok d"
  shows "\<exists>d2. load_tables io True True (map (episode_dict io) (db_episodes d)) (map (fact_dict io) (db_facts d))
      (map edge_dict (db_edges d)) (map (skill_dict io) (db_skills d)) (map (identity_dict io) (db_identities d))
      (map (drive_dict io) (db_drives d)) (map (mood_dict io) (db_moods d)) (map (goal_dict io) (db_goals d)) other = Inr d2 \<and>
    same_stores d d2 \<and> ids_fresh d2 \<and> db_thoughts d2 = map (\<lambda>t. t\<lparr>th_mood := None\<rparr>) (db_thoughts other)"
proof -
  define d1 where "d1 = (clear_tables True other)\<lparr>db_episodes := db_episodes d, db_facts := db_facts d, db_edges := db_edges d,
    db_skills := db_skills d, db_identities := db_identities d, db_drives := db_drives d, db_moods := db_moods d,
    db_goals := db_goals d\<rparr>"
  have s: "same_stores d d1" "db_thoughts d1 = map (\<lambda>t. t\<lparr>th_mood := None\<rparr>) (db_thoughts other)"
    by (simp_all add: d1_def same_stores_def clear_tables_def Let_def)
  have ok: "db_ok d1" using assms(3) s by (simp add: db_ok_def same_stores_def)
  have "load_tables io True True (map (episode_dict io) (db_episodes d)) (map (fact_dict io) (db_facts d))
      (map edge_dict (db_edges d)) (map (skill_dict io) (db_skills d)) (map (identity_dict io) (db_identities d))
      (map (drive_dict io) (db_drives d)) (map (mood_dict io) (db_moods d)) (map (goal_dict io) (db_goals d)) other =
    (if db_ok d1 then Inr (resync_sequences True d1) else Inl (OtherError ''IntegrityError''))"
    unfolding load_tables_def rows_back [OF assms(1)] if_True ok_bind_simps Let_def
    using assms(2) by (simp add: d1_def clear_tables_def Let_def)
  then show ?thesis using ok s resync_fresh [of d1] by (simp add: same_stores_def)
qed

lemma in_dir_eq [simp]: "in_dir dir f = in_dir dir g \<longleftrightarrow> f = g"
  by (simp add: in_dir_def)

lemma snapshot_files:
  assumes "snapshot io hv clock dir d wm fs = (fs', wm', Inr dir')"
  shows "dir' = dir \<and> so_db io \<and> wm' = fst (prune_expired hv clock wm) \<and>
    fs' (in_dir dir MANIFEST_FILE) = Some (so_dumps_indent io (manifest io d (read_all hv wm'))) \<and>
    fs' (in_dir dir WORKING_FILE) = Some (jsonl io (map working_dict (read_all hv wm'))) \<and>
    fs' (in_dir dir EPISODES_FILE) = Some (jsonl io (map (episode_dict io) (db_episodes d))) \<and>
    fs' (in_dir dir FACTS_FILE) = Some (jsonl io (map (fact_dict io) (db_facts d))) \<and>
    fs' (in_dir dir EDGES_FILE) = Some (jsonl io (map edge_dict (db_edges d))) \<and>
    fs' (in_dir dir SKILLS_FILE) = Some (jsonl io (map (skill_dict io) (db_skills d))) \<and>
    fs' (in_dir dir IDENTITY_FILE) = Some (jsonl io (map (identity_dict io) (db_identities d))) \<and>
    fs' (in_dir dir DRIVES_FILE) = Some (jsonl io (map (drive_dict io) (db_drives d))) \<and>
    fs' (in_dir dir MOOD_FILE) = Some (jsonl io (map (mood_dict io) (db_moods d))) \<and>
    fs' (in_dir dir GOALS_FILE) = Some (jsonl io (map (goal_dict io) (db_goals d)))"
proof -
  obtain wm1 items where ex: "export_items hv clock wm = (wm1, items)" by fastforce
  have wm1: "wm1 = fst (prune_expired hv clock wm)" "items = read_all hv wm1"
    using ex by (auto simp: export_items_def Let_def)
  let ?last = "[(in_dir dir WORKING_FILE, jsonl io (map working_dict items)),
    (in_dir dir MANIFEST_FILE, so_dumps_indent io (manifest io d items))]"
  have db: "so_db io" using assms by (auto simp: snapshot_def split: if_splits)
  obtain fs1 r1 where w1: "write_files io (store_files io dir d) fs = (fs1, r1)" by fastforce
  obtain u where u: "r1 = Inr u" using assms db w1 by (cases r1) (simp_all add: snapshot_def)
  obtain fs2 r2 where w2: "write_files io ?last fs1 = (fs2, r2)" by fastforce
  obtain v where v: "r2 = Inr v"
    using assms db w1 u ex w2 by (cases r2) (simp_all add: snapshot_def Let_def del: write_files.simps)
  have out: "fs' = fs2" "wm' = wm1" "dir' = dir"
    using assms db w1 u ex w2 v by (simp_all add: snapshot_def Let_def del: write_files.simps)
  have e1: "(\<forall>(p, t)\<in>set (store_files io dir d). fs1 p = Some t)"
    using write_files_effect [OF w1 [unfolded u]] by (simp add: store_files_def file_names)
  have e2: "(\<forall>(p, t)\<in>set ?last. fs2 p = Some t)" "\<forall>p. p \<notin> fst ` set ?last \<longrightarrow> fs2 p = fs1 p"
    using write_files_effect [OF w2 [unfolded v]] by (simp_all add: file_names)
  have n: "fs2 (in_dir dir f) = fs1 (in_dir dir f)" if "f \<noteq> WORKING_FILE" "f \<noteq> MANIFEST_FILE" for f
    using e2(2) that by simp
  have o: "fs1 (in_dir dir EPISODES_FILE) = Some (jsonl io (map (episode_dict io) (db_episodes d)))"
    "fs1 (in_dir dir FACTS_FILE) = Some (jsonl io (map (fact_dict io) (db_facts d)))"
    "fs1 (in_dir dir EDGES_FILE) = Some (jsonl io (map edge_dict (db_edges d)))"
    "fs1 (in_dir dir SKILLS_FILE) = Some (jsonl io (map (skill_dict io) (db_skills d)))"
    "fs1 (in_dir dir IDENTITY_FILE) = Some (jsonl io (map (identity_dict io) (db_identities d)))"
    "fs1 (in_dir dir DRIVES_FILE) = Some (jsonl io (map (drive_dict io) (db_drives d)))"
    "fs1 (in_dir dir MOOD_FILE) = Some (jsonl io (map (mood_dict io) (db_moods d)))"
    "fs1 (in_dir dir GOALS_FILE) = Some (jsonl io (map (goal_dict io) (db_goals d)))"
    using e1 by (simp_all add: store_files_def)
  have l: "fs2 (in_dir dir WORKING_FILE) = Some (jsonl io (map working_dict items))"
    "fs2 (in_dir dir MANIFEST_FILE) = Some (so_dumps_indent io (manifest io d items))"
    using e2(1) by simp_all
  have ne: "EPISODES_FILE \<noteq> WORKING_FILE" "EPISODES_FILE \<noteq> MANIFEST_FILE" "FACTS_FILE \<noteq> WORKING_FILE" "FACTS_FILE \<noteq> MANIFEST_FILE"
    "EDGES_FILE \<noteq> WORKING_FILE" "EDGES_FILE \<noteq> MANIFEST_FILE" "SKILLS_FILE \<noteq> WORKING_FILE" "SKILLS_FILE \<noteq> MANIFEST_FILE"
    "IDENTITY_FILE \<noteq> WORKING_FILE" "IDENTITY_FILE \<noteq> MANIFEST_FILE" "DRIVES_FILE \<noteq> WORKING_FILE" "DRIVES_FILE \<noteq> MANIFEST_FILE"
    "MOOD_FILE \<noteq> WORKING_FILE" "MOOD_FILE \<noteq> MANIFEST_FILE" "GOALS_FILE \<noteq> WORKING_FILE" "GOALS_FILE \<noteq> MANIFEST_FILE"
    by (simp_all add: file_names)
  show ?thesis unfolding out using db l o n ne wm1 by simp
qed

text \<open>C14: a snapshot that was written restores identically, into any database and working memory:
  every store has the rows it had, the id sequences are past the restored ids, the working set is the
  one at the time of the snapshot, and the counts reported are those of the manifest.  Only the
  thoughts of the target lose their reference to a mood.  (The printers and parsers have to agree on
  what was printed.)\<close>

theorem snapshot_roundtrip:
  assumes "snapshot io hv clock dir d wm fs = (fs', wm', Inr dir')"
    and "faithful io d (read_all hv wm')" "db_ok d" "wm_ok wm" "hvals_ok hv"
  shows "\<exists>d2 wm2 counts. restore io dir' True fs' other wm_other = (d2, wm2, Inr counts) \<and>
    same_stores d d2 \<and> ids_fresh d2 \<and> db_thoughts d2 = map (\<lambda>t. t\<lparr>th_mood := None\<rparr>) (db_thoughts other) \<and>
    wm_view wm2 = wm_view wm' \<and>
    dict_get [(''version'', JInt SNAPSHOT_VERSION), (''counts'', JDict (map (\<lambda>(k, n). (k, JInt (int n))) counts))] ''counts'' JNull =
      (case manifest io d (read_all hv wm') of JDict m \<Rightarrow> dict_get m ''counts'' JNull | j \<Rightarrow> j)"
proof -
  define items where "items = read_all hv wm'"
  note f = snapshot_files [OF assms(1), folded items_def]
  note fa = assms(2) [folded items_def]
  have db: "so_db io" and dir: "dir' = dir" and wm': "wm' = fst (prune_expired hv clock wm)" using f by blast+
  have ok': "wm_ok wm'"
    using prune_expired_effect [of hv clock wm wm' "snd (prune_expired hv clock wm)"] assms(4,5) wm' by simp
  note p = faithful_parts [OF fa]
  have m: "read_version io fs' dir = Inr (JInt 2)"
    using f fa unfolding read_version_def items_def [symmetric]
    by (simp add: faithful_def manifest_def SNAPSHOT_VERSION_def dict_get_def)
  have files: "read_jsonl io fs' (in_dir dir EPISODES_FILE) = Inr (map (episode_dict io) (db_episodes d))"
    "read_jsonl io fs' (in_dir dir FACTS_FILE) = Inr (map (fact_dict io) (db_facts d))"
    "read_jsonl io fs' (in_dir dir EDGES_FILE) = Inr (map edge_dict (db_edges d))"
    "read_jsonl io fs' (in_dir dir SKILLS_FILE) = Inr (map (skill_dict io) (db_skills d))"
    "read_jsonl io fs' (in_dir dir IDENTITY_FILE) = Inr (map (identity_dict io) (db_identities d))"
    "read_jsonl io fs' (in_dir dir DRIVES_FILE) = Inr (map (drive_dict io) (db_drives d))"
    "read_jsonl io fs' (in_dir dir MOOD_FILE) = Inr (map (mood_dict io) (db_moods d))"
    "read_jsonl io fs' (in_dir dir GOALS_FILE) = Inr (map (goal_dict io) (db_goals d))"
    "read_jsonl io fs' (in_dir dir WORKING_FILE) = Inr (map working_dict items)"
    using f by (blast intro: read_jsonl_back p)+
  from load_back [OF fa db assms(3), of other] obtain d2 where d2:
    "load_tables io True True (map (episode_dict io) (db_episodes d)) (map (fact_dict io) (db_facts d))
      (map edge_dict (db_edges d)) (map (skill_dict io) (db_skills d)) (map (identity_dict io) (db_identities d))
      (map (drive_dict io) (db_drives d)) (map (mood_dict io) (db_moods d)) (map (goal_dict io) (db_goals d)) other = Inr d2"
    "same_stores d d2" "ids_fresh d2" "db_thoughts d2 = map (\<lambda>t. t\<lparr>th_mood := None\<rparr>) (db_thoughts other)" by blast
  have v: "wm_view (import_items items (wm_clear wm_other)) = wm_view wm'"
    unfolding items_def by (rule export_import_view [OF ok' assms(5)])
  have r: "restore io dir True fs' other wm_other = (d2, import_items items (wm_clear wm_other),
      Inr (restore_counts True
        [(''episodes'', map (episode_dict io) (db_episodes d)), (''semantic_facts'', map (fact_dict io) (db_facts d)),
         (''semantic_edges'', map edge_dict (db_edges d)), (''skills'', map (skill_dict io) (db_skills d)),
         (''working_memory'', map working_dict items)]
        [(''identity'', map (identity_dict io) (db_identities d)), (''drive_state'', map (drive_dict io) (db_drives d)),
         (''mood'', map (mood_dict io) (db_moods d)), (''goal'', map (goal_dict io) (db_goals d))]))"
    unfolding restore_def m files ok_bind_simps by (simp add: SNAPSHOT_VERSION_def Let_def d2(1) import_dicts_back)
  show ?thesis
    unfolding dir r items_def [symmetric] using d2 v
    by (simp add: restore_counts_def manifest_def count_of_def dict_get_def)
qed

lemma ok_bind_elim: "ok_bind r f = Inr y \<Longrightarrow> (\<And>x. r = Inr x \<Longrightarrow> f x = Inr y \<Longrightarrow> Q) \<Longrightarrow> Q"
  by (cases r) simp_all

lemma load_tables_ok:
  assumes "load_tables io replace v2 eps fas eds sks ids drs mos gos d = Inr d1"
  shows "db_ok d1"
proof -
  have resync: "db_ok (resync_sequences v x) = db_ok x" for v x by (simp add: db_ok_def)
  have committed: "db_ok d1" if "(if db_ok x then Inr (resync_sequences v2 x) else Inl err) = Inr d1" for x err
  proof (cases "db_ok x")
    case True
    with that have "d1 = resync_sequences v2 x" by simp
    with True resync show ?thesis by simp
  qed (use that in simp)
  have started: "(if \<not> so_db io then Inl (OtherError ''database'') else r) = Inr d1 \<Longrightarrow> r = Inr d1" for r :: "snap_db res"
    by (cases "so_db io") simp_all
  show ?thesis
    using started [OF assms [unfolded load_tables_def Let_def]]
    by (elim ok_bind_elim) (rule committed)
qed



text \<open>A backup of the first version restores the memory spine and leaves identity, drives, moods,
  goals and thoughts alone.\<close>

lemma v1_restores_memory_only:
  assumes "restore io dir replace fs d wm = (d', wm', Inr counts)" "read_version io fs dir = Inr (JInt 1)"
  shows "db_identities d' = db_identities d \<and> db_drives d' = db_drives d \<and> db_moods d' = db_moods d \<and>
    db_goals d' = db_goals d \<and> db_thoughts d' = db_thoughts d \<and> map fst counts =
      [''episodes'', ''semantic_facts'', ''semantic_edges'', ''skills'', ''working_memory'']"
proof -
  have load: "db_identities d1 = db_identities d \<and> db_drives d1 = db_drives d \<and> db_moods d1 = db_moods d \<and>
      db_goals d1 = db_goals d \<and> db_thoughts d1 = db_thoughts d"
    if l: "load_tables io replace False eps fas eds sks ids drs mos gos d = Inr d1" for eps fas eds sks ids drs mos gos d1
  proof -
    have started: "(if \<not> so_db io then Inl (OtherError ''database'') else r) = Inr d1 \<Longrightarrow> r = Inr d1" for r :: "snap_db res"
      by (cases "so_db io") simp_all
    have c: "(if db_ok x then Inr (resync_sequences v x) else Inl err) = Inr d1 \<Longrightarrow> d1 = resync_sequences v x" for x v err
      by (cases "db_ok x") simp_all
    show ?thesis
      using started [OF l [unfolded load_tables_def Let_def]]
      by (elim ok_bind_elim) (drule c, simp add: clear_tables_def Let_def)
  qed
  show ?thesis
    using assms unfolding restore_def assms(2) ok_bind_simps
    by (auto simp: SNAPSHOT_VERSION_def restore_counts_def ok_bind_Inr_iff Let_def dest!: load
        split: sum.splits prod.splits)
qed

text \<open>The counts of the manifest are never compared with what was read: a directory that lost its
  files restores as an empty database.\<close>

lemma lost_files_wipe:
  assumes "read_version io fs dir = Inr (JInt 2)" "so_db io"
    and "\<And>f. f \<noteq> MANIFEST_FILE \<Longrightarrow> fs (in_dir dir f) = None"
  shows "\<exists>d' wm' counts. restore io dir True fs d wm = (d', wm', Inr counts) \<and>
    db_episodes d' = [] \<and> db_facts d' = [] \<and> db_identities d' = [] \<and> db_goals d' = []"
proof -
  have none: "read_jsonl io fs (in_dir dir f) = Inr []" if "f \<noteq> MANIFEST_FILE" for f
    using assms(3) [OF that] by (simp add: read_jsonl_def)
  have files: "read_jsonl io fs (in_dir dir EPISODES_FILE) = Inr []" "read_jsonl io fs (in_dir dir FACTS_FILE) = Inr []"
    "read_jsonl io fs (in_dir dir EDGES_FILE) = Inr []" "read_jsonl io fs (in_dir dir SKILLS_FILE) = Inr []"
    "read_jsonl io fs (in_dir dir IDENTITY_FILE) = Inr []" "read_jsonl io fs (in_dir dir DRIVES_FILE) = Inr []"
    "read_jsonl io fs (in_dir dir MOOD_FILE) = Inr []" "read_jsonl io fs (in_dir dir GOALS_FILE) = Inr []"
    "read_jsonl io fs (in_dir dir WORKING_FILE) = Inr []"
    by (rule none; simp add: file_names)+
  have ok: "db_ok (clear_tables True d)" by (simp add: db_ok_def clear_tables_def Let_def)
  have l: "load_tables io True True [] [] [] [] [] [] [] [] d = Inr (resync_sequences True (clear_tables True d))"
    using assms(2) ok by (simp add: load_tables_def Let_def)
  have c: "db_episodes (clear_tables True d) = []" "db_facts (clear_tables True d) = []"
    "db_identities (clear_tables True d) = []" "db_goals (clear_tables True d) = []"
    by (simp_all add: clear_tables_def Let_def)
  show ?thesis unfolding restore_def assms(1) files ok_bind_simps by (simp add: SNAPSHOT_VERSION_def l c)
qed

section \<open>Demonstrations\<close>

definition snap_episode :: episode_row where
  "snap_episode = \<lparr>er_id = 3, er_ts = 5, er_kind = ''observation'', er_content = ''tea'', er_actors = [],
     er_emotion_tags = [], er_salience = 1/2, er_embedding = [1, 0]\<rparr>"

definition snap_demo :: snap_db where
  "snap_demo = \<lparr>db_episodes = [snap_episode], db_facts = [], db_edges = [], db_skills = [], db_identities = [],
     db_drives = [], db_moods = [], db_goals = [], db_thoughts = [], db_next = (\<lambda>_. 9)\<rparr>"

definition wm_empty :: working_memory where
  "wm_empty = \<lparr>wm_items = [], wm_scores = [], wm_capacity = 3, wm_decay_factor = 1/2, wm_floor = 0, wm_default_ttl = 9\<rparr>"

definition snap_io_demo :: "(string \<Rightarrow> string option) \<Rightarrow> snap_io" where
  "snap_io_demo wr = \<lparr>so_iso = (\<lambda>_. ''t''), so_from_iso = (\<lambda>_. Inr 5), so_dumps = (\<lambda>_. ''e''), so_dumps_indent = (\<lambda>_. ''m''),
     so_loads = (\<lambda>s. if s = ''e'' then Inr (JDict
        [(''id'', JInt 3), (''ts'', JStr ''t''), (''kind'', JStr ''observation''), (''content'', JStr ''tea''),
         (''actors'', strs []), (''emotion_tags'', strs []), (''salience'', JFloat (1/2)), (''embedding'', floats [1, 0])])
       else if s = ''m'' then Inr (JDict
        [(''version'', JInt 2), (''created_at'', JStr ''t''),
         (''counts'', JDict [(''episodes'', JInt 1), (''semantic_facts'', JInt 0), (''semantic_edges'', JInt 0),
           (''skills'', JInt 0), (''working_memory'', JInt 0), (''identity'', JInt 0), (''drive_state'', JInt 0),
           (''mood'', JInt 0), (''goal'', JInt 0)])])
       else Inl ValueError),
     so_write = wr, so_db = True, so_now = 5\<rparr>"

lemma faithful_demo: "faithful (snap_io_demo wr) snap_demo []"
  by (simp add: faithful_def row_times_def row_values_def keeps_def prints_def snap_io_demo_def snap_demo_def
      snap_episode_def episode_dict_def manifest_def count_of_def SNAPSHOT_VERSION_def strip_def is_space_def)

lemma db_ok_demo: "db_ok snap_demo"
  by (simp add: db_ok_def snap_demo_def)

lemma wm_ok_empty: "wm_ok wm_empty"
  by (simp add: wm_ok_def wm_empty_def wm_view_def)

lemma export_empty: "export_items hvals_fifo 0 wm_empty = (wm_empty, [])" "read_all hvals_fifo wm_empty = []"
  by (simp_all add: export_items_def prune_expired_def read_all_def wm_empty_def hvals_fifo_def)

lemma write_all: "(\<And>p. so_write io p = None) \<Longrightarrow> \<exists>fs'. write_files io ps fs = (fs', Inr ())"
  by (induction ps arbitrary: fs) (auto simp: write_file_def)

lemma snapshot_demo: "\<exists>fs'. snapshot (snap_io_demo (\<lambda>_. None)) hvals_fifo 0 ''d'' snap_demo wm_empty (\<lambda>_. None) = (fs', wm_empty, Inr ''d'')"
proof -
  have n: "so_write (snap_io_demo (\<lambda>_. None)) p = None" "so_db (snap_io_demo (\<lambda>_. None))" for p
    by (simp_all add: snap_io_demo_def)
  from write_all [OF n(1)] obtain fs1 where
    f1: "write_files (snap_io_demo (\<lambda>_. None)) (store_files (snap_io_demo (\<lambda>_. None)) ''d'' snap_demo) (\<lambda>_. None) = (fs1, Inr ())" by blast
  let ?last = "[(in_dir ''d'' WORKING_FILE, jsonl (snap_io_demo (\<lambda>_. None)) (map working_dict [])),
    (in_dir ''d'' MANIFEST_FILE, so_dumps_indent (snap_io_demo (\<lambda>_. None)) (manifest (snap_io_demo (\<lambda>_. None)) snap_demo []))]"
  from write_all [OF n(1)] obtain fs2 where f2: "write_files (snap_io_demo (\<lambda>_. None)) ?last fs1 = (fs2, Inr ())" by blast
  show ?thesis using n(2) f1 f2 by (simp add: snapshot_def export_empty Let_def del: write_files.simps)
qed

theorem snapshot_roundtrip_witness:
  "\<exists>fs' d2 wm2 counts. restore (snap_io_demo (\<lambda>_. None)) ''d'' True fs' (snap_demo\<lparr>db_episodes := []\<rparr>) wm_empty = (d2, wm2, Inr counts) \<and>
     db_episodes d2 = [snap_episode]"
proof -
  obtain fs' where s: "snapshot (snap_io_demo (\<lambda>_. None)) hvals_fifo 0 ''d'' snap_demo wm_empty (\<lambda>_. None) = (fs', wm_empty, Inr ''d'')"
    using snapshot_demo by blast
  have fa: "faithful (snap_io_demo (\<lambda>_. None)) snap_demo (read_all hvals_fifo wm_empty)"
    unfolding export_empty by (rule faithful_demo)
  from snapshot_roundtrip [OF s fa db_ok_demo wm_ok_empty hvals_ok_fifo] obtain d2 wm2 counts where
    "restore (snap_io_demo (\<lambda>_. None)) ''d'' True fs' (snap_demo\<lparr>db_episodes := []\<rparr>) wm_empty = (d2, wm2, Inr counts)"
    "same_stores snap_demo d2" by blast
  then show ?thesis by (auto simp: same_stores_def snap_demo_def)
qed

lemma no_manifest: "restore io dir rep (\<lambda>_. None) d wm = (d, wm, Inl (OtherError ''FileNotFoundError''))"
  by (simp add: restore_def read_version_def)



end
