(* ===== verification/WebTools.thy ===== *)
theory WebTools
  imports SafeHttp Effectors Consolidation "HOL-Library.Product_Lexorder" "HOL-Library.List_Lexorder" "HOL-Library.Char_ord"
begin

text \<open>
  The discovery surface: \<^verbatim>\<open>brain/effectors/web_fetch.py\<close> (a page as readable text),
  \<^verbatim>\<open>brain/effectors/searxng.py\<close> with its tools \<^verbatim>\<open>web_search.py\<close> and
  \<^verbatim>\<open>news.py\<close>, and \<^verbatim>\<open>brain/effectors/web_consolidator.py\<close>, which remembers what
  was read.  The standard library's HTML parser is the parameter \<open>wf_events\<close>: the calls it makes of
  the handlers; decoding a body, the text of an exception, the HTTP client, the embedder and the
  model call are parameters too.  (The dashes of the summaries are written as hyphens.)
\<close>

section \<open>Readable text\<close>

datatype html_event =
    StartTag string
  | StartEndTag string
  | EndTag string
  | HtmlData string

definition SKIP_ELEMENTS :: "string list" where
  "SKIP_ELEMENTS = [''script'', ''style'', ''head'', ''noscript'', ''template'', ''svg'', ''iframe'', ''object'', ''embed'',
     ''nav'', ''footer'', ''form'', ''button'', ''aside'']"

definition BLOCK_ELEMENTS :: "string list" where
  "BLOCK_ELEMENTS = [''p'', ''div'', ''section'', ''article'', ''br'', ''li'', ''ul'', ''ol'', ''tr'', ''table'', ''h1'', ''h2'',
     ''h3'', ''h4'', ''h5'', ''h6'', ''blockquote'', ''pre'', ''header'', ''main'', ''hr'']"

record extractor =
  ex_depth :: nat
  ex_title :: bool
  ex_parts :: "string list"
  ex_title_parts :: "string list"

definition new_extractor :: extractor where
  "new_extractor = \<lparr>ex_depth = 0, ex_title = False, ex_parts = [], ex_title_parts = []\<rparr>"

definition line_break :: "string \<Rightarrow> extractor \<Rightarrow> extractor" where
  "line_break tag x = (if tag \<in> set BLOCK_ELEMENTS then x\<lparr>ex_parts := ex_parts x @ [NEWLINE]\<rparr> else x)"

fun html_handle :: "html_event \<Rightarrow> extractor \<Rightarrow> extractor" where
  "html_handle (StartTag tag) x =
     line_break tag (x\<lparr>ex_depth := ex_depth x + (if tag \<in> set SKIP_ELEMENTS then 1 else 0),
                       ex_title := ex_title x \<or> tag = ''title''\<rparr>)"
| "html_handle (StartEndTag tag) x = line_break tag x"
| "html_handle (EndTag tag) x =
     line_break tag (x\<lparr>ex_depth := ex_depth x - (if tag \<in> set SKIP_ELEMENTS then 1 else 0),
                       ex_title := ex_title x \<and> tag \<noteq> ''title''\<rparr>)"
| "html_handle (HtmlData t) x =
     (if ex_title x then x\<lparr>ex_title_parts := ex_title_parts x @ [t]\<rparr>
      else if 0 < ex_depth x then x
      else x\<lparr>ex_parts := ex_parts x @ [t]\<rparr>)"

definition collapse_inline :: "string \<Rightarrow> string" where
  "collapse_inline v = join '' '' (str_split v)"

definition keep_line :: "string list \<Rightarrow> string \<Rightarrow> string list" where
  "keep_line out line = (if line \<noteq> [] then out @ [line] else if out \<noteq> [] \<and> last out \<noteq> [] then out @ [[]] else out)"

definition collapse_blocks :: "string \<Rightarrow> string" where
  "collapse_blocks v = strip (join NEWLINE (foldl keep_line [] (map collapse_inline (splitlines v))))"

definition extract_events :: "html_event list \<Rightarrow> string \<times> string" where
  "extract_events es =
     (let x = fold html_handle es new_extractor
      in (collapse_inline (concat (ex_title_parts x)), collapse_blocks (concat (ex_parts x))))"

section \<open>The page reader\<close>

record web_fetch =
  wf_fetcher :: fetcher
  wf_max_text_chars :: int
  wf_events :: "string \<Rightarrow> html_event list"
  wf_decode :: "string \<Rightarrow> bytes \<Rightarrow> string res"
  wf_exn_text :: "exn \<Rightarrow> string"

definition extract_readable_text :: "web_fetch \<Rightarrow> string \<Rightarrow> string \<times> string" where
  "extract_readable_text wt html = extract_events (wf_events wt html)"

definition web_fetch_validate :: "(string \<times> json) list \<Rightarrow> json res" where
  "web_fetch_validate raw =
     (case raw of
        [(k, JStr url)] \<Rightarrow>
          if k \<noteq> ''url'' \<or> url = [] \<or> 2048 < length url then Inl ValidationError
          else (case urlsplit (strip url) of
                  Inl e \<Rightarrow> Inl ValidationError
                | Inr u \<Rightarrow> if lower (us_scheme u) \<notin> {''http'', ''https''} then Inl ValidationError
                          else if url_hostname u = [] then Inl ValidationError
                          else Inr (JStr (strip url)))
      | _ \<Rightarrow> Inl ValidationError)"

text \<open>Slices and indices with a bound that may be negative count from the end.\<close>

definition py_take :: "int \<Rightarrow> 'a list \<Rightarrow> 'a list" where
  "py_take k xs = (if 0 \<le> k then take (nat k) xs else take (length xs - nat (- k)) xs)"

definition cap_text :: "int \<Rightarrow> string \<Rightarrow> string \<times> bool" where
  "cap_text k s = (if int (length s) \<le> k then (s, False) else (py_take k s, True))"

definition strip_char :: "char \<Rightarrow> string \<Rightarrow> string" where
  "strip_char c s = strip_chars [c] s"

definition charset_part :: "string \<Rightarrow> string option" where
  "charset_part part =
     (let (key, eq, value) = partition_on CHR ''='' (strip part)
      in if lower (strip key) = ''charset'' \<and> value \<noteq> []
         then Some (let v = strip_char CHR 0x27 (strip_char CHR 0x22 (strip value)) in if v = [] then ''utf-8'' else v)
         else None)"

definition charset :: "string \<Rightarrow> string" where
  "charset ct = (case List.map_filter charset_part (tl (split_on CHR '';'' ct)) of [] \<Rightarrow> ''utf-8'' | v # _ \<Rightarrow> v)"

definition TEXT_CONTENT_TYPES :: "string list" where
  "TEXT_CONTENT_TYPES = [''text/html'', ''application/xhtml+xml'', ''text/plain'']"

definition tool_failure :: "string \<Rightarrow> (string \<times> json) list \<Rightarrow> string \<Rightarrow> tool_result" where
  "tool_failure err rest summary = \<lparr>tr_success = False, tr_output = (''error'', JStr err) # rest, tr_summary = summary\<rparr>"

definition read_outcome :: "web_fetch \<Rightarrow> string \<Rightarrow> fetch_outcome \<Rightarrow> tool_result res" where
  "read_outcome wt url oc =
     (let mime = lower (strip (hd (split_on CHR '';'' (fo_content_type oc))))
      in if 400 \<le> fo_status_code oc then
           Inr (tool_failure ''http_status'' [(''status'', JInt (fo_status_code oc)), (''url'', JStr (fo_final_url oc))]
                  (url @ '' returned HTTP '' @ show_int (fo_status_code oc)))
         else if mime \<noteq> [] \<and> mime \<notin> set TEXT_CONTENT_TYPES then
           Inr (tool_failure ''non_text'' [(''content_type'', JStr (fo_content_type oc)), (''url'', JStr (fo_final_url oc))]
                  (url @ '' is non-text content ('' @ mime @ '') - not read''))
         else ok_bind (wf_decode wt (charset (fo_content_type oc)) (fo_body oc)) (\<lambda>decoded.
           let (title, txt) = (if mime = ''text/plain'' then ([], collapse_blocks decoded) else extract_readable_text wt decoded);
               (capped, cut) = cap_text (wf_max_text_chars wt) txt
           in Inr \<lparr>tr_success = True,
                tr_output = [(''url'', JStr (fo_final_url oc)), (''title'', JStr title), (''text'', JStr capped),
                  (''status'', JInt (fo_status_code oc)), (''content_type'', JStr (fo_content_type oc)),
                  (''truncated'', JBool (fo_truncated oc \<or> cut))],
                tr_summary = ''read '' @ fo_final_url oc @ '' ('' @ show_nat (length capped) @ '' chars)'' @
                  (if fo_truncated oc \<or> cut then '' [truncated]'' else [])\<rparr>))"

definition fetch_failure :: "web_fetch \<Rightarrow> string \<Rightarrow> exn \<Rightarrow> tool_result res" where
  "fetch_failure wt url e =
     (case e of
        SsrfError \<Rightarrow> Inr (tool_failure ''blocked'' [(''reason'', JStr (wf_exn_text wt e)), (''url'', JStr url)]
                       (''refused to fetch '' @ url @ '' - '' @ wf_exn_text wt e))
      | HttpTimeout \<Rightarrow> Inr (tool_failure ''timeout'' [(''url'', JStr url)] (''timed out fetching '' @ url))
      | HttpError \<Rightarrow> Inr (tool_failure ''http_error'' [(''reason'', JStr (wf_exn_text wt e)), (''url'', JStr url)]
                       (''could not fetch '' @ url @ '' - '' @ wf_exn_text wt e))
      | _ \<Rightarrow> Inl e)"

definition web_fetch_run :: "'w net \<Rightarrow> web_fetch \<Rightarrow> json \<Rightarrow> 'w \<Rightarrow> 'w \<times> tool_result res" where
  "web_fetch_run net wt args w =
     (case args of
        JStr url \<Rightarrow>
          (case fetch net (wf_fetcher wt) url w of
             (w1, Inl e) \<Rightarrow> (w1, fetch_failure wt url e)
           | (w1, Inr oc) \<Rightarrow> (w1, read_outcome wt url oc))
      | _ \<Rightarrow> (w, Inl TypeError))"

definition web_fetch_tool :: "'w net \<Rightarrow> web_fetch \<Rightarrow> 'w tool" where
  "web_fetch_tool net wt =
     \<lparr>to_name = ''web_fetch'', to_danger = NETWORK, to_validate = web_fetch_validate, to_run = web_fetch_run net wt\<rparr>"

section \<open>The search client\<close>

record search_result =
  sx_title :: string
  sx_url :: string
  sx_content :: string
  sx_engine :: string
  sx_score :: "real option"
  sx_published :: "string option"

datatype engine_choice = DefaultEngines | Engines "string option"

record 'w searx =
  sr_base_url :: string
  sr_engines :: string
  sr_get :: "string \<Rightarrow> (string \<times> string) list \<Rightarrow> 'w \<Rightarrow> 'w \<times> json res"
  sr_parse_float :: "string \<Rightarrow> real option"
  sr_exn_text :: "exn \<Rightarrow> string"

definition or_empty :: "json option \<Rightarrow> string" where
  "or_empty v = (case v of Some (JStr s) \<Rightarrow> s | _ \<Rightarrow> [])"

definition or_none :: "json option \<Rightarrow> string option" where
  "or_none v = (case v of Some (JStr s) \<Rightarrow> if s \<noteq> [] then Some s else None | _ \<Rightarrow> None)"

definition score_float :: "(string \<Rightarrow> real option) \<Rightarrow> json option \<Rightarrow> real option" where
  "score_float pf v =
     (case v of
        Some (JInt i) \<Rightarrow> Some (of_int i) | Some (JFloat x) \<Rightarrow> Some x | Some (JBool b) \<Rightarrow> Some (if b then 1 else 0)
      | Some (JStr s) \<Rightarrow> pf s | _ \<Rightarrow> None)"

definition search_result_of :: "(string \<Rightarrow> real option) \<Rightarrow> json \<Rightarrow> search_result option" where
  "search_result_of pf item =
     (case item of
        JDict d \<Rightarrow>
          (case map_of d ''url'' of
             Some (JStr url) \<Rightarrow>
               if url = [] then None
               else Some \<lparr>sx_title = or_empty (map_of d ''title''), sx_url = url, sx_content = or_empty (map_of d ''content''),
                          sx_engine = or_empty (map_of d ''engine''), sx_score = score_float pf (map_of d ''score''),
                          sx_published = or_none (map_of d ''publishedDate'')\<rparr>
           | _ \<Rightarrow> None)
      | _ \<Rightarrow> None)"

definition parse_search_results :: "(string \<Rightarrow> real option) \<Rightarrow> (string \<times> json) list \<Rightarrow> search_result list" where
  "parse_search_results pf payload =
     (case map_of payload ''results'' of Some (JList items) \<Rightarrow> List.map_filter (search_result_of pf) items | _ \<Rightarrow> [])"

abbreviation "SearXNGError \<equiv> OtherError ''SearXNGError''"

fun dict_update :: "('k \<times> 'v) list \<Rightarrow> ('k \<times> 'v) list \<Rightarrow> ('k \<times> 'v) list" where
  "dict_update d [] = d"
| "dict_update d ((k, v) # kvs) = dict_update (dict_put k v d) kvs"

definition search_params :: "string \<Rightarrow> string \<Rightarrow> string option \<Rightarrow> engine_choice \<Rightarrow> (string \<times> string) list \<Rightarrow> (string \<times> string) list" where
  "search_params default_engines query categories engines extra =
     (let chosen = (case engines of DefaultEngines \<Rightarrow> Some default_engines | Engines e \<Rightarrow> e);
          p0 = [(''q'', query), (''format'', ''json'')];
          p1 = (case chosen of Some e \<Rightarrow> if e \<noteq> [] then dict_put ''engines'' e p0 else p0 | None \<Rightarrow> p0);
          p2 = (case categories of Some c \<Rightarrow> if c \<noteq> [] then dict_put ''categories'' c p1 else p1 | None \<Rightarrow> p1)
      in dict_update p2 extra)"

definition search :: "'w searx \<Rightarrow> string \<Rightarrow> string option \<Rightarrow> engine_choice \<Rightarrow> (string \<times> string) list \<Rightarrow> 'w \<Rightarrow>
    'w \<times> search_result list res" where
  "search sr query categories engines extra w =
     (case sr_get sr (sr_base_url sr @ ''/search'') (search_params (sr_engines sr) query categories engines extra) w of
        (w1, Inl e) \<Rightarrow> (w1, Inl (if e \<in> {HttpError, HttpTimeout, ValueError} then SearXNGError else e))
      | (w1, Inr (JDict payload)) \<Rightarrow> (w1, Inr (parse_search_results (sr_parse_float sr) payload))
      | (w1, Inr _) \<Rightarrow> (w1, Inl SearXNGError))"

definition result_payload :: "search_result \<Rightarrow> json" where
  "result_payload r = JDict
     [(''title'', JStr (sx_title r)), (''url'', JStr (sx_url r)), (''snippet'', JStr (sx_content r)),
      (''engine'', JStr (sx_engine r)),
      (''published_date'', (case sx_published r of None \<Rightarrow> JNull | Some d \<Rightarrow> JStr d))]"

definition results_to_payload :: "int \<Rightarrow> search_result list \<Rightarrow> json list" where
  "results_to_payload limit rs = map result_payload (py_take limit rs)"

subsection \<open>The two search tools\<close>

text \<open>\<open>to_int\<close> is the coercion of pydantic's lax mode.\<close>

definition query_validate :: "(json \<Rightarrow> int option) \<Rightarrow> string \<Rightarrow> (string \<times> json) list \<Rightarrow> json res" where
  "query_validate to_int field raw =
     (if \<not> set (map fst raw) \<subseteq> {field, ''limit''} then Inl ValidationError
      else case map_of raw field of
             Some (JStr q) \<Rightarrow>
               if q = [] \<or> 512 < length q then Inl ValidationError
               else (case dict_get raw ''limit'' JNull of
                       JNull \<Rightarrow> Inr (JDict [(field, JStr q), (''limit'', JNull)])
                     | j \<Rightarrow> (case to_int j of
                               Some n \<Rightarrow> if 1 \<le> n \<and> n \<le> 25 then Inr (JDict [(field, JStr q), (''limit'', JInt n)])
                                        else Inl ValidationError
                             | None \<Rightarrow> Inl ValidationError))
           | _ \<Rightarrow> Inl ValidationError)"

definition result_limit :: "json \<Rightarrow> int \<Rightarrow> int" where
  "result_limit arg max_results = min (case arg of JInt n \<Rightarrow> if n \<noteq> 0 then n else max_results | _ \<Rightarrow> max_results) max_results"

definition web_search_run :: "'w searx \<Rightarrow> int \<Rightarrow> json \<Rightarrow> 'w \<Rightarrow> 'w \<times> tool_result res" where
  "web_search_run sr max_results args w =
     (case args of
        JDict [(_, JStr q), (_, cap)] \<Rightarrow>
          (case search sr q (Some ''general'') DefaultEngines [] w of
             (w1, Inl e) \<Rightarrow>
               if e = SearXNGError
               then (w1, Inr (tool_failure ''search_failed'' [(''reason'', JStr (sr_exn_text sr e)), (''query'', JStr q)]
                       (''web search for '' @ py_repr q @ '' failed - '' @ sr_exn_text sr e)))
               else (w1, Inl e)
           | (w1, Inr rs) \<Rightarrow>
               let payload = results_to_payload (result_limit cap max_results) rs
               in (w1, Inr \<lparr>tr_success = True,
                     tr_output = [(''query'', JStr q), (''results'', JList payload), (''count'', JInt (int (length payload)))],
                     tr_summary = ''searched '' @ py_repr q @ '' - '' @ show_nat (length payload) @ '' result(s)''\<rparr>))
      | _ \<Rightarrow> (w, Inl TypeError))"

definition recency_key :: "search_result \<Rightarrow> nat \<times> string" where
  "recency_key r = (case sx_published r of Some d \<Rightarrow> if d \<noteq> [] then (1, d) else (0, []) | None \<Rightarrow> (0, []))"

text \<open>\<^verbatim>\<open>sorted(results, key=_recency_key, reverse=True)\<close>: from the highest key to the lowest, equal
  keys in the order they came.\<close>

definition rank_news :: "search_result list \<Rightarrow> search_result list" where
  "rank_news rs = rev (sort_key recency_key (rev rs))"

definition news_run :: "'w searx \<Rightarrow> int \<Rightarrow> json \<Rightarrow> 'w \<Rightarrow> 'w \<times> tool_result res" where
  "news_run sr max_results args w =
     (case args of
        JDict [(_, JStr topic), (_, cap)] \<Rightarrow>
          (case search sr topic (Some ''news'') (Engines None) [] w of
             (w1, Inl e) \<Rightarrow>
               if e = SearXNGError
               then (w1, Inr (tool_failure ''news_failed'' [(''reason'', JStr (sr_exn_text sr e)), (''topic'', JStr topic)]
                       (''news browse for '' @ py_repr topic @ '' failed - '' @ sr_exn_text sr e)))
               else (w1, Inl e)
           | (w1, Inr rs) \<Rightarrow>
               let payload = results_to_payload (result_limit cap max_results) (rank_news rs)
               in (w1, Inr \<lparr>tr_success = True,
                     tr_output = [(''topic'', JStr topic), (''results'', JList payload), (''count'', JInt (int (length payload)))],
                     tr_summary = ''browsed news on '' @ py_repr topic @ '' - '' @ show_nat (length payload) @ '' item(s)''\<rparr>))
      | _ \<Rightarrow> (w, Inl TypeError))"

definition web_search_tool :: "(json \<Rightarrow> int option) \<Rightarrow> 'w searx \<Rightarrow> int \<Rightarrow> 'w tool" where
  "web_search_tool to_int sr max_results =
     \<lparr>to_name = ''web_search'', to_danger = NETWORK, to_validate = query_validate to_int ''query'', to_run = web_search_run sr max_results\<rparr>"

definition news_tool :: "(json \<Rightarrow> int option) \<Rightarrow> 'w searx \<Rightarrow> int \<Rightarrow> 'w tool" where
  "news_tool to_int sr max_results =
     \<lparr>to_name = ''news'', to_danger = NETWORK, to_validate = query_validate to_int ''topic'', to_run = news_run sr max_results\<rparr>"

section \<open>Remembering what was read\<close>

record reader =
  rr_emb :: "string \<Rightarrow> real list res"
  rr_now :: real
  rr_salience :: real
  rr_prompt :: string
  rr_ask :: "(string \<Rightarrow> string res) option"
  rr_parse :: "string \<Rightarrow> summary res"

record web_memory =
  me_episodes :: "episode_row list"
  me_facts :: fact_store

record web_read =
  wr_episode :: episode
  wr_fact :: fact_row
  wr_read_url :: string
  wr_summarised :: bool

definition read_content :: "string \<Rightarrow> string \<Rightarrow> string \<Rightarrow> string" where
  "read_content url title txt =
     (let excerpt = take 1500 (strip txt); heading = (if strip title \<noteq> [] then strip title else url)
      in ''I read '' @ [CHR 0x22] @ heading @ [CHR 0x22] @ '' ('' @ url @ '').'' @ NEWLINE @ excerpt)"

definition render_read :: "string \<Rightarrow> string \<Rightarrow> string \<Rightarrow> string" where
  "render_read url title txt =
     ''Title: '' @ (if title \<noteq> [] then title else ''(untitled)'') @ NEWLINE @ ''URL: '' @ url @ NEWLINE @ NEWLINE @
     ''Readable text:'' @ NEWLINE @ take 8000 (strip txt) @ NEWLINE @ NEWLINE @
     ''Distil this into ONE durable fact, as the JSON triple {'' @ [CHR 0x22] @ ''subject'' @ [CHR 0x22] @ '': ..., '' @
     [CHR 0x22] @ ''predicate'' @ [CHR 0x22] @ '': ..., '' @ [CHR 0x22] @ ''object'' @ [CHR 0x22] @ '': ..., '' @
     [CHR 0x22] @ ''confidence'' @ [CHR 0x22] @ '': <0..1>}.''"

definition fallback_read :: "string \<Rightarrow> string \<Rightarrow> string \<Rightarrow> summary" where
  "fallback_read url title txt =
     (let subject = (if strip title \<noteq> [] then strip title else ''the page at '' @ url); body = take 480 (strip txt)
      in \<lparr>su_subject = take 200 subject, su_predicate = ''says'', su_object = (if body \<noteq> [] then body else url),
          su_confidence = 3/10\<rparr>)"

definition summarise_read :: "reader \<Rightarrow> string \<Rightarrow> string \<Rightarrow> string \<Rightarrow> (summary \<times> bool) res" where
  "summarise_read rr url title txt =
     (case rr_ask rr of
        Some ask \<Rightarrow>
          if rr_prompt rr = [] then Inr (fallback_read url title txt, False)
          else (case ask (render_read url title txt) of
                  Inl e \<Rightarrow> if e = LLMUnavailableError then Inr (fallback_read url title txt, False) else Inl e
                | Inr content \<Rightarrow> ok_bind (rr_parse rr content) (\<lambda>s. Inr (s, True)))
      | None \<Rightarrow> Inr (fallback_read url title txt, False))"

definition read_episode :: "reader \<Rightarrow> string \<Rightarrow> string \<Rightarrow> string \<Rightarrow> episode" where
  "read_episode rr url title txt =
     \<lparr>ep_id = None, ep_ts = None, ep_kind = ''web_read'', ep_content = read_content url title txt, ep_actors = [],
      ep_emotion_tags = [], ep_salience = rr_salience rr, ep_score = None\<rparr>"

definition consolidate_read :: "reader \<Rightarrow> string \<Rightarrow> string \<Rightarrow> string \<Rightarrow> web_memory \<Rightarrow> web_memory \<times> web_read res" where
  "consolidate_read rr url title txt m =
     (case episodic_write (rr_emb rr) (rr_now rr) (read_episode rr url title txt) (me_episodes m) of
        Inl e \<Rightarrow> (m, Inl e)
      | Inr (tbl, ep) \<Rightarrow>
          let m1 = m\<lparr>me_episodes := tbl\<rparr>
          in (case summarise_read rr url title txt of
                Inl e \<Rightarrow> (m1, Inl e)
              | Inr (s, summarised) \<Rightarrow>
                  (case upsert_fact (rr_emb rr) (rr_now rr) (su_subject s) (su_predicate s) (su_object s) (su_confidence s)
                          (case ep_id ep of Some i \<Rightarrow> [i] | None \<Rightarrow> []) (me_facts m1) of
                     Inl e \<Rightarrow> (m1, Inl e)
                   | Inr (fs, row) \<Rightarrow>
                       (m1\<lparr>me_facts := fs\<rparr>,
                        Inr \<lparr>wr_episode = ep, wr_fact = row, wr_read_url = url, wr_summarised = summarised\<rparr>))))"

definition extract_web_content :: "string \<Rightarrow> (string \<times> json) list \<Rightarrow> (string \<times> string \<times> string) option" where
  "extract_web_content tool out =
     (if tool = ''web_fetch'' then
        (case (map_of out ''url'', map_of out ''text'') of
           (Some (JStr url), Some (JStr txt)) \<Rightarrow>
             if url \<noteq> [] \<and> strip txt \<noteq> [] then Some (url, or_empty (map_of out ''title''), txt) else None
         | _ \<Rightarrow> None)
      else if tool = ''web_search'' \<or> tool = ''news'' then
        (case map_of out ''results'' of
           Some (JList (JDict first # _)) \<Rightarrow>
             (case map_of first ''url'' of
                Some (JStr url) \<Rightarrow> if url \<noteq> [] then Some (url, or_empty (map_of first ''title''), or_empty (map_of first ''snippet'')) else None
              | _ \<Rightarrow> None)
         | _ \<Rightarrow> None)
      else None)"

definition consolidate_tool_result :: "reader \<Rightarrow> string \<Rightarrow> (string \<times> json) list \<Rightarrow> web_memory \<Rightarrow> web_memory \<times> web_read option res" where
  "consolidate_tool_result rr tool out m =
     (case extract_web_content tool out of
        None \<Rightarrow> (m, Inr None)
      | Some (url, title, txt) \<Rightarrow>
          (case consolidate_read rr url title txt m of (m1, Inl e) \<Rightarrow> (m1, Inl e) | (m1, Inr r) \<Rightarrow> (m1, Inr (Some r))))"

section \<open>Chrome never reaches the text\<close>

text \<open>Two documents that differ only in what is inside skipped elements or the title.\<close>

fun same_visible :: "extractor \<Rightarrow> html_event list \<Rightarrow> html_event list \<Rightarrow> bool" where
  "same_visible x [] es = (es = [])"
| "same_visible x (e # es) [] = False"
| "same_visible x (HtmlData a # es) (HtmlData b # fs) =
     ((a = b \<or> ex_title x \<or> 0 < ex_depth x) \<and> same_visible (html_handle (HtmlData a) x) es fs)"
| "same_visible x (e # es) (f # fs) = (e = f \<and> same_visible (html_handle e x) es fs)"

definition same_body :: "extractor \<Rightarrow> extractor \<Rightarrow> bool" where
  "same_body x y \<longleftrightarrow> ex_depth y = ex_depth x \<and> ex_title y = ex_title x \<and> ex_parts y = ex_parts x"

lemma same_body_step: "same_body x y \<Longrightarrow> same_body (html_handle e x) (html_handle e y)"
  by (cases e) (simp_all add: same_body_def line_break_def)

lemma same_body_hidden:
  "same_body x y \<Longrightarrow> a = b \<or> ex_title x \<or> 0 < ex_depth x \<Longrightarrow> same_body (html_handle (HtmlData a) x) (html_handle (HtmlData b) y)"
  by (auto simp: same_body_def)

lemma same_visible_body: "same_visible x es fs \<Longrightarrow> same_body x y \<Longrightarrow> same_body (fold html_handle es x) (fold html_handle fs y)"
proof (induction x es fs arbitrary: y rule: same_visible.induct)
  case (3 x a es b fs)
  then show ?case using same_body_hidden [OF 3(3), of a b] by (simp del: html_handle.simps)
qed (auto simp del: html_handle.simps simp: same_body_step)

text \<open>what scripts, styles, navigation, forms and the other skipped elements say, and the title,
  has no influence on the readable text of a page.\<close>

theorem chrome_is_dropped:
  assumes "same_visible new_extractor es fs"
  shows "snd (extract_events es) = snd (extract_events fs)"
proof -
  have "same_body new_extractor new_extractor" by (simp add: same_body_def)
  from same_visible_body [OF assms this] show ?thesis by (simp add: extract_events_def Let_def same_body_def)
qed

theorem chrome_is_dropped_witness:
  "snd (extract_events [StartTag ''script'', HtmlData ''evil()'', EndTag ''script'', HtmlData ''hi'']) =
   snd (extract_events [StartTag ''script'', HtmlData ''ok()'', EndTag ''script'', HtmlData ''hi''])"
  by (rule chrome_is_dropped) (simp add: new_extractor_def SKIP_ELEMENTS_def line_break_def BLOCK_ELEMENTS_def)

text \<open>But \<^verbatim>\<open>embed\<close> is a void element, written without an end tag: the parser then reports a start
  only, and the rest of the page counts as its content (as after a \<^verbatim>\<open>head\<close> whose optional end tag is
  left out).\<close>

lemma hidden_rest:
  assumes "0 < ex_depth x" "\<not> ex_title x" "\<And>t. EndTag t \<in> set es \<Longrightarrow> t \<notin> set SKIP_ELEMENTS" "StartTag ''title'' \<notin> set es"
  shows "ex_parts (fold html_handle es x) = ex_parts x @
    replicate (length (filter (\<lambda>e. \<exists>t\<in>set BLOCK_ELEMENTS. e \<in> {StartTag t, StartEndTag t, EndTag t}) es)) NEWLINE"
  using assms
proof (induction es arbitrary: x)
  case (Cons e es)
  let ?y = "html_handle e x"
  have y: "0 < ex_depth ?y" "\<not> ex_title ?y" using Cons.prems by (cases e; auto simp: line_break_def)+
  have p: "ex_parts ?y = ex_parts x @
      (if \<exists>t\<in>set BLOCK_ELEMENTS. e \<in> {StartTag t, StartEndTag t, EndTag t} then [NEWLINE] else [])"
    using Cons.prems by (cases e) (auto simp: line_break_def)
  have "ex_parts (fold html_handle es ?y) = ex_parts ?y @
    replicate (length (filter (\<lambda>e. \<exists>t\<in>set BLOCK_ELEMENTS. e \<in> {StartTag t, StartEndTag t, EndTag t}) es)) NEWLINE"
    by (rule Cons.IH [OF y]) (use Cons.prems in auto)
  then show ?case using p by simp
qed simp

lemma embed_swallows_page:
  "extract_events [HtmlData ''Before'', StartTag ''embed'', StartTag ''p'', HtmlData ''The story'', EndTag ''p''] = ([], ''Before'')"
  by code_simp

section \<open>Reading a page fails gracefully\<close>

lemma py_take_bound: "0 \<le> k \<Longrightarrow> length (py_take k xs) \<le> nat k"
  by (simp add: py_take_def)

lemma cap_text_bound: "0 \<le> k \<Longrightarrow> cap_text k s = (t, c) \<Longrightarrow> length t \<le> nat k \<and> (\<exists>rest. s = t @ rest) \<and> (c \<longleftrightarrow> nat k < length s)"
  by (auto simp: cap_text_def py_take_def split: if_splits intro: exI [of _ "drop (nat k) s"])

lemma read_outcome_graceful:
  assumes "0 \<le> wf_max_text_chars wt" "\<exists>s. wf_decode wt (charset (fo_content_type oc)) (fo_body oc) = Inr s"
  shows "\<exists>res. read_outcome wt url oc = Inr res \<and>
    (if tr_success res
     then fo_status_code oc < 400 \<and>
       (\<exists>txt. map_of (tr_output res) ''text'' = Some (JStr txt) \<and> length txt \<le> nat (wf_max_text_chars wt)) \<and>
       map_of (tr_output res) ''url'' = Some (JStr (fo_final_url oc))
     else map_of (tr_output res) ''error'' \<noteq> None)"
proof -
  obtain s where s: "wf_decode wt (charset (fo_content_type oc)) (fo_body oc) = Inr s" using assms(2) by blast
  obtain title body where t: "(if lower (strip (hd (split_on CHR '';'' (fo_content_type oc)))) = ''text/plain''
      then ([], collapse_blocks s) else extract_readable_text wt s) = (title, body)" by fastforce
  obtain capped cut where c: "cap_text (wf_max_text_chars wt) body = (capped, cut)" by fastforce
  have "length capped \<le> nat (wf_max_text_chars wt)" using cap_text_bound [OF assms(1) c] by simp
  then show ?thesis by (simp add: read_outcome_def Let_def tool_failure_def s t c)
qed

lemma fetch_failure_graceful:
  "e \<in> {SsrfError, HttpTimeout, HttpError} \<Longrightarrow>
   \<exists>res. fetch_failure wt url e = Inr res \<and> \<not> tr_success res \<and> map_of (tr_output res) ''error'' \<noteq> None"
  by (cases e) (simp_all add: fetch_failure_def tool_failure_def)


section \<open>News come newest first\<close>

text \<open>The news feed is ranked by recency: a permutation of the results in which every dated item
  is before the undated ones and no item is before a newer one, with items of equal date in the order
  the engine returned them.\<close>

theorem news_newest_first:
  "mset (rank_news rs) = mset rs \<and> sorted_wrt (\<lambda>a b. recency_key b \<le> recency_key a) (rank_news rs) \<and>
   filter (\<lambda>r. recency_key r = k) (rank_news rs) = filter (\<lambda>r. recency_key r = k) rs"
proof (intro conjI)
  show "mset (rank_news rs) = mset rs" by (simp add: rank_news_def)
  have "sorted_wrt (\<lambda>a b. recency_key a \<le> recency_key b) (sort_key recency_key (rev rs))"
    using sorted_sort_key [of recency_key "rev rs"] by (simp add: sorted_map)
  then show "sorted_wrt (\<lambda>a b. recency_key b \<le> recency_key a) (rank_news rs)"
    by (simp add: rank_news_def sorted_wrt_rev)
  have "filter (\<lambda>r. recency_key r = k) (sort_key recency_key (rev rs)) = filter (\<lambda>r. recency_key r = k) (rev rs)"
    by (rule sort_key_stable)
  then show "filter (\<lambda>r. recency_key r = k) (rank_news rs) = filter (\<lambda>r. recency_key r = k) rs"
    by (simp add: rank_news_def rev_filter [symmetric])
qed

section \<open>A read is always remembered\<close>

lemma upsert_effect:
  assumes "upsert_fact emb now subj pred ob conf src fs = Inr (fs', row)"
  shows "row \<in> set (fs_rows fs') \<and> fr_subject row = subj \<and> fr_predicate row = pred \<and> fr_object row = ob \<and>
    fr_confidence row = clamp01 conf \<and> fr_sources row = src \<and>
    filter (\<lambda>r. \<not> same_key subj pred r) (fs_rows fs') = filter (\<lambda>r. \<not> same_key subj pred r) (fs_rows fs)"
proof -
  obtain v where v: "emb (fact_text subj pred ob) = Inr v" using assms by (auto simp: upsert_fact_def ok_bind_Inr_iff)
  show ?thesis
  proof (cases "find (same_key subj pred) (fs_rows fs)")
    case None
    with assms v show ?thesis by (auto simp: upsert_fact_def Let_def same_key_def)
  next
    case (Some old)
    let ?row = "old\<lparr>fr_object := ob, fr_confidence := clamp01 conf, fr_sources := src, fr_embedding := v, fr_updated_at := now\<rparr>"
    have o: "old \<in> set (fs_rows fs)" "same_key subj pred old" using Some by (auto simp: find_Some_iff)
    have r: "fs_rows fs' = map (\<lambda>r. if same_key subj pred r then ?row else r) (fs_rows fs)" "row = ?row"
      using assms v Some by (auto simp: upsert_fact_def Let_def)
    have k: "same_key subj pred ?row" using o(2) by (simp add: same_key_def)
    have "filter (\<lambda>r. \<not> same_key subj pred r) (map (\<lambda>r. if same_key subj pred r then ?row else r) rs) =
        filter (\<lambda>r. \<not> same_key subj pred r) rs" for rs
      using k by (induction rs) simp_all
    moreover have "?row \<in> set (fs_rows fs')" unfolding r(1) set_map using o by (intro image_eqI [of _ _ old]) simp_all
    ultimately show ?thesis using k unfolding r by (simp add: same_key_def)
  qed
qed

lemma upsert_total: "(\<And>s. \<exists>v. emb s = Inr v) \<Longrightarrow> \<exists>fs' row. upsert_fact emb now subj pred ob conf src fs = Inr (fs', row)"
proof -
  assume "\<And>s. \<exists>v. emb s = Inr v"
  then obtain v where "emb (fact_text subj pred ob) = Inr v" by blast
  then show ?thesis by (simp add: upsert_fact_def Let_def split: option.split)
qed

text \<open>The content a tool result carries, for each of the three tools.\<close>

lemma extract_web_content_usable:
  "extract_web_content tool out = Some (url, title, body) \<Longrightarrow> tool \<in> {''web_fetch'', ''web_search'', ''news''} \<and> url \<noteq> []"
  by (auto simp: extract_web_content_def split: if_splits option.splits json.splits list.splits)

text \<open>a web read is remembered even when no model can be reached.  Given a working embedder, a
  usable tool result becomes one new episode of kind \<open>web_read\<close>, carrying the address and an excerpt of
  bounded length, and a fact under the title (or the address) of low confidence whose only source is that
  episode; the facts under other keys are as they were.\<close>

theorem read_is_remembered:
  assumes "extract_web_content tool out = Some (url, title, body)"
    and "\<And>s. \<exists>v. rr_emb rr s = Inr v"
    and "\<And>ask p. rr_ask rr = Some ask \<Longrightarrow> rr_prompt rr \<noteq> [] \<Longrightarrow> ask p = Inl LLMUnavailableError"
  shows "\<exists>m' rd row. consolidate_tool_result rr tool out m = (m', Inr (Some rd)) \<and> \<not> wr_summarised rd \<and>
    me_episodes m' = me_episodes m @ [row] \<and> er_kind row = ''web_read'' \<and> er_content row = read_content url title body \<and>
    length (er_content row) \<le> 1514 + length title + 2 * length url \<and>
    wr_fact rd \<in> set (fs_rows (me_facts m')) \<and> fr_sources (wr_fact rd) = [er_id row] \<and>
    fr_subject (wr_fact rd) = take 200 (if strip title \<noteq> [] then strip title else ''the page at '' @ url) \<and>
    fr_predicate (wr_fact rd) = ''says'' \<and> fr_confidence (wr_fact rd) = 3/10 \<and>
    filter (\<lambda>r. \<not> same_key (fr_subject (wr_fact rd)) ''says'' r) (fs_rows (me_facts m')) =
      filter (\<lambda>r. \<not> same_key (fr_subject (wr_fact rd)) ''says'' r) (fs_rows (me_facts m))"
proof -
  obtain v where v: "rr_emb rr (read_content url title body) = Inr v" using assms(2) by blast
  define row where "row = \<lparr>er_id = Suc (length (me_episodes m)), er_ts = rr_now rr, er_kind = ''web_read'',
    er_content = read_content url title body, er_actors = [], er_emotion_tags = [],
    er_salience = clamp01 (rr_salience rr), er_embedding = v\<rparr>"
  have w: "episodic_write (rr_emb rr) (rr_now rr) (read_episode rr url title body) (me_episodes m) =
      Inr (me_episodes m @ [row], row_to_episode None row)"
    by (simp add: episodic_write_def read_episode_def v row_def Let_def)
  define s where "s = fallback_read url title body"
  have su: "summarise_read rr url title body = Inr (s, False)"
  proof (cases "rr_ask rr")
    case (Some ask)
    then show ?thesis using assms(3) [OF Some] by (cases "rr_prompt rr = []") (simp_all add: summarise_read_def s_def)
  qed (simp add: summarise_read_def s_def)
  have sf: "su_subject s = take 200 (if strip title \<noteq> [] then strip title else ''the page at '' @ url)"
    "su_predicate s = ''says''" "su_confidence s = 3/10"
    by (simp_all add: s_def fallback_read_def Let_def)
  obtain fs' fact where f: "upsert_fact (rr_emb rr) (rr_now rr) (su_subject s) (su_predicate s) (su_object s) (su_confidence s)
      [er_id row] (me_facts m) = Inr (fs', fact)"
    using upsert_total [where emb = "rr_emb rr", OF assms(2)] by blast
  note fe = upsert_effect [OF f]
  have c: "clamp01 (3/10) = 3/10" by (simp add: clamp01_def)
  have len: "length (read_content url title body) \<le> 1514 + length title + 2 * length url"
    using length_strip [of title] min.cobounded2 [of "length (strip body)" 1500]
    by (cases "strip title = []") (simp_all add: read_content_def Let_def NEWLINE_def)
  have "consolidate_tool_result rr tool out m =
    (m\<lparr>me_episodes := me_episodes m @ [row], me_facts := fs'\<rparr>,
     Inr (Some \<lparr>wr_episode = row_to_episode None row, wr_fact = fact, wr_read_url = url, wr_summarised = False\<rparr>))"
    using f by (simp add: consolidate_tool_result_def assms(1) consolidate_read_def w su row_to_episode_def)
  then show ?thesis using fe sf c len by (simp add: row_def)
qed

section \<open>Demonstrations\<close>

definition reader_demo :: reader where
  "reader_demo = \<lparr>rr_emb = (\<lambda>_. Inr [1]), rr_now = 5, rr_salience = 7/10, rr_prompt = ''distil'',
     rr_ask = Some (\<lambda>_. Inl LLMUnavailableError), rr_parse = (\<lambda>_. Inl ValidationError)\<rparr>"

theorem read_is_remembered_witness:
  "\<exists>m' rd. consolidate_tool_result reader_demo ''web_fetch'' [(''url'', JStr ''http://a''), (''text'', JStr ''tea'')]
       \<lparr>me_episodes = [], me_facts = \<lparr>fs_rows = [], fs_next_id = 1\<rparr>\<rparr> = (m', Inr (Some rd)) \<and> \<not> wr_summarised rd"
proof -
  have e: "extract_web_content ''web_fetch'' [(''url'', JStr ''http://a''), (''text'', JStr ''tea'')] = Some (''http://a'', [], ''tea'')"
    by (simp add: extract_web_content_def or_empty_def strip_def is_space_def)
  have a: "\<exists>v. rr_emb reader_demo s = Inr v" for s by (simp add: reader_demo_def)
  have t: "rr_ask reader_demo = Some ask \<Longrightarrow> ask p = Inl LLMUnavailableError" for ask p by (auto simp: reader_demo_def)
  show ?thesis
    using read_is_remembered [where rr = reader_demo and m = "\<lparr>me_episodes = [], me_facts = \<lparr>fs_rows = [], fs_next_id = 1\<rparr>\<rparr>", OF e] a t
    by blast
qed

definition page_demo :: web_fetch where
  "page_demo = \<lparr>wf_fetcher = \<lparr>fe_max_redirects = 1, fe_max_bytes = 9, fe_user_agent = []\<rparr>, wf_max_text_chars = 5,
     wf_events = (\<lambda>_. []), wf_decode = (\<lambda>_ _. Inr []), wf_exn_text = (\<lambda>_. ''refused'')\<rparr>"

definition no_net :: "unit net" where
  "no_net = \<lparr>ne_resolve = (\<lambda>_ w. (w, Inr [])), ne_send = (\<lambda>_ w. (w, Inl HttpError)), ne_rest = (\<lambda>_. Inr []), ne_join = (\<lambda>_ s. Inr s)\<rparr>"


end
