(* ===== verification/Providers.thy ===== *)
theory Providers
  imports LlmRouter
begin

text \<open>
  The adapters behind the router and the other inference clients: \<^verbatim>\<open>providers/openai_compatible.py\<close>,
  \<^verbatim>\<open>providers/groq.py\<close>, \<^verbatim>\<open>providers/ollama.py\<close>, \<^verbatim>\<open>embeddings.py\<close> and
  \<^verbatim>\<open>detection.py\<close> of \<^verbatim>\<open>brain/llm\<close>.  The HTTP client is a parameter: what a POST with a URL, a
  JSON body and a timeout does to the world and what comes back.  So are the JSON parser of a
  response, \<^verbatim>\<open>float\<close> of a string and base64.  The \<^verbatim>\<open>raw\<close> copy of the envelope a completion keeps is
  not modelled (nothing reads it).
\<close>

section \<open>Reading JSON as Python does\<close>

text \<open>\<open>v.get(k)\<close>, \<open>v or d\<close> and \<open>v[0]\<close>.\<close>

definition json_get :: "string \<Rightarrow> json \<Rightarrow> json res" where
  "json_get k v = (case v of JDict d \<Rightarrow> Inr (dict_get d k JNull) | _ \<Rightarrow> Inl (OtherError ''AttributeError''))"

definition py_or :: "json \<Rightarrow> json \<Rightarrow> json" where
  "py_or v d = (if truthy v then v else d)"

fun json_first :: "json \<Rightarrow> json res" where
  "json_first (JList (x # _)) = Inr x"
| "json_first (JStr (c # _)) = Inr (JStr [c])"
| "json_first (JDict _) = Inl KeyError"
| "json_first (JList []) = Inl (OtherError ''IndexError'')"
| "json_first (JStr []) = Inl (OtherError ''IndexError'')"
| "json_first _ = Inl TypeError"

text \<open>\<^verbatim>\<open>not v.strip()\<close>.\<close>

fun json_blank :: "json \<Rightarrow> bool res" where
  "json_blank (JStr s) = Inr (strip s = [])"
| "json_blank _ = Inl (OtherError ''AttributeError'')"

text \<open>\<^verbatim>\<open>int\<close> of a string: digits, single underscores between them, a sign, blanks around.\<close>

definition decimal_digit :: "char \<Rightarrow> bool" where
  "decimal_digit c \<longleftrightarrow> (let n = of_char c :: nat in 48 \<le> n \<and> n \<le> 57)"

fun int_digits :: "string \<Rightarrow> nat \<Rightarrow> nat option" where
  "int_digits [] acc = None"
| "int_digits [c] acc = (if decimal_digit c then Some (10 * acc + (of_char c - 48)) else None)"
| "int_digits (c # d # cs) acc =
     (if \<not> decimal_digit c then None
      else if d = CHR ''_'' then int_digits cs (10 * acc + (of_char c - 48))
      else int_digits (d # cs) (10 * acc + (of_char c - 48)))"

definition int_of_text :: "string \<Rightarrow> int option" where
  "int_of_text s =
     (case strip s of
        [] \<Rightarrow> None
      | c # cs \<Rightarrow>
          if c = CHR ''-'' then map_option (\<lambda>n. - int n) (int_digits cs 0)
          else if c = CHR ''+'' then map_option int (int_digits cs 0)
          else map_option int (int_digits (c # cs) 0))"

fun py_int :: "json \<Rightarrow> int res" where
  "py_int (JInt i) = Inr i"
| "py_int (JBool b) = Inr (if b then 1 else 0)"
| "py_int (JFloat x) = Inr (if x < 0 then \<lceil>x\<rceil> else \<lfloor>x\<rfloor>)"
| "py_int (JStr s) = (case int_of_text s of None \<Rightarrow> Inl ValueError | Some i \<Rightarrow> Inr i)"
| "py_int _ = Inl TypeError"

fun py_float :: "(string \<Rightarrow> real option) \<Rightarrow> json \<Rightarrow> real res" where
  "py_float fs (JInt i) = Inr (of_int i)"
| "py_float fs (JBool b) = Inr (if b then 1 else 0)"
| "py_float fs (JFloat x) = Inr x"
| "py_float fs (JStr s) = (case fs s of None \<Rightarrow> Inl ValueError | Some x \<Rightarrow> Inr x)"
| "py_float fs _ = Inl TypeError"

section \<open>Completions\<close>

text \<open>The validation of the fields a completion takes from the server.\<close>

fun opt_text :: "json \<Rightarrow> string option res" where
  "opt_text JNull = Inr None"
| "opt_text (JStr s) = Inr (Some s)"
| "opt_text _ = Inl ValidationError"

definition make_completion :: "json \<Rightarrow> json \<Rightarrow> string \<Rightarrow> json \<Rightarrow> int \<Rightarrow> int \<Rightarrow> json \<Rightarrow> completion res" where
  "make_completion content reasoning provider model pt ct finish =
     (case (content, model) of
        (JStr c, JStr m) \<Rightarrow>
          ok_bind (opt_text reasoning) (\<lambda>r. ok_bind (opt_text finish) (\<lambda>f.
            Inr \<lparr>co_content = c, co_reasoning = r, co_provider = provider, co_model = m,
                 co_prompt_tokens = pt, co_completion_tokens = ct, co_finish_reason = f\<rparr>))
      | _ \<Rightarrow> Inl ValidationError)"

definition effective_content :: "json \<Rightarrow> json \<Rightarrow> json res" where
  "effective_content content reasoning =
     ok_bind (json_blank content) (\<lambda>blank. Inr (if blank then py_or reasoning (JStr []) else content))"

definition parse_chat_completion :: "json \<Rightarrow> string \<Rightarrow> string \<Rightarrow> completion res" where
  "parse_chat_completion data provider requested_model =
     ok_bind (json_get ''choices'' data) (\<lambda>choices.
     if \<not> truthy choices then Inl ProviderError
     else
     ok_bind (json_first choices) (\<lambda>choice.
     ok_bind (json_get ''message'' choice) (\<lambda>msg. let message = py_or msg (JDict []) in
     ok_bind (json_get ''content'' message) (\<lambda>c. let content = py_or c (JStr []) in
     ok_bind (json_get ''reasoning'' message) (\<lambda>r.
     ok_bind (json_get ''reasoning_content'' message) (\<lambda>rc. let reasoning = py_or r rc in
     ok_bind (effective_content content reasoning) (\<lambda>effective.
     ok_bind (json_get ''usage'' data) (\<lambda>u. let usage = py_or u (JDict []) in
     ok_bind (json_get ''model'' data) (\<lambda>model.
     ok_bind (json_get ''prompt_tokens'' usage) (\<lambda>p.
     ok_bind (py_int (py_or p (JInt 0))) (\<lambda>pt.
     ok_bind (json_get ''completion_tokens'' usage) (\<lambda>q.
     ok_bind (py_int (py_or q (JInt 0))) (\<lambda>ct.
     ok_bind (json_get ''finish_reason'' choice) (\<lambda>finish.
       make_completion effective reasoning provider (py_or model (JStr requested_model)) pt ct finish))))))))))))))"

definition parse_native_chat :: "json \<Rightarrow> string \<Rightarrow> completion res" where
  "parse_native_chat data requested_model =
     ok_bind (json_get ''message'' data) (\<lambda>msg. let message = py_or msg (JDict []) in
     ok_bind (json_get ''content'' message) (\<lambda>c. let content = py_or c (JStr []) in
     ok_bind (json_get ''thinking'' message) (\<lambda>t. let reasoning = py_or t JNull in
     ok_bind (effective_content content reasoning) (\<lambda>effective.
     ok_bind (json_get ''model'' data) (\<lambda>model.
     ok_bind (json_get ''prompt_eval_count'' data) (\<lambda>p.
     ok_bind (py_int (py_or p (JInt 0))) (\<lambda>pt.
     ok_bind (json_get ''eval_count'' data) (\<lambda>q.
     ok_bind (py_int (py_or q (JInt 0))) (\<lambda>ct.
     ok_bind (json_get ''done_reason'' data) (\<lambda>finish.
       make_completion effective reasoning ''ollama'' (py_or model (JStr requested_model)) pt ct finish))))))))))"

section \<open>The transport\<close>

text \<open>How a POST ends: a status with a body text, a timeout, another error of the client library, or
  anything else it raises.\<close>

datatype http_reply = PostTimeout | PostError | PostRaise exn | PostReply int string

record http_post =
  po_url :: string
  po_headers :: "(string \<times> string) list"
  po_body :: json
  po_timeout :: real

text \<open>The network, with the JSON parser of a response.\<close>

record 'w network =
  nw_post :: "http_post \<Rightarrow> 'w \<Rightarrow> 'w \<times> http_reply"
  nw_loads :: "string \<Rightarrow> json option"
  nw_float :: "string \<Rightarrow> real option"

definition post_json :: "'w network \<Rightarrow> http_post \<Rightarrow> (json \<Rightarrow> 'a res) \<Rightarrow> 'w \<Rightarrow> 'w \<times> 'a res" where
  "post_json nw po parse w =
     (case nw_post nw po w of
        (w1, PostTimeout) \<Rightarrow> (w1, Inl ProviderTimeoutError)
      | (w1, PostError) \<Rightarrow> (w1, Inl ProviderError)
      | (w1, PostRaise e) \<Rightarrow> (w1, Inl e)
      | (w1, PostReply status body) \<Rightarrow>
          (w1, if 400 \<le> status then Inl ProviderError
               else case nw_loads nw body of None \<Rightarrow> Inl ValueError | Some data \<Rightarrow> parse data))"

definition rstrip_slash :: "string \<Rightarrow> string" where
  "rstrip_slash s = rev (dropWhile (\<lambda>c. c = CHR ''/'') (rev s))"

record adapter =
  ad_name :: string
  ad_base_url :: string
  ad_headers :: "(string \<times> string) list"
  ad_timeout :: real

definition openai_adapter :: "string \<Rightarrow> string \<Rightarrow> string option \<Rightarrow> real \<Rightarrow> adapter" where
  "openai_adapter name base_url api_key timeout =
     \<lparr>ad_name = name, ad_base_url = rstrip_slash base_url @ ''/'',
      ad_headers = (''Content-Type'', ''application/json'') #
        (case api_key of Some k \<Rightarrow> if k = [] then [] else [(''Authorization'', ''Bearer '' @ k)] | None \<Rightarrow> []),
      ad_timeout = timeout\<rparr>"

definition groq_adapter :: "string \<Rightarrow> string \<Rightarrow> adapter" where
  "groq_adapter base_url api_key = openai_adapter ''groq'' base_url (if api_key = [] then None else Some api_key) 60"

definition message_dump :: "message \<Rightarrow> json" where
  "message_dump m = JDict [(''role'', JStr (ms_role m)),
     (''content'', case ms_content m of Text s \<Rightarrow> JStr s | Parts ps \<Rightarrow> JList ps)]"

definition chat_payload :: "message list \<Rightarrow> string \<Rightarrow> real \<Rightarrow> int option \<Rightarrow> json option \<Rightarrow> string list \<Rightarrow> json" where
  "chat_payload msgs model temperature max_tokens fmt stop = JDict (
     [(''model'', JStr model), (''messages'', JList (map message_dump msgs)), (''temperature'', JFloat temperature)] @
     (case max_tokens of Some k \<Rightarrow> [(''max_tokens'', JInt k)] | None \<Rightarrow> []) @
     (case fmt of Some f \<Rightarrow> [(''response_format'', f)] | None \<Rightarrow> []) @
     (if stop \<noteq> [] then [(''stop'', JList (map JStr stop))] else []))"

definition openai_complete :: "'w network \<Rightarrow> adapter \<Rightarrow> real \<Rightarrow> message list \<Rightarrow> string \<Rightarrow> real \<Rightarrow> int option \<Rightarrow>
    json option \<Rightarrow> string list \<Rightarrow> 'w \<Rightarrow> 'w \<times> completion res" where
  "openai_complete nw ad timeout msgs model temperature max_tokens fmt stop =
     post_json nw \<lparr>po_url = ad_base_url ad @ ''chat/completions'', po_headers = ad_headers ad,
         po_body = chat_payload msgs model temperature max_tokens fmt stop, po_timeout = timeout\<rparr>
       (\<lambda>data. parse_chat_completion data (ad_name ad) model)"

section \<open>Ollama\<close>

record ollama = adapter +
  ol_reasoning_model :: string
  ol_reasoning_timeout :: real
  ol_native_url :: string

definition ollama_adapter :: "string \<Rightarrow> real \<Rightarrow> string \<Rightarrow> real \<Rightarrow> ollama" where
  "ollama_adapter base_url timeout reasoning_model reasoning_timeout =
     adapter.extend (openai_adapter ''ollama'' (rstrip_slash base_url @ ''/v1'') None timeout)
       (ollama.fields reasoning_model reasoning_timeout (rstrip_slash base_url @ ''/api/chat''))"

definition request_timeout :: "ollama \<Rightarrow> string \<Rightarrow> real" where
  "request_timeout ol model = (if model = ol_reasoning_model ol then ol_reasoning_timeout ol else ad_timeout ol)"

definition native_payload :: "message list \<Rightarrow> string \<Rightarrow> real \<Rightarrow> int option \<Rightarrow> json" where
  "native_payload msgs model temperature max_tokens = JDict
     [(''model'', JStr model), (''messages'', JList (map message_dump msgs)), (''stream'', JBool False),
      (''think'', JBool False), (''format'', JStr ''json''),
      (''options'', JDict ((''temperature'', JFloat temperature) #
         (case max_tokens of Some k \<Rightarrow> [(''num_predict'', JInt k)] | None \<Rightarrow> [])))]"

definition complete_no_think :: "'w network \<Rightarrow> ollama \<Rightarrow> message list \<Rightarrow> string \<Rightarrow> real \<Rightarrow> int option \<Rightarrow>
    'w \<Rightarrow> 'w \<times> completion res" where
  "complete_no_think nw ol msgs model temperature max_tokens =
     post_json nw \<lparr>po_url = ol_native_url ol, po_headers = ad_headers ol,
         po_body = native_payload msgs model temperature max_tokens, po_timeout = request_timeout ol model\<rparr>
       (\<lambda>data. parse_native_chat data model)"

definition ollama_complete :: "'w network \<Rightarrow> ollama \<Rightarrow> message list \<Rightarrow> string \<Rightarrow> real \<Rightarrow> int option \<Rightarrow>
    json option \<Rightarrow> string list \<Rightarrow> 'w \<Rightarrow> 'w \<times> completion res" where
  "ollama_complete nw ol msgs model temperature max_tokens fmt stop =
     (if model = ol_reasoning_model ol \<and> fmt \<noteq> None
      then complete_no_think nw ol msgs model temperature max_tokens
      else openai_complete nw (adapter.truncate ol) (request_timeout ol model)
             msgs model temperature max_tokens fmt stop)"

section \<open>The production router\<close>

text \<open>The settings the adapters are built from, and what the router reads besides.\<close>

record llm_settings =
  groq_base_url :: string
  groq_key :: string
  local_llm_base_url :: string
  local_llm_timeout :: real
  local_reasoning_model :: string
  local_reasoning_timeout :: real
  circuit_failure_threshold :: int
  circuit_reset_seconds :: real
  llm_schema_retries :: int

definition JSON_OBJECT :: json where "JSON_OBJECT = JDict [(''type'', JStr ''json_object'')]"

definition provider_complete :: "'w network \<Rightarrow> llm_settings \<Rightarrow> string \<Rightarrow> string \<Rightarrow> request \<Rightarrow> 'w \<Rightarrow> 'w \<times> completion res" where
  "provider_complete nw se p model q =
     (let fmt = (if rq_json q then Some JSON_OBJECT else None)
      in if p = ''groq''
         then let ad = groq_adapter (groq_base_url se) (groq_key se)
              in openai_complete nw ad (ad_timeout ad) (rq_messages q) model (rq_temperature q) (rq_max_tokens q) fmt []
         else ollama_complete nw
                (ollama_adapter (local_llm_base_url se) (local_llm_timeout se) (local_reasoning_model se)
                  (local_reasoning_timeout se))
                (rq_messages q) model (rq_temperature q) (rq_max_tokens q) fmt [])"

definition production :: "'w network \<Rightarrow> llm_settings \<Rightarrow> 'w outside \<Rightarrow> 'w outside" where
  "production nw se ou = ou\<lparr>ou_complete := provider_complete nw se\<rparr>"

definition build_router :: "llm_settings \<Rightarrow> (string \<Rightarrow> string option) \<Rightarrow>
    (string \<times> string option \<times> string option) list \<Rightarrow> (string \<times> string list) list \<Rightarrow> call_row list \<Rightarrow> 'w \<Rightarrow>
    (router \<times> 'w rstate) res" where
  "build_router se settings models role_slots calls w =
     ok_bind (load_routing_config settings models role_slots) (\<lambda>roles.
       new_router [''groq'', ''ollama''] roles (llm_schema_retries se) (circuit_failure_threshold se)
         (circuit_reset_seconds se) calls w)"

section \<open>Embeddings\<close>

record embedder =
  em_base_url :: string
  em_endpoint :: string
  em_dimensions :: nat

fun float_row :: "(string \<Rightarrow> real option) \<Rightarrow> json list \<Rightarrow> real list res" where
  "float_row fs [] = Inr []"
| "float_row fs (x # xs) = ok_bind (py_float fs x) (\<lambda>y. ok_bind (float_row fs xs) (\<lambda>ys. Inr (y # ys)))"

definition vector_ok :: "nat \<Rightarrow> json \<Rightarrow> bool" where
  "vector_ok k v = (case v of JList xs \<Rightarrow> length xs = k | _ \<Rightarrow> False)"

fun float_rows :: "(string \<Rightarrow> real option) \<Rightarrow> json list \<Rightarrow> real list list res" where
  "float_rows fs [] = Inr []"
| "float_rows fs (v # vs) =
     (case v of JList xs \<Rightarrow> ok_bind (float_row fs xs) (\<lambda>y. ok_bind (float_rows fs vs) (\<lambda>ys. Inr (y # ys)))
      | _ \<Rightarrow> Inl TypeError)"

definition parse_embeddings :: "(string \<Rightarrow> real option) \<Rightarrow> nat \<Rightarrow> nat \<Rightarrow> json \<Rightarrow> real list list res" where
  "parse_embeddings fs expected dimensions data =
     ok_bind (json_get ''embeddings'' data) (\<lambda>vectors.
       case vectors of
         JList vs \<Rightarrow>
           if length vs \<noteq> expected then Inl ProviderError
           else if \<not> list_all (vector_ok dimensions) vs then Inl ProviderError
           else float_rows fs vs
       | _ \<Rightarrow> Inl ProviderError)"

definition embed_texts :: "'w network \<Rightarrow> embedder \<Rightarrow> string list \<Rightarrow> 'w \<Rightarrow> 'w \<times> real list list res" where
  "embed_texts nw em texts w =
     (if texts = [] then (w, Inr [])
      else post_json nw \<lparr>po_url = rstrip_slash (em_base_url em) @ em_endpoint em, po_headers = [],
               po_body = JDict [(''inputs'', JList (map JStr texts))], po_timeout = 30\<rparr>
             (parse_embeddings (nw_float nw) (length texts) (em_dimensions em)) w)"

definition embed_one :: "'w network \<Rightarrow> embedder \<Rightarrow> string \<Rightarrow> 'w \<Rightarrow> 'w \<times> real list res" where
  "embed_one nw em t w =
     (case embed_texts nw em [t] w of
        (w1, Inl e) \<Rightarrow> (w1, Inl e)
      | (w1, Inr []) \<Rightarrow> (w1, Inl (OtherError ''IndexError''))
      | (w1, Inr (v # _)) \<Rightarrow> (w1, Inr v))"

section \<open>Detections\<close>

record bounding_box =
  bb_x1 :: real
  bb_y1 :: real
  bb_x2 :: real
  bb_y2 :: real

record detection =
  de_label :: string
  de_confidence :: real
  de_bbox :: bounding_box

text \<open>\<open>v[k]\<close>, and the validation of a number (a string that reads as one is accepted).\<close>

definition json_item :: "string \<Rightarrow> json \<Rightarrow> json res" where
  "json_item k v =
     (case v of
        JDict d \<Rightarrow> (case map_of d k of None \<Rightarrow> Inl KeyError | Some x \<Rightarrow> Inr x)
      | _ \<Rightarrow> Inl TypeError)"

definition number :: "(string \<Rightarrow> real option) \<Rightarrow> json \<Rightarrow> real res" where
  "number fs v = (case py_float fs v of Inl _ \<Rightarrow> Inl ValidationError | Inr x \<Rightarrow> Inr x)"

definition field_number :: "(string \<Rightarrow> real option) \<Rightarrow> string \<Rightarrow> (string \<times> json) list \<Rightarrow> real res" where
  "field_number fs k d = (case map_of d k of None \<Rightarrow> Inl ValidationError | Some v \<Rightarrow> number fs v)"

definition parse_box :: "(string \<Rightarrow> real option) \<Rightarrow> json \<Rightarrow> bounding_box res" where
  "parse_box fs v =
     (case v of
        JDict d \<Rightarrow>
          ok_bind (field_number fs ''x1'' d) (\<lambda>x1. ok_bind (field_number fs ''y1'' d) (\<lambda>y1.
          ok_bind (field_number fs ''x2'' d) (\<lambda>x2. ok_bind (field_number fs ''y2'' d) (\<lambda>y2.
            Inr \<lparr>bb_x1 = x1, bb_y1 = y1, bb_x2 = x2, bb_y2 = y2\<rparr>))))
      | _ \<Rightarrow> Inl TypeError)"

definition parse_detection :: "(string \<Rightarrow> real option) \<Rightarrow> json \<Rightarrow> detection res" where
  "parse_detection fs item =
     ok_bind (json_item ''class'' item) (\<lambda>label.
     ok_bind (json_item ''confidence'' item) (\<lambda>conf.
     ok_bind (json_item ''bbox'' item) (\<lambda>box.
     ok_bind (parse_box fs box) (\<lambda>bb.
       case label of
         JStr l \<Rightarrow> ok_bind (number fs conf) (\<lambda>c. Inr \<lparr>de_label = l, de_confidence = c, de_bbox = bb\<rparr>)
       | _ \<Rightarrow> Inl ValidationError))))"

fun parse_items :: "(string \<Rightarrow> real option) \<Rightarrow> json list \<Rightarrow> detection list res" where
  "parse_items fs [] = Inr []"
| "parse_items fs (i # is) =
     ok_bind (parse_detection fs i) (\<lambda>d. ok_bind (parse_items fs is) (\<lambda>ds. Inr (d # ds)))"

definition parse_detections :: "(string \<Rightarrow> real option) \<Rightarrow> json \<Rightarrow> detection list res" where
  "parse_detections fs data =
     ok_bind (json_get ''detections'' data) (\<lambda>v.
       case py_or v (JList []) of JList items \<Rightarrow> parse_items fs items | _ \<Rightarrow> Inl ProviderError)"

text \<open>The client does not call the parser above: it iterates over whatever is there (the characters of
  a string, the keys of an object), so that a value that is no list is not named a provider error.\<close>

definition iterate :: "json \<Rightarrow> json list res" where
  "iterate v = (case v of JList xs \<Rightarrow> Inr xs | JStr s \<Rightarrow> Inr (map (\<lambda>c. JStr [c]) s)
     | JDict d \<Rightarrow> Inr (map (JStr \<circ> fst) d) | _ \<Rightarrow> Inl TypeError)"

definition client_detections :: "(string \<Rightarrow> real option) \<Rightarrow> json \<Rightarrow> detection list res" where
  "client_detections fs data =
     (case data of
        JDict d \<Rightarrow> ok_bind (iterate (dict_get d ''detections'' (JList []))) (parse_items fs)
      | _ \<Rightarrow> Inl (OtherError ''AttributeError''))"

definition detect_base64 :: "'w network \<Rightarrow> string \<Rightarrow> string \<Rightarrow> 'w \<Rightarrow> 'w \<times> detection list res" where
  "detect_base64 nw base_url img =
     post_json nw \<lparr>po_url = rstrip_slash base_url @ ''/detect/base64'', po_headers = [],
         po_body = JDict [(''image'', JStr img)], po_timeout = 60\<rparr> (client_detections (nw_float nw))"

definition detect_image :: "('b \<Rightarrow> string) \<Rightarrow> 'w network \<Rightarrow> string \<Rightarrow> 'b \<Rightarrow> 'w \<Rightarrow> 'w \<times> detection list res" where
  "detect_image b64 nw base_url img = detect_base64 nw base_url (b64 img)"
section \<open>Reading replies\<close>

lemmas parse_defs = parse_chat_completion_def parse_native_chat_def json_get_def dict_get_def py_or_def Let_def
  effective_content_def make_completion_def

text \<open>What the servers send for a completion.\<close>

definition opt_json :: "string option \<Rightarrow> json" where
  "opt_json s = (case s of None \<Rightarrow> JNull | Some t \<Rightarrow> JStr t)"

definition chat_envelope :: "completion \<Rightarrow> json" where
  "chat_envelope c = JDict
     [(''model'', JStr (co_model c)),
      (''choices'', JList [JDict
         [(''message'', JDict [(''role'', JStr ''assistant''), (''content'', JStr (co_content c)),
                               (''reasoning'', opt_json (co_reasoning c))]),
          (''finish_reason'', opt_json (co_finish_reason c))]]),
      (''usage'', JDict [(''prompt_tokens'', JInt (co_prompt_tokens c)),
                         (''completion_tokens'', JInt (co_completion_tokens c))])]"

definition native_envelope :: "completion \<Rightarrow> json" where
  "native_envelope c = JDict
     [(''model'', JStr (co_model c)),
      (''message'', JDict [(''role'', JStr ''assistant''), (''content'', JStr (co_content c)),
                           (''thinking'', opt_json (co_reasoning c))]),
      (''done_reason'', opt_json (co_finish_reason c)),
      (''prompt_eval_count'', JInt (co_prompt_tokens c)), (''eval_count'', JInt (co_completion_tokens c))]"

text \<open>What of it reaches the caller: a blank answer is replaced by the reasoning.\<close>

definition answer_of :: "completion \<Rightarrow> string" where
  "answer_of c = (if strip (co_content c) = [] then (case co_reasoning c of Some r \<Rightarrow> r | None \<Rightarrow> []) else co_content c)"

definition read_back :: "string \<Rightarrow> completion \<Rightarrow> completion" where
  "read_back requested c =
     c\<lparr>co_content := answer_of c, co_reasoning := (if co_reasoning c = Some [] then None else co_reasoning c),
       co_model := (if co_model c = [] then requested else co_model c)\<rparr>"

lemma content_nonblank: "strip s \<noteq> [] \<Longrightarrow> s \<noteq> []"
  by auto

lemma chat_read_back: "parse_chat_completion (chat_envelope c) (co_provider c) m = Inr (read_back m c)"
  by (cases "co_reasoning c"; cases "co_finish_reason c"; cases c)
    (auto simp: chat_envelope_def read_back_def answer_of_def opt_json_def parse_defs)

lemma native_read_back: "parse_native_chat (native_envelope c) m = Inr ((read_back m c)\<lparr>co_provider := ''ollama''\<rparr>)"
  by (cases "co_reasoning c"; cases "co_finish_reason c"; cases c)
    (auto simp: native_envelope_def read_back_def answer_of_def opt_json_def parse_defs)

text \<open>The shape of an envelope the two parsers read without any other exception than the provider's.\<close>

fun text_or_null :: "json \<Rightarrow> bool" where
  "text_or_null JNull = True"
| "text_or_null (JStr s) = True"
| "text_or_null _ = False"

fun count_or_null :: "json \<Rightarrow> bool" where
  "count_or_null JNull = True"
| "count_or_null (JInt i) = True"
| "count_or_null _ = False"

definition all_keys :: "(json \<Rightarrow> bool) \<Rightarrow> string list \<Rightarrow> (string \<times> json) list \<Rightarrow> bool" where
  "all_keys ok ks d \<longleftrightarrow> list_all (\<lambda>k. ok (dict_get d k JNull)) ks"

fun object_or_null :: "((string \<times> json) list \<Rightarrow> bool) \<Rightarrow> json \<Rightarrow> bool" where
  "object_or_null ok JNull = True"
| "object_or_null ok (JDict d) = ok d"
| "object_or_null ok _ = False"

definition choice_typed :: "(string \<times> json) list \<Rightarrow> bool" where
  "choice_typed ch \<longleftrightarrow> all_keys text_or_null [''finish_reason''] ch \<and>
     object_or_null (all_keys text_or_null [''content'', ''reasoning'', ''reasoning_content'']) (dict_get ch ''message'' JNull)"

fun choices_typed :: "json \<Rightarrow> bool" where
  "choices_typed JNull = True"
| "choices_typed (JList []) = True"
| "choices_typed (JList (JDict ch # _)) = choice_typed ch"
| "choices_typed _ = False"

definition chat_typed :: "(string \<times> json) list \<Rightarrow> bool" where
  "chat_typed d \<longleftrightarrow> choices_typed (dict_get d ''choices'' JNull) \<and> all_keys text_or_null [''model''] d \<and>
     object_or_null (all_keys count_or_null [''prompt_tokens'', ''completion_tokens'']) (dict_get d ''usage'' JNull)"

definition native_typed :: "(string \<times> json) list \<Rightarrow> bool" where
  "native_typed d \<longleftrightarrow> object_or_null (all_keys text_or_null [''content'', ''thinking'']) (dict_get d ''message'' JNull) \<and>
     all_keys text_or_null [''model'', ''done_reason''] d \<and> all_keys count_or_null [''prompt_eval_count'', ''eval_count''] d"

lemma text_or_null_iff: "text_or_null v \<longleftrightarrow> v = JNull \<or> (\<exists>s. v = JStr s)"
  by (cases v) simp_all

lemma count_or_null_iff: "count_or_null v \<longleftrightarrow> v = JNull \<or> (\<exists>i. v = JInt i)"
  by (cases v) simp_all

lemma object_or_null_or: "object_or_null ok v \<Longrightarrow> ok [] \<Longrightarrow> \<exists>d. py_or v (JDict []) = JDict d \<and> ok d"
  by (cases v) (auto simp: py_or_def)

lemma all_keys_Nil [simp]:
  "all_keys text_or_null ks []" "all_keys count_or_null ks []"
  by (simp_all add: all_keys_def dict_get_def list_all_iff)

lemma object_keys:
  "object_or_null (all_keys text_or_null ks) v \<Longrightarrow> \<exists>d. py_or v (JDict []) = JDict d \<and> all_keys text_or_null ks d"
  "object_or_null (all_keys count_or_null ks) v \<Longrightarrow> \<exists>d. py_or v (JDict []) = JDict d \<and> all_keys count_or_null ks d"
  by (rule object_or_null_or; simp)+

lemma py_or_text: "text_or_null v \<Longrightarrow> \<exists>s. py_or v (JStr t) = JStr s"
  by (auto simp: text_or_null_iff py_or_def)

lemma py_or_text2: "text_or_null v \<Longrightarrow> text_or_null u \<Longrightarrow> text_or_null (py_or v u)"
  by (simp add: py_or_def)

lemma py_or_count: "count_or_null v \<Longrightarrow> \<exists>i. py_int (py_or v (JInt 0)) = Inr i"
  by (auto simp: count_or_null_iff py_or_def)

lemma effective_text: "text_or_null r \<Longrightarrow> \<exists>s. effective_content (JStr c) r = Inr (JStr s)"
  by (auto simp: effective_content_def text_or_null_iff py_or_def)

lemma make_completion_text:
  "text_or_null r \<Longrightarrow> text_or_null f \<Longrightarrow> \<exists>c. make_completion (JStr s) r p (JStr m) pt ct f = Inr c"
  by (auto simp: make_completion_def text_or_null_iff)

lemma json_get_dict [simp]: "json_get k (JDict d) = Inr (dict_get d k JNull)"
  by (simp add: json_get_def)

lemma choices_typed_truthy: "choices_typed v \<Longrightarrow> truthy v \<Longrightarrow> \<exists>ch rest. v = JList (JDict ch # rest) \<and> choice_typed ch"
  by (cases v rule: choices_typed.cases) simp_all

lemma chat_typed_reads:
  assumes "chat_typed d"
  shows "case parse_chat_completion (JDict d) p m of Inl e \<Rightarrow> e = ProviderError | Inr c \<Rightarrow> True"
proof (cases "truthy (dict_get d ''choices'' JNull)")
  case False
  then show ?thesis by (simp add: parse_chat_completion_def)
next
  case True
  with assms obtain ch rest where ch: "dict_get d ''choices'' JNull = JList (JDict ch # rest)" "choice_typed ch"
    using choices_typed_truthy [of "dict_get d ''choices'' JNull"] unfolding chat_typed_def by blast
  from ch(2) obtain mg where mg: "py_or (dict_get ch ''message'' JNull) (JDict []) = JDict mg"
    "all_keys text_or_null [''content'', ''reasoning'', ''reasoning_content''] mg" and f: "text_or_null (dict_get ch ''finish_reason'' JNull)"
    using object_keys(1) unfolding choice_typed_def by (auto simp: all_keys_def [of _ "[_]"])
  from assms obtain us where us: "py_or (dict_get d ''usage'' JNull) (JDict []) = JDict us"
    "all_keys count_or_null [''prompt_tokens'', ''completion_tokens''] us"
    using object_keys(2) unfolding chat_typed_def by blast
  let ?r = "py_or (dict_get mg ''reasoning'' JNull) (dict_get mg ''reasoning_content'' JNull)"
  have r: "text_or_null ?r" using mg(2) by (simp add: all_keys_def py_or_text2)
  obtain c where c: "py_or (dict_get mg ''content'' JNull) (JStr []) = JStr c"
    using mg(2) py_or_text by (force simp: all_keys_def)
  obtain s where s: "effective_content (JStr c) ?r = Inr (JStr s)" using effective_text [OF r] by blast
  obtain n where n: "py_or (dict_get d ''model'' JNull) (JStr m) = JStr n"
    using assms py_or_text by (force simp: chat_typed_def all_keys_def)
  obtain i where i: "py_int (py_or (dict_get us ''prompt_tokens'' JNull) (JInt 0)) = Inr i"
    using us(2) py_or_count by (force simp: all_keys_def)
  obtain j where j: "py_int (py_or (dict_get us ''completion_tokens'' JNull) (JInt 0)) = Inr j"
    using us(2) py_or_count by (force simp: all_keys_def)
  obtain out where "make_completion (JStr s) ?r p (JStr n) i j (dict_get ch ''finish_reason'' JNull) = Inr out"
    using make_completion_text [OF r f] by blast
  with True ch(1) mg(1) us(1) c s n i j have "parse_chat_completion (JDict d) p m = Inr out"
    by (simp add: parse_chat_completion_def)
  then show ?thesis by simp
qed

lemma native_typed_reads:
  assumes "native_typed d"
  shows "\<exists>c. parse_native_chat (JDict d) m = Inr c"
proof -
  from assms obtain mg where mg: "py_or (dict_get d ''message'' JNull) (JDict []) = JDict mg"
    "all_keys text_or_null [''content'', ''thinking''] mg"
    using object_keys(1) unfolding native_typed_def by blast
  let ?r = "py_or (dict_get mg ''thinking'' JNull) JNull"
  have r: "text_or_null ?r" using mg(2) by (simp add: all_keys_def py_or_text2)
  obtain c where c: "py_or (dict_get mg ''content'' JNull) (JStr []) = JStr c"
    using mg(2) py_or_text by (force simp: all_keys_def)
  obtain s where s: "effective_content (JStr c) ?r = Inr (JStr s)" using effective_text [OF r] by blast
  obtain n where n: "py_or (dict_get d ''model'' JNull) (JStr m) = JStr n"
    using assms py_or_text by (force simp: native_typed_def all_keys_def)
  obtain i where i: "py_int (py_or (dict_get d ''prompt_eval_count'' JNull) (JInt 0)) = Inr i"
    using assms py_or_count by (force simp: native_typed_def all_keys_def)
  obtain j where j: "py_int (py_or (dict_get d ''eval_count'' JNull) (JInt 0)) = Inr j"
    using assms py_or_count by (force simp: native_typed_def all_keys_def)
  have f: "text_or_null (dict_get d ''done_reason'' JNull)" using assms by (simp add: native_typed_def all_keys_def)
  obtain out where "make_completion (JStr s) ?r ''ollama'' (JStr n) i j (dict_get d ''done_reason'' JNull) = Inr out"
    using make_completion_text [OF r f] by blast
  with mg(1) c s n i j have "parse_native_chat (JDict d) m = Inr out" by (simp add: parse_native_chat_def)
  then show ?thesis ..
qed
section \<open>The router over the adapters\<close>

definition native_url :: "llm_settings \<Rightarrow> string" where
  "native_url se = rstrip_slash (local_llm_base_url se) @ ''/api/chat''"

definition local_chat_url :: "llm_settings \<Rightarrow> string" where
  "local_chat_url se = rstrip_slash (local_llm_base_url se) @ ''/v1/chat/completions''"

text \<open>Servers that speak their protocol: what they accept is answered with an envelope of the right shape.\<close>

definition speaks :: "'w network \<Rightarrow> llm_settings \<Rightarrow> bool" where
  "speaks nw se \<longleftrightarrow> (\<forall>po w. case snd (nw_post nw po w) of
      PostRaise e \<Rightarrow> False
    | PostReply status body \<Rightarrow> status < 400 \<longrightarrow>
        (\<exists>d. nw_loads nw body = Some (JDict d) \<and> (if po_url po = native_url se then native_typed d else chat_typed d))
    | _ \<Rightarrow> True)"

text \<open>A local server that is up and answers well.\<close>

definition local_up :: "'w network \<Rightarrow> llm_settings \<Rightarrow> schema option \<Rightarrow> bool" where
  "local_up nw se sch \<longleftrightarrow> (\<forall>po w. po_url po \<in> {local_chat_url se, native_url se} \<longrightarrow>
     (\<exists>status body c. snd (nw_post nw po w) = PostReply status body \<and> status < 400 \<and>
        nw_loads nw body = Some (if po_url po = native_url se then native_envelope c else chat_envelope c) \<and>
        valid_for sch (c\<lparr>co_content := answer_of c\<rparr>)))"

lemma rstrip_slash_append [simp]: "rstrip_slash (s @ ''/v1'') = s @ ''/v1''"
  by (simp add: rstrip_slash_def)

lemma ollama_adapter_simps [simp]:
  "ad_name (ollama_adapter b t m rt) = ''ollama''" "ad_name (adapter.truncate (ollama_adapter b t m rt)) = ''ollama''"
  "ad_base_url (adapter.truncate (ollama_adapter b t m rt)) = rstrip_slash b @ ''/v1/''"
  "ol_native_url (ollama_adapter b t m rt) = rstrip_slash b @ ''/api/chat''"
  "ol_reasoning_model (ollama_adapter b t m rt) = m"
  by (simp_all add: ollama_adapter_def openai_adapter_def adapter.defs ollama.defs)

lemma chat_not_native [simp]: "u @ ''chat/completions'' \<noteq> native_url se"
proof
  assume "u @ ''chat/completions'' = native_url se"
  then have "last (u @ ''chat/completions'') = last (native_url se)" by simp
  then show False by (simp add: native_url_def)
qed

text \<open>Completions, and the two failures the protocol names.\<close>

definition clean :: "'a res \<Rightarrow> bool" where
  "clean r \<longleftrightarrow> (case r of Inl e \<Rightarrow> e = ProviderError \<or> e = ProviderTimeoutError | Inr c \<Rightarrow> True)"

lemma clean_simps [simp]:
  "clean (Inr c)" "clean (Inl ProviderError)" "clean (Inl ProviderTimeoutError)"
  by (simp_all add: clean_def)

lemma cleanD: "clean r \<Longrightarrow> r = Inl e \<Longrightarrow> e = ProviderError \<or> e = ProviderTimeoutError"
  by (simp add: clean_def)

lemma post_json_clean:
  assumes "case snd (nw_post nw po w) of PostRaise e \<Rightarrow> False
    | PostReply status body \<Rightarrow> status < 400 \<longrightarrow> (\<exists>d. nw_loads nw body = Some d \<and> clean (parse d)) | _ \<Rightarrow> True"
  shows "clean (snd (post_json nw po parse w))"
  using assms by (cases "nw_post nw po w"; cases "snd (nw_post nw po w)") (auto simp: post_json_def)

lemma post_json_reads:
  assumes "snd (nw_post nw po w) = PostReply status body" "status < 400" "nw_loads nw body = Some d"
  shows "snd (post_json nw po parse w) = parse d"
  using assms by (cases "nw_post nw po w") (simp add: post_json_def)

lemma speaksD:
  assumes "speaks nw se"
  shows "case snd (nw_post nw po w) of PostRaise e \<Rightarrow> False
    | PostReply status body \<Rightarrow> status < 400 \<longrightarrow>
        (\<exists>d. nw_loads nw body = Some (JDict d) \<and> (if po_url po = native_url se then native_typed d else chat_typed d))
    | _ \<Rightarrow> True"
  using assms unfolding speaks_def by blast

lemma openai_clean:
  assumes "speaks nw se"
  shows "clean (snd (openai_complete nw ad t msgs m temp mt fmt stop w))"
  unfolding openai_complete_def
proof (rule post_json_clean)
  let ?po = "\<lparr>po_url = ad_base_url ad @ ''chat/completions'', po_headers = ad_headers ad,
    po_body = chat_payload msgs m temp mt fmt stop, po_timeout = t\<rparr>"
  have "clean (parse_chat_completion (JDict d) (ad_name ad) m)" if "chat_typed d" for d
    using chat_typed_reads [OF that, of "ad_name ad" m] by (auto simp: clean_def split: sum.splits)
  then show "case snd (nw_post nw ?po w) of PostRaise e \<Rightarrow> False
    | PostReply status body \<Rightarrow> status < 400 \<longrightarrow>
        (\<exists>d. nw_loads nw body = Some d \<and> clean (parse_chat_completion d (ad_name ad) m)) | _ \<Rightarrow> True"
    using speaksD [OF assms, of ?po w] by (auto split: http_reply.splits)
qed

lemma no_think_clean:
  assumes "speaks nw se" "ol_native_url ol = native_url se"
  shows "clean (snd (complete_no_think nw ol msgs m temp mt w))"
  unfolding complete_no_think_def
proof (rule post_json_clean)
  let ?po = "\<lparr>po_url = ol_native_url ol, po_headers = ad_headers ol,
    po_body = native_payload msgs m temp mt, po_timeout = request_timeout ol m\<rparr>"
  have "clean (parse_native_chat (JDict d) m)" if "native_typed d" for d
    using native_typed_reads [OF that, of m] by (auto simp: clean_def)
  then show "case snd (nw_post nw ?po w) of PostRaise e \<Rightarrow> False
    | PostReply status body \<Rightarrow> status < 400 \<longrightarrow> (\<exists>d. nw_loads nw body = Some d \<and> clean (parse_native_chat d m)) | _ \<Rightarrow> True"
    using speaksD [OF assms(1), of ?po w] assms(2) by (auto split: http_reply.splits)
qed

abbreviation local_adapter :: "llm_settings \<Rightarrow> ollama" where
  "local_adapter se \<equiv> ollama_adapter (local_llm_base_url se) (local_llm_timeout se) (local_reasoning_model se)
     (local_reasoning_timeout se)"

lemma local_native [simp]: "ol_native_url (local_adapter se) = native_url se"
  by (simp add: native_url_def)

lemma provider_clean: "speaks nw se \<Longrightarrow> clean (snd (provider_complete nw se p m q w))"
  by (simp add: provider_complete_def Let_def ollama_complete_def openai_clean no_think_clean del: ollama_adapter_simps(4))

lemma production_clean: "speaks nw se \<Longrightarrow> fails_cleanly (production nw se ou)"
  unfolding fails_cleanly_def production_def by (simp add: cleanD [OF provider_clean])

lemma local_chat_url_alt: "ad_base_url (adapter.truncate (local_adapter se)) @ ''chat/completions'' = local_chat_url se"
  by (simp add: local_chat_url_def)

lemma local_chat_not_native: "local_chat_url se \<noteq> native_url se"
  unfolding local_chat_url_alt [symmetric] by (rule chat_not_native)

lemma valid_read_back:
  "valid_for sch ((read_back m c)\<lparr>co_provider := p\<rparr>) = valid_for sch (c\<lparr>co_content := answer_of c\<rparr>)"
  by (cases sch) (simp_all add: valid_for_def read_back_def)

lemma local_up_at:
  assumes "local_up nw se sch" "po_url po \<in> {local_chat_url se, native_url se}"
  shows "\<exists>status body c. snd (nw_post nw po w) = PostReply status body \<and> status < 400 \<and>
    nw_loads nw body = Some (if po_url po = native_url se then native_envelope c else chat_envelope c) \<and>
    valid_for sch (c\<lparr>co_content := answer_of c\<rparr>)"
  using assms unfolding local_up_def by blast

lemma local_chat_answers:
  assumes "local_up nw se sch"
  shows "\<exists>c. snd (openai_complete nw (adapter.truncate (local_adapter se)) t msgs m temp mt fmt stop w) = Inr c \<and> valid_for sch c"
proof -
  define po where "po = \<lparr>po_url = ad_base_url (adapter.truncate (local_adapter se)) @ ''chat/completions'',
    po_headers = ad_headers (adapter.truncate (local_adapter se)), po_body = chat_payload msgs m temp mt fmt stop, po_timeout = t\<rparr>"
  have url: "po_url po = local_chat_url se" by (simp only: po_def http_post.select_convs local_chat_url_alt)
  obtain status body c where up: "snd (nw_post nw po w) = PostReply status body" "status < 400"
    "nw_loads nw body = Some (chat_envelope c)" "valid_for sch (c\<lparr>co_content := answer_of c\<rparr>)"
    using local_up_at [OF assms, of po w] local_chat_not_native by (auto simp: url)
  have "parse_chat_completion (chat_envelope c) p m = Inr ((read_back m c)\<lparr>co_provider := p\<rparr>)" for p
    using chat_read_back [of "c\<lparr>co_provider := p\<rparr>" m] by (simp add: chat_envelope_def read_back_def answer_of_def)
  moreover have "valid_for sch ((read_back m c)\<lparr>co_provider := p\<rparr>)" for p
    using up(4) by (simp only: valid_read_back)
  ultimately show ?thesis
    unfolding openai_complete_def po_def [symmetric] by (simp add: post_json_reads [OF up(1-3)])
qed

lemma local_native_answers:
  assumes "local_up nw se sch"
  shows "\<exists>c. snd (complete_no_think nw (local_adapter se) msgs m temp mt w) = Inr c \<and> valid_for sch c"
proof -
  define po where "po = \<lparr>po_url = ol_native_url (local_adapter se), po_headers = ad_headers (local_adapter se),
    po_body = native_payload msgs m temp mt, po_timeout = request_timeout (local_adapter se) m\<rparr>"
  have url: "po_url po = native_url se" by (simp only: po_def http_post.select_convs local_native)
  obtain status body c where up: "snd (nw_post nw po w) = PostReply status body" "status < 400"
    "nw_loads nw body = Some (native_envelope c)" "valid_for sch (c\<lparr>co_content := answer_of c\<rparr>)"
    using local_up_at [OF assms, of po w] by (auto simp: url)
  have "valid_for sch ((read_back m c)\<lparr>co_provider := ''ollama''\<rparr>)"
    using up(4) by (simp only: valid_read_back)
  then show ?thesis
    unfolding complete_no_think_def po_def [symmetric] by (simp add: post_json_reads [OF up(1-3)] native_read_back)
qed

lemma local_answers:
  assumes "local_up nw se sch"
  shows "answers (production nw se ou) sch ''ollama''"
proof -
  have "\<exists>c. snd (provider_complete nw se ''ollama'' m q w) = Inr c \<and> valid_for sch c" for m q w
    using local_chat_answers [OF assms] local_native_answers [OF assms]
    by (simp add: provider_complete_def Let_def ollama_complete_def del: ollama_adapter_simps)
  then have "case snd (provider_complete nw se ''ollama'' m q w) of Inl e \<Rightarrow> False | Inr c \<Rightarrow> valid_for sch c" for m q w
    by (metis (no_types, lifting) old.sum.simps(6))
  then show ?thesis by (simp add: answers_def production_def)
qed
section \<open>A built router\<close>

lemma new_router_serving:
  assumes "new_router providers roles retries k t calls w = Inr (rt, s)"
  shows "rt_roles rt = roles \<and> rt_schema_retries rt = retries \<and>
    rs_breakers s = map (\<lambda>n. (n, new_breaker k t)) providers \<and>
    (\<forall>(r, steps) \<in> set roles. \<forall>st \<in> set steps. st_provider st \<in> set providers)"
  using assms by (auto simp: new_router_def split: if_splits)

lemma map_of_fresh: "n \<in> set ns \<Longrightarrow> map_of (map (\<lambda>n. (n, b)) ns) n = Some b"
  by (induction ns) auto

lemma chain_providers:
  assumes "chain_for roles role = Inr chain" "\<forall>(r, steps) \<in> set roles. \<forall>st \<in> set steps. st_provider st \<in> P" "st \<in> set chain"
  shows "st_provider st \<in> P"
proof -
  from assms(1) obtain r where "map_of roles r = Some chain" by (auto simp: chain_for_def split: option.splits)
  then have "(r, chain) \<in> set roles" by (rule map_of_SomeD)
  with assms(2,3) show ?thesis by auto
qed

lemma local_is_free [simp]: "\<not> is_paid ''ollama'' m"
  by (simp add: is_paid_def estimate_cost_def PRICING_def)

section \<open>Embeddings\<close>

lemma float_row_length: "float_row fs xs = Inr ys \<Longrightarrow> length ys = length xs"
  by (induction xs arbitrary: ys) (auto simp: ok_bind_Inr_iff)

lemma float_rows_length:
  "float_rows fs vs = Inr ys \<Longrightarrow> list_all (vector_ok k) vs \<Longrightarrow> length ys = length vs \<and> (\<forall>y \<in> set ys. length y = k)"
proof (induction vs arbitrary: ys)
  case (Cons v vs)
  from Cons.prems obtain xs where v: "v = JList xs" "length xs = k" by (auto simp: vector_ok_def split: json.splits)
  with Cons.prems obtain y ys' where "float_row fs xs = Inr y" "float_rows fs vs = Inr ys'" "ys = y # ys'"
    by (auto simp: ok_bind_Inr_iff)
  with Cons v float_row_length show ?case by auto
qed simp

lemma parse_embeddings_ok:
  assumes "parse_embeddings fs n k data = Inr ys"
  shows "length ys = n \<and> (\<forall>y \<in> set ys. length y = k)"
proof -
  from assms obtain v where v: "(case v of
         JList vs \<Rightarrow>
           if length vs \<noteq> n then Inl ProviderError
           else if \<not> list_all (vector_ok k) vs then Inl ProviderError
           else float_rows fs vs
       | _ \<Rightarrow> Inl ProviderError) = Inr ys"
    by (auto simp: parse_embeddings_def ok_bind_Inr_iff)
  then obtain vs where "length vs = n" "list_all (vector_ok k) vs" "float_rows fs vs = Inr ys"
    by (cases v) (simp_all split: if_splits)
  with float_rows_length [of fs vs ys k] show ?thesis by simp
qed

lemma post_json_Inr:
  assumes "post_json nw po parse w = (w1, Inr x)"
  shows "\<exists>status body d. nw_post nw po w = (w1, PostReply status body) \<and> status < 400 \<and> nw_loads nw body = Some d \<and> parse d = Inr x"
  using assms by (auto simp: post_json_def split: prod.splits http_reply.splits if_splits option.splits)

text \<open>a batch of texts that is embedded has one vector for each text, in its order, each of the
  configured dimension, and they are what the server sent; embedding one text gives the same vector as
  a batch of one.\<close>

theorem embeddings_aligned:
  assumes "embed_texts nw em texts w = (w1, Inr vs)"
  shows "length vs = length texts \<and> (\<forall>v \<in> set vs. length v = em_dimensions em) \<and>
    (texts \<noteq> [] \<longrightarrow> (\<exists>po status body d. nw_post nw po w = (w1, PostReply status body) \<and>
       po_body po = JDict [(''inputs'', JList (map JStr texts))] \<and> status < 400 \<and> nw_loads nw body = Some d \<and>
       parse_embeddings (nw_float nw) (length texts) (em_dimensions em) d = Inr vs)) \<and>
    (\<forall>t. texts = [t] \<longrightarrow> embed_one nw em t w = (w1, Inr (hd vs)))"
proof (cases "texts = []")
  case True
  with assms show ?thesis by (simp add: embed_texts_def)
next
  case False
  let ?po = "\<lparr>po_url = rstrip_slash (em_base_url em) @ em_endpoint em, po_headers = [],
    po_body = JDict [(''inputs'', JList (map JStr texts))], po_timeout = 30\<rparr>"
  from assms False have "post_json nw ?po (parse_embeddings (nw_float nw) (length texts) (em_dimensions em)) w = (w1, Inr vs)"
    by (simp add: embed_texts_def)
  from post_json_Inr [OF this] obtain status body d where p: "nw_post nw ?po w = (w1, PostReply status body)" "status < 400"
    "nw_loads nw body = Some d" "parse_embeddings (nw_float nw) (length texts) (em_dimensions em) d = Inr vs" by blast
  from parse_embeddings_ok [OF p(4)] have len: "length vs = length texts" "\<forall>v \<in> set vs. length v = em_dimensions em" by auto
  have "embed_one nw em t w = (w1, Inr (hd vs))" if "texts = [t]" for t
    using assms that len(1) by (cases vs) (simp_all add: embed_one_def)
  moreover have "po_body ?po = JDict [(''inputs'', JList (map JStr texts))]" by simp
  ultimately show ?thesis using len p by blast
qed

section \<open>Properties\<close>


text \<open>C34: the production router answers every role that has a local step, whatever the routing file
  says and however the cloud fails or the budget stands, as long as the local server is up, the servers
  speak their protocol and the spend can be read.\<close>

theorem production_serves:
  assumes "build_router se settings models role_slots calls w = Inr (rt, s)" "0 \<le> llm_schema_retries se"
    and "speaks nw se" "local_up nw se sch"
    and "chain_for (rt_roles rt) role = Inr chain" "st \<in> set chain" "st_provider st = ''ollama''"
    and "\<forall>g s. gate = Some g \<longrightarrow> (\<forall>e. g s \<noteq> Inl e)"
  shows "\<exists>c. snd (complete_role (production nw se ou) gate rt role msgs sch temp mt s) = Completed c"
proof -
  from assms(1) obtain roles where "new_router [''groq'', ''ollama''] roles (llm_schema_retries se)
      (circuit_failure_threshold se) (circuit_reset_seconds se) calls w = Inr (rt, s)"
    by (auto simp: build_router_def ok_bind_Inr_iff)
  from new_router_serving [OF this] have rt: "rt_schema_retries rt = llm_schema_retries se"
    "rs_breakers s = map (\<lambda>n. (n, new_breaker (circuit_failure_threshold se) (circuit_reset_seconds se))) [''groq'', ''ollama'']"
    "\<forall>(r, steps) \<in> set (rt_roles rt). \<forall>st \<in> set steps. st_provider st \<in> set [''groq'', ''ollama'']" by auto
  have "map_of (rs_breakers s) (st_provider st') \<noteq> None" if "st' \<in> set chain" for st'
    using chain_providers [OF assms(5) rt(3) that] rt(2) by auto
  then have "serving ''ollama'' chain s" using rt(2) by (auto simp: serving_def new_breaker_def)
  from run_chain_serves [OF production_clean [OF assms(3)] local_answers [OF assms(4)] assms(2) assms(8) this order_refl
      assms(6,7) local_is_free]
  show ?thesis using assms(5) rt(1) by (simp add: complete_role_def)
qed

text \<open>A local server that answers every question with one completion, and a cloud that is down.\<close>

definition settings_demo :: llm_settings where
  "settings_demo = \<lparr>groq_base_url = ''g/'', groq_key = ''k'', local_llm_base_url = ''l'', local_llm_timeout = 45,
     local_reasoning_model = ''qwen'', local_reasoning_timeout = 300, circuit_failure_threshold = 4,
     circuit_reset_seconds = 60, llm_schema_retries = 1\<rparr>"

definition network_demo :: "nat network" where
  "network_demo =
     \<lparr>nw_post = \<lambda>po w. (Suc w,
        if po_url po = native_url settings_demo then PostReply 200 ''n''
        else if po_url po = local_chat_url settings_demo then PostReply 200 ''c'' else PostTimeout),
      nw_loads = \<lambda>body. Some (if body = ''n'' then native_envelope (said ''hi'') else chat_envelope (said ''hi'')),
      nw_float = \<lambda>s. None\<rparr>"

definition outside_demo :: "nat outside" where
  "outside_demo = \<lparr>ou_complete = \<lambda>p m q w. (w, Inl ProviderError), ou_mono = real, ou_perf = real,
     ou_wall = real, ou_db = \<lambda>w. True\<rparr>"

definition models_demo :: "(string \<times> string option \<times> string option) list" where
  "models_demo = [(''cloud'', Some ''groq'', Some ''m1''), (''local'', Some ''ollama'', Some ''m2'')]"

lemma network_demo_speaks: "speaks network_demo settings_demo"
  by (auto simp: speaks_def network_demo_def native_envelope_def chat_envelope_def native_typed_def chat_typed_def
      choice_typed_def all_keys_def dict_get_def said_def opt_json_def)

lemma network_demo_up: "local_up network_demo settings_demo None"
  unfolding local_up_def
proof (intro allI impI)
  fix po :: http_post and w :: nat
  assume u: "po_url po \<in> {local_chat_url settings_demo, native_url settings_demo}"
  show "\<exists>status body c. snd (nw_post network_demo po w) = PostReply status body \<and> status < 400 \<and>
      nw_loads network_demo body = Some (if po_url po = native_url settings_demo then native_envelope c else chat_envelope c) \<and>
      valid_for None (c\<lparr>co_content := answer_of c\<rparr>)"
  proof (intro exI conjI)
    show "snd (nw_post network_demo po w) =
        PostReply 200 (if po_url po = native_url settings_demo then ''n'' else ''c'')"
      using u by (auto simp: network_demo_def)
    show "nw_loads network_demo (if po_url po = native_url settings_demo then ''n'' else ''c'') =
        Some (if po_url po = native_url settings_demo then native_envelope (said ''hi'') else chat_envelope (said ''hi''))"
      by (simp add: network_demo_def)
  qed (simp_all add: valid_for_def)
qed

theorem production_serves_witness:
  "\<exists>rt s c. build_router settings_demo Some models_demo [(''think'', [''cloud'', ''local''])] [] 0 = Inr (rt, s) \<and>
     snd (complete_role (production network_demo settings_demo outside_demo) (Some (\<lambda>s. Inr True)) rt ''think''
       [] None 0 None s) = Completed c"
proof -
  let ?c = "\<lparr>st_provider = ''groq'', st_model = ''m1''\<rparr>" and ?l = "\<lparr>st_provider = ''ollama'', st_model = ''m2''\<rparr>"
  obtain rt s where b: "build_router settings_demo Some models_demo [(''think'', [''cloud'', ''local''])] [] (0 :: nat) = Inr (rt, s)"
    and r: "rt_roles rt = [(''think'', [?c, ?l])]"
    by (simp add: build_router_def load_routing_config_def models_demo_def new_router_def)
  have "\<exists>c. snd (complete_role (production network_demo settings_demo outside_demo) (Some (\<lambda>s. Inr True)) rt ''think''
       [] None 0 None s) = Completed c"
    by (rule production_serves [OF b _ network_demo_speaks network_demo_up, where chain = "[?c, ?l]" and st = ?l])
      (simp_all add: settings_demo_def r chain_for_def)
  with b show ?thesis by blast
qed

definition embedder_demo :: embedder where
  "embedder_demo = \<lparr>em_base_url = ''e/'', em_endpoint = ''/embed'', em_dimensions = 2\<rparr>"

definition embed_network :: "nat network" where
  "embed_network = \<lparr>nw_post = \<lambda>po w. (Suc w, PostReply 200 []),
     nw_loads = \<lambda>body. Some (JDict [(''embeddings'', JList [JList [JInt 1, JFloat (1/2)]])]), nw_float = \<lambda>s. None\<rparr>"

theorem embeddings_aligned_witness:
  "\<exists>v. embed_one embed_network embedder_demo ''hi'' 0 = (1, Inr v) \<and> length v = 2"
proof -
  have e: "embed_texts embed_network embedder_demo [''hi''] 0 = (1, Inr [[1, 1/2]])"
    by (simp add: embed_texts_def embed_network_def embedder_demo_def post_json_def parse_embeddings_def dict_get_def vector_ok_def)
  from embeddings_aligned [OF e] show ?thesis by (auto simp: embedder_demo_def)
qed

text \<open>A reply the server accepted whose body is no JSON is not a provider error: it ends the request
  where the next step of the chain would have answered it.\<close>

lemma html_body_escapes:
  fixes ou :: "'w outside"
  assumes "nw_loads nw body = None" "snd (nw_post nw po w) = PostReply 200 body"
  shows "snd (post_json nw po parse w) = Inl ValueError"
  using assms by (cases "nw_post nw po w") (simp add: post_json_def)

text \<open>Whatever else the reasoning model is asked for, a structured reply is asked for with thinking off.\<close>

lemma structured_is_no_think:
  "ollama_complete nw ol msgs (ol_reasoning_model ol) temp mt (Some f) stop w =
     post_json nw \<lparr>po_url = ol_native_url ol, po_headers = ad_headers ol,
         po_body = native_payload msgs (ol_reasoning_model ol) temp mt, po_timeout = ol_reasoning_timeout ol\<rparr>
       (\<lambda>data. parse_native_chat data (ol_reasoning_model ol)) w"
  by (simp add: ollama_complete_def complete_no_think_def request_timeout_def)

text \<open>The detector's client and its parser differ on a value that is no list.\<close>

lemma detections_differ:
  "parse_detections fs (JDict [(''detections'', JInt 3)]) = Inl ProviderError"
  "client_detections fs (JDict [(''detections'', JInt 3)]) = Inl TypeError"
  "parse_detections fs (JDict [(''detections'', JNull)]) = Inr []"
  "client_detections fs (JDict [(''detections'', JNull)]) = Inl TypeError"
  by (simp_all add: parse_detections_def client_detections_def iterate_def py_or_def dict_get_def)

end
