(* ===== verification/CodeExec.thy ===== *)
theory CodeExec
  imports WebTools
begin

text \<open>
  Running code: the entry point inside the container (\<^verbatim>\<open>ops/sandbox/runner.py\<close>) and the tool
  that reads its verdict (\<^verbatim>\<open>brain/effectors/code_exec.py\<close>).  What the snippet does is an argument:
  how it ended, what it wrote, how long it took.  The launcher between the two is a shell script: what
  starting it gives is a parameter, as are the JSON printer and parser and the decoding of UTF-8 with
  replacement.  (The ellipsis of the truncation marker is written as three dots.)
\<close>

section \<open>The runner\<close>

text \<open>The code a snippet exits with: \<open>ExitOther\<close> is any other object, by its text.\<close>

datatype exit_code = ExitNone | ExitInt int | ExitBool bool | ExitOther string

datatype snippet_end =
    Returned
  | Alarmed
  | Exited exit_code
  | RaisedError string string

record snippet_run =
  sn_end :: snippet_end
  sn_stdout :: bytes
  sn_stderr :: bytes
  sn_seconds :: real

definition TRUNCATION_MARK :: string where "TRUNCATION_MARK = NEWLINE @ ''...[output truncated]''"

definition read_output :: "(bytes \<Rightarrow> string) \<Rightarrow> nat \<Rightarrow> bytes \<Rightarrow> string \<times> bool" where
  "read_output decode output_max raw =
     (let truncated = output_max < length raw; txt = decode (take output_max raw)
      in (if truncated then txt @ TRUNCATION_MARK else txt, truncated))"

definition error_json :: "string \<Rightarrow> string \<Rightarrow> json" where
  "error_json ty msg = JDict [(''type'', JStr ty), (''message'', JStr msg)]"

text \<open>\<^verbatim>\<open>ok\<close>, \<^verbatim>\<open>timed_out\<close>, \<^verbatim>\<open>exit_code\<close> and \<^verbatim>\<open>error\<close> for each way to end.\<close>

fun exit_status :: "int \<Rightarrow> snippet_end \<Rightarrow> bool \<times> bool \<times> json \<times> json" where
  "exit_status timeout Returned = (True, False, JInt 0, JNull)"
| "exit_status timeout Alarmed =
     (False, True, JInt 124, error_json ''Timeout'' (''exceeded '' @ show_int timeout @ ''s of CPU/wall time''))"
| "exit_status timeout (Exited ExitNone) = (True, False, JInt 0, JNull)"
| "exit_status timeout (Exited (ExitInt n)) = (n = 0, False, JInt n, JNull)"
| "exit_status timeout (Exited (ExitBool b)) = (\<not> b, False, JBool b, JNull)"
| "exit_status timeout (Exited (ExitOther s)) = (False, False, JInt 1, error_json ''SystemExit'' (take 2000 s))"
| "exit_status timeout (RaisedError ty msg) = (False, False, JInt 1, error_json ty (take 2000 msg))"

definition verdict_json :: "bool \<Rightarrow> bool \<Rightarrow> json \<Rightarrow> string \<Rightarrow> string \<Rightarrow> bool \<Rightarrow> json \<Rightarrow> int \<Rightarrow> json" where
  "verdict_json ok timed_out code out err truncated e ms = JDict
     [(''ok'', JBool ok), (''timed_out'', JBool timed_out), (''exit_code'', code), (''stdout'', JStr out),
      (''stderr'', JStr err), (''truncated'', JBool truncated), (''error'', e), (''duration_ms'', JInt ms)]"

definition runner_main :: "(bytes \<Rightarrow> string) \<Rightarrow> nat \<Rightarrow> int \<Rightarrow> snippet_run \<Rightarrow> json" where
  "runner_main decode output_max timeout sn =
     (let (ok, timed_out, code, e) = exit_status timeout (sn_end sn);
          (out, out_cut) = read_output decode output_max (sn_stdout sn);
          (err, err_cut) = read_output decode output_max (sn_stderr sn)
      in verdict_json ok timed_out code out err (out_cut \<or> err_cut) e \<lfloor>sn_seconds sn * 1000\<rfloor>)"

text \<open>\<open>Inl\<close>: something outside the snippet raised, with that message.\<close>

definition runner_emit :: "(bytes \<Rightarrow> string) \<Rightarrow> nat \<Rightarrow> int \<Rightarrow> string + snippet_run \<Rightarrow> json" where
  "runner_emit decode output_max timeout r =
     (case r of
        Inr sn \<Rightarrow> runner_main decode output_max timeout sn
      | Inl msg \<Rightarrow> verdict_json False False (JInt 1) [] [] False (error_json ''RunnerError'' (take 2000 msg)) 0)"

section \<open>The verdict\<close>

record sandbox_verdict =
  sv_ok :: bool
  sv_timed_out :: bool
  sv_exit_code :: int
  sv_stdout :: string
  sv_stderr :: string
  sv_truncated :: bool
  sv_error :: "(string \<times> json) list option"
  sv_duration_ms :: int

text \<open>The coercions of pydantic's lax mode.  \<open>text_int\<close>: a string that reads as an integer.\<close>

fun lax_bool :: "json \<Rightarrow> bool option" where
  "lax_bool (JBool b) = Some b"
| "lax_bool (JInt i) = (if i = 0 then Some False else if i = 1 then Some True else None)"
| "lax_bool (JFloat x) = (if x = 0 then Some False else if x = 1 then Some True else None)"
| "lax_bool (JStr s) =
     (if lower s \<in> {''0'', ''off'', ''f'', ''false'', ''n'', ''no''} then Some False
      else if lower s \<in> {''1'', ''on'', ''t'', ''true'', ''y'', ''yes''} then Some True else None)"
| "lax_bool _ = None"

fun lax_int :: "(string \<Rightarrow> int option) \<Rightarrow> json \<Rightarrow> int option" where
  "lax_int text_int (JInt i) = Some i"
| "lax_int text_int (JBool b) = Some (if b then 1 else 0)"
| "lax_int text_int (JFloat x) = (if of_int \<lfloor>x\<rfloor> = x then Some \<lfloor>x\<rfloor> else None)"
| "lax_int text_int (JStr s) = text_int s"
| "lax_int text_int _ = None"

fun strict_str :: "json \<Rightarrow> string option" where
  "strict_str (JStr s) = Some s"
| "strict_str _ = None"

fun opt_dict :: "json \<Rightarrow> (string \<times> json) list option option" where
  "opt_dict JNull = Some None"
| "opt_dict (JDict d) = Some (Some d)"
| "opt_dict _ = None"

definition field :: "(json \<Rightarrow> 'a option) \<Rightarrow> 'a \<Rightarrow> string \<Rightarrow> (string \<times> json) list \<Rightarrow> 'a option" where
  "field conv def k d = (case map_of d k of None \<Rightarrow> Some def | Some v \<Rightarrow> conv v)"

section \<open>The launcher\<close>

text \<open>It could not be started, it overran the outer wait, or it wrote this (decoded).\<close>

datatype launch_end = NotStarted string | Overran | Wrote string

record 'w sandbox =
  sb_launch :: "string \<Rightarrow> int \<Rightarrow> 'w \<Rightarrow> 'w \<times> launch_end"
  sb_outer_buffer :: real
  sb_loads :: "string \<Rightarrow> json option"
  sb_text_int :: "string \<Rightarrow> int option"
  sb_str :: "json \<Rightarrow> string"

definition parse_sandbox_verdict :: "'w sandbox \<Rightarrow> string \<Rightarrow> sandbox_verdict res" where
  "parse_sandbox_verdict sb line =
     (case sb_loads sb line of
        Some (JDict d) \<Rightarrow>
          (case (Option.bind (map_of d ''ok'') lax_bool, field lax_bool False ''timed_out'' d,
                 field (lax_int (sb_text_int sb)) 0 ''exit_code'' d, field strict_str [] ''stdout'' d,
                 field strict_str [] ''stderr'' d, field lax_bool False ''truncated'' d,
                 field opt_dict None ''error'' d, field (lax_int (sb_text_int sb)) 0 ''duration_ms'' d) of
             (Some ok, Some timed_out, Some code, Some out, Some err, Some clipped, Some e, Some ms) \<Rightarrow>
               Inr \<lparr>sv_ok = ok, sv_timed_out = timed_out, sv_exit_code = code, sv_stdout = out, sv_stderr = err,
                    sv_truncated = clipped, sv_error = e, sv_duration_ms = ms\<rparr>
           | _ \<Rightarrow> Inl ValidationError)
      | _ \<Rightarrow> Inl ValidationError)"

definition last_json_line :: "string \<Rightarrow> string option" where
  "last_json_line txt = map_option strip (find (\<lambda>l. strip l \<noteq> []) (rev (splitlines txt)))"

text \<open>\<open>Inl\<close>: \<^verbatim>\<open>SandboxRunError\<close>, by its text.\<close>

definition subprocess_run :: "'w sandbox \<Rightarrow> string \<Rightarrow> int \<Rightarrow> 'w \<Rightarrow> 'w \<times> (string + string)" where
  "subprocess_run sb code timeout w =
     (case sb_launch sb code timeout w of
        (w1, NotStarted exc) \<Rightarrow> (w1, Inl (''could not start the sandbox launcher: '' @ exc))
      | (w1, Overran) \<Rightarrow>
          (w1, Inl (''sandbox launcher did not return within '' @ show_int (round_even (of_int timeout + sb_outer_buffer sb)) @ ''s''))
      | (w1, Wrote txt) \<Rightarrow>
          (w1, case last_json_line txt of None \<Rightarrow> Inl ''sandbox launcher produced no verdict line'' | Some line \<Rightarrow> Inr line))"

section \<open>The tool\<close>

record code_exec =
  ce_default_timeout :: int
  ce_max_code_chars :: int

definition code_exec_validate :: "(json \<Rightarrow> int option) \<Rightarrow> (string \<times> json) list \<Rightarrow> json res" where
  "code_exec_validate to_int raw =
     (if \<not> set (map fst raw) \<subseteq> {''code'', ''timeout_seconds''} then Inl ValidationError
      else case map_of raw ''code'' of
             Some (JStr c) \<Rightarrow>
               if c = [] then Inl ValidationError
               else (case dict_get raw ''timeout_seconds'' JNull of
                       JNull \<Rightarrow> Inr (JDict [(''code'', JStr c), (''timeout_seconds'', JNull)])
                     | j \<Rightarrow> (case to_int j of
                               Some n \<Rightarrow> if 1 \<le> n \<and> n \<le> 60 then Inr (JDict [(''code'', JStr c), (''timeout_seconds'', JInt n)])
                                        else Inl ValidationError
                             | None \<Rightarrow> Inl ValidationError))
           | _ \<Rightarrow> Inl ValidationError)"

definition verdict_summary :: "'w sandbox \<Rightarrow> sandbox_verdict \<Rightarrow> string" where
  "verdict_summary sb v =
     (if sv_ok v then ''ran code in the sandbox ('' @ show_int (sv_duration_ms v) @ ''ms)''
      else if sv_timed_out v then ''code timed out in the sandbox''
      else ''code failed in the sandbox ('' @
        (case Option.bind (sv_error v) (\<lambda>d. map_of d ''type'') of
           None \<Rightarrow> ''error'' | Some (JStr s) \<Rightarrow> s | Some j \<Rightarrow> sb_str sb j) @ '')'')"

definition verdict_output :: "sandbox_verdict \<Rightarrow> (string \<times> json) list" where
  "verdict_output v =
     [(''stdout'', JStr (sv_stdout v)), (''stderr'', JStr (sv_stderr v)), (''exit_code'', JInt (sv_exit_code v)),
      (''timed_out'', JBool (sv_timed_out v)), (''truncated'', JBool (sv_truncated v)),
      (''error'', case sv_error v of None \<Rightarrow> JNull | Some d \<Rightarrow> JDict d), (''duration_ms'', JInt (sv_duration_ms v))]"

definition code_exec_run :: "'w sandbox \<Rightarrow> code_exec \<Rightarrow> json \<Rightarrow> 'w \<Rightarrow> 'w \<times> tool_result res" where
  "code_exec_run sb ce args w =
     (case args of
        JDict [(_, JStr code), (_, timeout)] \<Rightarrow>
          if ce_max_code_chars ce < int (length code)
          then (w, Inr (tool_failure ''too_large'' [(''chars'', JInt (int (length code)))]
                  (''snippet too large ('' @ show_nat (length code) @ '' > '' @ show_int (ce_max_code_chars ce) @ '' chars)'')))
          else
            (case subprocess_run sb code (case timeout of JInt n \<Rightarrow> if n \<noteq> 0 then n else ce_default_timeout ce
                                          | _ \<Rightarrow> ce_default_timeout ce) w of
               (w1, Inl why) \<Rightarrow>
                 (w1, Inr (tool_failure ''sandbox_unavailable'' [(''reason'', JStr why)]
                        (''could not run code in the sandbox - '' @ why)))
             | (w1, Inr line) \<Rightarrow>
                 (w1, ok_bind (parse_sandbox_verdict sb line) (\<lambda>v.
                    Inr \<lparr>tr_success = sv_ok v, tr_output = verdict_output v, tr_summary = verdict_summary sb v\<rparr>)))
      | _ \<Rightarrow> (w, Inl TypeError))"

definition code_exec_tool :: "(json \<Rightarrow> int option) \<Rightarrow> 'w sandbox \<Rightarrow> code_exec \<Rightarrow> 'w tool" where
  "code_exec_tool to_int sb ce =
     \<lparr>to_name = ''code_exec'', to_danger = EXEC, to_validate = code_exec_validate to_int, to_run = code_exec_run sb ce\<rparr>"

section \<open>One verdict\<close>

text \<open>A line as the JSON printer writes it: no line end inside, no blank at its ends.\<close>

definition one_line :: "string \<Rightarrow> bool" where
  "one_line s \<longleftrightarrow> s \<noteq> [] \<and> strip s = s \<and> (\<forall>c \<in> set s. \<not> is_line_end c)"

lemma crlf_plain: "(\<forall>c \<in> set s. c \<noteq> CHR 0x0D) \<Longrightarrow> crlf s = s"
  by (induction s rule: crlf.induct) auto

lemma lines_from_plain: "(\<forall>c \<in> set s. \<not> is_line_end c) \<Longrightarrow> lines_from l (s @ NEWLINE) = [l @ s]"
  by (induction s arbitrary: l) (auto simp: NEWLINE_def is_line_end_def)

lemma last_json_line_one:
  assumes "one_line s"
  shows "last_json_line (s @ NEWLINE) = Some s"
proof -
  have "\<forall>c \<in> set (s @ NEWLINE). c \<noteq> CHR 0x0D"
    using assms by (auto simp: one_line_def NEWLINE_def is_line_end_def)
  then have "splitlines (s @ NEWLINE) = [s]"
    using assms lines_from_plain [of s "[]"] by (simp add: splitlines_def crlf_plain one_line_def)
  with assms show ?thesis by (simp add: last_json_line_def one_line_def)
qed

text \<open>How a snippet must end to have succeeded.\<close>

fun ended_well :: "snippet_end \<Rightarrow> bool" where
  "ended_well Returned = True"
| "ended_well (Exited ExitNone) = True"
| "ended_well (Exited (ExitInt n)) = (n = 0)"
| "ended_well (Exited (ExitBool b)) = (\<not> b)"
| "ended_well _ = False"

definition verdict_of :: "(bytes \<Rightarrow> string) \<Rightarrow> nat \<Rightarrow> int \<Rightarrow> snippet_run \<Rightarrow> sandbox_verdict" where
  "verdict_of decode output_max timeout sn =
     (let (ok, timed_out, code, e) = exit_status timeout (sn_end sn) in
      \<lparr>sv_ok = ok, sv_timed_out = timed_out, sv_exit_code = the (lax_int (\<lambda>s. None) code),
       sv_stdout = fst (read_output decode output_max (sn_stdout sn)),
       sv_stderr = fst (read_output decode output_max (sn_stderr sn)),
       sv_truncated = (output_max < length (sn_stdout sn) \<or> output_max < length (sn_stderr sn)),
       sv_error = the (opt_dict e), sv_duration_ms = \<lfloor>sn_seconds sn * 1000\<rfloor>\<rparr>)"

lemma read_output_cut: "snd (read_output decode k raw) \<longleftrightarrow> k < length raw"
  by (simp add: read_output_def Let_def)

lemma verdict_of_ok: "sv_ok (verdict_of decode k t sn) \<longleftrightarrow> ended_well (sn_end sn)"
  by (cases "(t, sn_end sn)" rule: exit_status.cases) (simp_all add: verdict_of_def Let_def)

lemma verdict_of_timed_out: "sv_timed_out (verdict_of decode k t sn) \<longleftrightarrow> sn_end sn = Alarmed"
  by (cases "(t, sn_end sn)" rule: exit_status.cases) (simp_all add: verdict_of_def Let_def)

lemma runner_main_read:
  assumes "sb_loads sb line = Some (runner_main decode k t sn)"
  shows "parse_sandbox_verdict sb line = Inr (verdict_of decode k t sn)"
proof -
  obtain out oc where o: "read_output decode k (sn_stdout sn) = (out, oc)" by fastforce
  obtain err ec where e: "read_output decode k (sn_stderr sn) = (err, ec)" by fastforce
  have clip: "oc \<longleftrightarrow> k < length (sn_stdout sn)" "ec \<longleftrightarrow> k < length (sn_stderr sn)"
    using read_output_cut [of decode k] o e by (metis snd_conv)+
  show ?thesis
    by (cases "(t, sn_end sn)" rule: exit_status.cases)
      (simp_all add: parse_sandbox_verdict_def assms runner_main_def verdict_json_def Let_def o e clip field_def
        verdict_of_def error_json_def)
qed

lemma read_output_bound:
  assumes "\<forall>raw. length (decode raw) \<le> length raw"
  shows "length (fst (read_output decode k raw)) \<le> k + length TRUNCATION_MARK"
proof -
  have "length (decode (take k raw)) \<le> k"
    using assms [rule_format, of "take k raw"] by simp
  moreover have "take k raw = raw" if "\<not> k < length raw" using that by simp
  ultimately show ?thesis by (cases "k < length raw") (auto simp: read_output_def Let_def)
qed

section \<open>Properties\<close>


text \<open>The one failure that is not a result: a last line that is no verdict.\<close>

lemma parse_fails: "parse_sandbox_verdict sb line = Inl e \<Longrightarrow> e = ValidationError"
  by (auto simp: parse_sandbox_verdict_def split: option.splits json.splits)

lemma code_exec_raises:
  assumes "code_exec_run sb ce (JDict [(a, JStr code), (b, j)]) w = (w1, Inl e)"
  shows "e = ValidationError \<and> (\<exists>t txt line. sb_launch sb code t w = (w1, Wrote txt) \<and> last_json_line txt = Some line \<and>
    parse_sandbox_verdict sb line = Inl e)"
proof -
  define t where "t = (case j of JInt n \<Rightarrow> if n \<noteq> 0 then n else ce_default_timeout ce | _ \<Rightarrow> ce_default_timeout ce)"
  from assms obtain line where l: "subprocess_run sb code t w = (w1, Inr line)" "parse_sandbox_verdict sb line = Inl e"
    by (cases "subprocess_run sb code t w"; cases "snd (subprocess_run sb code t w)"; cases "parse_sandbox_verdict sb (projr (snd (subprocess_run sb code t w)))")
      (auto simp: code_exec_run_def t_def [symmetric] ok_bind_def split: if_splits)
  from l(1) obtain out where "sb_launch sb code t w = (w1, Wrote out)" "last_json_line out = Some line"
    by (auto simp: subprocess_run_def split: prod.splits launch_end.splits option.splits)
  with l(2) parse_fails show ?thesis by blast
qed

text \<open>An example: a launcher that runs the runner, a printer and a parser of two words.\<close>

definition launch_demo :: "snippet_end \<Rightarrow> nat sandbox" where
  "launch_demo en = \<lparr>sb_launch = \<lambda>code t w. (Suc w, Wrote (''v'' @ NEWLINE)), sb_outer_buffer = 5,
     sb_loads = \<lambda>s. Some (runner_emit (map (\<lambda>b. CHR ''x'')) 4 10 (Inr \<lparr>sn_end = en, sn_stdout = [1, 2, 3, 4, 5],
        sn_stderr = [], sn_seconds = 1\<rparr>)), sb_text_int = \<lambda>s. None, sb_str = \<lambda>j. []\<rparr>"


text \<open>A launcher that writes anything else makes the tool raise, against its promise.\<close>

lemma no_verdict_raises:
  "snd (code_exec_run \<lparr>sb_launch = \<lambda>code t w. (w, Wrote ''docker: what''), sb_outer_buffer = 5, sb_loads = \<lambda>s. None,
       sb_text_int = \<lambda>s. None, sb_str = \<lambda>j. []\<rparr> \<lparr>ce_default_timeout = 10, ce_max_code_chars = 9\<rparr>
       (JDict [(''code'', JStr ''1''), (''timeout_seconds'', JNull)]) ()) = Inl ValidationError"
  by (simp add: code_exec_run_def subprocess_run_def last_json_line_def splitlines_def is_line_end_def is_space_def
      strip_def Let_def parse_sandbox_verdict_def)

end
