(* ===== verification/Belt.thy ===== *)
theory Belt
  imports CodeExec Perception
begin

text \<open>
  Johnny's journal (\<^verbatim>\<open>brain/effectors/notes.py\<close>), his memory as tools
  (\<^verbatim>\<open>brain/effectors/memory_tools.py\<close>) and the belt all tools hang on
  (\<^verbatim>\<open>brain/effectors/belt.py\<close>).  The tools of the belt work on one world: the outside, the
  senses with the wakeups, the journal, and the memories.
\<close>

section \<open>The journal\<close>

record note_row =
  no_id :: nat
  no_ts :: real
  no_title :: string
  no_body :: string
  no_tags :: "string list"

record journal_note =
  jn_id :: "nat option"
  jn_ts :: "real option"
  jn_title :: string
  jn_body :: string
  jn_tags :: "string list"

definition row_to_note :: "note_row \<Rightarrow> journal_note" where
  "row_to_note r =
     \<lparr>jn_id = Some (no_id r), jn_ts = Some (no_ts r), jn_title = no_title r, jn_body = no_body r, jn_tags = no_tags r\<rparr>"

text \<open>The database refuses a title beyond its column and the character NUL.\<close>

definition note_refused :: "journal_note \<Rightarrow> bool" where
  "note_refused n \<longleftrightarrow> 256 < length (jn_title n) \<or>
     CHR 0x00 \<in> set (jn_title n) \<union> set (jn_body n) \<union> (\<Union>t \<in> set (jn_tags n). set t)"

definition note_add :: "bool \<Rightarrow> real \<Rightarrow> journal_note \<Rightarrow> note_row list \<Rightarrow> note_row list \<times> journal_note res" where
  "note_add db now n tbl =
     (if \<not> db then (tbl, Inl (OtherError ''database''))
      else if note_refused n then (tbl, Inl (OtherError ''DataError''))
      else let row = \<lparr>no_id = Suc (length tbl), no_ts = (case jn_ts n of Some t \<Rightarrow> t | None \<Rightarrow> now),
                      no_title = jn_title n, no_body = jn_body n, no_tags = jn_tags n\<rparr>
           in (tbl @ [row], Inr (row_to_note row)))"

text \<open>\<open>newest n\<close> is the query \<^verbatim>\<open>ORDER BY ts DESC LIMIT n\<close>; among rows of one time the choice is the
  database's.\<close>

definition newest_first_ok :: "('r \<Rightarrow> real) \<Rightarrow> (nat \<Rightarrow> 'r list \<Rightarrow> 'r list) \<Rightarrow> bool" where
  "newest_first_ok ts newest \<longleftrightarrow> (\<forall>n rows. \<exists>sorted_rows. mset sorted_rows = mset rows \<and>
     sorted_wrt (\<lambda>a b. ts b \<le> ts a) sorted_rows \<and> newest n rows = take n sorted_rows)"

definition note_recent :: "(nat \<Rightarrow> note_row list \<Rightarrow> note_row list) \<Rightarrow> int \<Rightarrow> note_row list \<Rightarrow> journal_note list" where
  "note_recent newest n tbl = (if n \<le> 0 then [] else map row_to_note (newest (nat n) tbl))"

definition note_payload :: "(real \<Rightarrow> string) \<Rightarrow> journal_note \<Rightarrow> json" where
  "note_payload iso_text n = JDict
     [(''id'', json_nat_id (jn_id n)), (''ts'', case jn_ts n of Some t \<Rightarrow> JStr (iso_text t) | None \<Rightarrow> JNull),
      (''title'', JStr (jn_title n)), (''body'', JStr (jn_body n)), (''tags'', JList (map JStr (jn_tags n)))]"

definition notes_to_payload :: "(real \<Rightarrow> string) \<Rightarrow> journal_note list \<Rightarrow> json list" where
  "notes_to_payload iso_text = map (note_payload iso_text)"

fun str_list :: "json list \<Rightarrow> string list option" where
  "str_list [] = Some []"
| "str_list (JStr s # js) = map_option (Cons s) (str_list js)"
| "str_list _ = None"

definition note_validate :: "(string \<times> json) list \<Rightarrow> json res" where
  "note_validate raw =
     (if \<not> set (map fst raw) \<subseteq> {''title'', ''body'', ''tags''} then Inl ValidationError
      else case (map_of raw ''title'', map_of raw ''body'', dict_get raw ''tags'' (JList [])) of
             (Some (JStr t), Some (JStr b), JList tags) \<Rightarrow>
               if t = [] \<or> 256 < length t \<or> b = [] \<or> str_list tags = None then Inl ValidationError
               else Inr (JDict [(''title'', JStr t), (''body'', JStr b), (''tags'', JList tags)])
           | _ \<Rightarrow> Inl ValidationError)"

text \<open>\<open>db\<close> and \<open>now\<close>: what the database and the clock give at the call.\<close>

definition note_run :: "bool \<Rightarrow> real \<Rightarrow> json \<Rightarrow> note_row list \<Rightarrow> note_row list \<times> tool_result res" where
  "note_run db now args tbl =
     (case args of
        JDict [(_, JStr t), (_, JStr b), (_, JList tags)] \<Rightarrow>
          (case note_add db now \<lparr>jn_id = None, jn_ts = None, jn_title = t, jn_body = b, jn_tags = the (str_list tags)\<rparr> tbl of
             (tbl1, Inl e) \<Rightarrow> (tbl1, Inl e)
           | (tbl1, Inr n) \<Rightarrow>
               (tbl1, Inr \<lparr>tr_success = True,
                  tr_output = [(''id'', json_nat_id (jn_id n)), (''title'', JStr (jn_title n)), (''tags'', JList (map JStr (jn_tags n)))],
                  tr_summary = ''journalled '' @ py_repr (jn_title n)\<rparr>))
      | _ \<Rightarrow> (tbl, Inl TypeError))"

section \<open>Memory as tools\<close>

text \<open>What the two stores are built with.\<close>

record recollection =
  rl_emb :: "string \<Rightarrow> real list res"
  rl_nearest :: nearest
  rl_nearest_f :: "real list \<Rightarrow> nat \<Rightarrow> fact_row list \<Rightarrow> (fact_row \<times> real) list"
  rl_pool :: nat
  rl_weights :: recall_weights

definition MAX_SEARCH_K :: int where "MAX_SEARCH_K = 20"

definition memory_write_validate :: "(json \<Rightarrow> real option) \<Rightarrow> (string \<times> json) list \<Rightarrow> json res" where
  "memory_write_validate to_float raw =
     (if \<not> set (map fst raw) \<subseteq> {''content'', ''kind'', ''salience''} then Inl ValidationError
      else case (map_of raw ''content'', dict_get raw ''kind'' (JStr ''self_memory''),
                 to_float (dict_get raw ''salience'' (JFloat (6/10)))) of
             (Some (JStr c), JStr k, Some s) \<Rightarrow>
               if c = [] \<or> k = [] \<or> 64 < length k \<or> s < 0 \<or> 1 < s then Inl ValidationError
               else Inr (JDict [(''content'', JStr c), (''kind'', JStr k), (''salience'', JFloat s)])
           | _ \<Rightarrow> Inl ValidationError)"

definition deliberate_episode :: "string \<Rightarrow> string \<Rightarrow> real \<Rightarrow> episode" where
  "deliberate_episode kind content sal =
     \<lparr>ep_id = None, ep_ts = None, ep_kind = kind, ep_content = content, ep_actors = [], ep_emotion_tags = [],
      ep_salience = sal, ep_score = None\<rparr>"

definition memory_write_run :: "recollection \<Rightarrow> real \<Rightarrow> json \<Rightarrow> web_memory \<Rightarrow> web_memory \<times> tool_result res" where
  "memory_write_run rl now args m =
     (case args of
        JDict [(_, JStr c), (_, JStr k), (_, JFloat s)] \<Rightarrow>
          (case episodic_write (rl_emb rl) now (deliberate_episode k c s) (me_episodes m) of
             Inl e \<Rightarrow> (m, Inl e)
           | Inr (tbl, ep) \<Rightarrow>
               (m\<lparr>me_episodes := tbl\<rparr>,
                Inr \<lparr>tr_success = True, tr_output = [(''id'', json_nat_id (ep_id ep)), (''kind'', JStr (ep_kind ep))],
                     tr_summary = ''remembered: '' @ take 80 c\<rparr>))
      | _ \<Rightarrow> (m, Inl TypeError))"

definition memory_search_validate :: "(json \<Rightarrow> int option) \<Rightarrow> (string \<times> json) list \<Rightarrow> json res" where
  "memory_search_validate to_int raw =
     (if \<not> set (map fst raw) \<subseteq> {''query'', ''k''} then Inl ValidationError
      else case (map_of raw ''query'', to_int (dict_get raw ''k'' (JInt 5))) of
             (Some (JStr q), Some k) \<Rightarrow>
               if q = [] \<or> k < 1 \<or> MAX_SEARCH_K < k then Inl ValidationError
               else Inr (JDict [(''query'', JStr q), (''k'', JInt k)])
           | _ \<Rightarrow> Inl ValidationError)"

definition json_score :: "real option \<Rightarrow> json" where
  "json_score s = (case s of None \<Rightarrow> JNull | Some x \<Rightarrow> JFloat (py_round 4 x))"

definition episode_hit :: "episode \<Rightarrow> json" where
  "episode_hit e = JDict [(''id'', json_nat_id (ep_id e)), (''kind'', JStr (ep_kind e)), (''content'', JStr (ep_content e)),
     (''score'', json_score (ep_score e))]"

definition fact_hit :: "fact \<Rightarrow> json" where
  "fact_hit f = JDict [(''id'', JInt (int (fa_id f))), (''subject'', JStr (fa_subject f)),
     (''predicate'', JStr (fa_predicate f)), (''object'', JStr (fa_object f)), (''score'', json_score (fa_score f))]"

definition memory_search_run :: "recollection \<Rightarrow> real \<Rightarrow> json \<Rightarrow> web_memory \<Rightarrow> web_memory \<times> tool_result res" where
  "memory_search_run rl now args m =
     (case args of
        JDict [(_, JStr q), (_, JInt k)] \<Rightarrow>
          (m, ok_bind (episodic_recall (rl_emb rl) (rl_nearest rl) (rl_pool rl) (rl_weights rl) q k now None (me_episodes m)) (\<lambda>eps.
              ok_bind (semantic_recall (rl_emb rl) (rl_nearest_f rl) q k (fs_rows (me_facts m))) (\<lambda>fs.
              Inr \<lparr>tr_success = True,
                   tr_output = [(''episodes'', JList (map episode_hit eps)), (''facts'', JList (map fact_hit fs))],
                   tr_summary = ''recalled '' @ show_nat (length eps) @ '' episode(s) + '' @ show_nat (length fs) @
                     '' fact(s) for '' @ py_repr q\<rparr>)))
      | _ \<Rightarrow> (m, Inl TypeError))"

section \<open>The belt\<close>

record 'x belt_world =
  bw_outside :: 'x
  bw_senses :: senses
  bw_notes :: "note_row list"
  bw_memory :: web_memory

record 'x belt_config =
  bc_net :: "'x net"
  bc_fetch :: web_fetch
  bc_searx :: "'x searx"
  bc_max_results :: int
  bc_sandbox :: "'x sandbox"
  bc_code :: code_exec
  bc_feeds :: feeds
  bc_recollection :: recollection
  bc_db :: "'x \<Rightarrow> bool"
  bc_now :: "'x \<Rightarrow> real"
  bc_to_int :: "json \<Rightarrow> int option"
  bc_to_float :: "json \<Rightarrow> real option"

text \<open>A tool of a part of the world, as a tool of the world.\<close>

definition on_outside :: "'x tool \<Rightarrow> 'x belt_world tool" where
  "on_outside t = \<lparr>to_name = to_name t, to_danger = to_danger t, to_validate = to_validate t,
     to_run = \<lambda>args w. let (x, r) = to_run t args (bw_outside w) in (w\<lparr>bw_outside := x\<rparr>, r)\<rparr>"

definition on_senses :: "senses tool \<Rightarrow> 'x belt_world tool" where
  "on_senses t = \<lparr>to_name = to_name t, to_danger = to_danger t, to_validate = to_validate t,
     to_run = \<lambda>args w. let (x, r) = to_run t args (bw_senses w) in (w\<lparr>bw_senses := x\<rparr>, r)\<rparr>"

definition note_tool :: "'x belt_config \<Rightarrow> 'x belt_world tool" where
  "note_tool bc = \<lparr>to_name = ''note'', to_danger = SAFE, to_validate = note_validate,
     to_run = \<lambda>args w. let (x, r) = note_run (bc_db bc (bw_outside w)) (bc_now bc (bw_outside w)) args (bw_notes w)
                       in (w\<lparr>bw_notes := x\<rparr>, r)\<rparr>"

definition memory_write_tool :: "'x belt_config \<Rightarrow> 'x belt_world tool" where
  "memory_write_tool bc = \<lparr>to_name = ''memory_write'', to_danger = SAFE, to_validate = memory_write_validate (bc_to_float bc),
     to_run = \<lambda>args w. let (x, r) = memory_write_run (bc_recollection bc) (bc_now bc (bw_outside w)) args (bw_memory w)
                       in (w\<lparr>bw_memory := x\<rparr>, r)\<rparr>"

definition memory_search_tool :: "'x belt_config \<Rightarrow> 'x belt_world tool" where
  "memory_search_tool bc = \<lparr>to_name = ''memory_search'', to_danger = SAFE, to_validate = memory_search_validate (bc_to_int bc),
     to_run = \<lambda>args w. let (x, r) = memory_search_run (bc_recollection bc) (bc_now bc (bw_outside w)) args (bw_memory w)
                       in (w\<lparr>bw_memory := x\<rparr>, r)\<rparr>"

fun register_all :: "'w tool list \<Rightarrow> 'w belt \<Rightarrow> 'w belt res" where
  "register_all [] b = Inr b"
| "register_all (t # ts) b = ok_bind (belt_register t b) (register_all ts)"

definition belt_tools :: "'x belt_config \<Rightarrow> 'x belt_world tool list" where
  "belt_tools bc =
     [noop_tool, on_outside (web_search_tool (bc_to_int bc) (bc_searx bc) (bc_max_results bc)),
      on_outside (news_tool (bc_to_int bc) (bc_searx bc) (bc_max_results bc)),
      on_outside (web_fetch_tool (bc_net bc) (bc_fetch bc)),
      on_outside (code_exec_tool (bc_to_int bc) (bc_sandbox bc) (bc_code bc)),
      note_tool bc, memory_write_tool bc, memory_search_tool bc,
      on_senses (schedule_wakeup_tool (bc_to_float bc) (bc_feeds bc))]"

definition build_tool_registry :: "'x belt_config \<Rightarrow> 'x belt_world belt res" where
  "build_tool_registry bc = register_all (belt_tools bc) []"

section \<open>The belt is complete, strict and honest about its hazards\<close>

lemmas belt_tool_defs = noop_tool_def on_outside_def on_senses_def note_tool_def memory_write_tool_def memory_search_tool_def
  web_search_tool_def news_tool_def web_fetch_tool_def code_exec_tool_def schedule_wakeup_tool_def

lemma register_all_append:
  assumes "distinct (map fst b @ map to_name ts)"
  shows "register_all ts b = Inr (b @ map (\<lambda>t. (to_name t, t)) ts)"
  using assms
proof (induction ts arbitrary: b)
  case (Cons t ts)
  then have "map_of b (to_name t) = None" by (auto simp: map_of_eq_None_iff)
  moreover from this have "dict_put (to_name t) t b = b @ [(to_name t, t)]"
    by (induction b) (auto split: if_splits)
  ultimately show ?case using Cons by (simp add: belt_register_def)
qed simp

lemma belt_built: "build_tool_registry bc = Inr (map (\<lambda>t. (to_name t, t)) (belt_tools bc))"
  using register_all_append [of "[]" "belt_tools bc"] by (simp add: build_tool_registry_def belt_tools_def belt_tool_defs)

lemma on_belt: "build_tool_registry bc = Inr b \<Longrightarrow> map_of b n = Some t \<Longrightarrow> t \<in> set (belt_tools bc) \<and> to_name t = n"
  by (auto simp: belt_built dest!: map_of_SomeD)

text \<open>The arguments each tool knows.\<close>

definition ARGUMENTS :: "(string \<times> string list) list" where
  "ARGUMENTS = [(''noop'', [''message'']), (''web_search'', [''query'', ''limit'']), (''news'', [''topic'', ''limit'']),
     (''web_fetch'', [''url'']), (''code_exec'', [''code'', ''timeout_seconds'']), (''note'', [''title'', ''body'', ''tags'']),
     (''memory_write'', [''content'', ''kind'', ''salience'']), (''memory_search'', [''query'', ''k'']),
     (''schedule_wakeup'', [''delay_seconds'', ''reason''])]"

lemma strict_validators:
  assumes "k \<in> fst ` set raw"
  shows "k \<noteq> ''message'' \<Longrightarrow> noop_validate raw = Inl ValidationError"
    "k \<notin> {f, ''limit''} \<Longrightarrow> query_validate to_int f raw = Inl ValidationError"
    "k \<noteq> ''url'' \<Longrightarrow> web_fetch_validate raw = Inl ValidationError"
    "k \<notin> {''code'', ''timeout_seconds''} \<Longrightarrow> code_exec_validate to_int raw = Inl ValidationError"
    "k \<notin> {''title'', ''body'', ''tags''} \<Longrightarrow> note_validate raw = Inl ValidationError"
    "k \<notin> {''content'', ''kind'', ''salience''} \<Longrightarrow> memory_write_validate to_float raw = Inl ValidationError"
    "k \<notin> {''query'', ''k''} \<Longrightarrow> memory_search_validate to_int raw = Inl ValidationError"
    "k \<notin> {''delay_seconds'', ''reason''} \<Longrightarrow> wakeup_validate to_float raw = Inl ValidationError"
proof -
  have sub: "\<not> set (map fst raw) \<subseteq> A" if "k \<notin> A" for A using assms that by auto
  show "k \<noteq> ''message'' \<Longrightarrow> noop_validate raw = Inl ValidationError"
    using assms by (auto simp: noop_validate_def split: list.splits prod.splits json.splits)
  show "k \<noteq> ''url'' \<Longrightarrow> web_fetch_validate raw = Inl ValidationError"
    using assms by (auto simp: web_fetch_validate_def split: list.splits prod.splits json.splits)
  show "k \<notin> {f, ''limit''} \<Longrightarrow> query_validate to_int f raw = Inl ValidationError" using sub by (simp only: query_validate_def simp_thms if_True)
  show "k \<notin> {''code'', ''timeout_seconds''} \<Longrightarrow> code_exec_validate to_int raw = Inl ValidationError"
    using sub by (simp only: code_exec_validate_def simp_thms if_True)
  show "k \<notin> {''title'', ''body'', ''tags''} \<Longrightarrow> note_validate raw = Inl ValidationError"
    using sub by (simp only: note_validate_def simp_thms if_True)
  show "k \<notin> {''content'', ''kind'', ''salience''} \<Longrightarrow> memory_write_validate to_float raw = Inl ValidationError"
    using sub by (simp only: memory_write_validate_def simp_thms if_True)
  show "k \<notin> {''query'', ''k''} \<Longrightarrow> memory_search_validate to_int raw = Inl ValidationError"
    using sub by (simp only: memory_search_validate_def simp_thms if_True)
  show "k \<notin> {''delay_seconds'', ''reason''} \<Longrightarrow> wakeup_validate to_float raw = Inl ValidationError"
    using sub by (simp only: wakeup_validate_def simp_thms if_True)
qed
text \<open>C37: the belt is complete and strict: all nine tools are on it, and an argument a tool does not
  know is refused before anything is asked or done, whatever else the call has.\<close>

theorem belt_strict:
  assumes "build_tool_registry bc = Inr b"
  shows "belt_names b = map fst ARGUMENTS \<and>
    (\<forall>a items w. \<forall>known. map_of ARGUMENTS (pa_tool a) = Some known \<longrightarrow> (\<exists>k \<in> fst ` set (pa_args a). k \<notin> set known) \<longrightarrow>
       vet mi b a items w = (w, Inl ValidationError))"
proof (intro conjI allI impI)
  have b: "b = map (\<lambda>t. (to_name t, t)) (belt_tools bc)" using assms by (simp add: belt_built)
  then show "belt_names b = map fst ARGUMENTS"
    by (simp add: belt_names_def ARGUMENTS_def belt_tools_def belt_tool_defs)
  fix a :: proposed_action and items w known
  assume known: "map_of ARGUMENTS (pa_tool a) = Some known" and bad: "\<exists>k \<in> fst ` set (pa_args a). k \<notin> set known"
  from bad obtain k where k: "k \<in> fst ` set (pa_args a)" "k \<notin> set known" by blast
  from known have "(pa_tool a, known) \<in> set ARGUMENTS" by (rule map_of_SomeD)
  then have "\<exists>t. map_of b (pa_tool a) = Some t \<and> to_validate t (pa_args a) = Inl ValidationError"
    using k strict_validators [OF k(1)]
    by (auto simp: ARGUMENTS_def b belt_tools_def belt_tool_defs)
  then show "vet mi b a items w = (w, Inl ValidationError)"
    by (auto simp: vet_def belt_get_def validate_args_def)
qed


section \<open>Acting on his own stores\<close>

text \<open>An allowed action runs its tool's body on the world, and a returned outcome carries its result.\<close>

lemma propose_ran:
  assumes "propose mi b a items s = (s', Inr oc)" "oc_ran oc" "map_of b (pa_tool a) = Some t"
  shows "\<exists>x w1 res. to_validate t (pa_args a) = Inr x \<and>
    fst (conscience_vet mi (a\<lparr>pa_danger := danger_name (to_danger t)\<rparr>) items (es_world s)) = w1 \<and>
    to_run t x w1 = (es_world s', Inr res) \<and> oc_result oc = Some res"
proof -
  let ?a = "a\<lparr>pa_danger := danger_name (to_danger t)\<rparr>"
  obtain w1 rv where v: "vet mi b a items (es_world s) = (w1, rv)" by fastforce
  with assms(1) obtain vt where vt: "rv = Inr vt" "commit mi vt (s\<lparr>es_world := w1\<rparr>) = (s', Inr oc)"
    by (cases rv) (auto simp: propose_def)
  from v vt(1) assms(3) obtain x vd where x: "to_validate t (pa_args a) = Inr x"
    "conscience_vet mi ?a items (es_world s) = (w1, Inr vd)"
    "vt = \<lparr>va_action = ?a, va_tool = t, va_validated = x, va_verdict = vd\<rparr>"
    by (auto simp: vet_def belt_get_def validate_args_def Let_def split: sum.splits prod.splits)
  have al: "allowed vd" using vt(2) assms(2) x(3) by (auto simp: commit_def Let_def split: if_splits sum.splits)
  obtain w2 r2 where run: "to_run t x w1 = (w2, r2)" by fastforce
  with vt(2) al x(3) obtain res where res: "r2 = Inr res" by (cases r2) (auto simp: commit_def Let_def)
  note c = vt(2)[unfolded commit_def Let_def x(3) vetted.select_convs]
  from c al run res obtain s2 s3 where "record_action mi \<lparr>ac_tool = pa_tool ?a, ac_args = pa_args ?a, ac_result = Some (result_dump res),
      ac_verdict = vd_kind vd, ac_veto_reason = None, ac_goal_id = pa_goal_id ?a, ac_success = tr_success res\<rparr>
      (s\<lparr>es_world := w1, es_world := w2\<rparr>) = Inr s2"
    "emit_action ''action.dispatched'' ?a vd (Some res) (tr_success res) s2 = Inr s3" "s' = s3" "oc_result oc = Some res"
    by (auto split: sum.splits)
  moreover from this have "es_world s3 = w2"
    using emit_effect by (fastforce simp: record_action_def Let_def split: if_splits)
  ultimately show ?thesis using x run res by auto
qed

text \<open>acting on his own future works through the whole belt: when a proposed
  \<^verbatim>\<open>schedule_wakeup\<close> ran and reports success, exactly one wakeup more is pending, with the reason and
  the delay of the arguments, and nothing else of his senses changed.\<close>

theorem wakeup_scheduled_by_acting:
  assumes "build_tool_registry bc = Inr b" "propose mi b a items s = (s', Inr oc)"
    and "oc_ran oc" "pa_tool a = ''schedule_wakeup''"
    and "\<And>q w. bw_senses (fst (mi_ask mi q w)) = bw_senses w"
  shows "\<exists>d r wu. bc_to_float bc (dict_get (pa_args a) ''delay_seconds'' JNull) = Some d \<and> map_of (pa_args a) ''reason'' = Some (JStr r) \<and>
    0 < d \<and> d \<le> MAX_DELAY_SECONDS \<and> wu_status wu = PENDING \<and> wu_reason wu = r \<and>
    wu_fire_at wu = fe_now (bc_feeds bc) (se_calls (bw_senses (es_world s))) + d \<and>
    se_wakeups (bw_senses (es_world s')) = se_wakeups (bw_senses (es_world s)) @ [wu] \<and>
    se_queue (bw_senses (es_world s')) = se_queue (bw_senses (es_world s)) \<and>
    se_percepts (bw_senses (es_world s')) = se_percepts (bw_senses (es_world s))"
proof -
  let ?t = "on_senses (schedule_wakeup_tool (bc_to_float bc) (bc_feeds bc)) :: 'a belt_world tool"
  have t: "map_of b (pa_tool a) = Some ?t"
    using assms(1,4) by (auto simp: belt_built belt_tools_def belt_tool_defs)
  from propose_ran [OF assms(2,3) t] obtain x w1 res where x: "wakeup_validate (bc_to_float bc) (pa_args a) = Inr x"
    "fst (conscience_vet mi (a\<lparr>pa_danger := danger_name (to_danger ?t)\<rparr>) items (es_world s)) = w1"
    "to_run ?t x w1 = (es_world s', Inr res)"
    by (auto simp: on_senses_def schedule_wakeup_tool_def)
  from x(2) have w1: "bw_senses w1 = bw_senses (es_world s)"
    using assms(5) by (auto simp: conscience_vet_def split: prod.splits sum.splits exn.splits) (metis fst_conv)+
  from x(1) obtain d r where dr: "bc_to_float bc (dict_get (pa_args a) ''delay_seconds'' JNull) = Some d"
    "map_of (pa_args a) ''reason'' = Some (JStr r)" "0 < d" "d \<le> MAX_DELAY_SECONDS"
    "x = JDict [(''delay_seconds'', JFloat d), (''reason'', JStr r)]"
    by (auto simp: wakeup_validate_def dict_get_def split: if_splits option.splits json.splits bind_splits)
  define sn where "sn = bw_senses (es_world s)"
  define wu where "wu = \<lparr>wu_id = Suc (length (se_wakeups sn)), wu_fire_at = fe_now (bc_feeds bc) (se_calls sn) + d, wu_reason = r,
    wu_status = PENDING, wu_created_at = fe_now (bc_feeds bc) (Suc (se_calls sn))\<rparr>"
  have "w1\<lparr>bw_senses := sn\<lparr>se_calls := Suc (Suc (se_calls sn)), se_wakeups := se_wakeups sn @ [wu]\<rparr>\<rparr> = es_world s'"
    using x(3) w1 dr(5) unfolding sn_def [symmetric]
    by (auto simp: on_senses_def schedule_wakeup_tool_def wakeup_run_def schedule_def Let_def called_def wu_def
        split: prod.splits sum.splits if_splits)
  then have "bw_senses (es_world s') = sn\<lparr>se_calls := Suc (Suc (se_calls sn)), se_wakeups := se_wakeups sn @ [wu]\<rparr>"
    by (metis belt_world.select_convs(2) belt_world.surjective belt_world.update_convs(2))
  with dr(1-4) show ?thesis
    by (intro exI [of _ d] exI [of _ r] exI [of _ wu]) (simp add: sn_def wu_def)
qed

text \<open>The journal keeps what is written and reads back the newest first.\<close>

lemma note_add_appends:
  assumes "note_add db now n tbl = (tbl', Inr m)"
  shows "\<exists>row. tbl' = tbl @ [row] \<and> m = row_to_note row \<and> no_title row = jn_title n \<and> no_body row = jn_body n \<and> no_tags row = jn_tags n"
  using assms by (auto simp: note_add_def Let_def split: if_splits)

lemma note_recent_newest:
  assumes "newest_first_ok no_ts newest" "row \<in> set tbl" "\<forall>other \<in> set tbl. other \<noteq> row \<longrightarrow> no_ts other < no_ts row" "distinct tbl" "0 < n"
  shows "\<exists>rest. note_recent newest n tbl = row_to_note row # rest"
proof -
  from assms(1) obtain rs where rs: "mset rs = mset tbl" "sorted_wrt (\<lambda>a b. no_ts b \<le> no_ts a) rs"
    "newest (nat n) tbl = take (nat n) rs" unfolding newest_first_ok_def by blast
  have set: "set rs = set tbl" using rs(1) by (metis set_mset_mset)
  with assms(2) obtain h rest where h: "rs = h # rest" by (cases rs) auto
  have "h = row"
  proof (rule ccontr)
    assume ne: "h \<noteq> row"
    with set h assms(2,3) have "row \<in> set rest" "no_ts h < no_ts row" by auto
    with rs(2) h show False by auto
  qed
  moreover obtain k where "nat n = Suc k" using assms(5) by (cases "nat n") simp_all
  ultimately show ?thesis using assms(5) rs(3) h by (simp add: note_recent_def)
qed
section \<open>Examples\<close>

definition searx_demo :: "unit searx" where
  "searx_demo = \<lparr>sr_base_url = ''s'', sr_engines = [], sr_get = \<lambda>u ps w. (w, Inl HttpError), sr_parse_float = \<lambda>s. None,
     sr_exn_text = \<lambda>e. ''down''\<rparr>"

definition sandbox_demo :: "unit sandbox" where
  "sandbox_demo = \<lparr>sb_launch = \<lambda>code t w. (w, Overran), sb_outer_buffer = 5, sb_loads = \<lambda>s. None, sb_text_int = \<lambda>s. None,
     sb_str = \<lambda>j. []\<rparr>"

definition number_demo :: "json \<Rightarrow> real option" where
  "number_demo j = (case j of JInt i \<Rightarrow> Some (of_int i) | JFloat x \<Rightarrow> Some x | _ \<Rightarrow> None)"

definition belt_config_demo :: "unit belt_config" where
  "belt_config_demo = \<lparr>bc_net = no_net, bc_fetch = page_demo, bc_searx = searx_demo, bc_max_results = 5,
     bc_sandbox = sandbox_demo, bc_code = \<lparr>ce_default_timeout = 10, ce_max_code_chars = 100\<rparr>,
     bc_feeds = feeds_demo (\<lambda>n. True),
     bc_recollection = \<lparr>rl_emb = \<lambda>s. Inr [1], rl_nearest = near_first, rl_nearest_f = \<lambda>v n rows. map (\<lambda>r. (r, 1)) (take n rows),
       rl_pool = 5, rl_weights = weights_demo\<rparr>,
     bc_db = \<lambda>w. True, bc_now = \<lambda>w. 7, bc_to_int = \<lambda>j. (case j of JInt i \<Rightarrow> Some i | _ \<Rightarrow> None), bc_to_float = number_demo\<rparr>"

definition belt_world_demo :: "unit belt_world" where
  "belt_world_demo = \<lparr>bw_outside = (), bw_senses = wake_demo, bw_notes = [], bw_memory = \<lparr>me_episodes = [], me_facts = empty_facts\<rparr>\<rparr>"

definition belt_demo :: "unit belt_world belt" where
  "belt_demo = map (\<lambda>t. (to_name t, t)) (belt_tools belt_config_demo)"

lemma belt_demo_built: "build_tool_registry belt_config_demo = Inr belt_demo"
  by (simp add: belt_built belt_demo_def)

definition willing :: "unit belt_world mind" where
  "willing = \<lparr>mi_ask = \<lambda>q w. (w, Inr ''A''),
     mi_parse = \<lambda>c. Some (JDict [(''verdict'', JStr ''allow'')]), mi_dumps = \<lambda>d. [], mi_db = \<lambda>w. True\<rparr>"

definition remind_me :: proposed_action where
  "remind_me = \<lparr>pa_tool = ''schedule_wakeup'', pa_args = [(''delay_seconds'', JInt 60), (''reason'', JStr ''tea'')],
     pa_danger = ''safe'', pa_goal_id = None, pa_goal_description = []\<rparr>"

definition belt_state_demo :: "unit belt_world effect_state" where
  "belt_state_demo = \<lparr>es_world = belt_world_demo, es_actions = [], es_bus = es_bus effects_demo\<rparr>"

theorem belt_strict_witness:
  "vet willing belt_demo (remind_me\<lparr>pa_args := [(''delay_seconds'', JInt 60), (''repeat'', JBool True)]\<rparr>) [] belt_world_demo =
     (belt_world_demo, Inl ValidationError)"
  by (rule belt_strict [OF belt_demo_built, THEN conjunct2, rule_format, where known = "[''delay_seconds'', ''reason'']"])
    (simp_all add: remind_me_def ARGUMENTS_def)

lemma belt_demo_wakeup:
  "map_of belt_demo ''schedule_wakeup'' = Some (on_senses (schedule_wakeup_tool number_demo (feeds_demo (\<lambda>n. True))))"
  "map_of belt_demo ''code_exec'' = Some (on_outside (code_exec_tool (\<lambda>j. (case j of JInt i \<Rightarrow> Some i | _ \<Rightarrow> None)) sandbox_demo
     \<lparr>ce_default_timeout = 10, ce_max_code_chars = 100\<rparr>))"
  by (simp_all add: belt_demo_def belt_tools_def belt_tool_defs belt_config_demo_def)


theorem wakeup_scheduled_by_acting_witness:
  "\<exists>s' oc wu. propose willing belt_demo remind_me [] belt_state_demo = (s', Inr oc) \<and>
     se_wakeups (bw_senses (es_world s')) = se_wakeups wake_demo @ [wu] \<and> wu_reason wu = ''tea'' \<and> wu_fire_at wu = 70"
proof -
  have v: "wakeup_validate number_demo [(''delay_seconds'', JInt 60), (''reason'', JStr ''tea'')] =
      Inr (JDict [(''delay_seconds'', JFloat 60), (''reason'', JStr ''tea'')])"
    by (simp add: wakeup_validate_def number_demo_def MAX_DELAY_SECONDS_def)
  have vt: "vet willing belt_demo remind_me [] belt_world_demo = (belt_world_demo, Inr \<lparr>va_action = remind_me,
      va_tool = on_senses (schedule_wakeup_tool number_demo (feeds_demo (\<lambda>n. True))),
      va_validated = JDict [(''delay_seconds'', JFloat 60), (''reason'', JStr ''tea'')],
      va_verdict = \<lparr>vd_kind = ALLOW, vd_reason = []\<rparr>\<rparr>)"
    by (simp add: vet_def belt_get_def remind_me_def belt_demo_wakeup on_senses_def schedule_wakeup_tool_def validate_args_def v
        conscience_vet_def willing_def parse_verdict_def Let_def)
  have w: "es_world belt_state_demo = belt_world_demo" by (simp add: belt_state_demo_def)
  obtain s' oc where p: "propose willing belt_demo remind_me [] belt_state_demo = (s', Inr oc)" "oc_ran oc"
    unfolding propose_def w vt prod.case sum.case
    by (simp add: belt_state_demo_def commit_def Let_def allowed_def on_senses_def schedule_wakeup_tool_def
        wakeup_run_def schedule_def feeds_demo_def called_def wake_demo_def belt_world_demo_def record_action_def willing_def
        remind_me_def TOOL_COLUMN_def emit_action_def broadcast_def persist_event_def publish_event_def effects_demo_def NAME_COLUMN_def)
  have keep: "bw_senses (fst (mi_ask willing q w)) = bw_senses w" for q w by (simp add: willing_def)
  from wakeup_scheduled_by_acting [OF belt_demo_built p _ keep] p(1) show ?thesis
    by (auto simp: remind_me_def belt_config_demo_def number_demo_def dict_get_def belt_state_demo_def belt_world_demo_def
        feeds_demo_def)
qed

end
