(* ===== verification/Schemas.thy ===== *)
theory Schemas
  imports Prelude
begin

text \<open>
  The typed envelopes of the web API (\<^verbatim>\<open>johnny/api/v1/schemas.py\<close>): the shape of every response model,
  what validating a value against it yields, and the request model of the input.
\<close>

section \<open>Shapes and validation\<close>

text \<open>A model is the list of its fields: name, shape, and the default of a field that may be absent.\<close>

datatype shape =
    SInt
  | SNum
  | SText
  | SFlag
  | SAny
  | SNullable shape
  | SItems shape
  | SDictOf shape
  | SModel "(string \<times> shape \<times> json option) list"

definition both :: "'k \<Rightarrow> 'v option \<Rightarrow> ('k \<times> 'v) option" where
  "both k v = map_option (Pair k) v"

text \<open>Validation yields what the model dumps: the declared fields in order, defaults filled in, other keys
  dropped.  (The coercions of the library between scalars, an integer to a float apart, are outside the
  values the code validates.)\<close>

fun validate :: "shape \<Rightarrow> json \<Rightarrow> json option" where
  "validate SInt v = (case v of JInt i \<Rightarrow> Some v | _ \<Rightarrow> None)"
| "validate SNum v = (case v of JFloat x \<Rightarrow> Some v | JInt i \<Rightarrow> Some (JFloat (of_int i)) | _ \<Rightarrow> None)"
| "validate SText v = (case v of JStr s \<Rightarrow> Some v | _ \<Rightarrow> None)"
| "validate SFlag v = (case v of JBool b \<Rightarrow> Some v | _ \<Rightarrow> None)"
| "validate SAny v = Some v"
| "validate (SNullable sh) v = (if v = JNull then Some JNull else validate sh v)"
| "validate (SItems sh) v =
     (case v of JList xs \<Rightarrow> map_option JList (those (map (validate sh) xs)) | _ \<Rightarrow> None)"
| "validate (SDictOf sh) v =
     (case v of JDict d \<Rightarrow> map_option JDict (those (map (\<lambda>(k, x). both k (validate sh x)) d)) | _ \<Rightarrow> None)"
| "validate (SModel fs) v =
     (case v of
        JDict d \<Rightarrow> map_option JDict (those (map (\<lambda>(n, sh, dflt). both n
            (case map_of d n of Some x \<Rightarrow> validate sh x | None \<Rightarrow> dflt)) fs))
      | _ \<Rightarrow> None)"

text \<open>A well-formed shape: no field twice, and every default is a value of its field.\<close>

fun shape_ok :: "shape \<Rightarrow> bool" where
  "shape_ok (SNullable sh) = shape_ok sh"
| "shape_ok (SItems sh) = shape_ok sh"
| "shape_ok (SDictOf sh) = shape_ok sh"
| "shape_ok (SModel fs) =
     (distinct (map fst fs) \<and>
      list_all (\<lambda>(n, sh, dflt). shape_ok sh \<and> (case dflt of Some v \<Rightarrow> validate sh v = Some v | None \<Rightarrow> True)) fs)"
| "shape_ok _ = True"

text \<open>A value that is an instance of the model as it stands on the wire.\<close>

definition conforms :: "shape \<Rightarrow> json \<Rightarrow> bool" where
  "conforms sh v \<longleftrightarrow> validate sh v = Some v"
lemma those_map_Some: "those (map f xs) = Some ys \<longleftrightarrow> list_all2 (\<lambda>x y. f x = Some y) xs ys"
proof (induction xs arbitrary: ys)
  case (Cons x xs)
  then show ?case by (cases ys) (auto split: option.splits)
qed auto

lemma those_same: "(\<And>x. x \<in> set xs \<Longrightarrow> f x = Some x) \<Longrightarrow> those (map f xs) = Some xs"
  by (induction xs) auto

lemma both_iff: "both k v = Some p \<longleftrightarrow> fst p = k \<and> v = Some (snd p)"
  by (cases p) (auto simp: both_def)

lemma list_all2_fst:
  "list_all2 (\<lambda>x y. f x = Some y) xs ys \<Longrightarrow> (\<And>x y. f x = Some y \<Longrightarrow> g y = h x) \<Longrightarrow> map g ys = map h xs"
  by (induction rule: list_all2_induct) auto

lemma list_all2_from: "list_all2 P xs ys \<Longrightarrow> y \<in> set ys \<Longrightarrow> \<exists>x \<in> set xs. P x y"
  by (induction rule: list_all2_induct) auto

text \<open>What was validated is valid as it is.\<close>

lemma validate_idem: "shape_ok sh \<Longrightarrow> validate sh v = Some w \<Longrightarrow> conforms sh w"
  unfolding conforms_def
proof (induction sh v arbitrary: w rule: validate.induct)
  case (6 sh v)
  then show ?case by (cases "v = JNull") auto
next
  case (7 sh v)
  then obtain xs ys where v: "v = JList xs" and w: "w = JList ys" and l: "list_all2 (\<lambda>x y. validate sh x = Some y) xs ys"
    by (auto simp: those_map_Some split: json.splits)
  have "validate sh y = Some y" if "y \<in> set ys" for y
    using list_all2_from [OF l that] 7(1) [OF v] 7(2) by auto
  with w show ?case by (simp add: those_same)
next
  case (8 sh v)
  then obtain xs ys where v: "v = JDict xs" and w: "w = JDict ys"
    and l: "list_all2 (\<lambda>(k, x) y. both k (validate sh x) = Some y) xs ys"
    by (auto simp: those_map_Some case_prod_unfold split: json.splits)
  have "both (fst y) (validate sh (snd y)) = Some y" if y: "y \<in> set ys" for y
  proof -
    obtain x where "x \<in> set xs" "both (fst x) (validate sh (snd x)) = Some y"
      using list_all2_from [OF l y] by auto
    with 8(1) [OF v, of x "fst x" "snd x"] 8(2) show ?thesis by (auto simp: both_iff)
  qed
  with w show ?case by (simp add: those_same case_prod_unfold)
next
  case (9 fs v)
  then obtain d ys where v: "v = JDict d" and w: "w = JDict ys"
    and l: "list_all2 (\<lambda>(n, sh, dflt) y. both n (case map_of d n of Some x \<Rightarrow> validate sh x | None \<Rightarrow> dflt) = Some y) fs ys"
    by (auto simp: those_map_Some case_prod_unfold split: json.splits)
  have keys: "map fst ys = map fst fs"
    by (rule list_all2_fst [OF l [unfolded case_prod_unfold]]) (simp add: both_iff)
  have "list_all2 (\<lambda>(n, sh, dflt) y. both n (case map_of ys n of Some x \<Rightarrow> validate sh x | None \<Rightarrow> dflt) = Some y) fs ys"
  proof (rule list_all2_all_nthI)
    show "length fs = length ys" using l by (rule list_all2_lengthD)
    fix i assume i: "i < length fs"
    obtain n sh dflt where f: "fs ! i = (n, sh, dflt)" by (cases "fs ! i") auto
    then have mem: "(n, sh, dflt) \<in> set fs" using i by (metis nth_mem)
    from l i f have e: "both n (case map_of d n of Some x \<Rightarrow> validate sh x | None \<Rightarrow> dflt) = Some (ys ! i)"
      by (auto dest: list_all2_nthD)
    have "ys ! i \<in> set ys" using i l by (simp add: list_all2_lengthD)
    moreover have "distinct (map fst ys)" using keys 9(2) by simp
    ultimately have m: "map_of ys n = Some (snd (ys ! i))"
      using e by (metis both_iff map_of_is_SomeI prod.collapse)
    have "validate sh (snd (ys ! i)) = Some (snd (ys ! i))"
    proof (cases "map_of d n")
      case None
      with e mem 9(2) show ?thesis by (auto simp: both_iff list_all_iff split: option.splits)
    next
      case (Some x)
      from e Some have "validate sh x = Some (snd (ys ! i))" by (simp add: both_iff)
      moreover have "shape_ok sh" using mem 9(2) by (auto simp: list_all_iff)
      ultimately show ?thesis using 9(1) [OF v mem refl refl Some] by simp
    qed
    with m e f show "(\<lambda>(n, sh, dflt) y. both n (case map_of ys n of Some x \<Rightarrow> validate sh x | None \<Rightarrow> dflt) = Some y)
        (fs ! i) (ys ! i)"
      by (simp add: both_iff)
  qed
  then have "those (map (\<lambda>(n, sh, dflt). both n (case map_of ys n of Some x \<Rightarrow> validate sh x | None \<Rightarrow> dflt)) fs) = Some ys"
    by (simp add: those_map_Some case_prod_unfold)
  with w show ?case by simp
qed (simp_all split: json.splits, auto)

text \<open>An instance of a model is a dictionary with exactly its fields.\<close>

lemma conforms_model:
  assumes "conforms (SModel fs) v"
  shows "\<exists>d. v = JDict d \<and> map fst d = map fst fs"
proof -
  obtain d ys where v: "v = JDict d" "v = JDict ys"
    and l: "list_all2 (\<lambda>(n, sh, dflt) y. both n (case map_of d n of Some x \<Rightarrow> validate sh x | None \<Rightarrow> dflt) = Some y) fs ys"
    using assms by (auto simp: conforms_def those_map_Some case_prod_unfold split: json.splits)
  have "map fst ys = map fst fs"
    by (rule list_all2_fst [OF l [unfolded case_prod_unfold]]) (simp add: both_iff)
  with v show ?thesis by auto
qed

lemma conforms_items: "conforms (SItems sh) (JList (map f xs)) \<longleftrightarrow> (\<forall>x \<in> set xs. conforms sh (f x))"
proof
  assume "conforms (SItems sh) (JList (map f xs))"
  then have "list_all2 (\<lambda>x y. validate sh (f x) = Some y) xs (map f xs)"
    by (auto simp: conforms_def those_map_Some list_all2_map1)
  then show "\<forall>x \<in> set xs. conforms sh (f x)"
    by (auto simp: conforms_def list_all2_conv_all_nth in_set_conv_nth)
next
  assume "\<forall>x \<in> set xs. conforms sh (f x)"
  then show "conforms (SItems sh) (JList (map f xs))"
    using those_same [of "map f xs" "validate sh"] by (auto simp: conforms_def)
qed
text \<open>The fields that recur: texts, identifiers and dictionaries of anything.\<close>

lemma conforms_texts: "conforms (SItems SText) (JList (map JStr xs))"
  by (induction xs) (auto simp: conforms_def)

lemma conforms_dict_any: "conforms (SDictOf SAny) (JDict d)"
  by (induction d) (auto simp: conforms_def both_def)

lemma conforms_dict_num: "conforms (SDictOf SNum) (JDict (map (\<lambda>(k, x). (k, JFloat (g k x))) d))"
  by (induction d) (auto simp: conforms_def both_def)

lemma conforms_dict_text: "conforms (SDictOf SText) (JDict (map (\<lambda>(k, x). (k, JStr x)) d))"
  by (induction d) (auto simp: conforms_def both_def)

lemma conforms_ids: "conforms (SItems SInt) (JList (map (\<lambda>n. JInt (int n)) xs))"
  by (induction xs) (auto simp: conforms_def)

lemmas conforming_fields =
  conforms_texts conforms_dict_any conforms_dict_num conforms_dict_text conforms_ids

section \<open>The request of the input\<close>

text \<open>\<^verbatim>\<open>InputRequest\<close>: a text that is not blank; \<open>None\<close> is the refusal.\<close>

definition input_request :: "json \<Rightarrow> string option" where
  "input_request body =
     (case body of
        JDict d \<Rightarrow> (case map_of d ''text'' of
                     Some (JStr t) \<Rightarrow> if strip t = [] then None else Some t
                   | _ \<Rightarrow> None)
      | _ \<Rightarrow> None)"

section \<open>The response models\<close>

abbreviation optional :: "string \<Rightarrow> shape \<Rightarrow> string \<times> shape \<times> json option" where
  "optional n sh \<equiv> (n, SNullable sh, Some JNull)"

abbreviation required :: "string \<Rightarrow> shape \<Rightarrow> string \<times> shape \<times> json option" where
  "required n sh \<equiv> (n, sh, None)"

abbreviation items :: "string \<Rightarrow> shape \<Rightarrow> string \<times> shape \<times> json option" where
  "items n sh \<equiv> (n, SItems sh, Some (JList []))"

abbreviation dict_of :: "string \<Rightarrow> shape \<Rightarrow> string \<times> shape \<times> json option" where
  "dict_of n sh \<equiv> (n, SDictOf sh, Some (JDict []))"

definition InputAccepted :: shape where
  "InputAccepted = SModel [(''accepted'', SFlag, Some (JBool True)), required ''queue_depth'' SInt]"

definition DrivePayload :: shape where
  "DrivePayload = SModel
     [required ''drive'' SText, required ''value'' SNum, required ''setpoint'' SNum, required ''threshold'' SNum,
      required ''over_threshold'' SFlag]"

definition MoodPayload :: shape where
  "MoodPayload = SModel
     [required ''valence'' SNum, required ''arousal'' SNum, required ''emotions'' (SDictOf SNum),
      required ''descriptor'' SText, optional ''mood_id'' SInt]"

definition GoalPayload :: shape where
  "GoalPayload = SModel
     [optional ''id'' SInt, required ''source'' SText, required ''description'' SText, required ''priority'' SNum,
      required ''status'' SText, dict_of ''plan'' SAny]"

definition SleepSummary :: shape where
  "SleepSummary = SModel
     [required ''trigger'' SText, optional ''ended_at'' SText, required ''facts_written'' SInt,
      required ''episodes_decayed'' SInt, required ''facts_merged'' SInt, optional ''self_model_version'' SInt,
      optional ''self_check_ok'' SFlag, items ''degraded_stages'' SText]"

definition SleepBlock :: shape where
  "SleepBlock = SModel
     [required ''asleep'' SFlag, required ''full_agency'' SFlag, optional ''last'' SleepSummary]"

definition StateSnapshot :: shape where
  "StateSnapshot = SModel
     [required ''tick'' SInt, items ''drives'' DrivePayload, optional ''mood'' MoodPayload,
      items ''goals'' GoalPayload, required ''interval'' SNum, required ''sleep'' SleepBlock]"

definition Thought :: shape where
  "Thought = SModel [optional ''id'' SInt, optional ''ts'' SText, required ''text'' SText]"

definition ThoughtsResponse :: shape where
  "ThoughtsResponse = SModel [items ''thoughts'' Thought]"

definition AuditEvent :: shape where
  "AuditEvent = SModel
     [optional ''id'' SInt, optional ''ts'' SText, required ''module'' SText, required ''type'' SText,
      dict_of ''payload'' SAny]"

definition AuditResponse :: shape where
  "AuditResponse = SModel [items ''events'' AuditEvent]"

definition ActionAudit :: shape where
  "ActionAudit = SModel
     [optional ''id'' SInt, optional ''ts'' SText, required ''tool'' SText, dict_of ''args'' SAny,
      optional ''result'' (SDictOf SAny), required ''conscience_verdict'' SText, optional ''veto_reason'' SText,
      optional ''goal_id'' SInt, required ''success'' SFlag]"

definition ActionAuditResponse :: shape where
  "ActionAuditResponse = SModel [items ''actions'' ActionAudit]"

definition NoteItem :: shape where
  "NoteItem = SModel
     [optional ''id'' SInt, optional ''ts'' SText, required ''title'' SText, required ''body'' SText,
      items ''tags'' SText]"

definition NotesResponse :: shape where
  "NotesResponse = SModel [items ''notes'' NoteItem]"

definition EpisodeOut :: shape where
  "EpisodeOut = SModel
     [optional ''id'' SInt, optional ''ts'' SText, required ''kind'' SText, required ''content'' SText,
      items ''actors'' SText, items ''emotion_tags'' SText, required ''salience'' SNum, optional ''score'' SNum]"

definition EpisodesResponse :: shape where
  "EpisodesResponse = SModel [items ''episodes'' EpisodeOut]"

definition FactOut :: shape where
  "FactOut = SModel
     [optional ''id'' SInt, required ''subject'' SText, required ''predicate'' SText, required ''object'' SText,
      required ''confidence'' SNum, items ''source_episode_ids'' SInt, optional ''score'' SNum]"

definition FactsResponse :: shape where
  "FactsResponse = SModel [items ''facts'' FactOut]"

definition GoalOut :: shape where
  "GoalOut = SModel
     [optional ''id'' SInt, required ''source'' SText, required ''description'' SText, required ''priority'' SNum,
      required ''status'' SText, dict_of ''plan'' SAny, dict_of ''outcome'' SAny, optional ''created_at'' SText,
      optional ''resolved_at'' SText]"

definition GoalsResponse :: shape where
  "GoalsResponse = SModel [items ''active'' GoalOut, items ''recent'' GoalOut]"

definition SleepOut :: shape where
  "SleepOut = SModel
     [optional ''id'' SInt, optional ''started_at'' SText, optional ''ended_at'' SText, required ''trigger'' SText,
      required ''facts_written'' SInt, required ''episodes_decayed'' SInt, required ''facts_merged'' SInt,
      optional ''self_model_version'' SInt, optional ''snapshot_path'' SText, optional ''self_check_ok'' SFlag,
      dict_of ''notes'' SAny]"

definition SleepsResponse :: shape where
  "SleepsResponse = SModel [items ''sleeps'' SleepOut]"

definition IdentityOut :: shape where
  "IdentityOut = SModel
     [required ''name'' SText, required ''version'' SInt, required ''self_model_doc'' SText, items ''values'' SText,
      items ''concerns'' SText, dict_of ''relationships'' SText]"

definition SelfNote :: shape where
  "SelfNote = SModel
     [optional ''ts'' SText, required ''observation'' SText, required ''proposal'' SText, required ''status'' SText]"

definition SelfResponse :: shape where
  "SelfResponse = SModel [optional ''identity'' IdentityOut, items ''notes'' SelfNote]"

lemma StateSnapshot_ok: "shape_ok StateSnapshot"
  by code_simp

end
