(* ===== verification/Api.thy ===== *)
theory Api
  imports Schemas Cycle Perception Belt Redaction
begin

text \<open>
  The web surface over the running Mind (\<^verbatim>\<open>johnny/api\<close>, \<^verbatim>\<open>johnny/main.py\<close>): the shared-token gate,
  the one write (the input), the read projections, the health report, the sockets' handshake and
  streams, the correlation id around every request.  What the framework does with a request before a
  handler runs is written as the code relies on it: the body is decoded, then the dependencies run in the
  order of their declaration, then the parameters are validated.
\<close>

section \<open>Requests, answers, the Mind as the routes see it\<close>

text \<open>Header names are in lower case.\<close>

datatype req_body = NoBody | BadBody | JsonBody json

record web_request =
  rq_headers :: "(string \<times> string) list"
  rq_query :: "(string \<times> string) list"
  rq_body :: req_body

text \<open>What a handler ends with beside a value: an HTTP error, or an exception of any other kind.\<close>

datatype failure = HttpFailure nat "(string \<times> string) list" json | Raised exn

type_synonym 'a handled = "failure + 'a"

record logged_action =
  la_id :: nat
  la_ts :: real
  la_row :: action_row

record mind =
  mn_bus :: workspace
  mn_senses :: senses
  mn_sleeper :: sleeper
  mn_affect :: affect
  mn_cycle :: "unit cycle_state"
  mn_actions :: "logged_action list"
  mn_notes :: "note_row list"

text \<open>
  The settings, and what stands for the framework, the database and the clock: \<open>ae_db\<close> whether the
  database answers, \<open>ae_int\<close> the parser of integer parameters, \<open>ae_invalid\<close> the body of a validation error,
  \<open>ae_str\<close> what \<^verbatim>\<open>str\<close> makes of a value that is no string, the fields \<open>ae_newest\<close>-\<open>ae_last_notes\<close> the
  queries \<^verbatim>\<open>ORDER BY ... DESC LIMIT n\<close>.
\<close>

record api_env =
  ae_token :: string
  ae_attached :: bool
  ae_max_chars :: int
  ae_max_depth :: int
  ae_secrets :: secret_settings
  ae_feeds :: feeds
  ae_db :: bool
  ae_int :: "string \<Rightarrow> int option"
  ae_invalid :: "web_request \<Rightarrow> json"
  ae_str :: "json \<Rightarrow> string"
  ae_iso :: "real \<Rightarrow> string"
  ae_now :: real
  ae_recollection :: recollection
  ae_newest :: "nat \<Rightarrow> ws_row list \<Rightarrow> ws_row list"
  ae_last_actions :: "nat \<Rightarrow> logged_action list \<Rightarrow> logged_action list"
  ae_last_notes :: "nat \<Rightarrow> note_row list \<Rightarrow> note_row list"
  ae_last_episodes :: "nat \<Rightarrow> episode_row list \<Rightarrow> episode_row list"
  ae_last_facts :: "nat \<Rightarrow> fact_row list \<Rightarrow> fact_row list"
  ae_last_sleeps :: "nat \<Rightarrow> sleep_row list \<Rightarrow> sleep_row list"
  ae_last_reviews :: "nat \<Rightarrow> review_note list \<Rightarrow> review_note list"
  ae_newest_goals :: goal_order
  ae_closed_goals :: goal_order
  ae_latest_mood :: "mood list \<Rightarrow> mood option"

section \<open>The token gate\<close>

text \<open>\<^verbatim>\<open>secrets.compare_digest\<close> on strings: only ASCII is supported.\<close>

definition ascii :: "string \<Rightarrow> bool" where
  "ascii s \<longleftrightarrow> list_all (\<lambda>c. (of_char c :: nat) < 128) s"

definition compare_digest :: "string \<Rightarrow> string \<Rightarrow> bool res" where
  "compare_digest a b = (if ascii a \<and> ascii b then Inr (a = b) else Inl TypeError)"

definition header_or :: "string \<Rightarrow> web_request \<Rightarrow> string" where
  "header_or n rq = (case map_of (rq_headers rq) n of Some v \<Rightarrow> v | None \<Rightarrow> [])"

definition BEARER_PREFIX :: string where "BEARER_PREFIX = ''bearer ''"

definition presented_token :: "web_request \<Rightarrow> string" where
  "presented_token rq =
     (let authorization = header_or ''authorization'' rq
      in if take (length BEARER_PREFIX) (lower authorization) = BEARER_PREFIX
         then strip (drop (length BEARER_PREFIX) authorization)
         else header_or ''x-token'' rq)"

definition token_is_valid :: "string \<Rightarrow> web_request \<Rightarrow> bool res" where
  "token_is_valid expected rq =
     (if expected = [] then Inr True else compare_digest (presented_token rq) expected)"

definition detail :: "string \<Rightarrow> json" where
  "detail s = JDict [(''detail'', JStr s)]"

definition unauthorised :: failure where
  "unauthorised = HttpFailure 401 [(''WWW-Authenticate'', ''Bearer'')] (detail ''invalid or missing token'')"

definition require_token :: "api_env \<Rightarrow> web_request \<Rightarrow> unit handled" where
  "require_token en rq =
     (case token_is_valid (ae_token en) rq of
        Inl e \<Rightarrow> Inl (Raised e)
      | Inr ok \<Rightarrow> if ok then Inr () else Inl unauthorised)"

definition get_runtime :: "api_env \<Rightarrow> unit handled" where
  "get_runtime en =
     (if ae_attached en then Inr () else Inl (HttpFailure 503 [] (detail ''the Mind is not attached'')))"

section \<open>Parameters\<close>

definition invalid :: "api_env \<Rightarrow> web_request \<Rightarrow> failure" where
  "invalid en rq = HttpFailure 422 [] (ae_invalid en rq)"

definition query_text :: "string \<Rightarrow> web_request \<Rightarrow> string option" where
  "query_text n rq = map_of (rev (rq_query rq)) n"

text \<open>\<^verbatim>\<open>Query(default=..., ge=1, le=most)\<close>.\<close>

definition query_int :: "api_env \<Rightarrow> string \<Rightarrow> int \<Rightarrow> int \<Rightarrow> web_request \<Rightarrow> int handled" where
  "query_int en n dflt most rq =
     (case query_text n rq of
        None \<Rightarrow> Inr dflt
      | Some t \<Rightarrow> (case ae_int en t of
                   Some i \<Rightarrow> if 1 \<le> i \<and> i \<le> most then Inr i else Inl (invalid en rq)
                 | None \<Rightarrow> Inl (invalid en rq)))"

section \<open>The input\<close>

definition INPUT_SOURCE :: string where "INPUT_SOURCE = ''web''"

definition depth_call :: "feeds \<Rightarrow> senses \<Rightarrow> senses \<times> nat res" where
  "depth_call fe s =
     (if fe_redis fe (se_calls s) then (called s, Inr (queue_depth s))
      else (called s, Inl (OtherError ''ConnectionError'')))"

text \<open>The handler up to its last await before the push, and from the push on: between the two another
  request may run.\<close>

definition admit_input :: "api_env \<Rightarrow> string \<Rightarrow> senses \<Rightarrow> senses \<times> unit handled" where
  "admit_input en t s =
     (if ae_max_chars en < int (length t)
      then (s, Inl (HttpFailure 413 [] (detail (''text exceeds '' @ show_int (ae_max_chars en) @ '' characters''))))
      else case depth_call (ae_feeds en) s of
             (s1, Inl e) \<Rightarrow> (s1, Inl (Raised e))
           | (s1, Inr d) \<Rightarrow>
               if ae_max_depth en \<le> int d
               then (s1, Inl (HttpFailure 429 []
                      (detail (''input queue is full - Johnny hasn'' @ [CHR 0x27] @ ''t caught up yet, retry shortly''))))
               else (s1, Inr ()))"

definition push_input :: "api_env \<Rightarrow> string \<Rightarrow> senses \<Rightarrow> senses \<times> json handled" where
  "push_input en t s =
     (case queue_push (ae_feeds en) \<lparr>ri_raw = t, ri_source = INPUT_SOURCE, ri_modality = MODALITY_TEXT\<rparr> s of
        (s1, Inl e) \<Rightarrow> (s1, Inl (Raised e))
      | (s1, Inr _) \<Rightarrow>
          (case depth_call (ae_feeds en) s1 of
             (s2, Inl e) \<Rightarrow> (s2, Inl (Raised e))
           | (s2, Inr d) \<Rightarrow> (s2, Inr (JDict [(''accepted'', JBool True), (''queue_depth'', JInt (int d))]))))"

definition post_input :: "api_env \<Rightarrow> string \<Rightarrow> senses \<Rightarrow> senses \<times> json handled" where
  "post_input en t s =
     (case admit_input en t s of
        (s1, Inl f) \<Rightarrow> (s1, Inl f)
      | (s1, Inr _) \<Rightarrow> push_input en t s1)"

section \<open>The read projections\<close>

definition json_time :: "api_env \<Rightarrow> real option \<Rightarrow> json" where
  "json_time en t = (case t of Some x \<Rightarrow> JStr (ae_iso en x) | None \<Rightarrow> JNull)"

definition json_text_or :: "string option \<Rightarrow> json" where
  "json_text_or t = (case t of Some s \<Rightarrow> JStr s | None \<Rightarrow> JNull)"

definition json_num_or :: "real option \<Rightarrow> json" where
  "json_num_or t = (case t of Some x \<Rightarrow> JFloat x | None \<Rightarrow> JNull)"

definition json_flag_or :: "bool option \<Rightarrow> json" where
  "json_flag_or t = (case t of Some b \<Rightarrow> JBool b | None \<Rightarrow> JNull)"

definition json_int_or :: "int option \<Rightarrow> json" where
  "json_int_or t = (case t of Some i \<Rightarrow> JInt i | None \<Rightarrow> JNull)"

text \<open>Every read of a store needs the database.\<close>

definition from_db :: "api_env \<Rightarrow> 'a \<Rightarrow> 'a handled" where
  "from_db en x = (if ae_db en then Inr x else Inl (Raised (OtherError ''database'')))"

definition recent_events :: "api_env \<Rightarrow> int \<Rightarrow> string option \<Rightarrow> workspace \<Rightarrow> ws_event list handled" where
  "recent_events en n type_filter ws =
     from_db en (map (\<lambda>r. \<lparr>ev_id = Some (wr_id r), ev_ts = Some (wr_ts r), ev_module = wr_module r,
                           ev_type = wr_type r, ev_payload = wr_payload r, ev_hops = 0\<rparr>)
       (ae_newest en (nat n) (filter (\<lambda>r. case type_filter of Some t \<Rightarrow> wr_type r = t | None \<Rightarrow> True) (wk_log ws))))"

definition THOUGHT_EVENT :: string where "THOUGHT_EVENT = ''thought''"

definition thought_out :: "api_env \<Rightarrow> ws_event \<Rightarrow> json" where
  "thought_out en e = JDict
     [(''id'', json_id (ev_id e)), (''ts'', json_time en (ev_ts e)),
      (''text'', JStr (case map_of (ev_payload e) ''text'' of
                         Some (JStr s) \<Rightarrow> s | Some v \<Rightarrow> ae_str en v | None \<Rightarrow> []))]"

definition get_thoughts :: "api_env \<Rightarrow> int \<Rightarrow> mind \<Rightarrow> json handled" where
  "get_thoughts en n m =
     (case recent_events en n (Some THOUGHT_EVENT) (mn_bus m) of
        Inl f \<Rightarrow> Inl f
      | Inr es \<Rightarrow> Inr (JDict [(''thoughts'', JList (map (thought_out en) es))]))"

definition audit_out :: "api_env \<Rightarrow> ws_event \<Rightarrow> json" where
  "audit_out en e = JDict
     [(''id'', json_id (ev_id e)), (''ts'', json_time en (ev_ts e)), (''module'', JStr (ev_module e)),
      (''type'', JStr (ev_type e)), (''payload'', JDict (ev_payload e))]"

definition get_audit :: "api_env \<Rightarrow> int \<Rightarrow> string option \<Rightarrow> mind \<Rightarrow> json handled" where
  "get_audit en n type_filter m =
     (case recent_events en n type_filter (mn_bus m) of
        Inl f \<Rightarrow> Inl f
      | Inr es \<Rightarrow> Inr (JDict [(''events'', JList (map (audit_out en) es))]))"

definition recent_actions :: "api_env \<Rightarrow> int \<Rightarrow> string option \<Rightarrow> logged_action list \<Rightarrow> logged_action list handled" where
  "recent_actions en n verdict_filter rows =
     from_db en (ae_last_actions en (nat n) (filter (\<lambda>r. case verdict_filter of
        Some v \<Rightarrow> verdict_name (ac_verdict (la_row r)) = v | None \<Rightarrow> True) rows))"

definition action_out :: "api_env \<Rightarrow> logged_action \<Rightarrow> json" where
  "action_out en r =
     (let a = la_row r
      in JDict
        [(''id'', JInt (int (la_id r))), (''ts'', json_time en (Some (la_ts r))), (''tool'', JStr (ac_tool a)),
         (''args'', JDict (redact_payload (ae_secrets en) (ac_args a))),
         (''result'', (case ac_result a of Some d \<Rightarrow> JDict (redact_payload (ae_secrets en) d) | None \<Rightarrow> JNull)),
         (''conscience_verdict'', JStr (verdict_name (ac_verdict a))),
         (''veto_reason'', json_text_or (ac_veto_reason a)), (''goal_id'', json_int_or (ac_goal_id a)),
         (''success'', JBool (ac_success a))])"

definition get_audit_actions :: "api_env \<Rightarrow> int \<Rightarrow> string option \<Rightarrow> mind \<Rightarrow> json handled" where
  "get_audit_actions en n verdict_filter m =
     (case recent_actions en n verdict_filter (mn_actions m) of
        Inl f \<Rightarrow> Inl f
      | Inr rows \<Rightarrow> Inr (JDict [(''actions'', JList (map (action_out en) rows))]))"

definition note_out :: "api_env \<Rightarrow> journal_note \<Rightarrow> json" where
  "note_out en n = JDict
     [(''id'', json_id (jn_id n)), (''ts'', json_time en (jn_ts n)), (''title'', JStr (jn_title n)),
      (''body'', JStr (jn_body n)), (''tags'', JList (map JStr (jn_tags n)))]"

definition get_notes :: "api_env \<Rightarrow> int \<Rightarrow> mind \<Rightarrow> json handled" where
  "get_notes en n m =
     (case from_db en (note_recent (ae_last_notes en) n (mn_notes m)) of
        Inl f \<Rightarrow> Inl f
      | Inr ns \<Rightarrow> Inr (JDict [(''notes'', JList (map (note_out en) ns))]))"
definition episode_out :: "api_env \<Rightarrow> episode \<Rightarrow> json" where
  "episode_out en e = JDict
     [(''id'', json_id (ep_id e)), (''ts'', json_time en (ep_ts e)), (''kind'', JStr (ep_kind e)),
      (''content'', JStr (ep_content e)), (''actors'', JList (map JStr (ep_actors e))),
      (''emotion_tags'', JList (map JStr (ep_emotion_tags e))), (''salience'', JFloat (ep_salience e)),
      (''score'', json_num_or (ep_score e))]"

definition episodic_recent :: "(nat \<Rightarrow> episode_row list \<Rightarrow> episode_row list) \<Rightarrow> int \<Rightarrow> episode_row list \<Rightarrow> episode list" where
  "episodic_recent newest n rows = (if n \<le> 0 then [] else map (row_to_episode None) (newest (nat n) rows))"

definition searching :: "string option \<Rightarrow> string option" where
  "searching q = (case q of Some t \<Rightarrow> if strip t = [] then None else Some t | None \<Rightarrow> None)"

text \<open>A search embeds its query first, then asks the index.\<close>

definition searched :: "api_env \<Rightarrow> string \<Rightarrow> 'a res \<Rightarrow> 'a handled" where
  "searched en q r =
     (case rl_emb (ae_recollection en) q of
        Inl e \<Rightarrow> Inl (Raised e)
      | Inr _ \<Rightarrow> (case r of Inl e \<Rightarrow> Inl (Raised e) | Inr x \<Rightarrow> from_db en x))"

definition get_episodes :: "api_env \<Rightarrow> int \<Rightarrow> string option \<Rightarrow> mind \<Rightarrow> json handled" where
  "get_episodes en n q m =
     (let rl = ae_recollection en; rows = mi_episodes (sl_mind (mn_sleeper m))
      in case (case searching q of
                 Some t \<Rightarrow> searched en t
                   (episodic_recall (rl_emb rl) (rl_nearest rl) (rl_pool rl) (rl_weights rl) t n (ae_now en) None rows)
               | None \<Rightarrow> from_db en (episodic_recent (ae_last_episodes en) n rows)) of
           Inl f \<Rightarrow> Inl f
         | Inr es \<Rightarrow> Inr (JDict [(''episodes'', JList (map (episode_out en) es))]))"

definition fact_out :: "fact \<Rightarrow> json" where
  "fact_out f = JDict
     [(''id'', JInt (int (fa_id f))), (''subject'', JStr (fa_subject f)), (''predicate'', JStr (fa_predicate f)),
      (''object'', JStr (fa_object f)), (''confidence'', JFloat (fa_confidence f)),
      (''source_episode_ids'', JList (map (\<lambda>i. JInt (int i)) (fa_sources f))), (''score'', json_num_or (fa_score f))]"

definition get_facts :: "api_env \<Rightarrow> int \<Rightarrow> string option \<Rightarrow> mind \<Rightarrow> json handled" where
  "get_facts en n q m =
     (let rl = ae_recollection en; rows = fs_rows (mi_facts (sl_mind (mn_sleeper m)))
      in case (case searching q of
                 Some t \<Rightarrow> searched en t (semantic_recall (rl_emb rl) (rl_nearest_f rl) t n rows)
               | None \<Rightarrow> from_db en (semantic_recent (ae_last_facts en) n rows)) of
           Inl f \<Rightarrow> Inl f
         | Inr fs \<Rightarrow> Inr (JDict [(''facts'', JList (map fact_out fs))]))"

definition goal_out :: "api_env \<Rightarrow> goal \<Rightarrow> json" where
  "goal_out en g = JDict
     [(''id'', json_id (go_id g)), (''source'', JStr (go_source g)), (''description'', JStr (go_description g)),
      (''priority'', JFloat (go_priority g)), (''status'', JStr (status_name (go_status g))),
      (''plan'', JDict (go_plan g)), (''outcome'', JDict (go_outcome g)),
      (''created_at'', json_time en (go_created_at g)), (''resolved_at'', json_time en (go_resolved_at g))]"

definition get_goals :: "api_env \<Rightarrow> int \<Rightarrow> mind \<Rightarrow> json handled" where
  "get_goals en n m =
     (let tbl = mi_goals (sl_mind (mn_sleeper m))
      in from_db en (JDict
           [(''active'', JList (map (goal_out en) (active_goals (ae_newest_goals en) tbl))),
            (''recent'', JList (map (goal_out en) (recent_closed (ae_closed_goals en) (nat n) tbl)))]))"

definition sleep_out :: "api_env \<Rightarrow> sleep_row \<Rightarrow> json" where
  "sleep_out en s = JDict
     [(''id'', JInt (int (sl_id s))), (''started_at'', json_time en (Some (sl_started_at s))),
      (''ended_at'', json_time en (sl_ended_at s)), (''trigger'', JStr (sl_trigger s)),
      (''facts_written'', JInt (int (sl_facts_written s))), (''episodes_decayed'', JInt (int (sl_episodes_decayed s))),
      (''facts_merged'', JInt (int (sl_facts_merged s))), (''self_model_version'', json_id (sl_self_model_version s)),
      (''snapshot_path'', json_text_or (sl_snapshot_path s)), (''self_check_ok'', json_flag_or (sl_self_check_ok s)),
      (''notes'', JDict (sl_notes s))]"

definition get_sleeps :: "api_env \<Rightarrow> int \<Rightarrow> mind \<Rightarrow> json handled" where
  "get_sleeps en n m =
     (case from_db en (ae_last_sleeps en (nat n) (mi_sleep_log (sl_mind (mn_sleeper m)))) of
        Inl f \<Rightarrow> Inl f
      | Inr rows \<Rightarrow> Inr (JDict [(''sleeps'', JList (map (sleep_out en) rows))]))"

definition identity_out :: "identity_doc \<Rightarrow> json" where
  "identity_out d = JDict
     [(''name'', JStr (id_name d)), (''version'', JInt (int (id_version d))), (''self_model_doc'', JStr (id_doc d)),
      (''values'', JList (map JStr (id_values d))), (''concerns'', JList (map JStr (id_concerns d))),
      (''relationships'', JDict (map (\<lambda>(k, v). (k, JStr v)) (id_relationships d)))]"

definition self_note_out :: "api_env \<Rightarrow> review_note \<Rightarrow> json" where
  "self_note_out en n = JDict
     [(''ts'', json_time en (Some (nt_ts n))), (''observation'', JStr (nt_observation n)),
      (''proposal'', JStr (nt_proposal n)), (''status'', JStr (nt_status n))]"

definition get_self :: "api_env \<Rightarrow> int \<Rightarrow> mind \<Rightarrow> json handled" where
  "get_self en n m =
     (let mi = sl_mind (mn_sleeper m)
      in from_db en (JDict
           [(''identity'', (case identity_latest (mi_identity mi) of Some d \<Rightarrow> identity_out d | None \<Rightarrow> JNull)),
            (''notes'', JList (map (self_note_out en) (ae_last_reviews en (nat n) (mi_review_notes mi))))]))"

section \<open>The state snapshot\<close>

text \<open>Reading the mood loads it on first use; a mood never persisted is shown as none.\<close>

definition shown_mood :: "mood \<Rightarrow> mood option" where
  "shown_mood cur = (if mo_id cur = None then None else Some cur)"

definition latest_sleep :: "api_env \<Rightarrow> mind \<Rightarrow> sleep_row option" where
  "latest_sleep en m =
     (case ae_last_sleeps en 1 (mi_sleep_log (sl_mind (mn_sleeper m))) of [] \<Rightarrow> None | r # _ \<Rightarrow> Some r)"

definition state_payload :: "api_env \<Rightarrow> mood \<Rightarrow> mind \<Rightarrow> (string \<times> json) list" where
  "state_payload en cur m =
     (let mi = sl_mind (mn_sleeper m)
      in serialize_state (cs_tick (mn_cycle m)) (current_readings (mi_drives mi)) (shown_mood cur)
           (active_goals (ae_newest_goals en) (mi_goals mi)) (cs_next_interval (mn_cycle m))
           (serialize_sleep_block (sl_asleep (mn_sleeper m)) (cs_full_agency (mn_cycle m))
              (sleep_summary_from_log (ae_iso en) (latest_sleep en m))))"

definition get_state :: "api_env \<Rightarrow> mind \<Rightarrow> mind \<times> json handled" where
  "get_state en m =
     (if af_current (mn_affect m) = None \<and> \<not> ae_db en then (m, Inl (Raised (OtherError ''database'')))
      else let (a, cur) = current_mood (ae_latest_mood en) (mn_affect m);
               m1 = m\<lparr>mn_affect := a\<rparr>
           in (m1, case from_db en (validate StateSnapshot (JDict (state_payload en cur m))) of
                     Inl f \<Rightarrow> Inl f
                   | Inr None \<Rightarrow> Inl (Raised ValidationError)
                   | Inr (Some v) \<Rightarrow> Inr v))"

section \<open>Routing\<close>

datatype endpoint =
    PostInput | GetState | GetThoughts | GetAudit | GetActions | GetNotes | GetEpisodes | GetFacts
  | GetGoals | GetSleeps | GetSelf

definition limited :: "api_env \<Rightarrow> string \<Rightarrow> int \<Rightarrow> int \<Rightarrow> web_request \<Rightarrow> (int \<Rightarrow> mind \<Rightarrow> json handled) \<Rightarrow> mind \<Rightarrow>
    mind \<times> json handled" where
  "limited en n dflt most rq h m =
     (m, case query_int en n dflt most rq of Inl f \<Rightarrow> Inl f | Inr i \<Rightarrow> h i m)"

fun run_route :: "api_env \<Rightarrow> endpoint \<Rightarrow> web_request \<Rightarrow> mind \<Rightarrow> mind \<times> json handled" where
  "run_route en PostInput rq m =
     (case (case rq_body rq of JsonBody v \<Rightarrow> input_request v | _ \<Rightarrow> None) of
        None \<Rightarrow> (m, Inl (invalid en rq))
      | Some t \<Rightarrow> (let (s, r) = post_input en t (mn_senses m) in (m\<lparr>mn_senses := s\<rparr>, r)))"
| "run_route en GetState rq m = get_state en m"
| "run_route en GetThoughts rq m = limited en ''limit'' 50 500 rq (get_thoughts en) m"
| "run_route en GetAudit rq m =
     limited en ''limit'' 100 500 rq (\<lambda>n. get_audit en n (query_text ''type'' rq)) m"
| "run_route en GetActions rq m =
     limited en ''limit'' 100 500 rq (\<lambda>n. get_audit_actions en n (query_text ''verdict'' rq)) m"
| "run_route en GetNotes rq m = limited en ''limit'' 50 200 rq (get_notes en) m"
| "run_route en GetEpisodes rq m =
     limited en ''limit'' 20 200 rq (\<lambda>n. get_episodes en n (query_text ''q'' rq)) m"
| "run_route en GetFacts rq m =
     limited en ''limit'' 20 200 rq (\<lambda>n. get_facts en n (query_text ''q'' rq)) m"
| "run_route en GetGoals rq m = limited en ''limit'' 20 200 rq (get_goals en) m"
| "run_route en GetSleeps rq m = limited en ''limit'' 20 200 rq (get_sleeps en) m"
| "run_route en GetSelf rq m = limited en ''notes_limit'' 10 100 rq (get_self en) m"

text \<open>The router's dependency runs for every route, before the route's own.\<close>

definition v1_router :: "api_env \<Rightarrow> endpoint \<Rightarrow> web_request \<Rightarrow> mind \<Rightarrow> mind \<times> json handled" where
  "v1_router en ep rq m =
     (if ep = PostInput \<and> rq_body rq = BadBody then (m, Inl (invalid en rq))
      else case require_token en rq of
             Inl f \<Rightarrow> (m, Inl f)
           | Inr _ \<Rightarrow> (case get_runtime en of
                       Inl f \<Rightarrow> (m, Inl f)
                     | Inr _ \<Rightarrow> run_route en ep rq m))"

fun response_model :: "endpoint \<Rightarrow> shape" where
  "response_model PostInput = InputAccepted"
| "response_model GetState = StateSnapshot"
| "response_model GetThoughts = ThoughtsResponse"
| "response_model GetAudit = AuditResponse"
| "response_model GetActions = ActionAuditResponse"
| "response_model GetNotes = NotesResponse"
| "response_model GetEpisodes = EpisodesResponse"
| "response_model GetFacts = FactsResponse"
| "response_model GetGoals = GoalsResponse"
| "response_model GetSleeps = SleepsResponse"
| "response_model GetSelf = SelfResponse"

definition success_status :: "endpoint \<Rightarrow> nat" where
  "success_status ep = (if ep = PostInput then 202 else 200)"

section \<open>The answer on the wire\<close>

record web_response =
  rs_status :: nat
  rs_headers :: "(string \<times> string) list"
  rs_body :: json

definition CORRELATION_HEADER :: string where "CORRELATION_HEADER = ''x-web_request-id''"

text \<open>\<open>minted\<close> is the id made when the caller gave none.\<close>

definition correlation_id :: "string \<Rightarrow> web_request \<Rightarrow> string" where
  "correlation_id minted rq = (case header_or CORRELATION_HEADER rq of [] \<Rightarrow> minted | s \<Rightarrow> s)"

definition answer :: "string \<Rightarrow> web_request \<Rightarrow> nat \<Rightarrow> json handled \<Rightarrow> web_response" where
  "answer minted rq ok_status r =
     (let cid = correlation_id minted rq; tag = [(CORRELATION_HEADER, cid)]
      in case r of
           Inr v \<Rightarrow> \<lparr>rs_status = ok_status, rs_headers = tag, rs_body = v\<rparr>
         | Inl (HttpFailure st hs v) \<Rightarrow> \<lparr>rs_status = st, rs_headers = hs @ tag, rs_body = v\<rparr>
         | Inl (Raised e) \<Rightarrow> \<lparr>rs_status = 500, rs_headers = tag,
             rs_body = JDict [(''error'', JStr ''internal_server_error''), (''correlation_id'', JStr cid)]\<rparr>)"

definition serve :: "api_env \<Rightarrow> string \<Rightarrow> endpoint \<Rightarrow> web_request \<Rightarrow> mind \<Rightarrow> mind \<times> web_response" where
  "serve en minted ep rq m =
     (let (m', r) = v1_router en ep rq m in (m', answer minted rq (success_status ep) r))"
section \<open>Health\<close>

text \<open>How a probe ends: with an HTTP status (the stores answer a ping, status 200), past the time limit, or
  with an exception of the named class; and after how many milliseconds.\<close>

datatype probe_end = Answered nat | TimedOut | Failed string

record probe =
  pb_end :: probe_end
  pb_ms :: int

record component_health =
  ch_status :: string
  ch_latency_ms :: "int option"
  ch_detail :: "string option"

definition check_http :: "probe \<Rightarrow> component_health" where
  "check_http p =
     (case pb_end p of
        Answered n \<Rightarrow>
          if 400 \<le> n then \<lparr>ch_status = ''error'', ch_latency_ms = Some (pb_ms p), ch_detail = Some (''HTTP '' @ show_nat n)\<rparr>
          else \<lparr>ch_status = ''ok'', ch_latency_ms = Some (pb_ms p), ch_detail = None\<rparr>
      | TimedOut \<Rightarrow> \<lparr>ch_status = ''error'', ch_latency_ms = Some (pb_ms p), ch_detail = Some ''timeout''\<rparr>
      | Failed c \<Rightarrow> \<lparr>ch_status = ''error'', ch_latency_ms = Some (pb_ms p), ch_detail = Some c\<rparr>)"

definition check_store :: "probe \<Rightarrow> component_health" where
  "check_store p =
     (case pb_end p of
        Answered _ \<Rightarrow> \<lparr>ch_status = ''ok'', ch_latency_ms = Some (pb_ms p), ch_detail = None\<rparr>
      | _ \<Rightarrow> check_http p)"

definition check_groq :: "string \<Rightarrow> probe \<Rightarrow> component_health" where
  "check_groq key p =
     (if key = [] then \<lparr>ch_status = ''error'', ch_latency_ms = None, ch_detail = Some ''unconfigured''\<rparr> else check_http p)"

record health_env =
  he_groq_key :: string
  he_service :: string
  he_environment :: string
  he_timestamp :: string
  he_probe :: "string \<Rightarrow> probe"

definition CRITICAL :: "string list" where "CRITICAL = [''postgres'', ''redis'']"

definition dependencies :: "health_env \<Rightarrow> (string \<times> component_health) list" where
  "dependencies he =
     [(''postgres'', check_store (he_probe he ''postgres'')), (''redis'', check_store (he_probe he ''redis'')),
      (''groq'', check_groq (he_groq_key he) (he_probe he ''groq'')), (''ollama'', check_http (he_probe he ''ollama'')),
      (''embeddings'', check_http (he_probe he ''embeddings'')), (''yolo'', check_http (he_probe he ''yolo''))]"

definition overall :: "(string \<times> component_health) list \<Rightarrow> string" where
  "overall deps =
     (if list_ex (\<lambda>(n, c). n \<in> set CRITICAL \<and> ch_status c \<noteq> ''ok'') deps then ''unhealthy''
      else if list_ex (\<lambda>(n, c). ch_status c \<noteq> ''ok'') deps then ''degraded''
      else ''ok'')"

definition component_json :: "component_health \<Rightarrow> json" where
  "component_json c = JDict
     [(''status'', JStr (ch_status c)), (''latency_ms'', json_int_or (ch_latency_ms c)),
      (''detail'', json_text_or (ch_detail c))]"

definition check_health :: "health_env \<Rightarrow> (string \<times> json) list" where
  "check_health he =
     [(''status'', JStr (overall (dependencies he))), (''service'', JStr (he_service he)),
      (''environment'', JStr (he_environment he)), (''timestamp'', JStr (he_timestamp he)),
      (''dependencies'', JDict (map (\<lambda>(n, c). (n, component_json c)) (dependencies he)))]"

text \<open>The status and the body, or the exception of the token's comparison.\<close>

definition health :: "string \<Rightarrow> health_env \<Rightarrow> web_request \<Rightarrow> (nat \<times> json) res" where
  "health token he rq =
     (let report = check_health he; verdict = overall (dependencies he);
          code = (if verdict = ''unhealthy'' then 503 else 200)
      in ok_bind (token_is_valid token rq) (\<lambda>ok.
           Inr (code, if ok then JDict report else JDict [(''status'', JStr verdict)])))"

section \<open>The sockets\<close>

definition ws_authorised :: "string \<Rightarrow> web_request \<Rightarrow> bool res" where
  "ws_authorised expected rq =
     (if expected = [] then Inr True
      else compare_digest
             (case query_text ''token'' rq of
                Some (c # cs) \<Rightarrow> c # cs
              | _ \<Rightarrow> header_or ''x-ws-token'' rq) expected)"

definition POLICY_VIOLATION :: nat where "POLICY_VIOLATION = 1008"
definition INTERNAL_ERROR :: nat where "INTERNAL_ERROR = 1011"
definition BACKFILL :: nat where "BACKFILL = 10"

datatype socket = Closed nat | Crashed exn | Open

definition socket_open :: "api_env \<Rightarrow> web_request \<Rightarrow> socket" where
  "socket_open en rq =
     (case ws_authorised (ae_token en) rq of
        Inl e \<Rightarrow> Crashed e
      | Inr ok \<Rightarrow> if \<not> ok then Closed POLICY_VIOLATION
                  else if \<not> ae_attached en then Closed INTERNAL_ERROR else Open)"

definition thought_message :: "api_env \<Rightarrow> ws_event \<Rightarrow> json" where
  "thought_message en e = JDict
     [(''type'', JStr THOUGHT_EVENT), (''id'', json_id (ev_id e)), (''ts'', json_time en (ev_ts e)),
      (''text'', dict_get (ev_payload e) ''text'' (JStr []))]"

definition STATE_EVENT :: string where "STATE_EVENT = ''state''"

definition state_message :: "api_env \<Rightarrow> ws_event \<Rightarrow> json" where
  "state_message en e =
     (let p = ev_payload e
      in JDict
        [(''type'', JStr STATE_EVENT), (''id'', json_id (ev_id e)), (''ts'', json_time en (ev_ts e)),
         (''tick'', dict_get p ''tick'' JNull), (''drives'', dict_get p ''drives'' (JList [])),
         (''mood'', dict_get p ''mood'' JNull), (''goals'', dict_get p ''goals'' (JList [])),
         (''interval'', dict_get p ''interval'' JNull),
         (''sleep'', dict_get p ''sleep'' (JDict
            [(''asleep'', JBool False), (''full_agency'', JBool True), (''last'', JNull)]))])"

definition stream :: "string \<Rightarrow> ws_event list \<Rightarrow> ws_event list" where
  "stream wanted published = filter (\<lambda>e. ev_type e = wanted) published"

text \<open>
  A session: what the client was sent, and how the handler ended.  \<open>published\<close> is what the bus carried
  while the handler was subscribed; the events between the backfill's query and the subscription
  are in neither.
\<close>

definition socket_session :: "string \<Rightarrow> nat \<Rightarrow> (ws_event \<Rightarrow> json) \<Rightarrow> api_env \<Rightarrow> web_request \<Rightarrow> mind \<Rightarrow> ws_event list \<Rightarrow>
    json list \<times> socket" where
  "socket_session wanted backfill msg en rq m published =
     (case socket_open en rq of
        Open \<Rightarrow>
          (case recent_events en (int backfill) (Some wanted) (mn_bus m) of
             Inl _ \<Rightarrow> ([], Crashed (OtherError ''database''))
           | Inr es \<Rightarrow> (map msg (rev es) @ map msg (stream wanted published), Open))
      | s \<Rightarrow> ([], s))"

definition consciousness :: "api_env \<Rightarrow> web_request \<Rightarrow> mind \<Rightarrow> ws_event list \<Rightarrow> json list \<times> socket" where
  "consciousness en = socket_session THOUGHT_EVENT BACKFILL (thought_message en) en"

definition state_socket :: "api_env \<Rightarrow> web_request \<Rightarrow> mind \<Rightarrow> ws_event list \<Rightarrow> json list \<times> socket" where
  "state_socket en = socket_session STATE_EVENT 1 (state_message en) en"

section \<open>The gate holds\<close>

definition authorised :: "api_env \<Rightarrow> web_request \<Rightarrow> bool" where
  "authorised en rq \<longleftrightarrow> token_is_valid (ae_token en) rq = Inr True"

lemma compare_digest_iff: "compare_digest a b = Inr True \<longleftrightarrow> a = b \<and> ascii b"
  by (auto simp: compare_digest_def)

lemma authorised_iff:
  "authorised en rq \<longleftrightarrow> ae_token en = [] \<or> (presented_token rq = ae_token en \<and> ascii (ae_token en))"
  by (simp add: authorised_def token_is_valid_def compare_digest_iff)

lemma require_token_iff: "require_token en rq = Inr u \<longleftrightarrow> authorised en rq"
  by (auto simp: require_token_def authorised_def split: sum.splits)

lemma require_token_refuses: "require_token en rq = Inl f \<Longrightarrow> f = unauthorised \<or> f = Raised TypeError"
  by (auto simp: require_token_def token_is_valid_def compare_digest_def split: sum.splits if_splits)

lemma v1_unauthorised:
  assumes "\<not> authorised en rq"
  obtains f where "\<And>m. v1_router en ep rq m = (m, Inl f)"
    "f = unauthorised \<or> f = Raised TypeError \<or> (f = invalid en rq \<and> ep = PostInput \<and> rq_body rq = BadBody)"
proof (cases "ep = PostInput \<and> rq_body rq = BadBody")
  case True
  then show ?thesis by (intro that [of "invalid en rq"]) (auto simp: v1_router_def)
next
  case False
  obtain f where f: "require_token en rq = Inl f"
    using assms by (metis require_token_iff obj_sumE)
  with False require_token_refuses [OF f] show ?thesis
    by (intro that [of f]) (auto simp: v1_router_def)
qed

lemma socket_refuses:
  "ae_token en \<noteq> [] \<Longrightarrow> (\<And>t. ws_authorised (ae_token en) rq \<noteq> Inr True) \<Longrightarrow> 
   fst (socket_session wanted n msg en rq m published) = [] \<and>
   socket_open en rq \<in> {Closed POLICY_VIOLATION, Crashed TypeError}"
  by (auto simp: socket_session_def socket_open_def ws_authorised_def compare_digest_def split: sum.splits if_splits)

lemma health_redacted:
  assumes "health token he rq = Inr (code, v)" "token_is_valid token rq \<noteq> Inr True"
  shows "v = JDict [(''status'', JStr (overall (dependencies he)))]"
  using assms by (auto simp: health_def ok_bind_Inr_iff Let_def)

lemma check_store_ok: "ch_status (check_store p) = ''ok'' \<longleftrightarrow> (\<exists>n. pb_end p = Answered n)"
  by (simp add: check_store_def check_http_def split: probe_end.split)

lemma critical_names:
  "''postgres'' \<in> set CRITICAL" "''redis'' \<in> set CRITICAL" "''groq'' \<notin> set CRITICAL" "''ollama'' \<notin> set CRITICAL"
  "''embeddings'' \<notin> set CRITICAL" "''yolo'' \<notin> set CRITICAL"
  by (simp_all add: CRITICAL_def)

lemma overall_unhealthy:
  "overall (dependencies he) = ''unhealthy'' \<longleftrightarrow>
   ch_status (check_store (he_probe he ''postgres'')) \<noteq> ''ok'' \<or> ch_status (check_store (he_probe he ''redis'')) \<noteq> ''ok''"
  by (simp add: overall_def dependencies_def critical_names)

lemma health_code:
  assumes "health token he rq = Inr (code, v)"
  shows "code = 503 \<longleftrightarrow> (\<forall>n. pb_end (he_probe he ''postgres'') \<noteq> Answered n) \<or>
                        (\<forall>n. pb_end (he_probe he ''redis'') \<noteq> Answered n)"
proof -
  from assms have "code = (if overall (dependencies he) = ''unhealthy'' then 503 else 200)"
    by (simp add: health_def ok_bind_Inr_iff Let_def del: not_None_eq) (metis prod.inject)
  then show ?thesis by (simp add: overall_unhealthy check_store_ok)
qed
section \<open>The envelopes hold\<close>

lemma wire_optional:
  "conforms (SNullable SInt) (json_id i)" "conforms (SNullable SText) (json_time en t)"
  "conforms (SNullable SText) (json_text_or s)" "conforms (SNullable SNum) (json_num_or x)"
  "conforms (SNullable SFlag) (json_flag_or b)" "conforms (SNullable SInt) (json_int_or j)"
  by (simp_all add: conforms_def json_id_def json_time_def json_text_or_def json_num_or_def json_flag_or_def
      json_int_or_def split: option.split)

lemma wire_present:
  "conforms (SNullable sh) JNull" "conforms (SNullable SInt) (JInt i)"
  "conforms (SNullable (SDictOf SAny)) (JDict d)"
  using conforms_dict_any [of d] by (simp_all add: conforms_def)

lemmas wire_fields = wire_optional [unfolded conforms_def] wire_present [unfolded conforms_def] conforming_fields [unfolded conforms_def]

lemma conforms_list_field:
  assumes "\<And>x. x \<in> set xs \<Longrightarrow> conforms sh (f x)"
  shows "conforms (SModel [(n, SItems sh, dflt)]) (JDict [(n, JList (map f xs))])"
proof -
  have "validate (SItems sh) (JList (map f xs)) = Some (JList (map f xs))"
    using assms conforms_items [of sh f xs] by (simp add: conforms_def)
  then show ?thesis by (simp add: conforms_def both_def)
qed

lemma thought_out_conforms: "conforms Thought (thought_out en e)"
  by (simp add: conforms_def Thought_def thought_out_def both_def wire_fields del: validate.simps(6-8))

lemma audit_out_conforms: "conforms AuditEvent (audit_out en e)"
  by (simp add: conforms_def AuditEvent_def audit_out_def both_def wire_fields del: validate.simps(6-8))

lemma note_out_conforms: "conforms NoteItem (note_out en n)"
  by (simp add: conforms_def NoteItem_def note_out_def both_def wire_fields del: validate.simps(6-8))

lemma episode_out_conforms: "conforms EpisodeOut (episode_out en e)"
  by (simp add: conforms_def EpisodeOut_def episode_out_def both_def wire_fields del: validate.simps(6-8))

lemma fact_out_conforms: "conforms FactOut (fact_out f)"
  by (simp add: conforms_def FactOut_def fact_out_def both_def wire_fields del: validate.simps(6-8))

lemma goal_out_conforms: "conforms GoalOut (goal_out en g)"
  by (simp add: conforms_def GoalOut_def goal_out_def both_def wire_fields del: validate.simps(6-8))

lemma sleep_out_conforms: "conforms SleepOut (sleep_out en s)"
  by (simp add: conforms_def SleepOut_def sleep_out_def both_def wire_fields del: validate.simps(6-8))

lemma identity_out_conforms: "conforms IdentityOut (identity_out d)"
  by (simp add: conforms_def IdentityOut_def identity_out_def both_def wire_fields del: validate.simps(6-8))

lemma self_note_out_conforms: "conforms SelfNote (self_note_out en n)"
  by (simp add: conforms_def SelfNote_def self_note_out_def both_def wire_fields del: validate.simps(6-8))

lemma action_out_conforms: "conforms ActionAudit (action_out en r)"
  by (cases "ac_result (la_row r)")
     (simp_all add: conforms_def ActionAudit_def action_out_def Let_def both_def wire_fields
        del: validate.simps(6-8))

lemmas rows_conform =
  thought_out_conforms audit_out_conforms note_out_conforms episode_out_conforms fact_out_conforms
  goal_out_conforms sleep_out_conforms identity_out_conforms self_note_out_conforms action_out_conforms
lemma conforms_rows:
  assumes "\<And>x. conforms sh (f x)"
  shows "validate (SItems sh) (JList (map f xs)) = Some (JList (map f xs))"
  using assms conforms_items [of sh f xs] by (simp add: conforms_def)

lemma input_conforms: "post_input en t s = (s', Inr v) \<Longrightarrow> conforms InputAccepted v"
  by (auto simp: post_input_def push_input_def conforms_def InputAccepted_def both_def split: sum.splits prod.splits)

lemma state_conforms:
  assumes "get_state en m = (m', Inr v)"
  shows "conforms StateSnapshot v"
proof -
  obtain p where "validate StateSnapshot (JDict p) = Some v"
    using assms by (auto simp: get_state_def from_db_def split: if_splits sum.splits option.splits prod.splits)
  then show ?thesis by (rule validate_idem [OF StateSnapshot_ok])
qed

lemma goals_conforms: "get_goals en n m = Inr v \<Longrightarrow> conforms GoalsResponse v"
  by (auto simp: get_goals_def from_db_def GoalsResponse_def conforms_def both_def Let_def
      conforms_rows [OF goal_out_conforms] split: if_splits simp del: validate.simps(6-8))

lemma self_conforms: "get_self en n m = Inr v \<Longrightarrow> conforms SelfResponse v"
proof -
  have i: "validate (SNullable IdentityOut) (case d of Some d \<Rightarrow> identity_out d | None \<Rightarrow> JNull) =
        Some (case d of Some d \<Rightarrow> identity_out d | None \<Rightarrow> JNull)" for d
    using identity_out_conforms by (simp add: conforms_def split: option.split)
  show "get_self en n m = Inr v \<Longrightarrow> conforms SelfResponse v"
    by (auto simp: get_self_def from_db_def SelfResponse_def conforms_def both_def Let_def i
        conforms_rows [OF self_note_out_conforms] split: if_splits simp del: validate.simps(6-8))
qed

lemmas list_responses =
  get_thoughts_def get_audit_def get_audit_actions_def get_notes_def get_episodes_def get_facts_def get_sleeps_def
  ThoughtsResponse_def AuditResponse_def ActionAuditResponse_def NotesResponse_def EpisodesResponse_def
  FactsResponse_def SleepsResponse_def

lemma limited_Inr:
  "limited en n dflt most rq h m = (m', Inr v) \<Longrightarrow> m' = m \<and> (\<exists>i. 1 \<le> i \<and> h i m = Inr v) \<or> (m' = m \<and> h dflt m = Inr v)"
  by (auto simp: limited_def query_int_def split: sum.splits option.splits if_splits)

lemma run_route_conforms:
  assumes "run_route en ep rq m = (m', Inr v)"
  shows "conforms (response_model ep) v"
proof (cases ep)
  case PostInput
  with assms show ?thesis
    by (auto split: option.splits prod.splits intro: input_conforms)
next
  case GetState
  with assms show ?thesis by (simp add: state_conforms)
next
  case GetGoals
  with assms show ?thesis by (auto dest!: limited_Inr intro: goals_conforms)
next
  case GetSelf
  with assms show ?thesis by (auto dest!: limited_Inr intro: self_conforms)
qed (use assms in \<open>auto dest!: limited_Inr simp: list_responses Let_def rows_conform intro!: conforms_list_field
       split: sum.splits option.splits\<close>)

section \<open>The only write\<close>

lemma admit_queue: "admit_input en t s = (s', r) \<Longrightarrow>
  se_queue s' = se_queue s \<and> s' = s\<lparr>se_calls := se_calls s'\<rparr> \<and>
  (r = Inr () \<longrightarrow> int (length t) \<le> ae_max_chars en \<and> int (length (se_queue s)) < ae_max_depth en)"
  by (auto simp: admit_input_def depth_call_def queue_depth_def called_def split: if_splits)

definition web_input :: "string \<Rightarrow> raw_input" where
  "web_input t = \<lparr>ri_raw = t, ri_source = INPUT_SOURCE, ri_modality = MODALITY_TEXT\<rparr>"

lemma push_input_queue: "push_input en t s = (s', r) \<Longrightarrow>
  (se_queue s' = se_queue s \<or> se_queue s' = se_queue s @ [web_input t]) \<and>
  s' = s\<lparr>se_calls := se_calls s', se_queue := se_queue s'\<rparr> \<and>
  (\<forall>v. r = Inr v \<longrightarrow> se_queue s' = se_queue s @ [web_input t] \<and>
     v = JDict [(''accepted'', JBool True), (''queue_depth'', JInt (int (length (se_queue s) + 1)))])"
  by (auto simp: push_input_def queue_push_def depth_call_def queue_depth_def web_input_def called_def
      split: if_splits)

lemma post_queue:
  assumes "post_input en t s = (s', r)"
  shows "s' = s\<lparr>se_calls := se_calls s', se_queue := se_queue s'\<rparr> \<and>
    (se_queue s' = se_queue s \<or>
     se_queue s' = se_queue s @ [web_input t] \<and> int (length t) \<le> ae_max_chars en \<and>
     int (length (se_queue s)) < ae_max_depth en) \<and>
    (\<forall>v. r = Inr v \<longrightarrow> se_queue s' = se_queue s @ [web_input t] \<and>
       v = JDict [(''accepted'', JBool True), (''queue_depth'', JInt (int (length (se_queue s) + 1)))])"
proof -
  obtain s1 r1 where a: "admit_input en t s = (s1, r1)" by fastforce
  note b = admit_queue [OF a]
  show ?thesis
  proof (cases r1)
    case (Inl f)
    with assms a have "s' = s1" "r = Inl f" by (auto simp: post_input_def)
    with b show ?thesis by (metis Inl_Inr_False senses.surjective senses.update_convs(2))
  next
    case (Inr u)
    with assms a have p: "push_input en t s1 = (s', r)" by (simp add: post_input_def)
    note q = push_input_queue [OF p]
    from b have s1: "s1 = s\<lparr>se_calls := se_calls s1\<rparr>" "se_queue s1 = se_queue s" by auto
    from q have "s' = s1\<lparr>se_calls := se_calls s', se_queue := se_queue s'\<rparr>" by blast
    with s1 have "s' = s\<lparr>se_calls := se_calls s', se_queue := se_queue s'\<rparr>"
      by (metis senses.surjective senses.update_convs(1,2))
    with q s1(2) b Inr show ?thesis by auto
  qed
qed
lemma input_request_iff:
  "input_request v = Some t \<longleftrightarrow> (\<exists>d. v = JDict d \<and> map_of d ''text'' = Some (JStr t) \<and> strip t \<noteq> [])"
  by (auto simp: input_request_def split: json.splits option.splits)

text \<open>What one request may have done to the Mind.\<close>

definition only_said :: "api_env \<Rightarrow> endpoint \<Rightarrow> web_request \<Rightarrow> mind \<Rightarrow> mind \<Rightarrow> bool" where
  "only_said en ep rq m m' \<longleftrightarrow>
     m' = m\<lparr>mn_senses := mn_senses m', mn_affect := mn_affect m'\<rparr> \<and>
     mn_affect m' \<in> {mn_affect m, ensure_loaded (ae_latest_mood en) (mn_affect m)} \<and>
     mn_senses m' = mn_senses m\<lparr>se_calls := se_calls (mn_senses m'), se_queue := se_queue (mn_senses m')\<rparr> \<and>
     (se_queue (mn_senses m') = se_queue (mn_senses m) \<or>
      (\<exists>d t. ep = PostInput \<and> authorised en rq \<and> rq_body rq = JsonBody (JDict d) \<and>
         map_of d ''text'' = Some (JStr t) \<and> strip t \<noteq> [] \<and> int (length t) \<le> ae_max_chars en \<and>
         int (length (se_queue (mn_senses m))) < ae_max_depth en \<and>
         se_queue (mn_senses m') = se_queue (mn_senses m) @ [web_input t]))"

lemma only_said_same: "only_said en ep rq m m"
  by (simp add: only_said_def)

lemma route_only_said:
  assumes "run_route en ep rq m = (m', r)" "authorised en rq"
  shows "only_said en ep rq m m'"
proof (cases ep)
  case PostInput
  show ?thesis
  proof (cases "\<exists>v t. rq_body rq = JsonBody v \<and> input_request v = Some t")
    case True
    then obtain v t where b: "rq_body rq = JsonBody v" "input_request v = Some t" by blast
    then obtain s where p: "post_input en t (mn_senses m) = (s, r)" and m': "m' = m\<lparr>mn_senses := s\<rparr>"
      using assms PostInput by (auto split: prod.splits)
    from b obtain d where d: "v = JDict d" "map_of d ''text'' = Some (JStr t)" "strip t \<noteq> []"
      by (auto simp: input_request_iff)
    from post_queue [OF p] have "s = mn_senses m\<lparr>se_calls := se_calls s, se_queue := se_queue s\<rparr>"
      "se_queue s = se_queue (mn_senses m) \<or> se_queue s = se_queue (mn_senses m) @ [web_input t] \<and>
       int (length t) \<le> ae_max_chars en \<and> int (length (se_queue (mn_senses m))) < ae_max_depth en" by blast+
    with b d m' PostInput assms(2) show ?thesis by (auto simp: only_said_def)
  next
    case False
    with assms PostInput have "m' = m" by (auto split: req_body.splits option.splits)
    then show ?thesis by (simp add: only_said_same)
  qed
next
  case GetState
  with assms have "m' = m \<or> m' = m\<lparr>mn_affect := ensure_loaded (ae_latest_mood en) (mn_affect m)\<rparr>"
    by (auto simp: get_state_def current_mood_def Let_def split: if_splits)
  then show ?thesis by (auto simp: only_said_def)
qed (use assms in \<open>simp_all add: limited_def only_said_same\<close>)

lemma v1_only_said:
  assumes "v1_router en ep rq m = (m', r)"
  shows "only_said en ep rq m m'"
proof (cases "m' = m")
  case False
  with assms have "run_route en ep rq m = (m', r) \<and> authorised en rq"
    by (auto simp: v1_router_def require_token_iff split: if_splits sum.splits)
  then show ?thesis using route_only_said by blast
qed (simp add: only_said_same)

text \<open>A succession of requests.\<close>

fun serve_all :: "api_env \<Rightarrow> (endpoint \<times> web_request) list \<Rightarrow> mind \<Rightarrow> mind" where
  "serve_all en [] m = m"
| "serve_all en ((ep, rq) # rest) m = serve_all en rest (fst (v1_router en ep rq m))"

lemma serve_all_queue:
  "\<exists>ts. se_queue (mn_senses (serve_all en rqs m)) = se_queue (mn_senses m) @ map web_input ts \<and>
        (\<forall>t \<in> set ts. strip t \<noteq> [] \<and> int (length t) \<le> ae_max_chars en) \<and>
        (ts \<noteq> [] \<longrightarrow> int (length (se_queue (mn_senses m)) + length ts) \<le> ae_max_depth en)"
proof (induction en rqs m rule: serve_all.induct)
  case (1 en m)
  then show ?case by (intro exI [of _ "[]"]) simp
next
  case (2 en ep rq rest m)
  obtain m1 r where v: "v1_router en ep rq m = (m1, r)" by fastforce
  from 2 v obtain ts where ts: "se_queue (mn_senses (serve_all en rest m1)) = se_queue (mn_senses m1) @ map web_input ts"
    "\<forall>t \<in> set ts. strip t \<noteq> [] \<and> int (length t) \<le> ae_max_chars en"
    "ts \<noteq> [] \<longrightarrow> int (length (se_queue (mn_senses m1)) + length ts) \<le> ae_max_depth en" by auto
  from v1_only_said [OF v] consider "se_queue (mn_senses m1) = se_queue (mn_senses m)"
    | t where "strip t \<noteq> []" "int (length t) \<le> ae_max_chars en"
        "int (length (se_queue (mn_senses m))) < ae_max_depth en"
        "se_queue (mn_senses m1) = se_queue (mn_senses m) @ [web_input t]"
    by (auto simp: only_said_def)
  then show ?case
  proof cases
    case 1
    with ts v show ?thesis by (intro exI [of _ ts]) simp
  next
    case (2 t)
    with ts v show ?thesis by (intro exI [of _ "t # ts"]) (auto simp: Suc_le_eq)
  qed
qed

text \<open>Two requests that are both admitted before either pushes overfill the queue.\<close>

lemma concurrent_inputs_overfill:
  assumes "\<And>n. fe_redis (ae_feeds en) n" "int (length t) \<le> ae_max_chars en" "int (length u) \<le> ae_max_chars en"
    and "int (length (se_queue s)) + 1 = ae_max_depth en"
    and "admit_input en t s = (s1, a)" "admit_input en u s1 = (s2, b)"
    and "push_input en t s2 = (s3, c)" "push_input en u s3 = (s4, d)"
  shows "int (length (se_queue s4)) = ae_max_depth en + 1"
proof -
  from assms have s12: "se_queue s1 = se_queue s" "se_queue s2 = se_queue s"
    using admit_queue by metis+
  from assms(1,7) have "se_queue s3 = se_queue s2 @ [web_input t]"
    by (auto simp: push_input_def queue_push_def depth_call_def web_input_def split: if_splits prod.splits)
  moreover from assms(1,8) have "se_queue s4 = se_queue s3 @ [web_input u]"
    by (auto simp: push_input_def queue_push_def depth_call_def web_input_def split: if_splits prod.splits)
  ultimately show ?thesis using s12 assms(4) by simp
qed

text \<open>The action trail leaves scrubbed.\<close>

lemma payload_scrubbed:
  "list_all secret_ok (known_secret_values st) \<Longrightarrow> scrubbed_json (known_secret_values st) (JDict (redact_payload st d))"
  using scrubbed_redact_value [of "known_secret_values st" "JDict d"] by (simp only: redact_payload_json)

lemma actions_scrubbed:
  assumes "list_all secret_ok (known_secret_values (ae_secrets en))" "action_out en r = JDict kvs"
    and "map_of kvs f = Some v" "f \<in> {''args'', ''result''}"
  shows "v = JNull \<or> scrubbed_json (known_secret_values (ae_secrets en)) v"
proof -
  let ?st = "ae_secrets en" and ?a = "la_row r"
  have "v = JDict (redact_payload ?st (ac_args ?a)) \<or> v = JNull \<or>
        (\<exists>d. ac_result ?a = Some d \<and> v = JDict (redact_payload ?st d))"
    using assms(2-4) by (cases "ac_result ?a") (auto simp: action_out_def Let_def)
  with payload_scrubbed [OF assms(1)] show ?thesis by auto
qed
text \<open>No refusal of an input has the status of its acceptance.\<close>

lemma post_refusal: "post_input en t s = (s', Inl (HttpFailure st hs b)) \<Longrightarrow> st \<noteq> 202"
  by (auto simp: post_input_def push_input_def admit_input_def split: if_splits sum.splits prod.splits)

lemma input_refusal:
  assumes "v1_router en PostInput rq m = (m', Inl (HttpFailure st hs b))"
  shows "st \<noteq> 202"
proof -
  have "f = HttpFailure st hs b \<Longrightarrow> require_token en rq = Inl f \<Longrightarrow> st \<noteq> 202" for f
    by (auto dest!: require_token_refuses simp: unauthorised_def)
  moreover have "get_runtime en = Inl (HttpFailure st hs b) \<Longrightarrow> st \<noteq> 202"
    by (auto simp: get_runtime_def split: if_splits)
  moreover have "run_route en PostInput rq m = (m', Inl (HttpFailure st hs b)) \<Longrightarrow> st \<noteq> 202"
    by (auto simp: invalid_def dest: post_refusal split: option.splits prod.splits)
  ultimately show ?thesis
    using assms by (auto simp: v1_router_def invalid_def split: if_splits sum.splits)
qed

section \<open>Properties\<close>


definition api_demo :: api_env where
  "api_demo =
     \<lparr>ae_token = ''hunter22'', ae_attached = True, ae_max_chars = 20, ae_max_depth = 2, ae_secrets = demo_secrets,
      ae_feeds = feeds_demo (\<lambda>_. True), ae_db = True, ae_int = (\<lambda>_. None), ae_invalid = (\<lambda>_. JNull), ae_str = (\<lambda>_. []),
      ae_iso = (\<lambda>_. ''then''), ae_now = 0,
      ae_recollection = \<lparr>rl_emb = (\<lambda>_. Inr [1]), rl_nearest = near_first, rl_nearest_f = (\<lambda>v n rows. []), rl_pool = 5,
                         rl_weights = weights_demo\<rparr>,
      ae_newest = (\<lambda>n rows. take n (rev rows)), ae_last_actions = (\<lambda>n rows. take n (rev rows)),
      ae_last_notes = (\<lambda>n rows. take n (rev rows)), ae_last_episodes = (\<lambda>n rows. take n (rev rows)),
      ae_last_facts = (\<lambda>n rows. take n (rev rows)), ae_last_sleeps = (\<lambda>n rows. take n (rev rows)),
      ae_last_reviews = (\<lambda>n rows. take n (rev rows)), ae_newest_goals = by_created_at, ae_closed_goals = by_created_at,
      ae_latest_mood = (\<lambda>_. None)\<rparr>"

definition mind_demo :: mind where
  "mind_demo =
     \<lparr>mn_bus = demo_workspace\<lparr>wk_log :=
        [\<lparr>wr_id = 1, wr_ts = 5, wr_module = ''narrator'', wr_type = ''thought'', wr_payload = [(''text'', JStr ''hm'')]\<rparr>]\<rparr>,
      mn_senses = \<lparr>se_calls = 0, se_queue = [], se_percepts = [], se_ticks = 0, se_wakeups = []\<rparr>,
      mn_sleeper = sleeper_demo, mn_affect = demo_affect, mn_cycle = new_cycle cycle_demo (), mn_actions = [], mn_notes = []\<rparr>"

definition bare_request :: web_request where
  "bare_request = \<lparr>rq_headers = [], rq_query = [], rq_body = JsonBody (JDict [(''text'', JStr ''hello'')])\<rparr>"

definition token_request :: web_request where
  "token_request = bare_request\<lparr>rq_headers := [(''authorization'', ''bEARER hunter22 '')]\<rparr>"

lemma bare_unauthorised: "\<not> authorised api_demo bare_request"
  by (simp add: authorised_iff api_demo_def bare_request_def presented_token_def header_or_def lower_def BEARER_PREFIX_def)

lemma token_authorised: "authorised api_demo token_request"
  by code_simp


text \<open>C12: the web has one write.  Whatever a request is, it leaves the Mind as it was but for the mood
  that a read may load; or it was an input, presented with the token, whose text is not blank and not
  too long, that found room in the queue, and the queue has that text as said from the web at its end.
  An answer 202 means that it has, and tells how many wait.\<close>

theorem only_write_is_input:
  assumes "serve en minted ep rq m = (m', a)"
  shows "only_said en ep rq m m' \<and>
    (ep = PostInput \<and> rs_status a = 202 \<longrightarrow>
      (\<exists>t. se_queue (mn_senses m') = se_queue (mn_senses m) @ [web_input t] \<and>
           rs_body a = JDict [(''accepted'', JBool True), (''queue_depth'', JInt (int (length (se_queue (mn_senses m')))))]))"
proof -
  obtain r where v: "v1_router en ep rq m = (m', r)" and a: "a = answer minted rq (success_status ep) r"
    using assms by (auto simp: serve_def split: prod.splits)
  show ?thesis
  proof (intro conjI impI)
    show "only_said en ep rq m m'" by (rule v1_only_said [OF v])
    assume p: "ep = PostInput \<and> rs_status a = 202"
    then obtain b where b: "r = Inr b"
      using v a by (cases r) (auto simp: answer_def Let_def split: failure.splits dest!: input_refusal)
    with v p obtain t s where q: "post_input en t (mn_senses m) = (s, r)" "m' = m\<lparr>mn_senses := s\<rparr>"
      by (auto simp: v1_router_def split: if_splits sum.splits option.splits prod.splits)
    from post_queue [OF q(1)] b q(2) a
    show "\<exists>t. se_queue (mn_senses m') = se_queue (mn_senses m) @ [web_input t] \<and>
           rs_body a = JDict [(''accepted'', JBool True), (''queue_depth'', JInt (int (length (se_queue (mn_senses m')))))]"
      by (intro exI [of _ t]) (simp add: answer_def Let_def)
  qed
qed

lemma demo_input:
  "serve api_demo ''id'' PostInput token_request mind_demo =
     (mind_demo\<lparr>mn_senses := (mn_senses mind_demo)\<lparr>se_calls := 3, se_queue := [web_input ''hello'']\<rparr>\<rparr>,
      \<lparr>rs_status = 202, rs_headers = [(''x-web_request-id'', ''id'')],
       rs_body = JDict [(''accepted'', JBool True), (''queue_depth'', JInt 1)]\<rparr>)"
proof -
  have b: "rq_body token_request = JsonBody (JDict [(''text'', JStr ''hello'')])"
    by (simp add: token_request_def bare_request_def)
  have i: "input_request (JDict [(''text'', JStr ''hello'')]) = Some ''hello''"
    by (simp add: input_request_def strip_def is_space_def)
  have p: "post_input api_demo ''hello'' (mn_senses mind_demo) =
      ((mn_senses mind_demo)\<lparr>se_calls := 3, se_queue := [web_input ''hello'']\<rparr>,
       Inr (JDict [(''accepted'', JBool True), (''queue_depth'', JInt 1)]))"
    by (simp add: post_input_def admit_input_def push_input_def depth_call_def queue_push_def called_def queue_depth_def
        api_demo_def feeds_demo_def mind_demo_def web_input_def)
  have t: "require_token api_demo token_request = Inr ()"
    using token_authorised by (simp add: require_token_iff)
  have r: "get_runtime api_demo = Inr ()" by (simp add: get_runtime_def api_demo_def)
  have c: "correlation_id ''id'' token_request = ''id''"
    by (simp add: correlation_id_def header_or_def token_request_def CORRELATION_HEADER_def)
  show ?thesis
    by (simp add: serve_def v1_router_def b i p t r c answer_def success_status_def CORRELATION_HEADER_def Let_def)
qed

theorem only_write_is_input_witness:
  "\<exists>m' a. serve api_demo ''id'' PostInput token_request mind_demo = (m', a) \<and> rs_status a = 202 \<and>
     only_said api_demo PostInput token_request mind_demo m' \<and> se_queue (mn_senses m') \<noteq> []"
  using only_write_is_input [OF demo_input] demo_input by (intro exI conjI) (rule demo_input, simp_all)

text \<open>however many requests come one after the other, what they add to the queue are texts that are
  not blank and within the length, as said from the web, in order, behind what was there, and they
  never bring it beyond its cap.  (The check and the push are two steps: \<open>concurrent_inputs_overfill\<close>.)\<close>

theorem web_queue_bounded:
  "\<exists>ts. se_queue (mn_senses (serve_all en rqs m)) = se_queue (mn_senses m) @ map web_input ts \<and>
        set ts \<subseteq> {t. strip t \<noteq> [] \<and> int (length t) \<le> ae_max_chars en} \<and>
        length (se_queue (mn_senses (serve_all en rqs m))) \<le>
          max (length (se_queue (mn_senses m))) (nat (ae_max_depth en))"
proof -
  from serve_all_queue [of en rqs m] obtain ts where
    q: "se_queue (mn_senses (serve_all en rqs m)) = se_queue (mn_senses m) @ map web_input ts"
    and t: "\<forall>t \<in> set ts. strip t \<noteq> [] \<and> int (length t) \<le> ae_max_chars en"
    and n: "ts \<noteq> [] \<longrightarrow> int (length (se_queue (mn_senses m)) + length ts) \<le> ae_max_depth en"
    by blast
  have "length (se_queue (mn_senses m)) + length ts \<le> max (length (se_queue (mn_senses m))) (nat (ae_max_depth en))"
    using n by (cases ts) auto
  with q t show ?thesis by (intro exI [of _ ts]) auto
qed



end
