(* ===== verification/Control.thy ===== *)
theory Control
  imports Api
begin

text \<open>
  The control channel of the heartbeat (\<^verbatim>\<open>brain/cycle_control.py\<close>): the cockpit's commands, published
  with the shared token, and the listener that turns them into calls on the cycle's gate.  The JSON
  printer and parser and what \<^verbatim>\<open>str\<close> makes of a token that is no string are parameters.
\<close>

section \<open>The cockpit's side\<close>

definition COMMANDS :: "(string \<times> control) list" where
  "COMMANDS = [(''pause'', Pause), (''resume'', Resume), (''step'', Step)]"

definition control_payload :: "string \<Rightarrow> string \<Rightarrow> json" where
  "control_payload command token =
     JDict ((''command'', JStr command) # (if token = [] then [] else [(''token'', JStr token)]))"

definition send_control :: "(json \<Rightarrow> string) \<Rightarrow> string \<Rightarrow> string \<Rightarrow> string res" where
  "send_control dumps token command =
     (if command \<notin> set (map fst COMMANDS) then Inl ValueError
      else Inr (dumps (control_payload command token)))"

section \<open>The listener\<close>

text \<open>A message's data; \<open>None\<close> when it is neither text nor bytes.\<close>

definition token_text :: "(json \<Rightarrow> string) \<Rightarrow> (string \<times> json) list \<Rightarrow> string" where
  "token_text str_of d =
     (case map_of d ''token'' of None \<Rightarrow> [] | Some (JStr s) \<Rightarrow> s | Some v \<Rightarrow> str_of v)"

definition apply_command :: "(string \<times> json) list \<Rightarrow> 'w cycle_state \<Rightarrow> 'w cycle_state" where
  "apply_command d cs =
     (case map_of d ''command'' of
        Some (JStr c) \<Rightarrow> (case map_of COMMANDS c of Some k \<Rightarrow> apply_control k cs | None \<Rightarrow> cs)
      | _ \<Rightarrow> cs)"

definition control_apply :: "(string \<Rightarrow> json option) \<Rightarrow> (json \<Rightarrow> string) \<Rightarrow> string \<Rightarrow> string option \<Rightarrow> 'w cycle_state \<Rightarrow>
    'w cycle_state \<times> unit res" where
  "control_apply loads str_of token data cs =
     (case data of
        None \<Rightarrow> (cs, Inr ())
      | Some msg \<Rightarrow>
          (case loads msg of
             Some (JDict d) \<Rightarrow>
               if token = [] then (apply_command d cs, Inr ())
               else (case compare_digest (token_text str_of d) token of
                       Inl e \<Rightarrow> (cs, Inl e)
                     | Inr same \<Rightarrow> (if same then apply_command d cs else cs, Inr ()))
           | _ \<Rightarrow> (cs, Inr ())))"

text \<open>The listener over the messages it receives; an exception ends it.\<close>

fun control_listen :: "(string \<Rightarrow> json option) \<Rightarrow> (json \<Rightarrow> string) \<Rightarrow> string \<Rightarrow> string option list \<Rightarrow> 'w cycle_state \<Rightarrow>
    'w cycle_state \<times> exn option" where
  "control_listen loads str_of token [] cs = (cs, None)"
| "control_listen loads str_of token (x # xs) cs =
     (case control_apply loads str_of token x cs of
        (cs1, Inl e) \<Rightarrow> (cs1, Some e)
      | (cs1, Inr _) \<Rightarrow> control_listen loads str_of token xs cs1)"

section \<open>Only the token's bearer moves the gate\<close>

text \<open>The command that a message carries with the token, and whether a message ends the listener.\<close>

definition genuine :: "(string \<Rightarrow> json option) \<Rightarrow> (json \<Rightarrow> string) \<Rightarrow> string \<Rightarrow> string option \<Rightarrow> control option" where
  "genuine loads str_of token data =
     (case data of
        None \<Rightarrow> None
      | Some msg \<Rightarrow>
          (case loads msg of
             Some (JDict d) \<Rightarrow>
               if token = [] \<or> token_text str_of d = token
               then (case map_of d ''command'' of Some (JStr c) \<Rightarrow> map_of COMMANDS c | _ \<Rightarrow> None)
               else None
           | _ \<Rightarrow> None))"

definition deafening :: "(string \<Rightarrow> json option) \<Rightarrow> (json \<Rightarrow> string) \<Rightarrow> string \<Rightarrow> string option \<Rightarrow> bool" where
  "deafening loads str_of token data \<longleftrightarrow>
     token \<noteq> [] \<and> (\<exists>msg d. data = Some msg \<and> loads msg = Some (JDict d) \<and>
       \<not> (ascii (token_text str_of d) \<and> ascii token))"

definition do_genuine :: "control option \<Rightarrow> 'w cycle_state \<Rightarrow> 'w cycle_state" where
  "do_genuine c cs = (case c of Some k \<Rightarrow> apply_control k cs | None \<Rightarrow> cs)"

lemma apply_command_genuine:
  "apply_command d cs = do_genuine (case map_of d ''command'' of Some (JStr c) \<Rightarrow> map_of COMMANDS c | _ \<Rightarrow> None) cs"
  by (auto simp: apply_command_def do_genuine_def split: option.splits json.splits)

lemma control_apply_heard:
  assumes "\<not> deafening loads str_of token data"
  shows "control_apply loads str_of token data cs = (do_genuine (genuine loads str_of token data) cs, Inr ())"
proof (cases "\<exists>msg d. data = Some msg \<and> loads msg = Some (JDict d)")
  case True
  then obtain msg d where d: "data = Some msg" "loads msg = Some (JDict d)" by blast
  have n: "do_genuine None cs = cs" by (simp add: do_genuine_def)
  show ?thesis
  proof (cases "token = []")
    case True
    with d show ?thesis by (simp add: control_apply_def genuine_def apply_command_genuine)
  next
    case False
    with assms d have "ascii (token_text str_of d) \<and> ascii token" by (auto simp: deafening_def)
    with d False n show ?thesis by (simp add: control_apply_def genuine_def compare_digest_def apply_command_genuine)
  qed
next
  case False
  have "do_genuine None cs = cs" by (simp add: do_genuine_def)
  moreover have "genuine loads str_of token data = None" "control_apply loads str_of token data cs = (cs, Inr ())"
    using False by (auto simp: genuine_def control_apply_def split: option.splits json.splits)
  ultimately show ?thesis by simp
qed

lemma control_apply_deaf:
  "deafening loads str_of token data \<Longrightarrow> control_apply loads str_of token data cs = (cs, Inl TypeError)"
  by (auto simp: deafening_def control_apply_def compare_digest_def)

lemma control_heard_all:
  "\<not> list_ex (deafening loads str_of token) msgs \<Longrightarrow>
   fst (control_listen loads str_of token msgs cs) = fold apply_control (List.map_filter (genuine loads str_of token) msgs) cs"
  by (induction msgs arbitrary: cs)
     (auto simp: control_apply_heard do_genuine_def List.map_filter_simps split: option.split)

lemma sent_genuine:
  assumes "send_control dumps token command = Inr msg" "loads msg = Some (control_payload command token)"
  shows "genuine loads str_of token (Some msg) = map_of COMMANDS command \<and> map_of COMMANDS command \<noteq> None"
  using assms by (auto simp: send_control_def genuine_def control_payload_def token_text_def COMMANDS_def
      split: if_splits)

lemma sent_not_deafening:
  assumes "loads msg = Some (control_payload command token)" "ascii token"
  shows "\<not> deafening loads str_of token (Some msg)"
  using assms by (auto simp: deafening_def control_payload_def token_text_def split: if_splits)

section \<open>Properties\<close>


text \<open>One message, from anyone on the bus, ends the listener: after it no command is heard.\<close>

lemma deaf_listener:
  assumes "token \<noteq> []" "loads msg = Some (JDict [(''token'', JStr [CHR 0xE9])])"
  shows "control_listen loads str_of token (Some msg # msgs) cs = (cs, Some TypeError)"
proof -
  have "\<not> ascii [CHR 0xE9]" by (simp add: ascii_def)
  with assms have "deafening loads str_of token (Some msg)" by (auto simp: deafening_def token_text_def)
  then show ?thesis by (simp add: control_apply_deaf)
qed

text \<open>A demonstration over a printer that knows one text.\<close>

definition demo_loads :: "string \<Rightarrow> json option" where
  "demo_loads t = (if t = ''p'' then Some (control_payload ''pause'' ''hunter22'')
                   else if t = ''q'' then Some (control_payload ''resume'' ''guess'') else None)"


end
