(* ===== verification/Config.thy ===== *)
theory Config
  imports Cycle Perception WorkingMem Providers
begin

text \<open>
  The settings (\<^verbatim>\<open>foundation/config.py\<close>): the fields by section with their shipped defaults, the values
  derived from them, and the objects that the components build from them.  What the environment
  and \<^verbatim>\<open>.env\<close> override is the record given; its parsing is the settings library's.
\<close>

section \<open>Fields and defaults\<close>

text \<open>Runtime, datastores, the token.\<close>

record core_settings =
  set_app_env :: string
  set_log_level :: string
  set_service_name :: string
  set_sentry_dsn :: string
  set_database_url :: string
  set_postgres_host :: string
  set_postgres_port :: int
  set_postgres_db :: string
  set_postgres_user :: string
  set_postgres_password :: string
  set_redis_url :: string
  set_ws_token :: string

definition core_defaults :: core_settings where
  "core_defaults =
    \<lparr>set_app_env = ''development'', set_log_level = ''INFO'', set_service_name = ''johnny5'',
     set_sentry_dsn = '''', set_database_url = '''', set_postgres_host = ''postgres'',
     set_postgres_port = 5432, set_postgres_db = ''johnny5'', set_postgres_user = ''johnny5'',
     set_postgres_password = '''', set_redis_url = ''redis://redis:6379/0'', set_ws_token = ''''\<rparr>"

text \<open>Inference endpoints.\<close>

record inference_settings =
  set_local_llm_base_url :: string
  set_local_fast_model :: string
  set_local_reasoning_model :: string
  set_local_llm_timeout :: real
  set_local_reasoning_timeout :: real
  set_embed_base_url :: string
  set_embed_endpoint :: string
  set_embed_model :: string
  set_embed_dimensions :: int
  set_yolo_base_url :: string
  set_groq_api_key :: string
  set_groq_base_url :: string
  set_groq_model :: string
  set_groq_daily_budget_usd :: real

definition inference_defaults :: inference_settings where
  "inference_defaults =
    \<lparr>set_local_llm_base_url = ''http://inference.lan:8000'', set_local_fast_model = ''gemma4:e4b'',
     set_local_reasoning_model = ''qwen3.5-9b-128k:latest'', set_local_llm_timeout = 120,
     set_local_reasoning_timeout = 240, set_embed_base_url = ''http://inference.lan:8002'',
     set_embed_endpoint = ''/embed'', set_embed_model = ''bge-m3'', set_embed_dimensions = 1024,
     set_yolo_base_url = ''http://inference.lan:8003'', set_groq_api_key = '''',
     set_groq_base_url = ''https://api.groq.com/openai/v1'', set_groq_model = ''llama-3.3-70b-versatile'',
     set_groq_daily_budget_usd = 5\<rparr>"

text \<open>Recall, working memory, snapshots.\<close>

record memory_settings =
  set_memory_recall_weight_similarity :: real
  set_memory_recall_weight_recency :: real
  set_memory_recall_weight_salience :: real
  set_memory_recall_recency_halflife_seconds :: real
  set_memory_recall_candidate_pool :: int
  set_working_memory_capacity :: int
  set_working_memory_default_ttl_seconds :: real
  set_working_memory_decay_factor :: real
  set_working_memory_salience_floor :: real
  set_memory_snapshot_dir :: string

definition memory_defaults :: memory_settings where
  "memory_defaults =
    \<lparr>set_memory_recall_weight_similarity = 1, set_memory_recall_weight_recency = 1,
     set_memory_recall_weight_salience = 1, set_memory_recall_recency_halflife_seconds = 86400,
     set_memory_recall_candidate_pool = 50, set_working_memory_capacity = 12,
     set_working_memory_default_ttl_seconds = 900, set_working_memory_decay_factor = 9/10,
     set_working_memory_salience_floor = 5/100, set_memory_snapshot_dir = ''snapshots/memory''\<rparr>"

text \<open>The stages of sleep.\<close>

record growth_settings =
  set_consolidation_recent_limit :: int
  set_consolidation_cluster_threshold :: real
  set_consolidation_max_clusters :: int
  set_consolidation_max_tokens :: int
  set_consolidation_default_confidence :: real
  set_decay_episode_limit :: int
  set_decay_salience_halflife_seconds :: real
  set_decay_salience_floor :: real
  set_decay_charged_boost :: real
  set_semantic_merge_threshold :: real
  set_self_model_recent_episodes :: int
  set_self_model_recent_facts :: int
  set_self_model_max_tokens :: int
  set_metacognition_recent_goals :: int
  set_metacognition_max_tokens :: int
  set_sleep_every_ticks :: int

definition growth_defaults :: growth_settings where
  "growth_defaults =
    \<lparr>set_consolidation_recent_limit = 80, set_consolidation_cluster_threshold = 6/10,
     set_consolidation_max_clusters = 8, set_consolidation_max_tokens = 4096,
     set_consolidation_default_confidence = 6/10, set_decay_episode_limit = 2000,
     set_decay_salience_halflife_seconds = 604800, set_decay_salience_floor = 5/100,
     set_decay_charged_boost = 25/100, set_semantic_merge_threshold = 95/100,
     set_self_model_recent_episodes = 15, set_self_model_recent_facts = 10, set_self_model_max_tokens = 4096,
     set_metacognition_recent_goals = 20, set_metacognition_max_tokens = 4096, set_sleep_every_ticks = 0\<rparr>"

text \<open>The router.\<close>

record routing_settings =
  set_llm_routes_path :: string
  set_circuit_failure_threshold :: int
  set_circuit_reset_seconds :: real
  set_llm_schema_retries :: int

definition routing_defaults :: routing_settings where
  "routing_defaults =
    \<lparr>set_llm_routes_path = ''config/llm_routes.toml'', set_circuit_failure_threshold = 4,
     set_circuit_reset_seconds = 60, set_llm_schema_retries = 1\<rparr>"

text \<open>Deliberation, conscience, goals, drives.\<close>

record agency_settings =
  set_deliberation_min_interval_seconds :: real
  set_deliberation_max_tokens :: int
  set_deliberation_recall_k :: int
  set_mastery_code_max_tokens :: int
  set_conscience_max_tokens :: int
  set_goal_min_dwell_seconds :: real
  set_goal_hysteresis_margin :: real
  set_goal_arousal_weight :: real
  set_drives_config_path :: string

definition agency_defaults :: agency_settings where
  "agency_defaults =
    \<lparr>set_deliberation_min_interval_seconds = 20, set_deliberation_max_tokens = 320,
     set_deliberation_recall_k = 4, set_mastery_code_max_tokens = 600, set_conscience_max_tokens = 512,
     set_goal_min_dwell_seconds = 45, set_goal_hysteresis_margin = 15/100, set_goal_arousal_weight = 5/10,
     set_drives_config_path = ''config/drives.toml''\<rparr>"

text \<open>The cycle.\<close>

record heartbeat_settings =
  set_cycle_autostart :: bool
  set_cycle_base_interval_seconds :: real
  set_cycle_min_interval_seconds :: real
  set_cycle_max_interval_seconds :: real
  set_cycle_arousal_speedup :: real
  set_cycle_tired_slowdown :: real
  set_workspace_capacity :: int

definition heartbeat_defaults :: heartbeat_settings where
  "heartbeat_defaults =
    \<lparr>set_cycle_autostart = True, set_cycle_base_interval_seconds = 4,
     set_cycle_min_interval_seconds = 15/10, set_cycle_max_interval_seconds = 12,
     set_cycle_arousal_speedup = 1, set_cycle_tired_slowdown = 15/10, set_workspace_capacity = 7\<rparr>"

text \<open>Sensorium, attention, narrator, affect, the memory stages.\<close>

record senses_settings =
  set_sensorium_input_salience :: real
  set_sensorium_ambient_salience :: real
  set_sensorium_ambient_persist_every_ticks :: int
  set_attention_weight_salience :: real
  set_attention_weight_novelty :: real
  set_attention_repeat_penalty :: real
  set_attention_weight_arousal :: real
  set_attention_weight_drive :: real
  set_narrator_max_tokens :: int
  set_affect_max_tokens :: int
  set_mood_halflife_seconds :: real
  set_mood_responsiveness :: real
  set_mood_persist_min_change :: real
  set_memory_recall_episodes_k :: int
  set_memory_recall_facts_k :: int
  set_memory_recall_salience_ceiling :: real
  set_memory_recall_arousal_salience_gain :: real
  set_memory_learn_idle_every_ticks :: int

definition senses_defaults :: senses_settings where
  "senses_defaults =
    \<lparr>set_sensorium_input_salience = 85/100, set_sensorium_ambient_salience = 15/100,
     set_sensorium_ambient_persist_every_ticks = 15, set_attention_weight_salience = 1,
     set_attention_weight_novelty = 6/10, set_attention_repeat_penalty = 5/10,
     set_attention_weight_arousal = 7/10, set_attention_weight_drive = 5/10, set_narrator_max_tokens = 1024,
     set_affect_max_tokens = 1024, set_mood_halflife_seconds = 180, set_mood_responsiveness = 5/10,
     set_mood_persist_min_change = 4/100, set_memory_recall_episodes_k = 3, set_memory_recall_facts_k = 3,
     set_memory_recall_salience_ceiling = 7/10, set_memory_recall_arousal_salience_gain = 1,
     set_memory_learn_idle_every_ticks = 30\<rparr>"

text \<open>Interfaces and tools.\<close>

record tools_settings =
  set_public_domain :: string
  set_web_port :: int
  set_web_input_max_chars :: int
  set_web_input_max_queue_depth :: int
  set_web_fetch_user_agent :: string
  set_web_fetch_max_redirects :: int
  set_web_fetch_timeout_seconds :: real
  set_web_fetch_max_bytes :: int
  set_web_fetch_max_text_chars :: int
  set_sandbox_launcher_path :: string
  set_code_exec_timeout_seconds :: int
  set_code_exec_outer_buffer_seconds :: real
  set_code_exec_max_code_chars :: int
  set_searxng_url :: string
  set_searxng_engines :: string
  set_searxng_timeout_seconds :: real
  set_web_search_max_results :: int
  set_news_max_results :: int

definition tools_defaults :: tools_settings where
  "tools_defaults =
    \<lparr>set_public_domain = ''johnny.demosrv.uk'', set_web_port = 80, set_web_input_max_chars = 4000,
     set_web_input_max_queue_depth = 100,
     set_web_fetch_user_agent = ''Johnny5/1.0 (+autonomous reader; https://johnny.demosrv.uk)'',
     set_web_fetch_max_redirects = 5, set_web_fetch_timeout_seconds = 10, set_web_fetch_max_bytes = 2000000,
     set_web_fetch_max_text_chars = 20000, set_sandbox_launcher_path = ''ops/sandbox/run-sandbox.sh'',
     set_code_exec_timeout_seconds = 10, set_code_exec_outer_buffer_seconds = 8,
     set_code_exec_max_code_chars = 50000, set_searxng_url = ''http://inference.lan:8889'',
     set_searxng_engines = ''google,bing,brave'', set_searxng_timeout_seconds = 15,
     set_web_search_max_results = 10, set_news_max_results = 10\<rparr>"

text \<open>All of them.\<close>

record settings =
  se_core :: core_settings
  se_inference :: inference_settings
  se_memory :: memory_settings
  se_growth :: growth_settings
  se_routing :: routing_settings
  se_agency :: agency_settings
  se_heartbeat :: heartbeat_settings
  se_sense :: senses_settings
  se_tools :: tools_settings

definition shipped :: settings where
  "shipped =
     \<lparr>se_core = core_defaults, se_inference = inference_defaults, se_memory = memory_defaults,
      se_growth = growth_defaults, se_routing = routing_defaults, se_agency = agency_defaults,
      se_heartbeat = heartbeat_defaults, se_sense = senses_defaults, se_tools = tools_defaults\<rparr>"

section \<open>Derived values\<close>

definition PLAIN_SCHEME :: string where "PLAIN_SCHEME = ''postgresql://''"
definition ASYNC_SCHEME :: string where "ASYNC_SCHEME = ''postgresql+asyncpg://''"

definition sqlalchemy_url :: "core_settings \<Rightarrow> string" where
  "sqlalchemy_url c =
     (if set_database_url c \<noteq> [] then
        (if take (length PLAIN_SCHEME) (set_database_url c) = PLAIN_SCHEME
         then ASYNC_SCHEME @ drop (length PLAIN_SCHEME) (set_database_url c) else set_database_url c)
      else ASYNC_SCHEME @ set_postgres_user c @ '':'' @ set_postgres_password c @ ''@'' @ set_postgres_host c @ '':'' @
           show_int (set_postgres_port c) @ ''/'' @ set_postgres_db c)"

definition is_production :: "core_settings \<Rightarrow> bool" where
  "is_production c \<longleftrightarrow> lower (set_app_env c) \<in> {''production'', ''prod''}"

section \<open>What the components build from them\<close>

definition cycle_config_of :: "settings \<Rightarrow> cycle_config" where
  "cycle_config_of st =
     (let h = se_heartbeat st
      in \<lparr>cc_interval = set_cycle_base_interval_seconds h, cc_min_interval = set_cycle_min_interval_seconds h,
          cc_max_interval = set_cycle_max_interval_seconds h, cc_arousal_speedup = set_cycle_arousal_speedup h,
          cc_tired_slowdown = set_cycle_tired_slowdown h,
          cc_drive_weight = set_attention_weight_drive (se_sense st), cc_capacity = nat (set_workspace_capacity h)\<rparr>)"

definition recall_weights_of :: "memory_settings \<Rightarrow> recall_weights" where
  "recall_weights_of c =
     \<lparr>rw_similarity = set_memory_recall_weight_similarity c, rw_recency = set_memory_recall_weight_recency c,
      rw_salience = set_memory_recall_weight_salience c, rw_halflife = set_memory_recall_recency_halflife_seconds c\<rparr>"

definition working_memory_of :: "memory_settings \<Rightarrow> working_memory" where
  "working_memory_of c =
     \<lparr>wm_items = [], wm_scores = [], wm_capacity = nat (set_working_memory_capacity c),
      wm_decay_factor = set_working_memory_decay_factor c, wm_floor = set_working_memory_salience_floor c,
      wm_default_ttl = set_working_memory_default_ttl_seconds c\<rparr>"

definition attention_of :: "settings \<Rightarrow> attention" where
  "attention_of st =
     (let a = se_sense st; capacity = nat (set_workspace_capacity (se_heartbeat st))
      in \<lparr>at_capacity = capacity, at_w_salience = set_attention_weight_salience a,
          at_w_novelty = set_attention_weight_novelty a, at_repeat_penalty = set_attention_repeat_penalty a,
          at_w_arousal = set_attention_weight_arousal a, at_horizon = max (capacity * 4) 12, at_recent = [],
          at_bias = \<lparr>ab_arousal = 0, ab_kind_boosts = []\<rparr>\<rparr>)"

definition sensorium_of :: "senses_settings \<Rightarrow> sensorium" where
  "sensorium_of c = new_sensorium (set_sensorium_input_salience c) (set_sensorium_ambient_salience c)
     (set_sensorium_ambient_persist_every_ticks c)"

definition affect_of :: "senses_settings \<Rightarrow> mood list \<Rightarrow> affect" where
  "affect_of c rows =
     \<lparr>af_halflife = set_mood_halflife_seconds c, af_responsiveness = set_mood_responsiveness c,
      af_persist_min_change = set_mood_persist_min_change c, af_current = None, af_rows = rows\<rparr>"

definition arbiter_of :: "agency_settings \<Rightarrow> arbiter" where
  "arbiter_of c =
     \<lparr>ar_min_dwell = set_goal_min_dwell_seconds c, ar_margin = set_goal_hysteresis_margin c,
      ar_arousal_weight = set_goal_arousal_weight c\<rparr>"

definition decay_config_of :: "growth_settings \<Rightarrow> decay_config" where
  "decay_config_of c =
     \<lparr>dy_episode_limit = nat (set_decay_episode_limit c), dy_halflife = set_decay_salience_halflife_seconds c,
      dy_floor = set_decay_salience_floor c, dy_boost = set_decay_charged_boost c,
      dy_merge_threshold = set_semantic_merge_threshold c\<rparr>"

definition secrets_of :: "settings \<Rightarrow> secret_settings" where
  "secrets_of st =
     \<lparr>groq_api_key = Some (set_groq_api_key (se_inference st)), ws_token = Some (set_ws_token (se_core st)),
      postgres_password = Some (set_postgres_password (se_core st))\<rparr>"

definition llm_settings_of :: "settings \<Rightarrow> llm_settings" where
  "llm_settings_of st =
     (let c = se_inference st; r = se_routing st
      in \<lparr>groq_base_url = set_groq_base_url c, groq_key = set_groq_api_key c,
          local_llm_base_url = set_local_llm_base_url c, local_llm_timeout = set_local_llm_timeout c,
          local_reasoning_model = set_local_reasoning_model c,
          local_reasoning_timeout = set_local_reasoning_timeout c,
          circuit_failure_threshold = set_circuit_failure_threshold r,
          circuit_reset_seconds = set_circuit_reset_seconds r, llm_schema_retries = set_llm_schema_retries r\<rparr>)"

section \<open>The shipped settings meet what the components rely on\<close>

lemma shipped_recall:
  "0 \<le> rw_similarity (recall_weights_of (se_memory shipped)) \<and> 0 \<le> rw_recency (recall_weights_of (se_memory shipped)) \<and>
   0 \<le> rw_salience (recall_weights_of (se_memory shipped)) \<and> 0 < rw_halflife (recall_weights_of (se_memory shipped))"
  by (simp add: recall_weights_of_def shipped_def memory_defaults_def)

lemma shipped_decay:
  "0 \<le> dy_floor (decay_config_of (se_growth shipped)) \<and> 0 \<le> dy_boost (decay_config_of (se_growth shipped)) \<and>
   dy_boost (decay_config_of (se_growth shipped)) \<le> 1 \<and> in01 (dy_merge_threshold (decay_config_of (se_growth shipped)))"
  by (simp add: decay_config_of_def shipped_def growth_defaults_def in01_def)

text \<open>The heartbeat of the shipped settings.\<close>

lemma shipped_heartbeat:
  assumes "run io (cycle_config_of shipped) isof css (new_cycle (cycle_config_of shipped) w) = (s', slept)" "t \<in> set slept"
  shows "15/10 \<le> t \<and> t \<le> 12"
proof -
  let ?cc = "cycle_config_of shipped"
  have c: "cc_min_interval ?cc = 15/10" "cc_max_interval ?cc = 12" "cc_interval ?cc = 4"
    by (simp_all add: cycle_config_of_def shipped_def heartbeat_defaults_def Let_def)
  have "\<forall>t \<in> set slept. 15/10 \<le> t \<and> t \<le> max 12 1"
    by (rule run_loop_paced [of ?cc "15/10" 12 "(new_cycle ?cc w)\<lparr>cs_running := True\<rparr>" io isof css s'])
       (use assms(1) c in \<open>simp_all add: run_def new_cycle_def\<close>)
  with assms(2) show ?thesis by simp
qed

text \<open>The parts are put into the URL as they are: a password with the URL's own delimiters is read as another
  host.\<close>

lemma dsn_ambiguous:
  "\<exists>c c'. set_postgres_host c \<noteq> set_postgres_host c' \<and> set_postgres_password c \<noteq> set_postgres_password c' \<and>
     sqlalchemy_url c = sqlalchemy_url c'"
  by (intro exI [of _ "core_defaults\<lparr>set_postgres_password := ''p@q'', set_postgres_host := ''h''\<rparr>"]
        exI [of _ "core_defaults\<lparr>set_postgres_password := ''p'', set_postgres_host := ''q@h''\<rparr>"])
     (simp add: sqlalchemy_url_def core_defaults_def)

text \<open>A password that reaches the code only inside \<^verbatim>\<open>DATABASE_URL\<close> is not among the values scrubbed.\<close>

lemma url_password_unknown:
  "known_secret_values (secrets_of (shipped\<lparr>se_core := core_defaults\<lparr>set_database_url := u\<rparr>\<rparr>)) = []"
  by (simp add: known_secret_values_def secrets_of_def shipped_def core_defaults_def inference_defaults_def)

end
