(* ===== verification/Runtime.thy ===== *)
theory Runtime
  imports Config
begin

text \<open>
  The composition root (\<^verbatim>\<open>brain/runtime.py\<close>) and the process around it (\<^verbatim>\<open>johnny/main.py\<close>): the society
  that is registered, the order of the start, the boot as a wake, the tasks, the stop, and what a failure
  during the start leaves behind.
\<close>

section \<open>The society\<close>

text \<open>The registered agents, each with no subscription of its own.\<close>

definition SOCIETY :: "string list" where
  "SOCIETY = [''sensorium'', ''attention'', ''narrator'', ''affect'', ''deliberation'', ''conscience'']"

definition society_agent :: "string \<Rightarrow> agent" where
  "society_agent n = \<lparr>ag_name = n, ag_subscribes_to = [], ag_handle = 0\<rparr>"

fun register_agents :: "agent list \<Rightarrow> registry \<times> workspace \<Rightarrow> (registry \<times> workspace) res" where
  "register_agents [] s = Inr s"
| "register_agents (a # as) (r, w) = ok_bind (register a r w) (register_agents as)"

definition build_society :: "workspace \<Rightarrow> (registry \<times> workspace) res" where
  "build_society w = register_agents (map society_agent SOCIETY) (\<lparr>rg_agents = [], rg_attached = False\<rparr>, w)"

section \<open>The runtime\<close>

record 'w runtime =
  ru_registry :: registry
  ru_bus :: workspace
  ru_mind :: mind_stores
  ru_cycle :: "'w cycle_state"
  ru_tasks :: "string list"
  ru_router_open :: bool

definition BUS_TASK :: string where "BUS_TASK = ''workspace-bus''"
definition CYCLE_TASK :: string where "CYCLE_TASK = ''cognitive-cycle''"
definition CONTROL_TASK :: string where "CONTROL_TASK = ''cycle-control''"

text \<open>Where the runtime's parameters come from: the anchor, the clock, and whether the database fails at a
  step of the start.\<close>

record boot_env =
  bt_anchor :: identity_anchor
  bt_now :: real
  bt_db :: "string \<Rightarrow> exn option"
  bt_autostart :: bool

definition boot_drives :: "boot_env \<Rightarrow> mind_stores \<Rightarrow> mind_stores \<times> unit res" where
  "boot_drives bt m =
     (case bt_db bt ''drives'' of
        Some e \<Rightarrow> (m, Inl e)
      | None \<Rightarrow> (case bootstrap (bt_now bt) (mi_drives m) of
                  Inl e \<Rightarrow> (m, Inl e)
                | Inr (en, _) \<Rightarrow> (m\<lparr>mi_drives := en\<rparr>, Inr ())))"

definition boot_identity :: "boot_env \<Rightarrow> mind_stores \<Rightarrow> mind_stores \<times> unit res" where
  "boot_identity bt m =
     (case bt_db bt ''identity'' of
        Some e \<Rightarrow> (m, Inl e)
      | None \<Rightarrow> (m\<lparr>mi_identity := fst (ensure_seeded (bt_anchor bt) (bt_now bt) (mi_identity m))\<rparr>, Inr ()))"

definition boot_check :: "boot_env \<Rightarrow> mind_stores \<Rightarrow> mind_stores \<times> check_result res" where
  "boot_check bt m =
     (case bt_db bt ''check'' of
        Some e \<Rightarrow> (m, Inl e)
      | None \<Rightarrow> (let (m', r) = wake_verify (bt_anchor bt) (bt_now bt) m in (m', Inr r)))"

text \<open>The tasks are created once the check has been applied.\<close>

definition start :: "('w, 'v) cycle_io \<Rightarrow> boot_env \<Rightarrow> 'w runtime \<Rightarrow> 'w runtime \<times> unit res" where
  "start io bt ru =
     (let (reg, ws) = attach (ru_registry ru) (ru_bus ru);
          ru0 = ru\<lparr>ru_registry := reg, ru_bus := ws\<rparr>
      in case boot_drives bt (ru_mind ru0) of
           (m1, Inl e) \<Rightarrow> (ru0\<lparr>ru_mind := m1\<rparr>, Inl e)
         | (m1, Inr _) \<Rightarrow>
             (case boot_identity bt m1 of
                (m2, Inl e) \<Rightarrow> (ru0\<lparr>ru_mind := m2\<rparr>, Inl e)
              | (m2, Inr _) \<Rightarrow>
                  (case boot_check bt m2 of
                     (m3, Inl e) \<Rightarrow> (ru0\<lparr>ru_mind := m3\<rparr>, Inl e)
                   | (m3, Inr check) \<Rightarrow>
                       (case apply_wake_check io check (ru_cycle ru0) of
                          (cs, Inl e) \<Rightarrow> (ru0\<lparr>ru_mind := m3, ru_cycle := cs\<rparr>, Inl e)
                        | (cs, Inr _) \<Rightarrow>
                            (ru0\<lparr>ru_mind := m3, ru_cycle := cs,
                                 ru_tasks := [BUS_TASK] @ (if bt_autostart bt then [CYCLE_TASK] else []) @ [CONTROL_TASK]\<rparr>,
                             Inr ())))))"

definition stop :: "'w runtime \<Rightarrow> 'w runtime" where
  "stop ru = ru\<lparr>ru_cycle := apply_control control.Stop (ru_cycle ru), ru_tasks := [], ru_router_open := False\<rparr>"

text \<open>The process: the start is outside the block whose end stops the runtime.  \<open>served\<close> is what
  happens while the application serves.\<close>

definition lifespan :: "('w, 'v) cycle_io \<Rightarrow> boot_env \<Rightarrow> ('w runtime \<Rightarrow> 'w runtime) \<Rightarrow> 'w runtime \<Rightarrow>
    'w runtime \<times> unit res" where
  "lifespan io bt served ru =
     (case start io bt ru of
        (ru1, Inl e) \<Rightarrow> (ru1, Inl e)
      | (ru1, Inr _) \<Rightarrow> (stop (served ru1), Inr ()))"

section \<open>The drives across a restart\<close>

lemma bootstrap_drives_rows:
  assumes "bootstrap_drives cfg now rows ds tbl = Inr (t, rs)" "distinct ds"
  shows "(\<forall>d \<in> set ds. \<exists>p. config_params cfg d = Inr p \<and> t d = Some (with_params p (row_or_new p now (rows d)))) \<and>
         (\<forall>d. d \<notin> set ds \<longrightarrow> t d = tbl d)"
  using assms
proof (induction ds arbitrary: tbl t rs)
  case (Cons d ds)
  then obtain p rs' where p: "config_params cfg d = Inr p"
    and t: "bootstrap_drives cfg now rows ds (tbl(d \<mapsto> with_params p (row_or_new p now (rows d)))) = Inr (t, rs')"
    by (auto simp: ok_bind_Inr_iff Let_def)
  from Cons.IH [OF t] Cons.prems(2) p show ?case by auto
qed simp

lemma bootstrap_keeps:
  assumes "bootstrap now e = Inr (e', rs)" "d \<in> set DRIVE_NAMES"
  shows "\<exists>row'. en_table e' d = Some row' \<and>
    (\<forall>row. en_table e d = Some row \<longrightarrow> row_value row' = row_value row \<and> row_updated_at row' = row_updated_at row) \<and>
    (en_table e d = None \<longrightarrow> (\<exists>p. config_params (en_config e) d = Inr p \<and> row_value row' = dp_setpoint p))"
proof -
  obtain t where t: "bootstrap_drives (en_config e) now (en_table e) DRIVE_NAMES (en_table e) = Inr (t, rs)"
    and e': "e' = e\<lparr>en_table := t\<rparr>"
    using assms(1) by (auto simp: bootstrap_def ok_bind_Inr_iff)
  from bootstrap_drives_rows [OF t distinct_DRIVE_NAMES] assms(2) obtain p where
    p: "config_params (en_config e) d = Inr p" "t d = Some (with_params p (row_or_new p now (en_table e d)))" by blast
  with e' show ?thesis by (cases "en_table e d") (simp_all add: row_or_new_def new_row_def)
qed

section \<open>The boot\<close>

lemma apply_wake_check_parts:
  assumes "apply_wake_check io r cs = (cs', u)"
  shows "cs_full_agency cs' = cr_ok r \<and> cs_tick cs' = cs_tick cs \<and> cs_gate cs' = cs_gate cs \<and> cs_running cs' = cs_running cs"
proof -
  have "cs' = fst (apply_wake_check io r cs)" using assms by simp
  then show ?thesis
    by (simp add: apply_wake_check_def emit_degraded_alert_def world_do_def Let_def split_def)
qed

lemma startE:
  assumes "start io bt ru = (ru', Inr ())"
  obtains en rs m2 m3 check u where "bootstrap (bt_now bt) (mi_drives (ru_mind ru)) = Inr (en, rs)"
    and "m2 = (ru_mind ru)\<lparr>mi_drives := en, mi_identity := fst (ensure_seeded (bt_anchor bt) (bt_now bt) (mi_identity (ru_mind ru)))\<rparr>"
    and "wake_verify (bt_anchor bt) (bt_now bt) m2 = (m3, check)" "ru_mind ru' = m3"
    and "apply_wake_check io check (ru_cycle ru) = (ru_cycle ru', Inr u)"
    and "ru_tasks ru' = [BUS_TASK] @ (if bt_autostart bt then [CYCLE_TASK] else []) @ [CONTROL_TASK]"
proof -
  obtain m1 where d: "boot_drives bt (ru_mind ru) = (m1, Inr ())"
    using assms by (auto simp: start_def Let_def split: prod.splits sum.splits)
  then obtain en rs where b: "bootstrap (bt_now bt) (mi_drives (ru_mind ru)) = Inr (en, rs)"
    and m1: "m1 = (ru_mind ru)\<lparr>mi_drives := en\<rparr>"
    by (auto simp: boot_drives_def split: option.splits sum.splits)
  obtain m2 where i: "boot_identity bt m1 = (m2, Inr ())"
    using assms d by (auto simp: start_def Let_def split: prod.splits sum.splits)
  then have m2: "m2 = m1\<lparr>mi_identity := fst (ensure_seeded (bt_anchor bt) (bt_now bt) (mi_identity m1))\<rparr>"
    by (auto simp: boot_identity_def split: option.splits)
  obtain m3 check where c: "boot_check bt m2 = (m3, Inr check)"
    using assms d i by (auto simp: start_def Let_def split: prod.splits sum.splits)
  then have v: "wake_verify (bt_anchor bt) (bt_now bt) m2 = (m3, check)"
    by (auto simp: boot_check_def split: option.splits prod.splits)
  obtain cs u where w: "apply_wake_check io check (ru_cycle ru) = (cs, Inr u)" and ru': "ru_cycle ru' = cs" "ru_mind ru' = m3"
    "ru_tasks ru' = [BUS_TASK] @ (if bt_autostart bt then [CYCLE_TASK] else []) @ [CONTROL_TASK]"
    using assms d i c by (auto simp: start_def Let_def split: prod.splits sum.splits)
  show ?thesis
    by (rule that [OF b _ v ru'(2) _ ru'(3)]) (use m1 m2 w ru'(1) in simp_all)
qed
lemma ensure_seeded_latest:
  assumes "ensure_seeded a now tbl = (tbl', d)"
  shows "identity_latest tbl' = Some d \<and> (tbl \<noteq> [] \<longrightarrow> tbl' = tbl) \<and> ensure_seeded a now' tbl' = (tbl', d)"
proof (cases tbl)
  case Nil
  with assms show ?thesis by (auto simp: ensure_seeded_def identity_append_def identity_latest_def Let_def)
next
  case (Cons r rs)
  then have "identity_latest tbl \<noteq> None"
    by (cases "first_max (\<lambda>r. real (id_version r)) rs") (auto simp: identity_latest_def)
  with assms show ?thesis by (auto simp: ensure_seeded_def)
qed

lemma wake_verify_exact:
  assumes "ensure_seeded a now (mi_identity m) = (mi_identity m, d)" "wake_verify a now m = (m', r)"
  shows "m' = m \<and> cr_ok r = (strip (id_doc d) \<noteq> [] \<and> id_name d = an_name a \<and>
    (\<forall>x \<in> set (current_readings (mi_drives m)). in01 (rd_value x)))"
  using assms by (auto simp: wake_verify_def wake_findings_def check_self_model_present_def check_anchor_consistency_def
      check_drive_ranges_def Let_def filter_empty_conv in01_def)

text \<open>With a complete configuration, a database that answers and a bus that takes the alert, the start returns.\<close>

lemma bootstrap_drives_total:
  "\<forall>d \<in> set ds. map_of (dc_drives cfg) d \<noteq> None \<Longrightarrow>
   \<exists>t rs. bootstrap_drives cfg now rows ds tbl = Inr (t, rs)"
proof (induction ds arbitrary: tbl)
  case (Cons d ds)
  then obtain p where p: "config_params cfg d = Inr p"
    by (auto simp: config_params_def split: option.splits)
  from Cons.IH [of "tbl(d \<mapsto> with_params p (row_or_new p now (rows d)))"] Cons.prems
  show ?case by (fastforce simp: p Let_def)
qed simp

lemma start_total:
  assumes "config_ok (en_config (mi_drives (ru_mind ru)))" "\<And>step. bt_db bt step = None"
    and "\<And>ev s. snd (world_do (ci_broadcast io ev) s) = Inr ()"
  shows "\<exists>ru'. start io bt ru = (ru', Inr ())"
proof -
  let ?e = "mi_drives (ru_mind ru)"
  from assms(1) obtain t rs where
    "bootstrap_drives (en_config ?e) (bt_now bt) (en_table ?e) DRIVE_NAMES (en_table ?e) = Inr (t, rs)"
    unfolding config_ok_def by (meson bootstrap_drives_total)
  then obtain en where b: "bootstrap (bt_now bt) ?e = Inr (en, rs)"
    by (simp add: bootstrap_def)
  have w: "\<exists>cs'. apply_wake_check io r cs = (cs', Inr ())" for r cs
  proof -
    have "snd (apply_wake_check io r cs) = Inr ()"
      by (simp add: apply_wake_check_def emit_degraded_alert_def Let_def assms(3))
    then show ?thesis by (metis prod.collapse)
  qed
  obtain m3 check where v: "wake_verify (bt_anchor bt) (bt_now bt)
      ((ru_mind ru)\<lparr>mi_drives := en, mi_identity := fst (ensure_seeded (bt_anchor bt) (bt_now bt) (mi_identity (ru_mind ru)))\<rparr>)
      = (m3, check)" by fastforce
  obtain cs' where "apply_wake_check io check (ru_cycle ru) = (cs', Inr ())" using w by blast
  with b v show ?thesis
    by (simp add: start_def boot_drives_def boot_identity_def boot_check_def assms(2) Let_def split_def)
qed

lemma society_built: "\<exists>r w'. build_society w = Inr (r, w') \<and> map fst (rg_agents r) = SOCIETY"
  by (simp add: build_society_def SOCIETY_def register_def society_agent_def)

text \<open>A database that does not answer at the boot ends the process: nothing is served, no task runs, and what
  was opened is not closed.\<close>

lemma db_down_no_boot:
  assumes "bt_db bt ''drives'' = Some e" "ru_tasks ru = []"
  shows "\<exists>ru'. lifespan io bt served ru = (ru', Inl e) \<and> ru_tasks ru' = [] \<and> ru_router_open ru' = ru_router_open ru"
  using assms by (simp add: lifespan_def start_def boot_drives_def Let_def split_def)

section \<open>Properties\<close>

text \<open>C11: a boot is a wake.  When the start returns, there is an identity; he has full agency exactly if its
  self-model is not blank, its name is the anchor's and every drive is within the unit interval, so that a
  store damaged while he was down comes up without autonomous action.  No identity that was there has been
  touched, every drive has a row and every pressure that was stored is the pressure he wakes with, no
  tick has run, and the heartbeat's task exists exactly if it is to start by itself.\<close>

theorem boot_is_a_wake:
  assumes "start io bt ru = (ru', Inr ())"
  shows "\<exists>d. identity_latest (mi_identity (ru_mind ru')) = Some d \<and>
     cs_full_agency (ru_cycle ru') = (strip (id_doc d) \<noteq> [] \<and> id_name d = an_name (bt_anchor bt) \<and>
       (\<forall>r \<in> set (current_readings (mi_drives (ru_mind ru'))). in01 (rd_value r))) \<and>
     (mi_identity (ru_mind ru) = [] \<or> mi_identity (ru_mind ru') = mi_identity (ru_mind ru)) \<and>
     (\<forall>d \<in> set DRIVE_NAMES. \<exists>row'. en_table (mi_drives (ru_mind ru')) d = Some row' \<and>
        (\<forall>row. en_table (mi_drives (ru_mind ru)) d = Some row \<longrightarrow> row_value row' = row_value row)) \<and>
     cs_tick (ru_cycle ru') = cs_tick (ru_cycle ru) \<and>
     ru_tasks ru' = [BUS_TASK] @ (if bt_autostart bt then [CYCLE_TASK] else []) @ [CONTROL_TASK]"
proof -
  obtain en rs m2 m3 check u where b: "bootstrap (bt_now bt) (mi_drives (ru_mind ru)) = Inr (en, rs)"
    and m2: "m2 = (ru_mind ru)\<lparr>mi_drives := en, mi_identity := fst (ensure_seeded (bt_anchor bt) (bt_now bt) (mi_identity (ru_mind ru)))\<rparr>"
    and v: "wake_verify (bt_anchor bt) (bt_now bt) m2 = (m3, check)" and m: "ru_mind ru' = m3"
    and w: "apply_wake_check io check (ru_cycle ru) = (ru_cycle ru', Inr u)"
    and t: "ru_tasks ru' = [BUS_TASK] @ (if bt_autostart bt then [CYCLE_TASK] else []) @ [CONTROL_TASK]"
    by (rule startE [OF assms])
  obtain tbl d where s: "ensure_seeded (bt_anchor bt) (bt_now bt) (mi_identity (ru_mind ru)) = (tbl, d)" by fastforce
  with m2 have i: "mi_identity m2 = tbl" "mi_drives m2 = en" by simp_all
  note l = ensure_seeded_latest [OF s]
  with i have "ensure_seeded (bt_anchor bt) (bt_now bt) (mi_identity m2) = (mi_identity m2, d)" by simp
  note c = wake_verify_exact [OF this v]
  have k: "\<exists>row'. en_table en d = Some row' \<and>
      (\<forall>row. en_table (mi_drives (ru_mind ru)) d = Some row \<longrightarrow> row_value row' = row_value row)"
    if "d \<in> set DRIVE_NAMES" for d
    using bootstrap_keeps [OF b that] by blast
  show ?thesis
    using l c i m k t apply_wake_check_parts [OF w] by (intro exI [of _ d] conjI ballI) auto
qed

definition runtime_demo :: "(sleeper \<times> nat) runtime" where
  "runtime_demo =
     \<lparr>ru_registry = \<lparr>rg_agents = [], rg_attached = False\<rparr>, ru_bus = demo_workspace, ru_mind = sl_mind sleeper_demo,
      ru_cycle = new_cycle cycle_demo (sleeper_demo, 0), ru_tasks = [], ru_router_open = True\<rparr>"

definition boot_demo :: boot_env where
  "boot_demo = \<lparr>bt_anchor = anchor_demo, bt_now = 0, bt_db = (\<lambda>_. None), bt_autostart = False\<rparr>"

theorem boot_is_a_wake_witness:
  "\<exists>ru' d. start quiet_io boot_demo runtime_demo = (ru', Inr ()) \<and> ru_tasks ru' = [BUS_TASK, CONTROL_TASK] \<and>
     identity_latest (mi_identity (ru_mind ru')) = Some d \<and>
     cs_full_agency (ru_cycle ru') = (strip (id_doc d) \<noteq> [] \<and> id_name d = an_name anchor_demo \<and>
       (\<forall>r \<in> set (current_readings (mi_drives (ru_mind ru'))). in01 (rd_value r)))"
proof -
  have "config_ok (en_config (mi_drives (ru_mind runtime_demo)))"
    by (simp add: runtime_demo_def sleeper_demo_def demo_booted_def)
  moreover have "\<And>e. bt_db boot_demo e = None" by (simp add: boot_demo_def)
  moreover have "\<And>ev s. snd (world_do (ci_broadcast quiet_io ev) s) = Inr ()" by (simp add: quiet_bus)
  ultimately obtain ru' where r: "start quiet_io boot_demo runtime_demo = (ru', Inr ())"
    using start_total by blast
  from boot_is_a_wake [OF r] obtain d where
    "identity_latest (mi_identity (ru_mind ru')) = Some d"
    "cs_full_agency (ru_cycle ru') = (strip (id_doc d) \<noteq> [] \<and> id_name d = an_name anchor_demo \<and>
       (\<forall>r \<in> set (current_readings (mi_drives (ru_mind ru'))). in01 (rd_value r)))"
    "ru_tasks ru' = [BUS_TASK, CONTROL_TASK]"
    by (auto simp: boot_demo_def)
  with r show ?thesis by blast
qed

end
