(* ===== verification/NarratorAgent.thy ===== *)
theory NarratorAgent
  imports LlmRouter Affect
begin

text \<open>
  The inner narrator (\<^verbatim>\<open>brain/agents/narrator.py\<close>), which turns the salient contents into one thought
  through the model of the router, and the prompt store (\<^verbatim>\<open>brain/config_store.py\<close>).  The JSON parser is a
  parameter, and so is the text of a validation error.
\<close>

section \<open>The prompt store\<close>

text \<open>\<open>files\<close> maps the path of a file to its text.\<close>

record config_store =
  cf_base :: string
  cf_runtime :: string

definition new_config_store :: "string \<Rightarrow> string option \<Rightarrow> config_store" where
  "new_config_store base runtime =
     \<lparr>cf_base = base, cf_runtime = (case runtime of Some r \<Rightarrow> r | None \<Rightarrow> base @ ''/runtime'')\<rparr>"

definition prompt_in :: "string \<Rightarrow> string \<Rightarrow> string" where
  "prompt_in dir name = dir @ ''/prompts/'' @ name @ ''.md''"

definition prompt_path :: "(string \<Rightarrow> string option) \<Rightarrow> config_store \<Rightarrow> string \<Rightarrow> string" where
  "prompt_path files cf name =
     (let override = prompt_in (cf_runtime cf) name
      in if files override \<noteq> None then override else prompt_in (cf_base cf) name)"

definition load_prompt :: "(string \<Rightarrow> string option) \<Rightarrow> config_store \<Rightarrow> string \<Rightarrow> string res" where
  "load_prompt files cf name =
     (case files (prompt_path files cf name) of
        None \<Rightarrow> Inl PromptNotFoundError
      | Some t \<Rightarrow> Inr (strip t))"

lemma load_prompt_override:
  "files (prompt_in (cf_runtime cf) name) = Some t \<Longrightarrow> load_prompt files cf name = Inr (strip t)"
  "files (prompt_in (cf_runtime cf) name) = None \<Longrightarrow> files (prompt_in (cf_base cf) name) = Some u \<Longrightarrow>
   load_prompt files cf name = Inr (strip u)"
  "load_prompt files cf name = Inl e \<Longrightarrow>
   files (prompt_in (cf_runtime cf) name) = None \<and> files (prompt_in (cf_base cf) name) = None"
  by (auto simp: load_prompt_def prompt_path_def Let_def split: option.splits if_splits)

section \<open>Thoughts\<close>

record thought_row =
  th_id :: nat
  th_ts :: real
  th_text :: string
  th_mood_id :: "nat option"

text \<open>\<^verbatim>\<open>NarratorResponse\<close>: a JSON object with a text \<^verbatim>\<open>thought\<close>.\<close>

definition narrator_response :: "(string \<Rightarrow> json option) \<Rightarrow> string \<Rightarrow> string option" where
  "narrator_response loads content =
     (case loads content of
        Some (JDict d) \<Rightarrow> (case map_of d ''thought'' of Some (JStr t) \<Rightarrow> Some t | _ \<Rightarrow> None)
      | _ \<Rightarrow> None)"

definition parse_thought :: "(string \<Rightarrow> json option) \<Rightarrow> string \<Rightarrow> string res" where
  "parse_thought loads content =
     (case narrator_response loads content of None \<Rightarrow> Inl ValidationError | Some t \<Rightarrow> Inr (strip t))"

definition narrator_schema :: "(string \<Rightarrow> json option) \<Rightarrow> (string \<Rightarrow> string) \<Rightarrow> schema" where
  "narrator_schema loads err =
     \<lparr>sc_name = ''NarratorResponse'',
      sc_error = (\<lambda>content. if narrator_response loads content = None then Some (err content) else None)\<rparr>"

section \<open>The agent\<close>

definition NARRATOR_ROLE :: string where "NARRATOR_ROLE = ''narrator''"
definition NARRATOR_TEMPERATURE :: real where "NARRATOR_TEMPERATURE = 8/10"

record narrator =
  na_prompt :: string
  na_max_tokens :: int
  na_mood :: "mood option"

definition new_narrator :: "(string \<Rightarrow> string option) \<Rightarrow> config_store \<Rightarrow> int \<Rightarrow> narrator res" where
  "new_narrator files cf max_tokens =
     ok_bind (load_prompt files cf ''narrator'')
       (\<lambda>p. Inr \<lparr>na_prompt = p, na_max_tokens = max_tokens, na_mood = None\<rparr>)"

definition set_narrator_mood :: "mood option \<Rightarrow> narrator \<Rightarrow> narrator" where
  "set_narrator_mood m na = na\<lparr>na_mood := m\<rparr>"

definition narrator_render :: "narrator \<Rightarrow> ws_item list \<Rightarrow> string" where
  "narrator_render na items =
     (let lines = (if items = [] then [''(your mind is briefly empty)'']
                   else map (\<lambda>i. ''- ['' @ wi_kind i @ ''] '' @ wi_content i) items);
          mood_line = (case na_mood na of Some m \<Rightarrow> ''You feel '' @ descriptor m @ ''.'' @ NEWLINE @ NEWLINE | None \<Rightarrow> [])
      in mood_line @ ''Here is what is in your awareness right now, most salient first:'' @ NEWLINE @
         join NEWLINE lines @ NEWLINE @ NEWLINE @
         ''Respond with ONLY JSON: {'' @ [CHR 0x22] @ ''thought'' @ [CHR 0x22] @ '': '' @ [CHR 0x22] @
         ''<one first-person thought>'' @ [CHR 0x22] @ ''}.'')"

definition thought_insert :: "bool \<Rightarrow> real \<Rightarrow> string \<Rightarrow> nat option \<Rightarrow> thought_row list \<Rightarrow> thought_row list \<times> unit res" where
  "thought_insert db now t mood_id tbl =
     (if \<not> db then (tbl, Inl (OtherError ''database''))
      else if CHR 0x00 \<in> set t then (tbl, Inl (OtherError ''DataError''))
      else (tbl @ [\<lparr>th_id = Suc (length tbl), th_ts = now, th_text = t, th_mood_id = mood_id\<rparr>], Inr ()))"

definition narrator_messages :: "narrator \<Rightarrow> ws_item list \<Rightarrow> message list" where
  "narrator_messages na items =
     [\<lparr>ms_role = ''system'', ms_content = Text (na_prompt na)\<rparr>,
      \<lparr>ms_role = ''user'', ms_content = Text (narrator_render na items)\<rparr>]"

definition born_in :: "narrator \<Rightarrow> nat option" where
  "born_in na = (case na_mood na of Some m \<Rightarrow> mo_id m | None \<Rightarrow> None)"

text \<open>The router's model is called with its own state; \<open>db\<close> and \<open>now\<close> are for the insertion.\<close>

definition narrate :: "'w outside \<Rightarrow> 'w gate option \<Rightarrow> router \<Rightarrow> (string \<Rightarrow> json option) \<Rightarrow> (string \<Rightarrow> string) \<Rightarrow>
    bool \<Rightarrow> real \<Rightarrow> narrator \<Rightarrow> ws_item list \<Rightarrow> 'w rstate \<times> thought_row list \<Rightarrow>
    ('w rstate \<times> thought_row list) \<times> string option res" where
  "narrate ou gate rt loads err db now na items s =
     (case complete_role ou gate rt NARRATOR_ROLE (narrator_messages na items) (Some (narrator_schema loads err))
             NARRATOR_TEMPERATURE (Some (na_max_tokens na)) (fst s) of
        (rs, Unavailable _) \<Rightarrow> ((rs, snd s), Inr None)
      | (rs, Raised e) \<Rightarrow> ((rs, snd s), Inl e)
      | (rs, Completed c) \<Rightarrow>
          (case parse_thought loads (co_content c) of
             Inl e \<Rightarrow> ((rs, snd s), Inl e)
           | Inr t \<Rightarrow>
               if t = [] then ((rs, snd s), Inr None)
               else (case thought_insert db now t (born_in na) (snd s) of
                       (tbl, Inl e) \<Rightarrow> ((rs, tbl), Inl e)
                     | (tbl, Inr _) \<Rightarrow> ((rs, tbl), Inr (Some t)))))"

section \<open>What was asked for is what is read\<close>

lemma completed_parses:
  assumes "complete_role ou gate rt role msgs (Some (narrator_schema loads err)) temp mt s = (s', Completed c)"
  shows "\<exists>u. narrator_response loads (co_content c) = Some u \<and> (\<exists>chain st q w. chain_for (rt_roles rt) role = Inr chain \<and>
           st \<in> set chain \<and> snd (ou_complete ou (st_provider st) (st_model st) q w) = Inr c)"
proof -
  obtain chain where ch: "chain_for (rt_roles rt) role = Inr chain"
    and r: "run_chain ou gate (rt_schema_retries rt) role msgs (Some (narrator_schema loads err)) temp mt chain None s
            = (s', Completed c)"
    using assms by (auto simp: complete_role_def split: sum.splits)
  from run_chain_valid [OF r] obtain st q w where
    "st \<in> set chain" "snd (ou_complete ou (st_provider st) (st_model st) q w) = Inr c"
    and v: "valid_for (Some (narrator_schema loads err)) c" by blast
  moreover from v have "narrator_response loads (co_content c) \<noteq> None"
    by (simp add: valid_for_def narrator_schema_def split: if_splits)
  ultimately show ?thesis using ch by blast
qed

definition thought_of :: "thought_row list \<Rightarrow> real \<Rightarrow> string \<Rightarrow> nat option \<Rightarrow> thought_row" where
  "thought_of tbl now t mood_id = \<lparr>th_id = Suc (length tbl), th_ts = now, th_text = t, th_mood_id = mood_id\<rparr>"

lemma thought_insert_cases:
  obtains "thought_insert db now t i tbl = (tbl @ [thought_of tbl now t i], Inr ())"
    | e where "thought_insert db now t i tbl = (tbl, Inl e)" "e \<in> {OtherError ''database'', OtherError ''DataError''}"
proof (cases "db \<and> CHR 0x00 \<notin> set t")
  case True
  then show thesis by (intro that(1)) (simp add: thought_insert_def thought_of_def)
next
  case False
  then show thesis by (cases db) (simp_all add: thought_insert_def that(2))
qed

lemma narrate_completed:
  assumes "complete_role ou gate rt NARRATOR_ROLE (narrator_messages na items) (Some (narrator_schema loads err))
      NARRATOR_TEMPERATURE (Some (na_max_tokens na)) rs = (rs1, Completed k)"
    and "narrator_response loads (co_content k) = Some u"
    and "narrate ou gate rt loads err db now na items (rs, tbl) = ((rs', tbl'), r)"
  shows "(r = Inr None \<and> tbl' = tbl) \<or>
    (r = Inr (Some (strip u)) \<and> strip u \<noteq> [] \<and> tbl' = tbl @ [thought_of tbl now (strip u) (born_in na)]) \<or>
    (tbl' = tbl \<and> (\<exists>e \<in> {OtherError ''database'', OtherError ''DataError''}. r = Inl e))"
proof (cases "strip u = []")
  case True
  with assms show ?thesis by (simp add: narrate_def parse_thought_def)
next
  case False
  show ?thesis
  proof (cases rule: thought_insert_cases [of db now "strip u" "born_in na" tbl])
    case 1
    with False assms show ?thesis by (simp add: narrate_def parse_thought_def)
  next
    case (2 e)
    with False assms show ?thesis by (auto simp: narrate_def parse_thought_def)
  qed
qed

section \<open>Properties\<close>

text \<open>C40: a thought is what a model said.  When a tick has a thought, a provider of the narrator's chain
  replied with it, it is not blank, and it is the one new row of the log of thoughts, stamped with the
  mood it was born in.  When it has none, the log is as it was.  And when narrating fails, it is the
  router that raised, or the database that refused the row: a reply that does not parse never gets as far as the
  narrator.\<close>

theorem thought_is_said:
  assumes "narrate ou gate rt loads err db now na items (rs, tbl) = ((rs', tbl'), r)"
  shows "case r of
     Inr (Some t) \<Rightarrow> t \<noteq> [] \<and>
       (\<exists>chain st q w c u. chain_for (rt_roles rt) NARRATOR_ROLE = Inr chain \<and> st \<in> set chain \<and>
          snd (ou_complete ou (st_provider st) (st_model st) q w) = Inr c \<and>
          narrator_response loads (co_content c) = Some u \<and> t = strip u) \<and>
       tbl' = tbl @ [thought_of tbl now t (born_in na)]
   | Inr None \<Rightarrow> tbl' = tbl
   | Inl e \<Rightarrow> tbl' = tbl \<and>
       ((\<exists>msgs mt rs2. complete_role ou gate rt NARRATOR_ROLE msgs (Some (narrator_schema loads err)) NARRATOR_TEMPERATURE mt rs
          = (rs2, Raised e)) \<or> e \<in> {OtherError ''database'', OtherError ''DataError''})"
proof -
  obtain rs1 out where c: "complete_role ou gate rt NARRATOR_ROLE (narrator_messages na items) (Some (narrator_schema loads err))
      NARRATOR_TEMPERATURE (Some (na_max_tokens na)) rs = (rs1, out)" by fastforce
  show ?thesis
  proof (cases out)
    case (Completed k)
    note c = c [unfolded Completed]
    from completed_parses [OF c] obtain u where u: "narrator_response loads (co_content k) = Some u"
      and said: "\<exists>chain st q w. chain_for (rt_roles rt) NARRATOR_ROLE = Inr chain \<and>
           st \<in> set chain \<and> snd (ou_complete ou (st_provider st) (st_model st) q w) = Inr k" by blast
    then have "\<exists>chain st q w c u'. chain_for (rt_roles rt) NARRATOR_ROLE = Inr chain \<and> st \<in> set chain \<and>
        snd (ou_complete ou (st_provider st) (st_model st) q w) = Inr c \<and>
        narrator_response loads (co_content c) = Some u' \<and> strip u = strip u'" by blast
    with narrate_completed [OF c u assms] show ?thesis by (elim disjE) auto
  next
    case (Unavailable z)
    with assms c show ?thesis by (auto simp: narrate_def)
  next
    case (Raised e)
    with assms c have "r = Inl e" "tbl' = tbl" by (auto simp: narrate_def)
    with c Raised show ?thesis by auto
  qed
qed

text \<open>A demonstration: the cloud is down, the local model answers.\<close>

definition narrator_demo :: narrator where
  "narrator_demo = \<lparr>na_prompt = ''You are Johnny.'', na_max_tokens = 1024, na_mood = Some (mood_baseline\<lparr>mo_id := Some 7\<rparr>)\<rparr>"

definition narrator_loads :: "string \<Rightarrow> json option" where
  "narrator_loads t = (if t = ''hi'' then Some (JDict [(''thought'', JStr '' I am here. '')]) else None)"

theorem thought_is_said_witness:
  "\<exists>rs' tbl'. narrate (scripted down) None demo_router narrator_loads (\<lambda>_. ''bad'') True 5 narrator_demo [] (demo_state, []) =
     ((rs', tbl'), Inr (Some ''I am here.'')) \<and>
   tbl' = [\<lparr>th_id = 1, th_ts = 5, th_text = ''I am here.'', th_mood_id = Some 7\<rparr>]"
proof -
  let ?sch = "Some (narrator_schema narrator_loads (\<lambda>_. ''bad''))"
  obtain rs1 out where c: "complete_role (scripted down) None demo_router NARRATOR_ROLE
      (narrator_messages narrator_demo []) ?sch NARRATOR_TEMPERATURE
      (Some (na_max_tokens narrator_demo)) demo_state = (rs1, out)" by fastforce
  then have o: "out = Completed (said ''hi'')"
    by (auto simp: demo_simps NARRATOR_ROLE_def narrator_schema_def narrator_loads_def narrator_response_def)
  have p: "parse_thought narrator_loads ''hi'' = Inr ''I am here.''"
    by (simp add: parse_thought_def narrator_response_def narrator_loads_def strip_def is_space_def)
  have n: "narrate (scripted down) None demo_router narrator_loads (\<lambda>_. ''bad'') True 5 narrator_demo [] (demo_state, []) =
      ((rs1, [\<lparr>th_id = 1, th_ts = 5, th_text = ''I am here.'', th_mood_id = Some 7\<rparr>]), Inr (Some ''I am here.''))"
    using c o p by (simp add: narrate_def said_def thought_insert_def born_in_def narrator_demo_def)
  from thought_is_said [OF n] n show ?thesis by (simp add: narrator_demo_def)
qed

end
